(* ===== verification/Prelude.thy ===== *)
theory Prelude
  imports Main "HOL-Library.Word"
begin

text \<open>
  Shared vocabulary of the development: names for Rust's machine integers, the
  standard-library operations on them that the sources call
  (\<^verbatim>\<open>to_le_bytes\<close>, \<^verbatim>\<open>from_le_bytes\<close>, \<^verbatim>\<open>checked_*\<close>, \<^verbatim>\<open>overflowing_*\<close>,
  \<^verbatim>\<open>saturating_*\<close>), fixed-size byte arrays, and the generic lemmas on words, byte
  lists and sums that the component theories use. Rust's \<^verbatim>\<open>usize\<close> is \<^typ>\<open>nat\<close>:
  every \<^verbatim>\<open>usize\<close> of the modelled code is a length or an index of data in memory.
\<close>

unbundle bit_operations_syntax

section \<open>Machine integers\<close>

type_synonym u8 = "8 word"
type_synonym u16 = "16 word"
type_synonym u32 = "32 word"
type_synonym u64 = "64 word"
type_synonym u128 = "128 word"
type_synonym bytes = "8 word list"

named_theorems rust_int \<open>definitions of the standard-library integer operations\<close>

definition checked_add :: "'a::len word \<Rightarrow> 'a word \<Rightarrow> 'a word option" where
  [rust_int]: "checked_add a b = (if unat a + unat b < 2 ^ LENGTH('a) then Some (a + b) else None)"

definition checked_sub :: "'a::len word \<Rightarrow> 'a word \<Rightarrow> 'a word option" where
  [rust_int]: "checked_sub a b = (if b \<le> a then Some (a - b) else None)"

definition saturating_add :: "'a::len word \<Rightarrow> 'a word \<Rightarrow> 'a word" where
  [rust_int]: "saturating_add a b = (case checked_add a b of Some c \<Rightarrow> c | None \<Rightarrow> - 1)"

definition saturating_sub :: "'a::len word \<Rightarrow> 'a word \<Rightarrow> 'a word" where
  [rust_int]: "saturating_sub a b = (if b \<le> a then a - b else 0)"

definition overflowing_add :: "'a::len word \<Rightarrow> 'a word \<Rightarrow> 'a word \<times> bool" where
  [rust_int]: "overflowing_add a b = (a + b, 2 ^ LENGTH('a) \<le> unat a + unat b)"

definition overflowing_sub :: "'a::len word \<Rightarrow> 'a word \<Rightarrow> 'a word \<times> bool" where
  [rust_int]: "overflowing_sub a b = (a - b, a < b)"

definition overflowing_mul :: "'a::len word \<Rightarrow> 'a word \<Rightarrow> 'a word \<times> bool" where
  [rust_int]: "overflowing_mul a b = (a * b, 2 ^ LENGTH('a) \<le> unat a * unat b)"

lemma saturating_add_exact: "unat a + unat b < 2 ^ LENGTH('a) \<Longrightarrow> saturating_add a b = a + b" for a b :: "'a::len word"
  by (simp add: rust_int)

lemma checked_add_Some:
  "checked_add a b = Some c \<Longrightarrow> unat c = unat a + unat b"
  by (auto simp: rust_int unat_word_ariths split: if_splits)

lemma unat_sub_le: "b \<le> a \<Longrightarrow> unat (a - b) = unat a - unat b" for a b :: "'a::len word"
  by (simp add: unat_sub)

lemma checked_sub_Some:
  "checked_sub a b = Some c \<longleftrightarrow> b \<le> a \<and> c = a - b"
  by (auto simp: rust_int split: if_splits)

lemma checked_sub_Some_unat:
  "checked_sub a b = Some c \<Longrightarrow> unat a = unat b + unat c"
  by (auto simp: checked_sub_Some unat_sub_le word_le_nat_alt)

lemma unat_saturating_sub: "unat (saturating_sub a b) = unat a - unat b"
  by (simp add: rust_int unat_sub_le word_le_nat_alt)

lemma unat_saturating_add:
  "unat (saturating_add a b) = min (unat a + unat b) (2 ^ LENGTH('a) - 1)"
  for a b :: "'a::len word"
  by (auto simp: rust_int unat_word_ariths unsigned_minus_1_eq_mask mask_eq_exp_minus_1 min_def not_less)

lemma unat_overflowing_add:
  fixes a b :: "'a::len word"
  assumes "overflowing_add a b = (c, ov)"
  shows "unat c + of_bool ov * 2 ^ LENGTH('a) = unat a + unat b"
proof (cases "unat a + unat b < 2 ^ LENGTH('a)")
  case True
  then show ?thesis using assms by (auto simp: rust_int unat_word_ariths)
next
  case False
  have "unat a < 2 ^ LENGTH('a)" "unat b < 2 ^ LENGTH('a)"
    by (auto intro: unsigned_less)
  then have "unat a + unat b - 2 ^ LENGTH('a) < 2 ^ LENGTH('a)" by linarith
  with False have "(unat a + unat b) mod 2 ^ LENGTH('a) = unat a + unat b - 2 ^ LENGTH('a)"
    by (simp add: le_mod_geq)
  then show ?thesis using assms False by (auto simp: rust_int unat_word_ariths)
qed

lemma unat_overflowing_sub:
  fixes a b :: "'a::len word"
  assumes "overflowing_sub a b = (c, ov)"
  shows "unat c + unat b = unat a + of_bool ov * 2 ^ LENGTH('a)"
proof (cases "b \<le> a")
  case True
  then show ?thesis using assms
    by (auto simp: rust_int unat_sub_le word_le_nat_alt word_less_nat_alt)
next
  case False
  then have lt: "unat a < unat b" by (simp add: word_le_nat_alt)
  have b: "unat b < 2 ^ LENGTH('a)" by (rule unsigned_less)
  have "unat (a - b) = 2 ^ LENGTH('a) + unat a - unat b"
    using lt b by (simp add: unat_sub_if_size word_size)
  then have "unat (a - b) + unat b = unat a + 2 ^ LENGTH('a)" using b by linarith
  then show ?thesis using assms False by (auto simp: rust_int not_le)
qed

section \<open>Little-endian byte strings\<close>

primrec le_val :: "bytes \<Rightarrow> nat" where
  "le_val [] = 0"
| "le_val (b # bs) = unat b + 256 * le_val bs"

primrec le_digits :: "nat \<Rightarrow> nat \<Rightarrow> bytes" where
  "le_digits 0 v = []"
| "le_digits (Suc n) v = word_of_nat (v mod 256) # le_digits n (v div 256)"

text \<open>\<^verbatim>\<open>x.to_le_bytes()\<close> of an integer of \<open>n\<close> bytes, and \<^verbatim>\<open>T::from_le_bytes(bs)\<close>.\<close>

definition to_le_bytes :: "nat \<Rightarrow> 'a::len word \<Rightarrow> bytes" where
  "to_le_bytes n w = le_digits n (unat w)"

definition from_le_bytes :: "bytes \<Rightarrow> 'a::len word" where
  "from_le_bytes bs = word_of_nat (le_val bs)"

lemma length_le_digits [simp]: "length (le_digits n v) = n"
  by (induction n arbitrary: v) auto

lemma length_to_le_bytes [simp]: "length (to_le_bytes n w) = n"
  by (simp add: to_le_bytes_def)

lemma unat_u8_less: "unat (b :: u8) < 256"
  using unsigned_less [of b] by simp

lemma le_val_less: "le_val bs < 256 ^ length bs"
proof (induction bs)
  case Nil
  then show ?case by simp
next
  case (Cons b bs)
  have "unat b < 256" by (rule unat_u8_less)
  moreover have "256 * le_val bs + 256 \<le> 256 * 256 ^ length bs" using Cons.IH by simp
  ultimately show ?case by simp
qed

lemma unat_word_of_nat_u8: "unat (word_of_nat (v mod 256) :: u8) = v mod 256"
  by (simp add: unat_of_nat)

lemma le_val_le_digits [simp]: "le_val (le_digits n v) = v mod 256 ^ n"
proof (induction n arbitrary: v)
  case 0
  then show ?case by simp
next
  case (Suc n)
  have "v mod (256 * 256 ^ n) = 256 * (v div 256 mod 256 ^ n) + v mod 256"
    by (rule mod_mult2_eq)
  then show ?case by (simp add: Suc.IH unat_word_of_nat_u8)
qed

lemma le_digits_le_val [simp]: "le_digits (length bs) (le_val bs) = bs"
proof (induction bs)
  case Nil
  then show ?case by simp
next
  case (Cons b bs)
  have "(unat b + 256 * le_val bs) mod 256 = unat b"
    using unat_u8_less [of b] by simp
  moreover have "(unat b + 256 * le_val bs) div 256 = le_val bs"
    using unat_u8_less [of b] by simp
  ultimately show ?case by (simp add: Cons.IH)
qed

lemma two_power_8_mult: "(2::nat) ^ (8 * n) = 256 ^ n"
  by (simp add: power_mult)

lemma unat_from_le_bytes:
  assumes "8 * length bs \<le> LENGTH('a::len)"
  shows "unat (from_le_bytes bs :: 'a word) = le_val bs"
proof -
  have "le_val bs < 2 ^ (8 * length bs)"
    using le_val_less [of bs] by (simp add: two_power_8_mult)
  also have "\<dots> \<le> 2 ^ LENGTH('a)" using assms by simp
  finally show ?thesis
    by (simp add: from_le_bytes_def unat_of_nat)
qed

lemma from_to_le_bytes:
  fixes w :: "'a::len word"
  assumes "LENGTH('a) \<le> 8 * n"
  shows "from_le_bytes (to_le_bytes n w) = w"
proof -
  have "unat w < 2 ^ LENGTH('a)" by (rule unsigned_less)
  also have "\<dots> \<le> 2 ^ (8 * n)" using assms by simp
  finally show ?thesis
    by (simp add: from_le_bytes_def to_le_bytes_def two_power_8_mult)
qed

lemma to_from_le_bytes:
  assumes "length bs = n" and "8 * n \<le> LENGTH('a::len)"
  shows "to_le_bytes n (from_le_bytes bs :: 'a word) = bs"
  using assms unat_from_le_bytes [of bs, where 'a = 'a]
  by (auto simp: to_le_bytes_def)

lemma le_val_to_le_bytes:
  fixes w :: "'a::len word"
  assumes "LENGTH('a) \<le> 8 * n"
  shows "le_val (to_le_bytes n w) = unat w"
proof -
  have "unat w < 2 ^ LENGTH('a)" by (rule unsigned_less)
  also have "\<dots> \<le> 2 ^ (8 * n)" using assms by simp
  finally show ?thesis by (simp add: to_le_bytes_def two_power_8_mult)
qed

lemma le_val_append: "le_val (xs @ ys) = le_val xs + 256 ^ length xs * le_val ys"
  by (induction xs) (auto simp: algebra_simps)

lemma le_val_replicate_0 [simp]: "le_val (replicate n 0) = 0"
  by (induction n) auto

section \<open>Sums and searches\<close>

lemma unat_less_64: "unat (w :: u64) < 2 ^ 64"
  using unsigned_less [of w] by simp

lemma unat_add_64: "unat a + unat b < 2 ^ 64 \<Longrightarrow> unat (a + b) = unat a + unat b" for a b :: u64
  by (simp add: unat_word_ariths)

lemma unat_sum_list:
  fixes ws :: "'a::len word list"
  assumes "sum_list (map unat ws) < 2 ^ LENGTH('a)"
  shows "unat (sum_list ws) = sum_list (map unat ws)"
  using assms
proof (induction ws)
  case Nil
  then show ?case by simp
next
  case (Cons w ws)
  then have "unat (sum_list ws) = sum_list (map unat ws)" by simp
  with Cons.prems show ?case by (simp add: unat_word_ariths)
qed

lemma sum_list_filter_map_le:
  fixes w :: "'a \<Rightarrow> nat"
  assumes "\<And>x. P x \<Longrightarrow> Q x"
  shows "sum_list (map w (filter P xs)) \<le> sum_list (map w (filter Q xs))"
  using assms by (induction xs) auto

section \<open>Fixed-size byte arrays\<close>

text \<open>
  \<open>[0u8; n]\<close>, and the idiom \<^verbatim>\<open>let mut v = [0u8; n]; v[..s.len()].copy_from_slice(s)\<close>
  for a source no longer than the array.
\<close>

definition zeros :: "nat \<Rightarrow> bytes" where
  "zeros n = replicate n 0"

definition pad_to :: "nat \<Rightarrow> bytes \<Rightarrow> bytes" where
  "pad_to n s = s @ replicate (n - length s) 0"

lemma length_zeros [simp]: "length (zeros n) = n"
  by (simp add: zeros_def)

lemma length_pad_to [simp]: "length s \<le> n \<Longrightarrow> length (pad_to n s) = n"
  by (simp add: pad_to_def)

lemma le_val_pad_to [simp]: "le_val (pad_to n s) = le_val s"
  by (simp add: pad_to_def le_val_append)

lemma le_val_inj:
  assumes "length xs = length ys" and "le_val xs = le_val ys"
  shows "xs = ys"
  by (metis assms le_digits_le_val)

section \<open>Overwriting a range of an array\<close>

text \<open>\<^verbatim>\<open>dst[off..off + src.len()].copy_from_slice(src)\<close>.\<close>

definition overwrite :: "'a list \<Rightarrow> nat \<Rightarrow> 'a list \<Rightarrow> 'a list" where
  "overwrite dst off src = take off dst @ src @ drop (off + length src) dst"

lemma length_overwrite [simp]:
  "off + length src \<le> length dst \<Longrightarrow> length (overwrite dst off src) = length dst"
  by (simp add: overwrite_def)

lemma take_overwrite:
  "off + length src \<le> length dst \<Longrightarrow>
   take (off + length src) (overwrite dst off src) = take off dst @ src"
  by (simp add: overwrite_def)

end
