(* ===== verification/U256.thy ===== *)
theory U256
  imports Prelude
begin

text \<open>
  The 256-bit arithmetic of the Axiom virtual machine
  (\<^verbatim>\<open>crates/truthlinked-axiom/src/vm.rs\<close>, the associated functions of \<^verbatim>\<open>Vm\<close>): a
  register of 32 little-endian bytes is read as four 64-bit limbs, least significant
  first. Every operation is given over limbs, with the fast paths of the source, and then
  related to the number the limbs denote (\<open>uval\<close>).
\<close>

section \<open>Limbs\<close>

text \<open>Rust's \<^verbatim>\<open>[u64; 4]\<close>; \<open>limb_at l i\<close> is \<^verbatim>\<open>l[i]\<close> for \<open>i < 4\<close>.\<close>

datatype limbs = L4 u64 u64 u64 u64

fun limb_at :: "limbs \<Rightarrow> nat \<Rightarrow> u64" where
  "limb_at (L4 a b c d) i = (if i = 0 then a else if i = 1 then b else if i = 2 then c else d)"

fun set_limb :: "limbs \<Rightarrow> nat \<Rightarrow> u64 \<Rightarrow> limbs" where
  "set_limb (L4 a b c d) i v =
     (if i = 0 then L4 v b c d else if i = 1 then L4 a v c d
      else if i = 2 then L4 a b v d else L4 a b c v)"

definition limbs_of :: "(nat \<Rightarrow> u64) \<Rightarrow> limbs" where
  "limbs_of f = L4 (f 0) (f 1) (f 2) (f 3)"

fun uval :: "limbs \<Rightarrow> nat" where
  "uval (L4 a b c d) = unat a + 2 ^ 64 * (unat b + 2 ^ 64 * (unat c + 2 ^ 64 * unat d))"

lemma limb_at_limbs_of: "i < 4 \<Longrightarrow> limb_at (limbs_of f) i = f i"
  by (auto simp: limbs_of_def numeral_eq_Suc less_Suc_eq)

lemma unat_u64_less: "unat (w :: u64) < 18446744073709551616"
  using unsigned_less [of w] by simp

lemma uval_less: "uval l < 2 ^ 256"
proof (cases l)
  case (L4 a b c d)
  then show ?thesis
    using unat_u64_less [of a] unat_u64_less [of b] unat_u64_less [of c] unat_u64_less [of d]
    by simp
qed

lemma digit_unique:
  assumes "a + B * x = a' + B * y" and "a < B" and "a' < (B::nat)"
  shows "a = a' \<and> x = y"
proof -
  have "a = (a + B * x) mod B" "a' = (a' + B * y) mod B" using assms(2,3) by simp_all
  then have "a = a'" using assms(1) by simp
  then show ?thesis using assms by simp
qed

lemma digit_unique_iff:
  "a < B \<Longrightarrow> a' < (B::nat) \<Longrightarrow> a + B * x = a' + B * y \<longleftrightarrow> a = a' \<and> x = y"
  using digit_unique [of a B x a' y] by auto

lemma uval_inj: "uval x = uval y \<longleftrightarrow> x = y"
proof
  assume eq: "uval x = uval y"
  obtain a b c d a' b' c' d' where xy: "x = L4 a b c d" "y = L4 a' b' c' d'"
    by (cases x, cases y) blast
  have lt: "unat w < 2 ^ 64" for w :: u64 by (simp add: unat_u64_less)
  note eq1 = eq [unfolded xy uval.simps]
  note r1 = digit_unique [OF eq1 lt lt, THEN conjunct2]
  note r2 = digit_unique [OF r1 lt lt, THEN conjunct2]
  show "x = y"
    using digit_unique [OF eq1 lt lt] digit_unique [OF r1 lt lt] digit_unique [OF r2 lt lt] xy
    by (simp add: word_unat_eq_iff)
qed simp

lemma int_uval: "int (uval (L4 a b c d)) = horner_sum uint (2 ^ 64) [a, b, c, d]"
  by (simp add: horner_sum_simps)

lemma bit_uval: "bit (uval l) n \<longleftrightarrow> n < 256 \<and> bit (limb_at l (n div 64)) (n mod 64)"
proof (cases l)
  case (L4 a b c d)
  have "bit (uval l) n \<longleftrightarrow> bit (int (uval l)) n" by (simp add: bit_of_nat_iff_bit)
  also have "\<dots> \<longleftrightarrow> n div 64 < length [a, b, c, d] \<and> bit ([a, b, c, d] ! (n div 64)) (n mod 64)"
    unfolding L4 int_uval using bit_horner_sum_uint_exp_iff [of "[a, b, c, d]" n]
    by (simp del: horner_sum_simps list.size)
  also have "\<dots> \<longleftrightarrow> n < 256 \<and> bit (limb_at l (n div 64)) (n mod 64)"
  proof (cases "n div 64 < 4")
    case True
    then consider "n div 64 = 0" | "n div 64 = 1" | "n div 64 = 2" | "n div 64 = 3" by linarith
    then show ?thesis using True by cases (auto simp: L4)
  qed auto
  finally show ?thesis .
qed

lemma limbs_eqI: "(\<And>n. n < 256 \<Longrightarrow> bit (uval x) n = bit (uval y) n) \<Longrightarrow> x = y"
  unfolding uval_inj [symmetric] by (rule bit_eqI) (metis bit_uval)

section \<open>Conversion between registers and limbs\<close>

definition u256 :: "bytes \<Rightarrow> limbs" where
  "u256 b = L4 (from_le_bytes (take 8 b)) (from_le_bytes (take 8 (drop 8 b)))
               (from_le_bytes (take 8 (drop 16 b))) (from_le_bytes (take 8 (drop 24 b)))"

fun to32 :: "limbs \<Rightarrow> bytes" where
  "to32 (L4 a b c d) = to_le_bytes 8 a @ to_le_bytes 8 b @ to_le_bytes 8 c @ to_le_bytes 8 d"

definition is_zero :: "bytes \<Rightarrow> bool" where
  "is_zero b \<longleftrightarrow> b = zeros 32"

definition bval :: "bool \<Rightarrow> bytes" where
  "bval v = pad_to 32 [of_bool v]"

lemma length_to32 [simp]: "length (to32 l) = 32"
  by (cases l) simp

lemma length_bval [simp]: "length (bval v) = 32"
  by (simp add: bval_def)

lemma u256_to32 [simp]: "u256 (to32 l) = l"
  by (cases l) (simp add: u256_def from_to_le_bytes)

lemma to32_u256:
  assumes "length b = 32"
  shows "to32 (u256 b) = b"
proof -
  have "drop 24 b = take 8 (drop 24 b)" using assms by simp
  moreover have "b = take 8 b @ drop 8 b" by simp
  moreover have "drop 8 b = take 8 (drop 8 b) @ drop 16 b"
    using append_take_drop_id [of 8 "drop 8 b"] by simp
  moreover have "drop 16 b = take 8 (drop 16 b) @ drop 24 b"
    using append_take_drop_id [of 8 "drop 16 b"] by simp
  ultimately have "b = take 8 b @ take 8 (drop 8 b) @ take 8 (drop 16 b) @ take 8 (drop 24 b)"
    by metis
  then show ?thesis using assms by (simp add: u256_def to_from_le_bytes)
qed

lemma le_val_to32: "le_val (to32 l) = uval l"
  by (cases l) (simp add: le_val_append le_val_to_le_bytes)

lemma uval_u256: "length b = 32 \<Longrightarrow> uval (u256 b) = le_val b"
  using le_val_to32 [of "u256 b"] by (simp add: to32_u256)

section \<open>Addition and subtraction\<close>

definition fits64 :: "limbs \<Rightarrow> bool" where
  "fits64 a \<longleftrightarrow> limb_at a 1 = 0 \<and> limb_at a 2 = 0 \<and> limb_at a 3 = 0"

text \<open>
  The ripple-carry addition of the source. When both operands have only their lowest limb
  set it takes a fast path that reports overflow as soon as the sum leaves 64 bits.
\<close>

definition u256_add :: "limbs \<Rightarrow> limbs \<Rightarrow> limbs option" where
  "u256_add a b =
     (if fits64 a \<and> fits64 b then
        (let (r, ov) = overflowing_add (limb_at a 0) (limb_at b 0)
         in if ov then None else Some (L4 r 0 0 0))
      else
        (let (r0, c0) = overflowing_add (limb_at a 0) (limb_at b 0);
             (r1, c1) = overflowing_add (limb_at a 1) (limb_at b 1);
             (r1, c1b) = overflowing_add r1 (of_bool c0);
             (r2, c2) = overflowing_add (limb_at a 2) (limb_at b 2);
             (r2, c2b) = overflowing_add r2 (of_bool (c1 \<or> c1b));
             (r3, c3) = overflowing_add (limb_at a 3) (limb_at b 3);
             (r3, c3b) = overflowing_add r3 (of_bool (c2 \<or> c2b))
         in if c3 \<or> c3b then None else Some (L4 r0 r1 r2 r3)))"

definition u256_add_sat :: "limbs \<Rightarrow> limbs \<Rightarrow> limbs" where
  "u256_add_sat a b = (case u256_add a b of Some r \<Rightarrow> r | None \<Rightarrow> L4 (- 1) (- 1) (- 1) (- 1))"

definition u256_sub :: "limbs \<Rightarrow> limbs \<Rightarrow> limbs option" where
  "u256_sub a b =
     (if fits64 a \<and> fits64 b then
        (let (r, ov) = overflowing_sub (limb_at a 0) (limb_at b 0)
         in if ov then None else Some (L4 r 0 0 0))
      else
        (let (r0, c0) = overflowing_sub (limb_at a 0) (limb_at b 0);
             (r1, c1) = overflowing_sub (limb_at a 1) (limb_at b 1);
             (r1, c1b) = overflowing_sub r1 (of_bool c0);
             (r2, c2) = overflowing_sub (limb_at a 2) (limb_at b 2);
             (r2, c2b) = overflowing_sub r2 (of_bool (c1 \<or> c1b));
             (r3, c3) = overflowing_sub (limb_at a 3) (limb_at b 3);
             (r3, c3b) = overflowing_sub r3 (of_bool (c2 \<or> c2b))
         in if c3 \<or> c3b then None else Some (L4 r0 r1 r2 r3)))"

definition u256_sub_sat :: "limbs \<Rightarrow> limbs \<Rightarrow> limbs" where
  "u256_sub_sat a b = (case u256_sub a b of Some r \<Rightarrow> r | None \<Rightarrow> L4 0 0 0 0)"

text \<open>One stage of the ripple: two limbs and a carry (or borrow) in.\<close>

lemma add_stage:
  fixes x y :: u64
  assumes "overflowing_add x y = (r, c)" and "overflowing_add r (of_bool ci) = (r', c')"
  shows "unat r' + of_bool (c \<or> c') * 2 ^ 64 = unat x + unat y + of_bool ci"
proof -
  have 1: "unat r + of_bool c * 2 ^ 64 = unat x + unat y"
    using unat_overflowing_add [OF assms(1)] by simp
  have 2: "unat r' + of_bool c' * 2 ^ 64 = unat r + of_bool ci"
    using unat_overflowing_add [OF assms(2)] by simp
  have "unat x < 2 ^ 64" "unat y < 2 ^ 64" "unat r < 2 ^ 64" "unat r' < 2 ^ 64"
    by (simp_all add: unat_u64_less)
  then show ?thesis using 1 2 by (cases c; cases c'; cases ci) simp_all
qed

lemma sub_stage:
  fixes x y :: u64
  assumes "overflowing_sub x y = (r, c)" and "overflowing_sub r (of_bool ci) = (r', c')"
  shows "unat r' + unat y + of_bool ci = unat x + of_bool (c \<or> c') * 2 ^ 64"
proof -
  have 1: "unat r + unat y = unat x + of_bool c * 2 ^ 64"
    using unat_overflowing_sub [OF assms(1)] by simp
  have 2: "unat r' + of_bool ci = unat r + of_bool c' * 2 ^ 64"
    using unat_overflowing_sub [OF assms(2)] by (cases ci) simp_all
  have "unat x < 2 ^ 64" "unat y < 2 ^ 64" "unat r < 2 ^ 64" "unat r' < 2 ^ 64"
    by (simp_all add: unat_u64_less)
  then show ?thesis using 1 2 by (cases c; cases c'; cases ci) simp_all
qed

lemma fits64_iff: "fits64 a \<longleftrightarrow> a = L4 (limb_at a 0) 0 0 0"
  by (cases a) (auto simp: fits64_def)

lemma fits64_uval: "fits64 a \<Longrightarrow> uval a = unat (limb_at a 0)"
  by (cases a) (auto simp: fits64_def)

lemma u256_add_slow:
  assumes "\<not> (fits64 a \<and> fits64 b)"
  shows "u256_add a b = None \<and> 2 ^ 256 \<le> uval a + uval b \<or>
    (\<exists>r. u256_add a b = Some r \<and> uval r = uval a + uval b)"
proof -
  obtain a0 a1 a2 a3 b0 b1 b2 b3 where ab: "a = L4 a0 a1 a2 a3" "b = L4 b0 b1 b2 b3"
    by (cases a, cases b) blast
  obtain r0 c0 s1 d1 r1 e1 s2 d2 r2 e2 s3 d3 r3 e3 where
    st: "overflowing_add a0 b0 = (r0, c0)"
    "overflowing_add a1 b1 = (s1, d1)" "overflowing_add s1 (of_bool c0) = (r1, e1)"
    "overflowing_add a2 b2 = (s2, d2)" "overflowing_add s2 (of_bool (d1 \<or> e1)) = (r2, e2)"
    "overflowing_add a3 b3 = (s3, d3)" "overflowing_add s3 (of_bool (d2 \<or> e2)) = (r3, e3)"
    by (metis surj_pair)
  have 0: "unat r0 + of_bool c0 * 2 ^ 64 = unat a0 + unat b0"
    using unat_overflowing_add [OF st(1)] by simp
  note 1 = add_stage [OF st(2,3)] and 2 = add_stage [OF st(4,5)] and 3 = add_stage [OF st(6,7)]
  have "uval (L4 r0 r1 r2 r3) + of_bool (d3 \<or> e3) * 2 ^ 256 = uval a + uval b"
    using 0 1 2 3 by (simp add: ab)
  moreover have "u256_add a b = (if d3 \<or> e3 then None else Some (L4 r0 r1 r2 r3))"
    using assms st by (auto simp: u256_add_def ab Let_def)
  ultimately show ?thesis by (cases "d3 \<or> e3") auto
qed

lemma u256_sub_slow:
  assumes "\<not> (fits64 a \<and> fits64 b)"
  shows "u256_sub a b = None \<and> uval a < uval b \<or>
    (\<exists>r. u256_sub a b = Some r \<and> uval r + uval b = uval a)"
proof -
  obtain a0 a1 a2 a3 b0 b1 b2 b3 where ab: "a = L4 a0 a1 a2 a3" "b = L4 b0 b1 b2 b3"
    by (cases a, cases b) blast
  obtain r0 c0 s1 d1 r1 e1 s2 d2 r2 e2 s3 d3 r3 e3 where
    st: "overflowing_sub a0 b0 = (r0, c0)"
    "overflowing_sub a1 b1 = (s1, d1)" "overflowing_sub s1 (of_bool c0) = (r1, e1)"
    "overflowing_sub a2 b2 = (s2, d2)" "overflowing_sub s2 (of_bool (d1 \<or> e1)) = (r2, e2)"
    "overflowing_sub a3 b3 = (s3, d3)" "overflowing_sub s3 (of_bool (d2 \<or> e2)) = (r3, e3)"
    by (metis surj_pair)
  have 0: "unat r0 + unat b0 = unat a0 + of_bool c0 * 2 ^ 64"
    using unat_overflowing_sub [OF st(1)] by simp
  note 1 = sub_stage [OF st(2,3)] and 2 = sub_stage [OF st(4,5)] and 3 = sub_stage [OF st(6,7)]
  have val: "uval (L4 r0 r1 r2 r3) + uval b = uval a + of_bool (d3 \<or> e3) * 2 ^ 256"
    using 0 1 2 3 by (simp add: ab)
  have res: "u256_sub a b = (if d3 \<or> e3 then None else Some (L4 r0 r1 r2 r3))"
    using assms st by (auto simp: u256_sub_def ab Let_def)
  show ?thesis
  proof (cases "d3 \<or> e3")
    case True
    then have "uval (L4 r0 r1 r2 r3) + uval b = uval a + 2 ^ 256" using val by simp
    then have "uval a < uval b" using uval_less [of "L4 r0 r1 r2 r3"] by linarith
    then show ?thesis using res True by simp
  next
    case False
    then show ?thesis using res val by auto
  qed
qed

lemma u256_add_fast:
  assumes "fits64 a" "fits64 b"
  shows "u256_add a b = None \<and> 2 ^ 64 \<le> uval a + uval b \<or>
    (\<exists>r. u256_add a b = Some r \<and> uval r = uval a + uval b)"
proof -
  obtain r ov where st: "overflowing_add (limb_at a 0) (limb_at b 0) = (r, ov)" by force
  have "unat r + of_bool ov * 2 ^ 64 = uval a + uval b"
    using unat_overflowing_add [OF st] assms by (simp add: fits64_uval)
  then show ?thesis using assms st by (cases ov) (auto simp: u256_add_def)
qed

lemma u256_sub_fast:
  assumes "fits64 a" "fits64 b"
  shows "u256_sub a b = None \<and> uval a < uval b \<or>
    (\<exists>r. u256_sub a b = Some r \<and> uval r + uval b = uval a)"
proof -
  obtain r ov where st: "overflowing_sub (limb_at a 0) (limb_at b 0) = (r, ov)" by force
  have "unat r + uval b = uval a + of_bool ov * 2 ^ 64"
    using unat_overflowing_sub [OF st] assms by (simp add: fits64_uval)
  moreover have "unat r < 2 ^ 64" by (simp add: unat_u64_less)
  ultimately show ?thesis using assms st by (cases ov) (auto simp: u256_sub_def)
qed

text \<open>A sum that is returned is exact; a difference is returned exactly when it is not negative.\<close>

lemma u256_add_Some: "u256_add a b = Some r \<Longrightarrow> uval r = uval a + uval b"
  using u256_add_fast [of a b] u256_add_slow [of a b] by fastforce

lemma u256_add_fast_less:
  assumes "fits64 a" "fits64 b" "u256_add a b = Some r"
  shows "uval r < 2 ^ 64"
proof -
  obtain x where "r = L4 x 0 0 0"
    using assms by (auto simp: u256_add_def rust_int split: if_splits)
  then show ?thesis by (simp add: unat_u64_less)
qed

lemma u256_add_None:
  "u256_add a b = None \<longleftrightarrow>
   (if fits64 a \<and> fits64 b then 2 ^ 64 else 2 ^ 256) \<le> uval a + uval b"
proof (cases "u256_add a b")
  case None
  then show ?thesis using u256_add_fast [of a b] u256_add_slow [of a b] by simp
next
  case (Some r)
  then have "uval a + uval b = uval r" by (simp only: u256_add_Some)
  moreover have "uval r < (if fits64 a \<and> fits64 b then 2 ^ 64 else 2 ^ 256)"
    using u256_add_fast_less [OF _ _ Some] uval_less [of r] by auto
  ultimately show ?thesis using Some by (simp only: not_le option.distinct) simp
qed

lemma u256_sub_eq:
  "u256_sub a b = None \<and> uval a < uval b \<or>
   (\<exists>r. u256_sub a b = Some r \<and> uval r + uval b = uval a)"
  using u256_sub_fast [of a b] u256_sub_slow [of a b] by blast

lemma u256_sub_Some: "u256_sub a b = Some r \<Longrightarrow> uval r = uval a - uval b \<and> uval b \<le> uval a"
  using u256_sub_eq [of a b] by auto

lemma u256_sub_None: "u256_sub a b = None \<longleftrightarrow> uval a < uval b"
  using u256_sub_eq [of a b] by auto

lemma uval_sub_sat: "uval (u256_sub_sat a b) = uval a - uval b"
  using u256_sub_eq [of a b] by (auto simp: u256_sub_sat_def)

section \<open>Multiplication and comparison\<close>

text \<open>\<^verbatim>\<open>(l[0] as u128) | ((l[1] as u128) << 64)\<close>, and the two limbs of a \<^verbatim>\<open>u128\<close>.\<close>

definition lo128 :: "limbs \<Rightarrow> u128" where
  "lo128 a = ucast (limb_at a 0) OR push_bit 64 (ucast (limb_at a 1))"

definition of_u128 :: "u128 \<Rightarrow> limbs" where
  "of_u128 v = L4 (ucast v) (ucast (drop_bit 64 v)) 0 0"

definition u256_mul :: "limbs \<Rightarrow> limbs \<Rightarrow> limbs option" where
  "u256_mul a b =
     (if fits64 a \<and> fits64 b then
        (let (r, ov) = overflowing_mul (limb_at a 0) (limb_at b 0)
         in if ov then None else Some (L4 r 0 0 0))
      else
        (let a_hi = limb_at a 2 \<noteq> 0 \<or> limb_at a 3 \<noteq> 0;
             b_hi = limb_at b 2 \<noteq> 0 \<or> limb_at b 3 \<noteq> 0;
             a_nz = limb_at a 0 \<noteq> 0 \<or> limb_at a 1 \<noteq> 0 \<or> a_hi;
             b_nz = limb_at b 0 \<noteq> 0 \<or> limb_at b 1 \<noteq> 0 \<or> b_hi
         in if a_hi \<and> b_nz \<or> b_hi \<and> a_nz then None
            else (let (rv, ov) = overflowing_mul (lo128 a) (lo128 b)
                  in if ov then None else Some (of_u128 rv))))"

datatype ordering = Less | Equal | Greater

definition u64_cmp :: "u64 \<Rightarrow> u64 \<Rightarrow> ordering" where
  "u64_cmp x y = (if x < y then Less else if x = y then Equal else Greater)"

text \<open>The loop \<^verbatim>\<open>for i in (0..4).rev()\<close>: the first limb that differs decides.\<close>

fun cmp_from :: "nat \<Rightarrow> limbs \<Rightarrow> limbs \<Rightarrow> ordering" where
  "cmp_from 0 a b = Equal"
| "cmp_from (Suc i) a b =
     (case u64_cmp (limb_at a i) (limb_at b i) of Equal \<Rightarrow> cmp_from i a b | ord \<Rightarrow> ord)"

definition u256_cmp :: "limbs \<Rightarrow> limbs \<Rightarrow> ordering" where
  "u256_cmp a b = cmp_from 4 a b"

lemma unat_lo128: "unat (lo128 a) = unat (limb_at a 0) + 2 ^ 64 * unat (limb_at a 1)"
proof -
  have "lo128 a = word_of_nat (uval (L4 (limb_at a 0) (limb_at a 1) 0 0))" (is "_ = word_of_nat ?v")
  proof (rule bit_word_eqI)
    fix n assume n: "n < LENGTH(128)"
    show "bit (lo128 a) n = bit (word_of_nat ?v :: u128) n"
    proof (cases "n < 64")
      case True
      then show ?thesis using n
        by (simp add: lo128_def bit_simps bit_uval del: uval.simps)
    next
      case False
      then have "n div 64 = 1" "n mod 64 = n - 64" using n by (auto simp: mod_nat_eqI div_nat_eqI)
      then show ?thesis using n False
        by (auto simp: lo128_def bit_simps bit_uval simp del: uval.simps dest: bit_imp_le_length)
    qed
  qed
  moreover have "?v < 2 ^ 128"
    using unat_u64_less [of "limb_at a 0"] unat_u64_less [of "limb_at a 1"] by simp
  ultimately have "unat (lo128 a) = ?v" by (simp only: unat_of_nat) simp
  then show ?thesis by simp
qed

lemma uval_of_u128: "uval (of_u128 v) = unat v"
proof -
  have "unat (ucast v :: u64) = unat v mod 2 ^ 64"
    by (simp add: unsigned_ucast_eq unsigned_take_bit_eq take_bit_eq_mod)
  moreover have "unat (ucast (drop_bit 64 v) :: u64) = unat v div 2 ^ 64"
  proof -
    have "unat v < 2 ^ 128" using unsigned_less [of v] by simp
    then have "unat v div 2 ^ 64 < 2 ^ 64" by (simp add: div_less_iff_less_mult)
    moreover have "unat (drop_bit 64 v) = unat v div 2 ^ 64"
      unfolding unat_drop_bit_eq by (rule drop_bit_eq_div)
    ultimately show ?thesis
      by (simp add: unsigned_ucast_eq unsigned_take_bit_eq take_bit_nat_eq_self)
  qed
  ultimately show ?thesis by (simp add: of_u128_def)
qed

lemma uval_lo:
  "limb_at a 2 = 0 \<Longrightarrow> limb_at a 3 = 0 \<Longrightarrow> uval a = unat (lo128 a)"
  by (cases a) (simp add: unat_lo128)

lemma u256_mul_Some:
  assumes "u256_mul a b = Some r"
  shows "uval r = uval a * uval b"
proof (cases "fits64 a \<and> fits64 b")
  case True
  then show ?thesis using assms
    by (auto simp: u256_mul_def rust_int fits64_uval unat_word_ariths split: if_splits)
next
  case False
  let ?hi = "\<lambda>x. limb_at x 2 \<noteq> 0 \<or> limb_at x 3 \<noteq> 0"
  from False assms have
    nhi: "\<not> (?hi a \<and> b \<noteq> L4 0 0 0 0 \<or> ?hi b \<and> a \<noteq> L4 0 0 0 0)" and
    ov: "unat (lo128 a) * unat (lo128 b) < 2 ^ 128" and r: "r = of_u128 (lo128 a * lo128 b)"
    by (cases a; cases b; auto simp: u256_mul_def rust_int Let_def split: if_splits)+
  have prod: "uval r = unat (lo128 a) * unat (lo128 b)"
    using ov by (simp add: r uval_of_u128 unat_word_ariths)
  show ?thesis
  proof (cases "?hi a \<or> ?hi b")
    case True
    then have "a = L4 0 0 0 0 \<or> b = L4 0 0 0 0" using nhi by auto
    then have "unat (lo128 a) * unat (lo128 b) = 0" "uval a * uval b = 0"
      by (auto simp: unat_lo128)
    then show ?thesis using prod by (simp only:)
  next
    case False
    then show ?thesis using prod by (simp add: uval_lo)
  qed
qed

lemma digit_less:
  assumes "a < B" and "a' < (B::nat)"
  shows "a + B * x < a' + B * y \<longleftrightarrow> x < y \<or> x = y \<and> a < a'"
proof -
  have step: "c + B * m < d + B * n" if "m < n" "c < B" for c d m n
  proof -
    have "B * m + B \<le> B * n" using \<open>m < n\<close> mult_le_mono2 [of "Suc m" n B] by simp
    then show ?thesis using \<open>c < B\<close> by linarith
  qed
  show ?thesis
    using step [of x y a a'] step [of y x a' a] assms by (cases x y rule: linorder_cases) auto
qed

lemma u256_cmp_lex:
  "u256_cmp (L4 a0 a1 a2 a3) (L4 b0 b1 b2 b3) =
     (if a3 < b3 \<or> a3 = b3 \<and> (a2 < b2 \<or> a2 = b2 \<and> (a1 < b1 \<or> a1 = b1 \<and> a0 < b0)) then Less
      else if L4 a0 a1 a2 a3 = L4 b0 b1 b2 b3 then Equal else Greater)"
  by (auto simp: u256_cmp_def u64_cmp_def eval_nat_numeral)

lemma uval_less_lex:
  "uval (L4 a0 a1 a2 a3) < uval (L4 b0 b1 b2 b3) \<longleftrightarrow>
     a3 < b3 \<or> a3 = b3 \<and> (a2 < b2 \<or> a2 = b2 \<and> (a1 < b1 \<or> a1 = b1 \<and> a0 < b0))"
proof -
  have b: "unat w < 2 ^ 64" for w :: u64 by (simp add: unat_u64_less)
  show ?thesis
    unfolding uval.simps digit_less [OF b b] digit_unique_iff [OF b b]
    by (auto simp: word_less_nat_alt word_unat_eq_iff)
qed

text \<open>The limb comparison decides the order of the numbers.\<close>

lemma u256_cmp_uval:
  "u256_cmp a b =
     (if uval a < uval b then Less else if uval a = uval b then Equal else Greater)"
  by (cases a, cases b) (simp only: u256_cmp_lex uval_less_lex uval_inj)

section \<open>Shifts and bitwise operations\<close>

definition u256_shl :: "limbs \<Rightarrow> u8 \<Rightarrow> limbs" where
  "u256_shl a s =
     (if s = 0 then a
      else (let ws = unat s div 64; bs = unat s mod 64
            in limbs_of (\<lambda>i.
                 if i < ws then 0
                 else push_bit bs (limb_at a (i - ws)) OR
                      (if 0 < bs \<and> ws < i then drop_bit (64 - bs) (limb_at a (i - ws - 1)) else 0))))"

definition u256_shr :: "limbs \<Rightarrow> u8 \<Rightarrow> limbs" where
  "u256_shr a s =
     (if s = 0 then a
      else (let ws = unat s div 64; bs = unat s mod 64
            in limbs_of (\<lambda>i.
                 if i < 4 - ws
                 then drop_bit bs (limb_at a (i + ws)) OR
                      (if 0 < bs \<and> i + ws + 1 < 4 then push_bit (64 - bs) (limb_at a (i + ws + 1)) else 0)
                 else 0)))"

definition u256_and :: "limbs \<Rightarrow> limbs \<Rightarrow> limbs" where
  "u256_and a b = limbs_of (\<lambda>i. limb_at a i AND limb_at b i)"

definition u256_or :: "limbs \<Rightarrow> limbs \<Rightarrow> limbs" where
  "u256_or a b = limbs_of (\<lambda>i. limb_at a i OR limb_at b i)"

definition u256_xor :: "limbs \<Rightarrow> limbs \<Rightarrow> limbs" where
  "u256_xor a b = limbs_of (\<lambda>i. limb_at a i XOR limb_at b i)"

definition u256_not :: "limbs \<Rightarrow> limbs" where
  "u256_not a = limbs_of (\<lambda>i. NOT (limb_at a i))"

lemma bit_uval_limbs_of: "bit (uval (limbs_of f)) n \<longleftrightarrow> n < 256 \<and> bit (f (n div 64)) (n mod 64)"
  by (auto simp: bit_uval limb_at_limbs_of)

lemma unat_u8_bound: "unat (s :: u8) div 64 < 4"
  using unat_u8_less [of s] by simp

lemma div_mod_64: "m = 64 * q + r \<Longrightarrow> r < 64 \<Longrightarrow> m div 64 = q \<and> m mod 64 = (r::nat)"
  by simp

lemma bit_uval_at: "m = 64 * q + r \<Longrightarrow> r < 64 \<Longrightarrow> bit (uval a) m \<longleftrightarrow> q < 4 \<and> bit (limb_at a q) r"
  by (auto simp: bit_uval)

lemma bit_shl:
  assumes "n < 256"
  shows "bit (uval (u256_shl a s)) n \<longleftrightarrow> unat s \<le> n \<and> bit (uval a) (n - unat s)"
proof (cases "s = 0")
  case True
  then show ?thesis by (simp add: u256_shl_def)
next
  case False
  define ws bs i j where d: "ws = unat s div 64" "bs = unat s mod 64" "i = n div 64" "j = n mod 64"
  have eq: "unat s = 64 * ws + bs" "n = 64 * i + j" "bs < 64" "j < 64" and i4: "i < 4"
    unfolding d using assms by simp_all
  have "bit (uval (u256_shl a s)) n \<longleftrightarrow>
     ws \<le> i \<and> (bs \<le> j \<and> bit (limb_at a (i - ws)) (j - bs) \<or>
              0 < bs \<and> ws < i \<and> bit (limb_at a (i - ws - 1)) (64 - bs + j))"
    using assms False \<open>j < 64\<close> unfolding u256_shl_def
    by (simp add: Let_def bit_uval_limbs_of bit_simps flip: d)
  note lhs = this
  show ?thesis
  proof (cases "bs \<le> j")
    case True
    then have no: "\<not> bit (limb_at a (i - ws - 1)) (64 - bs + j)"
      using eq by (auto dest: bit_imp_le_length)
    have le: "unat s \<le> n \<longleftrightarrow> ws \<le> i" using eq True by auto
    have "n - unat s = 64 * (i - ws) + (j - bs)" if "ws \<le> i"
      using eq True that by (simp add: diff_mult_distrib2)
    then have at: "bit (uval a) (n - unat s) \<longleftrightarrow> bit (limb_at a (i - ws)) (j - bs)" if "ws \<le> i"
      using that bit_uval_at [of "n - unat s" "i - ws" "j - bs" a] i4 eq(4)
      by (auto simp: less_imp_diff_less)
    show ?thesis using lhs no True le at by blast
  next
    case False
    then have le: "unat s \<le> n \<longleftrightarrow> ws < i" using eq by auto
    have "n - unat s = 64 * (i - ws - 1) + (64 - bs + j)" if "ws < i"
    proof -
      have "64 * i = 64 * ws + 64 + 64 * (i - ws - 1)" using that by simp
      then show ?thesis using eq False by linarith
    qed
    then have at: "bit (uval a) (n - unat s) \<longleftrightarrow> bit (limb_at a (i - ws - 1)) (64 - bs + j)" if "ws < i"
      using that bit_uval_at [of "n - unat s" "i - ws - 1" "64 - bs + j" a] i4 eq(3,4) False
      by (auto simp: less_imp_diff_less)
    show ?thesis using lhs False le at eq by auto
  qed
qed

lemma bit_shr:
  assumes "n < 256"
  shows "bit (uval (u256_shr a s)) n \<longleftrightarrow> bit (uval a) (n + unat s)"
proof (cases "s = 0")
  case True
  then show ?thesis by (simp add: u256_shr_def)
next
  case False
  define ws bs i j where d: "ws = unat s div 64" "bs = unat s mod 64" "i = n div 64" "j = n mod 64"
  have eq: "unat s = 64 * ws + bs" "n = 64 * i + j" "bs < 64" "j < 64" and i4: "i < 4"
    unfolding d using assms by simp_all
  have ws4: "ws < 4" unfolding d by (rule unat_u8_bound)
  have lhs: "bit (uval (u256_shr a s)) n \<longleftrightarrow>
     i < 4 - ws \<and> (bit (limb_at a (i + ws)) (bs + j) \<or>
              0 < bs \<and> i + ws + 1 < 4 \<and> 64 - bs \<le> j \<and> bit (limb_at a (i + ws + 1)) (j - (64 - bs)))"
    using assms False \<open>j < 64\<close> unfolding u256_shr_def
    by (simp add: Let_def bit_uval_limbs_of bit_simps flip: d)
  show ?thesis
  proof (cases "bs + j < 64")
    case True
    have "n + unat s = 64 * (i + ws) + (bs + j)" using eq by simp
    note at = bit_uval_at [OF this, of a]
    show ?thesis using lhs True at ws4 by auto
  next
    case False
    have "n + unat s = 64 * (i + ws + 1) + (j - (64 - bs))" using eq False by simp
    note at = bit_uval_at [OF this, of a]
    have "\<not> bit (limb_at a (i + ws)) (bs + j)" using False by (auto dest: bit_imp_le_length)
    then show ?thesis using lhs False eq at by auto
  qed
qed

lemma uval_shl: "uval (u256_shl a s) = uval a * 2 ^ unat s mod 2 ^ 256"
proof -
  have "uval (u256_shl a s) = take_bit 256 (push_bit (unat s) (uval a))"
    by (rule bit_eqI) (metis bit_uval bit_shl bit_take_bit_iff bit_push_bit_iff_nat)
  then show ?thesis by (simp add: take_bit_eq_mod push_bit_eq_mult)
qed

lemma uval_shr: "uval (u256_shr a s) = uval a div 2 ^ unat s"
proof -
  have "uval (u256_shr a s) = drop_bit (unat s) (uval a)"
  proof (rule bit_eqI)
    fix n
    show "bit (uval (u256_shr a s)) n = bit (drop_bit (unat s) (uval a)) n"
    proof (cases "n < 256")
      case True
      then show ?thesis by (simp add: bit_shr bit_drop_bit_eq add.commute)
    next
      case False
      then show ?thesis by (auto simp: bit_uval bit_drop_bit_eq)
    qed
  qed
  then show ?thesis by (simp add: drop_bit_eq_div)
qed

lemma uval_and: "uval (u256_and a b) = uval a AND uval b"
  by (rule bit_eqI) (auto simp: u256_and_def limb_at_limbs_of bit_and_iff bit_uval)

lemma uval_or: "uval (u256_or a b) = uval a OR uval b"
  by (rule bit_eqI) (auto simp: u256_or_def limb_at_limbs_of bit_or_iff bit_uval)

lemma uval_xor: "uval (u256_xor a b) = uval a XOR uval b"
  by (rule bit_eqI) (auto simp: u256_xor_def limb_at_limbs_of bit_xor_iff bit_uval)

lemma unat_not_u64: "unat (NOT (w :: u64)) = 2 ^ 64 - 1 - unat w"
proof -
  have "NOT w = - 1 - w" by (simp add: not_eq_complement)
  moreover have "unat (- 1 - w) = unat (- 1 :: u64) - unat w" by (rule unat_sub_le) simp
  ultimately show ?thesis by (simp add: unsigned_minus_1_eq_mask mask_eq_exp_minus_1)
qed

lemma uval_not: "uval (u256_not a) = 2 ^ 256 - 1 - uval a"
proof (cases a)
  case (L4 w x y z)
  then show ?thesis
    using unat_u64_less [of w] unat_u64_less [of x] unat_u64_less [of y] unat_u64_less [of z]
    by (simp add: u256_not_def limbs_of_def unat_not_u64)
qed

section \<open>Division\<close>

text \<open>The number of significant bits, and \<^verbatim>\<open>u64::leading_zeros\<close>.\<close>

fun bit_len :: "nat \<Rightarrow> nat" where
  "bit_len n = (if n = 0 then 0 else Suc (bit_len (n div 2)))"

declare bit_len.simps [simp del]

definition leading_zeros :: "u64 \<Rightarrow> nat" where
  "leading_zeros w = 64 - bit_len (unat w)"

fun lz_from :: "nat \<Rightarrow> limbs \<Rightarrow> nat" where
  "lz_from 0 a = 256"
| "lz_from (Suc i) a =
     (if limb_at a i \<noteq> 0 then (3 - i) * 64 + leading_zeros (limb_at a i) else lz_from i a)"

definition lz :: "limbs \<Rightarrow> nat" where
  "lz a = lz_from 4 a"

text \<open>
  One round of the shift-and-subtract loop, and the loop itself with \<open>shift\<close> counting
  down to 0. \<^const>\<open>None\<close> is the panic of an index or a division.
\<close>

definition div_round :: "limbs \<Rightarrow> nat \<Rightarrow> limbs \<times> limbs \<Rightarrow> (limbs \<times> limbs) option" where
  "div_round b shift qr =
     (let (quot, rem) = qr; sb = u256_shl b (word_of_nat shift)
      in if u256_cmp rem sb \<noteq> Less
         then (let rem' = (case u256_sub rem sb of Some r \<Rightarrow> r | None \<Rightarrow> L4 0 0 0 0); k = shift div 64
               in if k < 4
                  then Some (set_limb quot k (limb_at quot k OR push_bit (shift mod 64) 1), rem')
                  else None)
         else Some (quot, rem))"

fun div_loop :: "limbs \<Rightarrow> nat \<Rightarrow> limbs \<times> limbs \<Rightarrow> (limbs \<times> limbs) option" where
  "div_loop b 0 qr = div_round b 0 qr"
| "div_loop b (Suc n) qr = Option.bind (div_round b (Suc n) qr) (div_loop b n)"

definition divmod :: "limbs \<Rightarrow> limbs \<Rightarrow> (limbs \<times> limbs) option" where
  "divmod a b =
     (if fits64 a \<and> fits64 b then
        (if limb_at b 0 = 0 then None
         else Some (L4 (limb_at a 0 div limb_at b 0) 0 0 0, L4 (limb_at a 0 mod limb_at b 0) 0 0 0))
      else if limb_at a 2 = 0 \<and> limb_at a 3 = 0 \<and> limb_at b 2 = 0 \<and> limb_at b 3 = 0 then
        (if lo128 b = 0 then None
         else Some (of_u128 (lo128 a div lo128 b), of_u128 (lo128 a mod lo128 b)))
      else
        (let b_bits = 256 - lz b; a_bits = 256 - lz a
         in if a_bits < b_bits then Some (L4 0 0 0 0, a)
            else div_loop b (a_bits - b_bits) (L4 0 0 0 0, a)))"

lemma bit_len_bounds: "n < 2 ^ bit_len n \<and> (0 < n \<longrightarrow> 2 ^ (bit_len n - 1) \<le> n)"
proof (induction n rule: bit_len.induct)
  case (1 n)
  show ?case
  proof (cases "n = 0")
    case False
    then have IH: "n div 2 < 2 ^ bit_len (n div 2)"
      "0 < n div 2 \<longrightarrow> 2 ^ (bit_len (n div 2) - 1) \<le> n div 2" using 1 by auto
    have len: "bit_len n = Suc (bit_len (n div 2))" using False by (simp add: bit_len.simps [of n])
    have "2 ^ bit_len (n div 2) \<le> n"
    proof (cases "n div 2 = 0")
      case True
      then show ?thesis using False by (simp add: bit_len.simps [of 0])
    next
      case False
      then obtain k where "bit_len (n div 2) = Suc k" by (simp add: bit_len.simps [of "n div 2"])
      then show ?thesis using IH False by simp
    qed
    then show ?thesis using IH len by simp
  qed (simp add: bit_len.simps)
qed

lemma bit_len_unique:
  assumes "2 ^ k \<le> n" and "n < 2 ^ Suc k"
  shows "bit_len n = Suc k"
proof -
  have pos: "0 < n" using assms(1) by (metis gr0I not_le zero_less_power zero_less_numeral)
  then have b: "n < 2 ^ bit_len n" "2 ^ (bit_len n - 1) \<le> n" using bit_len_bounds [of n] by auto
  have "(2::nat) ^ k < 2 ^ bit_len n" using assms(1) b(1) by linarith
  then have "k < bit_len n" by (simp only: power_strict_increasing_iff one_less_numeral_iff semiring_norm)
  moreover have "(2::nat) ^ (bit_len n - 1) < 2 ^ Suc k" using assms(2) b(2) by linarith
  then have "bit_len n - 1 < Suc k"
    by (simp only: power_strict_increasing_iff one_less_numeral_iff semiring_norm)
  ultimately show ?thesis by simp
qed

lemma bit_len_0 [simp]: "bit_len 0 = 0"
  by (simp add: bit_len.simps)

lemma bit_len_shift:
  assumes "0 < h" and "low < 2 ^ k"
  shows "bit_len (low + 2 ^ k * h) = k + bit_len h"
proof -
  obtain m where m: "bit_len h = Suc m" using assms(1) by (simp add: bit_len.simps [of h])
  then have h: "2 ^ m \<le> h" "h < 2 ^ Suc m" using bit_len_bounds [of h] assms(1) by auto
  have "2 ^ (k + m) \<le> low + 2 ^ k * h" using h(1) by (simp add: power_add trans_le_add2)
  moreover have "low + 2 ^ k * h < 2 ^ Suc (k + m)"
  proof -
    have "2 ^ k * h + 2 ^ k \<le> 2 ^ k * 2 ^ Suc m"
      using h(2) mult_le_mono2 [of "Suc h" "2 ^ Suc m" "2 ^ k"] by simp
    then show ?thesis using assms(2) by (simp add: power_add)
  qed
  ultimately show ?thesis using bit_len_unique [of "k + m"] m by simp
qed

lemma bit_len_mono: "n < 2 ^ k \<Longrightarrow> bit_len n \<le> k"
proof (rule ccontr)
  assume n: "n < 2 ^ k" and "\<not> bit_len n \<le> k"
  then have "k \<le> bit_len n - 1" "n \<noteq> 0" by (auto intro: ccontr)
  then have "2 ^ k \<le> n" using bit_len_bounds [of n]
    by (meson le_trans neq0_conv one_le_numeral power_increasing)
  then show False using n by simp
qed

lemma lz_unfold:
  "lz (L4 a0 a1 a2 a3) =
     (if a3 \<noteq> 0 then leading_zeros a3 else if a2 \<noteq> 0 then 64 + leading_zeros a2
      else if a1 \<noteq> 0 then 128 + leading_zeros a1
      else if a0 \<noteq> 0 then 192 + leading_zeros a0 else 256)"
proof -
  have four: "(4::nat) = Suc (Suc (Suc (Suc 0)))" by simp
  show ?thesis unfolding lz_def four by simp
qed

lemma bit_len_uval: "256 - lz a = bit_len (uval a)"
proof -
  obtain a0 a1 a2 a3 where a: "a = L4 a0 a1 a2 a3" by (cases a)
  have b: "unat w < 2 ^ 64" "bit_len (unat w) \<le> 64" for w :: u64
    by (simp_all add: unat_u64_less bit_len_mono)
  have pos: "0 < unat w \<longleftrightarrow> w \<noteq> 0" for w :: u64 by (simp add: unat_gt_0)
  consider "a3 \<noteq> 0" | "a3 = 0" "a2 \<noteq> 0" | "a3 = 0" "a2 = 0" "a1 \<noteq> 0" | "a3 = 0" "a2 = 0" "a1 = 0"
    by blast
  then show ?thesis
  proof cases
    case 1
    have "unat a0 + 2 ^ 64 * (unat a1 + 2 ^ 64 * unat a2) < 2 ^ 192"
      using b(1) [of a0] b(1) [of a1] b(1) [of a2] by simp
    from bit_len_shift [OF _ this, of "unat a3"] show ?thesis
      using 1 b(2) [of a3] by (simp add: a lz_unfold leading_zeros_def pos add.assoc)
  next
    case 2
    have "unat a0 + 2 ^ 64 * unat a1 < 2 ^ 128" using b(1) [of a0] b(1) [of a1] by simp
    from bit_len_shift [OF _ this, of "unat a2"] show ?thesis
      using 2 b(2) [of a2] by (simp add: a lz_unfold leading_zeros_def pos add.assoc)
  next
    case 3
    from bit_len_shift [OF _ b(1), of "unat a1" a0] show ?thesis
      using 3 b(2) [of a1] by (simp add: a lz_unfold leading_zeros_def pos)
  next
    case 4
    then show ?thesis
      using b(2) [of a0] by (cases "a0 = 0") (simp_all add: a lz_unfold leading_zeros_def)
  qed
qed

lemma limb_at_set_limb:
  "k < 4 \<Longrightarrow> i < 4 \<Longrightarrow> limb_at (set_limb a k v) i = (if i = k then v else limb_at a i)"
  by (cases a) auto

lemma uval_set_bit:
  assumes "m < 256" and "\<not> bit (uval a) m"
  shows "uval (set_limb a (m div 64) (limb_at a (m div 64) OR push_bit (m mod 64) 1)) = uval a + 2 ^ m"
    (is "uval ?a' = _")
proof -
  have k: "m div 64 < 4" using assms(1) by simp
  have "uval ?a' = uval a OR 2 ^ m"
  proof (rule bit_eqI)
    fix n
    have same: "n = m \<longleftrightarrow> n div 64 = m div 64 \<and> n mod 64 = m mod 64"
      by (metis mod_div_decomp)
    show "bit (uval ?a') n = bit (uval a OR 2 ^ m) n"
    proof (cases "n < 256")
      case True
      then have "bit (uval ?a') n \<longleftrightarrow>
          bit (uval a) n \<or> n div 64 = m div 64 \<and> n mod 64 = m mod 64"
        using k by (auto simp: bit_uval limb_at_set_limb bit_or_iff bit_exp_iff)
      then show ?thesis using same by (simp add: bit_or_iff bit_exp_iff)
    next
      case False
      then show ?thesis using assms(1) by (auto simp: bit_uval bit_or_iff bit_exp_iff)
    qed
  qed
  also have "\<dots> = uval a + 2 ^ m"
    using assms(2) by (subst disjunctive_add_eq_or [symmetric]) (auto intro!: bit_eqI simp: bit_and_iff bit_exp_iff)
  finally show ?thesis .
qed

text \<open>
  The loop invariant of the division: at shift \<open>n\<close> the quotient so far has no bit at or
  below \<open>n\<close>, and the remainder is less than \<open>2 ^ (n + 1)\<close> times the divisor.
\<close>

definition div_inv :: "nat \<Rightarrow> limbs \<Rightarrow> nat \<Rightarrow> limbs \<times> limbs \<Rightarrow> bool" where
  "div_inv A b m qr \<longleftrightarrow>
     2 ^ m dvd uval (fst qr) \<and> uval (snd qr) < 2 ^ m * uval b \<and>
     A = uval (fst qr) * uval b + uval (snd qr)"

lemma div_round_inv:
  assumes inv: "div_inv A b (Suc m) (q, r)" and fit: "uval b * 2 ^ m < 2 ^ 256" and m: "m < 256"
  shows "\<exists>qr'. div_round b m (q, r) = Some qr' \<and> div_inv A b m qr'"
proof -
  let ?sb = "u256_shl b (word_of_nat m)"
  have "unat (word_of_nat m :: u8) = m" using m by (simp add: unat_of_nat)
  then have sb: "uval ?sb = uval b * 2 ^ m" using fit by (simp add: uval_shl)
  from inv obtain c where c: "uval q = 2 ^ Suc m * c" by (auto simp: div_inv_def)
  show ?thesis
  proof (cases "uval r < uval ?sb")
    case True
    then have "div_round b m (q, r) = Some (q, r)" by (simp add: div_round_def u256_cmp_uval)
    moreover have "div_inv A b m (q, r)"
      using inv True sb c by (auto simp: div_inv_def mult.commute)
    ultimately show ?thesis by blast
  next
    case False
    then obtain r' where r': "u256_sub r ?sb = Some r'" "uval r' + uval ?sb = uval r"
      using u256_sub_eq [of r ?sb] by auto
    define q' where "q' = set_limb q (m div 64) (limb_at q (m div 64) OR push_bit (m mod 64) 1)"
    have "\<not> bit (uval q) m" by (simp add: c bit_iff_odd)
    then have q': "uval q' = uval q + 2 ^ m" unfolding q'_def using m by (rule uval_set_bit [rotated])
    have "div_round b m (q, r) = Some (q', r')"
      using False r' m by (simp add: div_round_def u256_cmp_uval q'_def Let_def)
    moreover have "div_inv A b m (q', r')"
    proof -
      have "2 ^ m dvd uval q'" unfolding q' c by simp
      moreover have "uval r' + 2 ^ m * uval b < 2 * (2 ^ m * uval b)"
        using inv r'(2) sb by (simp add: div_inv_def algebra_simps)
      then have "uval r' < 2 ^ m * uval b" by linarith
      moreover have "A = uval q' * uval b + uval r'"
        using inv r'(2) sb q' by (simp add: div_inv_def algebra_simps)
      ultimately show ?thesis by (simp add: div_inv_def)
    qed
    ultimately show ?thesis by blast
  qed
qed

lemma div_loop_inv:
  assumes "div_inv A b (Suc m) qr" and "uval b * 2 ^ m < 2 ^ 256" and "m < 256"
  shows "\<exists>qr'. div_loop b m qr = Some qr' \<and> div_inv A b 0 qr'"
  using assms
proof (induction m arbitrary: qr)
  case 0
  then show ?case using div_round_inv [of A b 0 "fst qr" "snd qr"] by simp
next
  case (Suc m)
  obtain qr1 where "div_round b (Suc m) qr = Some qr1" "div_inv A b (Suc m) qr1"
    using div_round_inv [of A b "Suc m" "fst qr" "snd qr"] Suc.prems by auto
  moreover have "uval b * 2 ^ m < 2 ^ 256"
    using Suc.prems(2) by (rule le_less_trans [rotated]) simp
  ultimately show ?case using Suc.IH [of qr1] Suc.prems(3) by simp
qed

lemma div_inv_0: "div_inv A b 0 (q, r) \<Longrightarrow> uval q = A div uval b \<and> uval r = A mod uval b"
  by (auto simp: div_inv_def)

lemma divmod_long:
  assumes b: "uval b \<noteq> 0" and le: "bit_len (uval b) \<le> bit_len (uval a)"
  shows "\<exists>q r. div_loop b (bit_len (uval a) - bit_len (uval b)) (L4 0 0 0 0, a) = Some (q, r) \<and>
    uval q = uval a div uval b \<and> uval r = uval a mod uval b"
proof -
  let ?la = "bit_len (uval a)" and ?lb = "bit_len (uval b)"
  have la: "?la \<le> 256" by (rule bit_len_mono [OF uval_less])
  obtain k where k: "?lb = Suc k" using b by (simp add: bit_len.simps [of "uval b"])
  have bb: "uval b < 2 ^ ?lb" "2 ^ k \<le> uval b" using bit_len_bounds [of "uval b"] b k by auto
  have "uval b * 2 ^ (?la - ?lb) < 2 ^ ?lb * 2 ^ (?la - ?lb)" using bb(1) by simp
  also have "\<dots> = 2 ^ ?la" using le by (simp flip: power_add)
  also have "\<dots> \<le> 2 ^ 256" using la by (rule power_increasing) simp
  finally have fit: "uval b * 2 ^ (?la - ?lb) < 2 ^ 256" .
  have "uval a < 2 ^ ?la" using bit_len_bounds by blast
  also have "\<dots> = 2 ^ Suc (?la - ?lb) * 2 ^ k" using le k by (simp flip: power_add power_Suc)
  also have "\<dots> \<le> 2 ^ Suc (?la - ?lb) * uval b" using bb(2) by simp
  finally have "div_inv (uval a) b (Suc (?la - ?lb)) (L4 0 0 0 0, a)" by (simp add: div_inv_def)
  then obtain qr where "div_loop b (?la - ?lb) (L4 0 0 0 0, a) = Some qr" "div_inv (uval a) b 0 qr"
    using div_loop_inv [OF _ fit] la k by fastforce
  then show ?thesis using div_inv_0 by (cases qr) blast
qed

lemma uval_eq_0: "uval a = 0 \<longleftrightarrow> a = L4 0 0 0 0"
  by (cases a) (auto simp: unsigned_eq_0_iff)

text \<open>
  Every path of the division (one machine word, two machine words, the bitwise loop)
  returns the quotient and the remainder, for every divisor but 0.
\<close>

lemma divmod_correct:
  assumes "b \<noteq> L4 0 0 0 0"
  shows "\<exists>q r. divmod a b = Some (q, r) \<and> uval q = uval a div uval b \<and> uval r = uval a mod uval b"
proof -
  have b: "uval b \<noteq> 0" using assms by (simp only: uval_eq_0) simp
  consider (one) "fits64 a" "fits64 b"
    | (two) "\<not> (fits64 a \<and> fits64 b)" "limb_at a 2 = 0" "limb_at a 3 = 0" "limb_at b 2 = 0" "limb_at b 3 = 0"
    | (big) "\<not> (fits64 a \<and> fits64 b)"
        "\<not> (limb_at a 2 = 0 \<and> limb_at a 3 = 0 \<and> limb_at b 2 = 0 \<and> limb_at b 3 = 0)"
    by blast
  then show ?thesis
  proof cases
    case one
    then have "limb_at b 0 \<noteq> 0" using b by (auto simp: fits64_uval)
    then show ?thesis using one
      by (simp add: divmod_def fits64_uval [of a] fits64_uval [of b] unat_div_distrib unat_mod_distrib)
  next
    case two
    then have v: "uval a = unat (lo128 a)" "uval b = unat (lo128 b)" by (simp_all add: uval_lo)
    then have "lo128 b \<noteq> 0" using b by auto
    then show ?thesis using two v
      by (auto simp: divmod_def uval_of_u128 unat_div_distrib unat_mod_distrib)
  next
    case big
    then have eq: "divmod a b =
        (if bit_len (uval a) < bit_len (uval b) then Some (L4 0 0 0 0, a)
         else div_loop b (bit_len (uval a) - bit_len (uval b)) (L4 0 0 0 0, a))"
      unfolding divmod_def Let_def bit_len_uval by (simp only: if_False)
    show ?thesis
    proof (cases "bit_len (uval a) < bit_len (uval b)")
      case True
      have "uval a < 2 ^ bit_len (uval a)" using bit_len_bounds by blast
      also have "\<dots> \<le> 2 ^ (bit_len (uval b) - 1)" using True by (intro power_increasing) auto
      also have "\<dots> \<le> uval b" using bit_len_bounds [of "uval b"] b by auto
      finally show ?thesis using True eq by simp
    next
      case False
      then show ?thesis using divmod_long [OF b, of a] eq by simp
    qed
  qed
qed

end
