(* ===== verification/Arithmetic.thy ===== *)
theory Arithmetic
  imports U256
begin

text \<open>
  What the 256-bit arithmetic of the machine computes, as statements about numbers: the
  limb routines of \<^verbatim>\<open>vm.rs\<close> against \<open>+\<close>, \<open>-\<close>, \<open>*\<close>, \<open>div\<close>, \<open>mod\<close> and the bitwise
  operations on naturals, with the exact condition under which each reports overflow.
\<close>

section \<open>When multiplication fails\<close>

lemma hi_uval: "limb_at a 2 \<noteq> 0 \<or> limb_at a 3 \<noteq> 0 \<Longrightarrow> 2 ^ 128 \<le> uval a"
proof (cases a)
  case (L4 w x y z)
  assume "limb_at a 2 \<noteq> 0 \<or> limb_at a 3 \<noteq> 0"
  then have "1 \<le> unat y + 2 ^ 64 * unat z" using L4 by (auto simp: Suc_le_eq unat_gt_0)
  then have "2 ^ 128 * 1 \<le> 2 ^ 128 * (unat y + 2 ^ 64 * unat z)" by (rule mult_le_mono2)
  also have "\<dots> \<le> uval a" using L4 by simp
  finally show ?thesis by simp
qed

lemma uval_pos: "a \<noteq> L4 0 0 0 0 \<Longrightarrow> 1 \<le> uval a"
  using uval_inj [of a "L4 0 0 0 0"] by (simp add: Suc_le_eq)

text \<open>Outside the 64-bit fast path the product is limited to 128 bits.\<close>

lemma u256_mul_None:
  "u256_mul a b = None \<longleftrightarrow> (if fits64 a \<and> fits64 b then 2 ^ 64 else 2 ^ 128) \<le> uval a * uval b"
proof (cases "fits64 a \<and> fits64 b")
  case True
  then show ?thesis by (auto simp: u256_mul_def rust_int fits64_uval)
next
  case False
  let ?hi = "\<lambda>x. limb_at x 2 \<noteq> 0 \<or> limb_at x 3 \<noteq> 0"
  have nz: "(limb_at x 0 \<noteq> 0 \<or> limb_at x 1 \<noteq> 0 \<or> ?hi x) \<longleftrightarrow> x \<noteq> L4 0 0 0 0" for x by (cases x) auto
  show ?thesis
  proof (cases "?hi a \<and> b \<noteq> L4 0 0 0 0 \<or> ?hi b \<and> a \<noteq> L4 0 0 0 0")
    case big: True
    then have "2 ^ 128 \<le> uval a * uval b"
    proof
      assume "?hi a \<and> b \<noteq> L4 0 0 0 0"
      then have "2 ^ 128 * 1 \<le> uval a * uval b" by (intro mult_le_mono hi_uval uval_pos) simp_all
      then show ?thesis by simp
    next
      assume "?hi b \<and> a \<noteq> L4 0 0 0 0"
      then have "1 * 2 ^ 128 \<le> uval a * uval b" by (intro mult_le_mono hi_uval uval_pos) simp_all
      then show ?thesis by simp
    qed
    moreover have "u256_mul a b = None" unfolding u256_mul_def Let_def nz using big False by auto
    ultimately show ?thesis using False by simp
  next
    case small: False
    have m: "u256_mul a b = None \<longleftrightarrow> 2 ^ 128 \<le> unat (lo128 a) * unat (lo128 b)"
      unfolding u256_mul_def Let_def nz using small False by (auto simp: rust_int)
    consider "\<not> ?hi a" "\<not> ?hi b" | "a = L4 0 0 0 0 \<or> b = L4 0 0 0 0" using small by blast
    then have "unat (lo128 a) * unat (lo128 b) = uval a * uval b"
      by cases (auto simp: uval_lo unat_lo128)
    then show ?thesis using m False by auto
  qed
qed

section \<open>Properties\<close>

text \<open>
  C38. Addition, subtraction, multiplication and comparison are exact: whenever a routine
  returns a value it is the sum, difference or product, and it reports overflow exactly
  when the result leaves its range. The range is the interesting part: a sum of two operands
  that fit into 64 bits overflows at \<open>2 ^ 64\<close> and any other sum at \<open>2 ^ 256\<close>; a product of two
  operands that fit into 64 bits overflows at \<open>2 ^ 64\<close> and any other product at \<open>2 ^ 128\<close>.
\<close>
theorem arithmetic_exact:
  "(u256_add a b = None \<longleftrightarrow> (if fits64 a \<and> fits64 b then 2 ^ 64 else 2 ^ 256) \<le> uval a + uval b)
   \<and> (u256_sub a b = None \<longleftrightarrow> uval a < uval b)
   \<and> (u256_mul a b = None \<longleftrightarrow> (if fits64 a \<and> fits64 b then 2 ^ 64 else 2 ^ 128) \<le> uval a * uval b)
   \<and> (case u256_add a b of Some r \<Rightarrow> uval r = uval a + uval b | None \<Rightarrow> True)
   \<and> (case u256_sub a b of Some r \<Rightarrow> uval b + uval r = uval a | None \<Rightarrow> True)
   \<and> (case u256_mul a b of Some r \<Rightarrow> uval r = uval a * uval b | None \<Rightarrow> True)
   \<and> u256_cmp a b = (if uval a < uval b then Less else if uval a = uval b then Equal else Greater)"
proof (intro conjI)
  show "case u256_add a b of Some r \<Rightarrow> uval r = uval a + uval b | None \<Rightarrow> True"
    using u256_add_Some [of a b] by (cases "u256_add a b") simp_all
  show "case u256_sub a b of Some r \<Rightarrow> uval b + uval r = uval a | None \<Rightarrow> True"
    using u256_sub_Some [of a b] by (cases "u256_sub a b") simp_all
  show "case u256_mul a b of Some r \<Rightarrow> uval r = uval a * uval b | None \<Rightarrow> True"
    using u256_mul_Some [of a b] by (cases "u256_mul a b") simp_all
qed (rule u256_add_None u256_sub_None u256_mul_None u256_cmp_uval)+

text \<open>
  C39. Division is exact and total on non-zero divisors: the three paths of \<^verbatim>\<open>divmod\<close> (64
  bits, 128 bits, and shift-and-subtract) all return quotient and remainder, and the long
  path never runs into its failing subtraction.
\<close>
theorem division_exact:
  assumes "b \<noteq> L4 0 0 0 0"
  shows "\<exists>q r. divmod a b = Some (q, r) \<and> uval q = uval a div uval b \<and> uval r = uval a mod uval b"
  using divmod_correct [OF assms] .

theorem division_exact_witness:
  "\<exists>q r. divmod (L4 0 0 1 0) (L4 7 1 0 0) = Some (q, r)
     \<and> uval q = uval (L4 0 0 1 0) div uval (L4 7 1 0 0) \<and> uval r = uval (L4 0 0 1 0) mod uval (L4 7 1 0 0)"
  using division_exact [of "L4 7 1 0 0" "L4 0 0 1 0"] by (simp del: uval.simps)

text \<open>
  Shifts and bitwise operations are those of numbers: a left shift drops the bits
  above 256, a right shift divides, and conjunction, disjunction, exclusive or and
  complement are bitwise; packing limbs into a register and back loses nothing.
\<close>
theorem bit_operations_exact:
  "uval (u256_shl a s) = uval a * 2 ^ unat s mod 2 ^ 256 \<and> uval (u256_shr a s) = uval a div 2 ^ unat s
   \<and> uval (u256_and a b) = and (uval a) (uval b) \<and> uval (u256_or a b) = or (uval a) (uval b)
   \<and> uval (u256_xor a b) = xor (uval a) (uval b) \<and> uval (u256_not a) = 2 ^ 256 - 1 - uval a
   \<and> u256 (to32 a) = a \<and> le_val (to32 a) = uval a"
  by (intro conjI uval_shl uval_shr uval_and uval_or uval_xor uval_not u256_to32 le_val_to32)

text \<open>
  The saturating operations: subtraction stops at zero; addition gives the greatest
  256-bit number whenever the checked addition fails, and so even for sums as small as
  \<open>2 ^ 64\<close>, while the same sum with one operand above 64 bits is computed exactly.
\<close>
theorem saturation:
  "uval (u256_sub_sat a b) = uval a - uval b
   \<and> uval (u256_add_sat a b) = (if u256_add a b = None then 2 ^ 256 - 1 else uval a + uval b)
   \<and> uval (u256_add_sat (L4 (- 1) 0 0 0) (L4 1 0 0 0)) = 2 ^ 256 - 1
   \<and> uval (u256_add_sat (L4 0 1 0 0) (L4 0 0 0 0)) = 2 ^ 64"
proof (intro conjI)
  have top: "uval (L4 (- 1) (- 1) (- 1) (- 1)) = 2 ^ 256 - 1"
    using uval_not [of "L4 0 0 0 0"] by (simp add: u256_not_def limbs_of_def)
  show "uval (u256_sub_sat a b) = uval a - uval b" by (rule uval_sub_sat)
  show "uval (u256_add_sat a b) = (if u256_add a b = None then 2 ^ 256 - 1 else uval a + uval b)"
    unfolding u256_add_sat_def using top u256_add_Some [of a b]
    by (cases "u256_add a b") (simp_all only: option.case simp_thms if_True if_False option.distinct)
  have "u256_add (L4 (- 1) 0 0 0) (L4 1 0 0 0) = None"
    by (simp add: u256_add_def fits64_def rust_int unsigned_minus_1_eq_mask mask_eq_exp_minus_1)
  then show "uval (u256_add_sat (L4 (- 1) 0 0 0) (L4 1 0 0 0)) = 2 ^ 256 - 1"
    unfolding u256_add_sat_def using top by (simp only: option.case)
  have "u256_add (L4 0 1 0 0) (L4 0 0 0 0) = Some (L4 0 1 0 0)" by (simp add: u256_add_def fits64_def rust_int)
  then show "uval (u256_add_sat (L4 0 1 0 0) (L4 0 0 0 0)) = 2 ^ 64" unfolding u256_add_sat_def by simp
qed

end
