(* ===== verification/Axiom_Types.thy ===== *)
theory Axiom_Types
  imports Prelude
begin

text \<open>
  The vocabulary of the Axiom virtual machine crate: error values
  (\<^verbatim>\<open>error.rs\<close>), the instruction byte tags (\<^verbatim>\<open>opcode.rs\<close>), the gas
  meter (\<^verbatim>\<open>gas.rs\<close>), and the interface the machine needs from the
  chain (the trait of \<^verbatim>\<open>host.rs\<close>), as a record of operations on an abstract host
  state. Gas amounts are \<^verbatim>\<open>u64\<close> in the code; they are only compared, added to small
  data-dependent fees and subtracted with a check, so natural numbers carry them.
\<close>

section \<open>Errors\<close>

datatype axiom_error =
    OutOfGas
  | CallDepthExceeded
  | InvalidOpcode u8
  | DivisionByZero
  | ArithmeticOverflow
  | InvalidJumpTarget u32
  | InvalidRegister u8
  | InvalidConstIndex u16
  | ReturnDataTooLarge
  | InvalidLength nat
  | LogTooLarge
  | StorageReadFailed
  | StorageWriteFailed
  | Unauthorized
  | AssertFailed
  | CrossCellFailed string
  | BufOverflow
  | Trap u16
  | InvalidBytecode
  | InvalidMagic
  | NotImplemented u8

fun error_code :: "axiom_error \<Rightarrow> int" where
  "error_code OutOfGas = - 100001"
| "error_code CallDepthExceeded = - 100002"
| "error_code (InvalidOpcode _) = - 100003"
| "error_code DivisionByZero = - 100004"
| "error_code ArithmeticOverflow = - 100005"
| "error_code (InvalidJumpTarget _) = - 100006"
| "error_code (InvalidRegister _) = - 100007"
| "error_code (InvalidConstIndex _) = - 100008"
| "error_code ReturnDataTooLarge = - 100009"
| "error_code (InvalidLength _) = - 100018"
| "error_code LogTooLarge = - 100010"
| "error_code StorageReadFailed = - 100011"
| "error_code StorageWriteFailed = - 100012"
| "error_code Unauthorized = - 100013"
| "error_code AssertFailed = - 100014"
| "error_code (CrossCellFailed _) = - 100015"
| "error_code BufOverflow = - 100020"
| "error_code (Trap c) = - int (unat c)"
| "error_code InvalidBytecode = - 100016"
| "error_code InvalidMagic = - 100017"
| "error_code (NotImplemented _) = - 100019"

text \<open>
  \<^verbatim>\<open>Display\<close> prints the derived \<^verbatim>\<open>Debug\<close> form: the constructor name, a payload
  in parentheses, integers in decimal and strings quoted with Rust's escapes
  (the messages of the code are printable ASCII).
\<close>

fun nat_to_dec :: "nat \<Rightarrow> string" where
  "nat_to_dec n = (if n < 10 then [char_of (48 + n)]
                   else nat_to_dec (n div 10) @ [char_of (48 + n mod 10)])"

declare nat_to_dec.simps [simp del]

definition escape_char :: "char \<Rightarrow> string" where
  "escape_char c = (if c = CHR 0x22 then [CHR 0x5C, CHR 0x22]
     else if c = CHR 0x5C then [CHR 0x5C, CHR 0x5C]
     else if c = CHR 0x0A then [CHR 0x5C, CHR ''n'']
     else if c = CHR 0x0D then [CHR 0x5C, CHR ''r'']
     else if c = CHR 0x09 then [CHR 0x5C, CHR ''t'']
     else if c = CHR 0x00 then [CHR 0x5C, CHR ''0'']
     else [c])"

definition debug_str :: "string \<Rightarrow> string" where
  "debug_str s = [CHR 0x22] @ concat (map escape_char s) @ [CHR 0x22]"

definition debug_app :: "string \<Rightarrow> string \<Rightarrow> string" where
  "debug_app con arg = con @ ''('' @ arg @ '')''"

fun error_to_string :: "axiom_error \<Rightarrow> string" where
  "error_to_string OutOfGas = ''OutOfGas''"
| "error_to_string CallDepthExceeded = ''CallDepthExceeded''"
| "error_to_string (InvalidOpcode b) = debug_app ''InvalidOpcode'' (nat_to_dec (unat b))"
| "error_to_string DivisionByZero = ''DivisionByZero''"
| "error_to_string ArithmeticOverflow = ''ArithmeticOverflow''"
| "error_to_string (InvalidJumpTarget t) = debug_app ''InvalidJumpTarget'' (nat_to_dec (unat t))"
| "error_to_string (InvalidRegister r) = debug_app ''InvalidRegister'' (nat_to_dec (unat r))"
| "error_to_string (InvalidConstIndex i) = debug_app ''InvalidConstIndex'' (nat_to_dec (unat i))"
| "error_to_string ReturnDataTooLarge = ''ReturnDataTooLarge''"
| "error_to_string (InvalidLength n) = debug_app ''InvalidLength'' (nat_to_dec n)"
| "error_to_string LogTooLarge = ''LogTooLarge''"
| "error_to_string StorageReadFailed = ''StorageReadFailed''"
| "error_to_string StorageWriteFailed = ''StorageWriteFailed''"
| "error_to_string Unauthorized = ''Unauthorized''"
| "error_to_string AssertFailed = ''AssertFailed''"
| "error_to_string (CrossCellFailed s) = debug_app ''CrossCellFailed'' (debug_str s)"
| "error_to_string BufOverflow = ''BufOverflow''"
| "error_to_string (Trap c) = debug_app ''Trap'' (nat_to_dec (unat c))"
| "error_to_string InvalidBytecode = ''InvalidBytecode''"
| "error_to_string InvalidMagic = ''InvalidMagic''"
| "error_to_string (NotImplemented b) = debug_app ''NotImplemented'' (nat_to_dec (unat b))"

section \<open>Instruction tags\<close>

type_synonym reg = u8

abbreviation tag_ADD :: u8 where "tag_ADD \<equiv> 0x01"
abbreviation tag_SUB :: u8 where "tag_SUB \<equiv> 0x02"
abbreviation tag_MUL :: u8 where "tag_MUL \<equiv> 0x03"
abbreviation tag_DIV :: u8 where "tag_DIV \<equiv> 0x04"
abbreviation tag_MOD :: u8 where "tag_MOD \<equiv> 0x05"
abbreviation tag_ADD_SAT :: u8 where "tag_ADD_SAT \<equiv> 0x06"
abbreviation tag_SUB_SAT :: u8 where "tag_SUB_SAT \<equiv> 0x07"
abbreviation tag_AND :: u8 where "tag_AND \<equiv> 0x10"
abbreviation tag_OR :: u8 where "tag_OR \<equiv> 0x11"
abbreviation tag_XOR :: u8 where "tag_XOR \<equiv> 0x12"
abbreviation tag_NOT :: u8 where "tag_NOT \<equiv> 0x13"
abbreviation tag_SHL :: u8 where "tag_SHL \<equiv> 0x14"
abbreviation tag_SHR :: u8 where "tag_SHR \<equiv> 0x15"
abbreviation tag_EQ :: u8 where "tag_EQ \<equiv> 0x20"
abbreviation tag_NE :: u8 where "tag_NE \<equiv> 0x21"
abbreviation tag_LT :: u8 where "tag_LT \<equiv> 0x22"
abbreviation tag_LTE :: u8 where "tag_LTE \<equiv> 0x23"
abbreviation tag_GT :: u8 where "tag_GT \<equiv> 0x24"
abbreviation tag_GTE :: u8 where "tag_GTE \<equiv> 0x25"
abbreviation tag_IS_ZERO :: u8 where "tag_IS_ZERO \<equiv> 0x26"
abbreviation tag_JUMP :: u8 where "tag_JUMP \<equiv> 0x30"
abbreviation tag_JUMP_IF :: u8 where "tag_JUMP_IF \<equiv> 0x31"
abbreviation tag_JUMP_IF_NOT :: u8 where "tag_JUMP_IF_NOT \<equiv> 0x32"
abbreviation tag_CALL :: u8 where "tag_CALL \<equiv> 0x33"
abbreviation tag_RETURN :: u8 where "tag_RETURN \<equiv> 0x34"
abbreviation tag_HALT :: u8 where "tag_HALT \<equiv> 0x35"
abbreviation tag_TRAP :: u8 where "tag_TRAP \<equiv> 0x36"
abbreviation tag_LOAD_CONST :: u8 where "tag_LOAD_CONST \<equiv> 0x40"
abbreviation tag_LOAD_IMM8 :: u8 where "tag_LOAD_IMM8 \<equiv> 0x41"
abbreviation tag_LOAD_IMM64 :: u8 where "tag_LOAD_IMM64 \<equiv> 0x42"
abbreviation tag_MOVE :: u8 where "tag_MOVE \<equiv> 0x43"
abbreviation tag_SWAP :: u8 where "tag_SWAP \<equiv> 0x44"
abbreviation tag_SLOAD :: u8 where "tag_SLOAD \<equiv> 0x50"
abbreviation tag_SSTORE :: u8 where "tag_SSTORE \<equiv> 0x51"
abbreviation tag_SDELETE :: u8 where "tag_SDELETE \<equiv> 0x52"
abbreviation tag_GET_CALLER :: u8 where "tag_GET_CALLER \<equiv> 0x60"
abbreviation tag_GET_OWNER :: u8 where "tag_GET_OWNER \<equiv> 0x61"
abbreviation tag_GET_CELL_ID :: u8 where "tag_GET_CELL_ID \<equiv> 0x62"
abbreviation tag_GET_HEIGHT :: u8 where "tag_GET_HEIGHT \<equiv> 0x63"
abbreviation tag_GET_TIMESTAMP :: u8 where "tag_GET_TIMESTAMP \<equiv> 0x64"
abbreviation tag_GET_VALUE :: u8 where "tag_GET_VALUE \<equiv> 0x65"
abbreviation tag_GET_CALLDATA_LEN :: u8 where "tag_GET_CALLDATA_LEN \<equiv> 0x66"
abbreviation tag_GET_CALLDATA :: u8 where "tag_GET_CALLDATA \<equiv> 0x67"
abbreviation tag_SET_RETURN :: u8 where "tag_SET_RETURN \<equiv> 0x70"
abbreviation tag_SET_RETURN_REG :: u8 where "tag_SET_RETURN_REG \<equiv> 0x72"
abbreviation tag_EMIT_LOG :: u8 where "tag_EMIT_LOG \<equiv> 0x71"
abbreviation tag_EMIT_LOG_REG :: u8 where "tag_EMIT_LOG_REG \<equiv> 0x73"
abbreviation tag_CALL_CELL :: u8 where "tag_CALL_CELL \<equiv> 0x80"
abbreviation tag_BUF_RESET :: u8 where "tag_BUF_RESET \<equiv> 0xD0"
abbreviation tag_BUF_WRITE_CONST :: u8 where "tag_BUF_WRITE_CONST \<equiv> 0xD1"
abbreviation tag_BUF_WRITE_REG :: u8 where "tag_BUF_WRITE_REG \<equiv> 0xD2"
abbreviation tag_BUF_CALL_CELL :: u8 where "tag_BUF_CALL_CELL \<equiv> 0xD3"
abbreviation tag_BUF_SET_RETURN :: u8 where "tag_BUF_SET_RETURN \<equiv> 0xD4"
abbreviation tag_HASH32 :: u8 where "tag_HASH32 \<equiv> 0x90"
abbreviation tag_HASH32_CONST :: u8 where "tag_HASH32_CONST \<equiv> 0x91"
abbreviation tag_REQUIRE_OWNER :: u8 where "tag_REQUIRE_OWNER \<equiv> 0xA0"
abbreviation tag_REQUIRE_CALLER :: u8 where "tag_REQUIRE_CALLER \<equiv> 0xA1"
abbreviation tag_REQUIRE_EQ :: u8 where "tag_REQUIRE_EQ \<equiv> 0xA2"
abbreviation tag_REQUIRE_NE :: u8 where "tag_REQUIRE_NE \<equiv> 0xA3"
abbreviation tag_REQUIRE_LT :: u8 where "tag_REQUIRE_LT \<equiv> 0xA4"
abbreviation tag_REQUIRE_NON_ZERO :: u8 where "tag_REQUIRE_NON_ZERO \<equiv> 0xA5"
abbreviation tag_REQUIRE_GAS :: u8 where "tag_REQUIRE_GAS \<equiv> 0xA6"
abbreviation tag_TOKEN_BALANCE :: u8 where "tag_TOKEN_BALANCE \<equiv> 0xB0"
abbreviation tag_TOKEN_TRANSFER :: u8 where "tag_TOKEN_TRANSFER \<equiv> 0xB1"
abbreviation tag_TOKEN_MINT :: u8 where "tag_TOKEN_MINT \<equiv> 0xB2"
abbreviation tag_TOKEN_BURN :: u8 where "tag_TOKEN_BURN \<equiv> 0xB3"
abbreviation tag_TOKEN_FREEZE :: u8 where "tag_TOKEN_FREEZE \<equiv> 0xB4"
abbreviation tag_TOKEN_THAW :: u8 where "tag_TOKEN_THAW \<equiv> 0xB5"
abbreviation tag_ACCORD_REQUEST :: u8 where "tag_ACCORD_REQUEST \<equiv> 0xC0"
abbreviation tag_ACCORD_READ :: u8 where "tag_ACCORD_READ \<equiv> 0xC1"

section \<open>Gas\<close>

record gas_meter =
  remaining :: nat
  limit :: nat

definition gas_new :: "nat \<Rightarrow> gas_meter" where
  "gas_new l = \<lparr>remaining = l, limit = l\<rparr>"

definition charge_raw :: "gas_meter \<Rightarrow> nat \<Rightarrow> axiom_error + gas_meter" where
  "charge_raw g cost =
    (if cost \<le> remaining g then Inr (g\<lparr>remaining := remaining g - cost\<rparr>) else Inl OutOfGas)"

definition gas_used :: "gas_meter \<Rightarrow> nat" where
  "gas_used g = limit g - remaining g"

definition has_at_least :: "gas_meter \<Rightarrow> nat \<Rightarrow> bool" where
  "has_at_least g amount \<longleftrightarrow> amount \<le> remaining g"

lemma charge_raw_Inr:
  "charge_raw g c = Inr g' \<longleftrightarrow> c \<le> remaining g \<and> g' = g\<lparr>remaining := remaining g - c\<rparr>"
  by (auto simp: charge_raw_def)

section \<open>The host interface\<close>

record cell_log =
  topics :: "bytes list"
  log_data :: bytes

record cross_cell_result =
  cc_success :: bool
  cc_return_data :: bytes
  cc_gas_used :: nat

datatype staking_op =
    Stake bytes u64
  | Unstake bytes u64
  | Withdraw bytes
  | Unjail bytes

datatype name_op =
    Propose bytes bytes bytes
  | Vote bytes bool
  | Renew bytes
  | Transfer bytes bytes

text \<open>
  The methods of the trait: a method on \<^verbatim>\<open>&self\<close> reads the host state, a method on
  \<^verbatim>\<open>&mut self\<close> also returns the new one. A method with a provided body is a field
  with that body as the value in \<open>default_*\<close> below. A cross-cell call runs a nested
  machine, whose panic would unwind through the caller: its result is an option, with
  \<^const>\<open>None\<close> for a panic.
\<close>

type_synonym 'a axiom_result = "axiom_error + 'a"

record 'h host_ops =
  storage_read :: "'h \<Rightarrow> bytes \<Rightarrow> bytes axiom_result"
  storage_write :: "'h \<Rightarrow> bytes \<Rightarrow> bytes \<Rightarrow> unit axiom_result \<times> 'h"
  storage_delete :: "'h \<Rightarrow> bytes \<Rightarrow> unit axiom_result \<times> 'h"
  caller :: "'h \<Rightarrow> bytes"
  owner :: "'h \<Rightarrow> bytes"
  cell_id :: "'h \<Rightarrow> bytes"
  height :: "'h \<Rightarrow> u64"
  timestamp :: "'h \<Rightarrow> u64"
  call_value :: "'h \<Rightarrow> u128"
  calldata :: "'h \<Rightarrow> bytes"
  set_return_data :: "'h \<Rightarrow> bytes \<Rightarrow> unit axiom_result \<times> 'h"
  emit_log :: "'h \<Rightarrow> cell_log \<Rightarrow> unit axiom_result \<times> 'h"
  call_cell :: "'h \<Rightarrow> bytes \<Rightarrow> bytes \<Rightarrow> u128 \<Rightarrow> nat \<Rightarrow> (cross_cell_result axiom_result \<times> 'h) option"
  host_sha256 :: "'h \<Rightarrow> bytes \<Rightarrow> bytes"
  staking_op_call :: "'h \<Rightarrow> staking_op \<Rightarrow> unit axiom_result \<times> 'h"
  staking_validator_stake :: "'h \<Rightarrow> bytes \<Rightarrow> u64 axiom_result"
  staking_total_stake :: "'h \<Rightarrow> u64 axiom_result"
  governance_set_param :: "'h \<Rightarrow> bytes \<Rightarrow> bytes \<Rightarrow> unit axiom_result \<times> 'h"
  native_transfer :: "'h \<Rightarrow> bytes \<Rightarrow> u128 \<Rightarrow> unit axiom_result \<times> 'h"
  name_op_call :: "'h \<Rightarrow> name_op \<Rightarrow> unit axiom_result \<times> 'h"
  accord_request :: "'h \<Rightarrow> bytes \<Rightarrow> bytes \<Rightarrow> bytes \<Rightarrow> bytes axiom_result \<times> 'h"
  accord_read :: "'h \<Rightarrow> bytes \<Rightarrow> bytes option axiom_result"
  token_balance :: "'h \<Rightarrow> bytes \<Rightarrow> bytes \<Rightarrow> u128 axiom_result"
  token_transfer :: "'h \<Rightarrow> bytes \<Rightarrow> bytes \<Rightarrow> bytes \<Rightarrow> u128 \<Rightarrow> unit axiom_result \<times> 'h"
  token_mint :: "'h \<Rightarrow> bytes \<Rightarrow> bytes \<Rightarrow> u128 \<Rightarrow> unit axiom_result \<times> 'h"
  token_burn :: "'h \<Rightarrow> bytes \<Rightarrow> bytes \<Rightarrow> u128 \<Rightarrow> unit axiom_result \<times> 'h"
  token_freeze :: "'h \<Rightarrow> bytes \<Rightarrow> bytes \<Rightarrow> unit axiom_result \<times> 'h"
  token_thaw :: "'h \<Rightarrow> bytes \<Rightarrow> bytes \<Rightarrow> unit axiom_result \<times> 'h"
  max_return_data :: "'h \<Rightarrow> nat"
  max_log_data :: "'h \<Rightarrow> nat"
  max_log_topics :: "'h \<Rightarrow> nat"
  max_call_depth :: "'h \<Rightarrow> nat"

definition default_token_balance :: "'h \<Rightarrow> bytes \<Rightarrow> bytes \<Rightarrow> u128 axiom_result" where
  "default_token_balance h token account = Inl Unauthorized"

definition default_token_transfer ::
    "'h \<Rightarrow> bytes \<Rightarrow> bytes \<Rightarrow> bytes \<Rightarrow> u128 \<Rightarrow> unit axiom_result \<times> 'h" where
  "default_token_transfer h token from to amount = (Inl Unauthorized, h)"

definition default_token_mint :: "'h \<Rightarrow> bytes \<Rightarrow> bytes \<Rightarrow> u128 \<Rightarrow> unit axiom_result \<times> 'h" where
  "default_token_mint h token recipient amount = (Inl Unauthorized, h)"

definition default_token_burn :: "'h \<Rightarrow> bytes \<Rightarrow> bytes \<Rightarrow> u128 \<Rightarrow> unit axiom_result \<times> 'h" where
  "default_token_burn h token own amount = (Inl Unauthorized, h)"

definition default_token_freeze :: "'h \<Rightarrow> bytes \<Rightarrow> bytes \<Rightarrow> unit axiom_result \<times> 'h" where
  "default_token_freeze h token account = (Inl Unauthorized, h)"

definition default_token_thaw :: "'h \<Rightarrow> bytes \<Rightarrow> bytes \<Rightarrow> unit axiom_result \<times> 'h" where
  "default_token_thaw h token account = (Inl Unauthorized, h)"

definition default_max_return_data :: "'h \<Rightarrow> nat" where
  "default_max_return_data h = 262144"

definition default_max_log_data :: "'h \<Rightarrow> nat" where
  "default_max_log_data h = 65536"

definition default_max_log_topics :: "'h \<Rightarrow> nat" where
  "default_max_log_topics h = 8"

lemmas default_host_defs =
  default_token_balance_def default_token_transfer_def default_token_mint_def
  default_token_burn_def default_token_freeze_def default_token_thaw_def
  default_max_return_data_def default_max_log_data_def default_max_log_topics_def

end
