(* ===== verification/Instructions.thy ===== *)
theory Instructions
  imports Axiom_Types
begin

text \<open>
  The instruction set as data (the enum of \<^verbatim>\<open>opcode.rs\<close>), the byte tag of each
  instruction, and the static gas table with the metered charge of \<^verbatim>\<open>gas.rs\<close>.
\<close>

datatype (plugins only: size) op =
    OpAdd reg reg reg
  | OpSub reg reg reg
  | OpMul reg reg reg
  | OpDiv reg reg reg
  | OpMod reg reg reg
  | OpAddSat reg reg reg
  | OpSubSat reg reg reg
  | OpAnd reg reg reg
  | OpOr reg reg reg
  | OpXor reg reg reg
  | OpNot reg reg
  | OpShl reg reg u8
  | OpShr reg reg u8
  | OpEq reg reg reg
  | OpNe reg reg reg
  | OpLt reg reg reg
  | OpLte reg reg reg
  | OpGt reg reg reg
  | OpGte reg reg reg
  | OpIsZero reg reg
  | OpJump u32
  | OpJumpIf reg u32
  | OpJumpIfNot reg u32
  | OpCall u32
  | OpReturn
  | OpHalt
  | OpTrap u16
  | OpLoadConst reg u16
  | OpLoadImm8 reg u8
  | OpLoadImm64 reg u64
  | OpMove reg reg
  | OpSwap reg reg
  | OpSLoad reg reg
  | OpSStore reg reg
  | OpSDelete reg
  | OpGetCaller reg
  | OpGetOwner reg
  | OpGetCellId reg
  | OpGetHeight reg
  | OpGetTimestamp reg
  | OpGetValue reg
  | OpGetCalldataLen reg
  | OpGetCalldata reg reg
  | OpSetReturn reg reg
  | OpSetReturnReg reg reg
  | OpEmitLog reg reg
  | OpEmitLogReg reg reg reg
  | OpCallCell reg reg reg reg
  | OpBufReset
  | OpBufWriteConst u16
  | OpBufWriteReg reg
  | OpBufCallCell reg reg
  | OpBufSetReturn
  | OpHash32 reg reg
  | OpHash32Const reg u16
  | OpRequireOwner
  | OpRequireCaller reg
  | OpRequireEq reg reg
  | OpRequireNe reg reg
  | OpRequireLt reg reg
  | OpRequireNonZero reg
  | OpRequireGas u64
  | OpTokenBalance reg reg reg
  | OpTokenTransfer reg reg reg reg
  | OpTokenMint reg reg reg
  | OpTokenBurn reg reg reg
  | OpTokenFreeze reg reg
  | OpTokenThaw reg reg
  | OpAccordRequest reg reg reg reg
  | OpAccordRead reg reg

primrec op_tag :: "op \<Rightarrow> u8" where
  "op_tag (OpAdd _ _ _) = tag_ADD"
| "op_tag (OpSub _ _ _) = tag_SUB"
| "op_tag (OpMul _ _ _) = tag_MUL"
| "op_tag (OpDiv _ _ _) = tag_DIV"
| "op_tag (OpMod _ _ _) = tag_MOD"
| "op_tag (OpAddSat _ _ _) = tag_ADD_SAT"
| "op_tag (OpSubSat _ _ _) = tag_SUB_SAT"
| "op_tag (OpAnd _ _ _) = tag_AND"
| "op_tag (OpOr _ _ _) = tag_OR"
| "op_tag (OpXor _ _ _) = tag_XOR"
| "op_tag (OpNot _ _) = tag_NOT"
| "op_tag (OpShl _ _ _) = tag_SHL"
| "op_tag (OpShr _ _ _) = tag_SHR"
| "op_tag (OpEq _ _ _) = tag_EQ"
| "op_tag (OpNe _ _ _) = tag_NE"
| "op_tag (OpLt _ _ _) = tag_LT"
| "op_tag (OpLte _ _ _) = tag_LTE"
| "op_tag (OpGt _ _ _) = tag_GT"
| "op_tag (OpGte _ _ _) = tag_GTE"
| "op_tag (OpIsZero _ _) = tag_IS_ZERO"
| "op_tag (OpJump _) = tag_JUMP"
| "op_tag (OpJumpIf _ _) = tag_JUMP_IF"
| "op_tag (OpJumpIfNot _ _) = tag_JUMP_IF_NOT"
| "op_tag (OpCall _) = tag_CALL"
| "op_tag OpReturn = tag_RETURN"
| "op_tag OpHalt = tag_HALT"
| "op_tag (OpTrap _) = tag_TRAP"
| "op_tag (OpLoadConst _ _) = tag_LOAD_CONST"
| "op_tag (OpLoadImm8 _ _) = tag_LOAD_IMM8"
| "op_tag (OpLoadImm64 _ _) = tag_LOAD_IMM64"
| "op_tag (OpMove _ _) = tag_MOVE"
| "op_tag (OpSwap _ _) = tag_SWAP"
| "op_tag (OpSLoad _ _) = tag_SLOAD"
| "op_tag (OpSStore _ _) = tag_SSTORE"
| "op_tag (OpSDelete _) = tag_SDELETE"
| "op_tag (OpGetCaller _) = tag_GET_CALLER"
| "op_tag (OpGetOwner _) = tag_GET_OWNER"
| "op_tag (OpGetCellId _) = tag_GET_CELL_ID"
| "op_tag (OpGetHeight _) = tag_GET_HEIGHT"
| "op_tag (OpGetTimestamp _) = tag_GET_TIMESTAMP"
| "op_tag (OpGetValue _) = tag_GET_VALUE"
| "op_tag (OpGetCalldataLen _) = tag_GET_CALLDATA_LEN"
| "op_tag (OpGetCalldata _ _) = tag_GET_CALLDATA"
| "op_tag (OpSetReturn _ _) = tag_SET_RETURN"
| "op_tag (OpSetReturnReg _ _) = tag_SET_RETURN_REG"
| "op_tag (OpEmitLog _ _) = tag_EMIT_LOG"
| "op_tag (OpEmitLogReg _ _ _) = tag_EMIT_LOG_REG"
| "op_tag (OpCallCell _ _ _ _) = tag_CALL_CELL"
| "op_tag OpBufReset = tag_BUF_RESET"
| "op_tag (OpBufWriteConst _) = tag_BUF_WRITE_CONST"
| "op_tag (OpBufWriteReg _) = tag_BUF_WRITE_REG"
| "op_tag (OpBufCallCell _ _) = tag_BUF_CALL_CELL"
| "op_tag OpBufSetReturn = tag_BUF_SET_RETURN"
| "op_tag (OpHash32 _ _) = tag_HASH32"
| "op_tag (OpHash32Const _ _) = tag_HASH32_CONST"
| "op_tag OpRequireOwner = tag_REQUIRE_OWNER"
| "op_tag (OpRequireCaller _) = tag_REQUIRE_CALLER"
| "op_tag (OpRequireEq _ _) = tag_REQUIRE_EQ"
| "op_tag (OpRequireNe _ _) = tag_REQUIRE_NE"
| "op_tag (OpRequireLt _ _) = tag_REQUIRE_LT"
| "op_tag (OpRequireNonZero _) = tag_REQUIRE_NON_ZERO"
| "op_tag (OpRequireGas _) = tag_REQUIRE_GAS"
| "op_tag (OpTokenBalance _ _ _) = tag_TOKEN_BALANCE"
| "op_tag (OpTokenTransfer _ _ _ _) = tag_TOKEN_TRANSFER"
| "op_tag (OpTokenMint _ _ _) = tag_TOKEN_MINT"
| "op_tag (OpTokenBurn _ _ _) = tag_TOKEN_BURN"
| "op_tag (OpTokenFreeze _ _) = tag_TOKEN_FREEZE"
| "op_tag (OpTokenThaw _ _) = tag_TOKEN_THAW"
| "op_tag (OpAccordRequest _ _ _ _) = tag_ACCORD_REQUEST"
| "op_tag (OpAccordRead _ _) = tag_ACCORD_READ"

primrec op_cost :: "op \<Rightarrow> nat" where
  "op_cost (OpAdd _ _ _) = 3"
| "op_cost (OpSub _ _ _) = 3"
| "op_cost (OpMul _ _ _) = 5"
| "op_cost (OpDiv _ _ _) = 8"
| "op_cost (OpMod _ _ _) = 8"
| "op_cost (OpAddSat _ _ _) = 3"
| "op_cost (OpSubSat _ _ _) = 3"
| "op_cost (OpAnd _ _ _) = 2"
| "op_cost (OpOr _ _ _) = 2"
| "op_cost (OpXor _ _ _) = 2"
| "op_cost (OpNot _ _) = 2"
| "op_cost (OpShl _ _ _) = 2"
| "op_cost (OpShr _ _ _) = 2"
| "op_cost (OpEq _ _ _) = 2"
| "op_cost (OpNe _ _ _) = 2"
| "op_cost (OpLt _ _ _) = 2"
| "op_cost (OpLte _ _ _) = 2"
| "op_cost (OpGt _ _ _) = 2"
| "op_cost (OpGte _ _ _) = 2"
| "op_cost (OpIsZero _ _) = 2"
| "op_cost (OpJump _) = 2"
| "op_cost (OpJumpIf _ _) = 2"
| "op_cost (OpJumpIfNot _ _) = 2"
| "op_cost (OpCall _) = 5"
| "op_cost OpReturn = 5"
| "op_cost OpHalt = 1"
| "op_cost (OpTrap _) = 1"
| "op_cost (OpLoadConst _ _) = 1"
| "op_cost (OpLoadImm8 _ _) = 1"
| "op_cost (OpLoadImm64 _ _) = 1"
| "op_cost (OpMove _ _) = 1"
| "op_cost (OpSwap _ _) = 1"
| "op_cost (OpSLoad _ _) = 200"
| "op_cost (OpSStore _ _) = 500"
| "op_cost (OpSDelete _) = 300"
| "op_cost (OpGetCaller _) = 3"
| "op_cost (OpGetOwner _) = 3"
| "op_cost (OpGetCellId _) = 3"
| "op_cost (OpGetHeight _) = 3"
| "op_cost (OpGetTimestamp _) = 3"
| "op_cost (OpGetValue _) = 3"
| "op_cost (OpGetCalldataLen _) = 3"
| "op_cost (OpGetCalldata _ _) = 3"
| "op_cost (OpSetReturn _ _) = 10"
| "op_cost (OpSetReturnReg _ _) = 10"
| "op_cost (OpEmitLog _ _) = 100"
| "op_cost (OpEmitLogReg _ _ _) = 100"
| "op_cost (OpCallCell _ _ _ _) = 1000"
| "op_cost OpBufReset = 1"
| "op_cost (OpBufWriteConst _) = 2"
| "op_cost (OpBufWriteReg _) = 2"
| "op_cost (OpBufCallCell _ _) = 1000"
| "op_cost OpBufSetReturn = 10"
| "op_cost (OpHash32 _ _) = 50"
| "op_cost (OpHash32Const _ _) = 50"
| "op_cost OpRequireOwner = 2"
| "op_cost (OpRequireCaller _) = 2"
| "op_cost (OpRequireEq _ _) = 2"
| "op_cost (OpRequireNe _ _) = 2"
| "op_cost (OpRequireLt _ _) = 2"
| "op_cost (OpRequireNonZero _) = 2"
| "op_cost (OpRequireGas _) = 2"
| "op_cost (OpTokenBalance _ _ _) = 200"
| "op_cost (OpTokenTransfer _ _ _ _) = 500"
| "op_cost (OpTokenMint _ _ _) = 500"
| "op_cost (OpTokenBurn _ _ _) = 500"
| "op_cost (OpTokenFreeze _ _) = 300"
| "op_cost (OpTokenThaw _ _) = 300"
| "op_cost (OpAccordRequest _ _ _ _) = 10000"
| "op_cost (OpAccordRead _ _) = 500"

definition gas_charge :: "gas_meter \<Rightarrow> op \<Rightarrow> axiom_error + gas_meter" where
  "gas_charge g i = charge_raw g (op_cost i)"

lemma op_cost_pos: "0 < op_cost i"
  by (cases i) auto

end
