(* ===== verification/Bytecode.thy ===== *)
theory Bytecode
  imports Axiom_Types "HOL-Library.Sublist"
begin

text \<open>
  The container format of a cell (\<^verbatim>\<open>bytecode.rs\<close>): header, constant pool and code
  with little-endian length prefixes, its size limits, the decoder with every
  rejection, and the encoder. The main lemma characterises the decoder completely:
  it returns a cell exactly when that cell is within the limits and its encoding is a
  prefix of the input.
\<close>

section \<open>Format\<close>

definition MAGIC :: bytes where
  "MAGIC = [0x41, 0x58, 0x49, 0x4F]"

definition VERSION :: u8 where
  "VERSION = 2"

definition MAX_CONST_POOL_ENTRIES :: nat where
  "MAX_CONST_POOL_ENTRIES = 65535"

definition MAX_CONST_ENTRY_BYTES :: nat where
  "MAX_CONST_ENTRY_BYTES = 65536"

definition MAX_CODE_BYTES :: nat where
  "MAX_CODE_BYTES = 1048576"

record cell_bytecode =
  const_pool :: "bytes list"
  code :: bytes

text \<open>\<^verbatim>\<open>&raw[pos..pos + n]\<close> and the fixed-width reads the decoder makes at a position.\<close>

definition slice :: "bytes \<Rightarrow> nat \<Rightarrow> nat \<Rightarrow> bytes" where
  "slice raw pos n = take n (drop pos raw)"

definition u16_at :: "bytes \<Rightarrow> nat \<Rightarrow> nat" where
  "u16_at raw pos = unat (from_le_bytes (slice raw pos 2) :: u16)"

definition u32_at :: "bytes \<Rightarrow> nat \<Rightarrow> nat" where
  "u32_at raw pos = unat (from_le_bytes (slice raw pos 4) :: u32)"

text \<open>A length-prefixed blob of at most \<open>lim\<close> bytes: the body of the pool loop, and the code field.\<close>

definition decode_blob :: "bytes \<Rightarrow> nat \<Rightarrow> nat \<Rightarrow> axiom_error + (bytes \<times> nat)" where
  "decode_blob raw lim pos =
    (if pos + 4 > length raw then Inl InvalidBytecode
     else let entry_len = u32_at raw pos; pos = pos + 4 in
       if entry_len > lim then Inl InvalidBytecode
       else if pos + entry_len > length raw then Inl InvalidBytecode
       else Inr (slice raw pos entry_len, pos + entry_len))"

primrec decode_pool :: "bytes \<Rightarrow> nat \<Rightarrow> nat \<Rightarrow> bytes list \<Rightarrow> axiom_error + (bytes list \<times> nat)" where
  "decode_pool raw 0 pos pool = Inr (pool, pos)"
| "decode_pool raw (Suc n) pos pool =
    (case decode_blob raw MAX_CONST_ENTRY_BYTES pos of
       Inl e \<Rightarrow> Inl e
     | Inr (entry, pos') \<Rightarrow> decode_pool raw n pos' (pool @ [entry]))"

definition decode :: "bytes \<Rightarrow> axiom_error + cell_bytecode" where
  "decode raw =
    (if length raw < 6 then Inl InvalidMagic
     else if slice raw 0 4 \<noteq> MAGIC then Inl InvalidMagic
     else if raw ! 4 \<noteq> VERSION then Inl InvalidBytecode
     else if raw ! 5 \<noteq> 0 then Inl InvalidBytecode
     else if 6 + 2 > length raw then Inl InvalidBytecode
     else let pool_count = u16_at raw 6 in
       if pool_count > MAX_CONST_POOL_ENTRIES then Inl InvalidBytecode
       else case decode_pool raw pool_count 8 [] of
         Inl e \<Rightarrow> Inl e
       | Inr (pool, pos) \<Rightarrow>
           (case decode_blob raw MAX_CODE_BYTES pos of
              Inl e \<Rightarrow> Inl e
            | Inr (c, _) \<Rightarrow> Inr \<lparr>const_pool = pool, code = c\<rparr>))"

definition encode_blob :: "bytes \<Rightarrow> bytes" where
  "encode_blob entry = to_le_bytes 4 (word_of_nat (length entry) :: u32) @ entry"

definition encode :: "cell_bytecode \<Rightarrow> bytes" where
  "encode c = MAGIC @ [VERSION] @ [0]
     @ to_le_bytes 2 (word_of_nat (length (const_pool c)) :: u16)
     @ concat (map encode_blob (const_pool c))
     @ encode_blob (code c)"

definition is_axiom :: "bytes \<Rightarrow> bool" where
  "is_axiom raw \<longleftrightarrow> length raw \<ge> 4 \<and> slice raw 0 4 = MAGIC"

text \<open>The limits the decoder enforces.\<close>

definition within_limits :: "cell_bytecode \<Rightarrow> bool" where
  "within_limits c \<longleftrightarrow> length (const_pool c) \<le> MAX_CONST_POOL_ENTRIES
     \<and> (\<forall>e \<in> set (const_pool c). length e \<le> MAX_CONST_ENTRY_BYTES)
     \<and> length (code c) \<le> MAX_CODE_BYTES"

section \<open>Blobs\<close>

lemma drop_past: "drop pos raw = xs @ ys \<Longrightarrow> drop (pos + length xs) raw = ys"
  by (metis add.commute append_eq_conv_conj drop_drop)

lemmas limit_defs = MAX_CONST_POOL_ENTRIES_def MAX_CONST_ENTRY_BYTES_def MAX_CODE_BYTES_def

lemma length_encode_blob: "length (encode_blob e) = 4 + length e"
  by (simp add: encode_blob_def)

lemma drop_eq_blob:
  assumes "drop pos raw = encode_blob e @ rest" and "length e \<le> lim" and "lim < 2 ^ 32"
  shows "decode_blob raw lim pos = Inr (e, pos + length (encode_blob e))"
proof -
  have len: "length raw - pos = 4 + length e + length rest"
    using arg_cong [OF assms(1), of length] by (simp add: length_encode_blob)
  have pre: "slice raw pos 4 = to_le_bytes 4 (word_of_nat (length e) :: u32)"
    by (simp add: slice_def assms(1) encode_blob_def)
  have "u32_at raw pos = length e"
    using assms(2,3) by (simp add: u32_at_def pre from_to_le_bytes unat_of_nat)
  moreover have "slice raw (pos + 4) (length e) = e"
  proof -
    have "drop (pos + 4) raw = drop 4 (drop pos raw)" by (simp add: add.commute)
    also have "\<dots> = e @ rest" by (simp add: assms(1) encode_blob_def)
    finally show ?thesis by (simp add: slice_def)
  qed
  ultimately show ?thesis using len assms(2)
    by (auto simp: decode_blob_def Let_def length_encode_blob)
qed

lemma decode_blob_Inr:
  assumes "decode_blob raw lim pos = Inr (e, pos')"
  shows "length e \<le> lim \<and> drop pos raw = encode_blob e @ drop pos' raw \<and> pos' \<le> length raw"
proof -
  let ?n = "u32_at raw pos"
  from assms have le: "pos + 4 \<le> length raw" "?n \<le> lim" "pos + 4 + ?n \<le> length raw"
    and e: "e = slice raw (pos + 4) ?n" and p: "pos' = pos + 4 + ?n"
    by (auto simp: decode_blob_def Let_def split: if_splits)
  have len: "length e = ?n" using le by (simp add: e slice_def)
  have "to_le_bytes 4 (word_of_nat ?n :: u32) = slice raw pos 4"
    using le by (simp add: u32_at_def to_from_le_bytes slice_def)
  moreover have "drop pos raw = slice raw pos 4 @ slice raw (pos + 4) ?n @ drop pos' raw"
  proof -
    have "drop pos raw = slice raw pos 4 @ drop (pos + 4) raw"
      using append_take_drop_id [of 4 "drop pos raw"] by (simp add: slice_def add.commute)
    also have "drop (pos + 4) raw = slice raw (pos + 4) ?n @ drop pos' raw"
      using append_take_drop_id [of ?n "drop (pos + 4) raw"] by (simp add: slice_def p ac_simps)
    finally show ?thesis .
  qed
  ultimately show ?thesis using le len by (simp add: encode_blob_def e p)
qed

section \<open>The pool\<close>

lemma decode_pool_complete:
  assumes "drop pos raw = concat (map encode_blob es) @ rest"
    and "\<forall>e \<in> set es. length e \<le> MAX_CONST_ENTRY_BYTES"
  shows "decode_pool raw (length es) pos pool
           = Inr (pool @ es, pos + length (concat (map encode_blob es)))"
  using assms
proof (induction es arbitrary: pos pool)
  case Nil
  then show ?case by simp
next
  case (Cons e es)
  have "decode_blob raw MAX_CONST_ENTRY_BYTES pos = Inr (e, pos + length (encode_blob e))"
    using Cons.prems by (intro drop_eq_blob) (auto simp: limit_defs)
  moreover have "drop (pos + length (encode_blob e)) raw = concat (map encode_blob es) @ rest"
    using Cons.prems(1) by (intro drop_past) simp
  ultimately show ?case using Cons.IH Cons.prems(2) by (simp add: add.assoc)
qed

lemma decode_pool_sound:
  assumes "decode_pool raw n pos pool = Inr (pool', pos')" and "pos \<le> length raw"
  shows "\<exists>es. pool' = pool @ es \<and> length es = n
           \<and> (\<forall>e \<in> set es. length e \<le> MAX_CONST_ENTRY_BYTES)
           \<and> drop pos raw = concat (map encode_blob es) @ drop pos' raw \<and> pos' \<le> length raw"
  using assms
proof (induction n arbitrary: pos pool)
  case 0
  then show ?case by auto
next
  case (Suc n)
  then obtain e p where b: "decode_blob raw MAX_CONST_ENTRY_BYTES pos = Inr (e, p)"
    and r: "decode_pool raw n p (pool @ [e]) = Inr (pool', pos')"
    by (auto split: sum.splits)
  note B = decode_blob_Inr [OF b]
  then obtain es where "pool' = (pool @ [e]) @ es" "length es = n"
    "\<forall>e \<in> set es. length e \<le> MAX_CONST_ENTRY_BYTES"
    "drop p raw = concat (map encode_blob es) @ drop pos' raw" "pos' \<le> length raw"
    using Suc.IH [OF r] by blast
  with B show ?case by (intro exI [of _ "e # es"]) auto
qed

section \<open>The decoder characterised\<close>

lemma header_split:
  assumes "6 + 2 \<le> length raw"
  shows "raw = slice raw 0 4 @ [raw ! 4] @ [raw ! 5] @ slice raw 6 2 @ drop 8 raw"
proof -
  have "raw = take 4 raw @ drop 4 raw" by simp
  also have "drop 4 raw = raw ! 4 # raw ! 5 # drop 6 raw"
    using assms by (simp add: Cons_nth_drop_Suc [symmetric])
  also have "drop 6 raw = take 2 (drop 6 raw) @ drop 8 raw"
    using append_take_drop_id [of 2 "drop 6 raw"] by simp
  finally show ?thesis by (simp add: slice_def)
qed

lemma decode_complete:
  assumes w: "within_limits c" and raw: "raw = encode c @ rest"
  shows "decode raw = Inr c"
proof -
  let ?pool = "concat (map encode_blob (const_pool c))"
  let ?hdr = "MAGIC @ [VERSION] @ [0] @ to_le_bytes 2 (word_of_nat (length (const_pool c)) :: u16)"
  have split: "raw = ?hdr @ ?pool @ encode_blob (code c) @ rest"
    by (simp add: raw encode_def)
  have hl: "length ?hdr = 8" by (simp add: MAGIC_def)
  have len: "8 \<le> length raw" unfolding split using hl by simp
  have head: "slice raw 0 4 = MAGIC" "raw ! 4 = VERSION" "raw ! 5 = 0"
    by (simp_all add: split slice_def MAGIC_def)
  have cnt: "u16_at raw 6 = length (const_pool c)"
  proof -
    have "slice raw 6 2 = to_le_bytes 2 (word_of_nat (length (const_pool c)) :: u16)"
      by (simp add: split slice_def MAGIC_def)
    then show ?thesis using w
      by (simp add: u16_at_def from_to_le_bytes unat_of_nat within_limits_def limit_defs)
  qed
  have d8: "drop 8 raw = ?pool @ encode_blob (code c) @ rest"
    using drop_past [of 0 raw ?hdr] hl split by simp
  have pool: "decode_pool raw (length (const_pool c)) 8 [] = Inr (const_pool c, 8 + length ?pool)"
    using decode_pool_complete [OF d8, of "[]"] w by (simp add: within_limits_def)
  have "drop (8 + length ?pool) raw = encode_blob (code c) @ rest"
    using d8 by (rule drop_past)
  then have "decode_blob raw MAX_CODE_BYTES (8 + length ?pool)
      = Inr (code c, 8 + length ?pool + length (encode_blob (code c)))"
    by (rule drop_eq_blob) (use w in \<open>auto simp: within_limits_def limit_defs\<close>)
  then show ?thesis using w len head cnt pool
    by (simp add: decode_def Let_def within_limits_def)
qed

lemma decode_sound:
  assumes "decode raw = Inr c"
  shows "within_limits c \<and> prefix (encode c) raw"
proof -
  let ?n = "u16_at raw 6"
  from assms obtain pool pos cd pos' where
    h: "slice raw 0 4 = MAGIC" "raw ! 4 = VERSION" "raw ! 5 = 0" "8 \<le> length raw"
      "?n \<le> MAX_CONST_POOL_ENTRIES"
    and p: "decode_pool raw ?n 8 [] = Inr (pool, pos)"
    and b: "decode_blob raw MAX_CODE_BYTES pos = Inr (cd, pos')"
    and c: "c = \<lparr>const_pool = pool, code = cd\<rparr>"
    by (auto simp: decode_def Let_def split: if_splits sum.splits)
  from decode_pool_sound [OF p h(4)] have P: "length pool = ?n"
    "\<forall>e \<in> set pool. length e \<le> MAX_CONST_ENTRY_BYTES"
    "drop 8 raw = concat (map encode_blob pool) @ drop pos raw" by auto
  from decode_blob_Inr [OF b] have B: "length cd \<le> MAX_CODE_BYTES"
    "drop pos raw = encode_blob cd @ drop pos' raw" by auto
  have "to_le_bytes 2 (word_of_nat ?n :: u16) = slice raw 6 2"
    using h(4) by (simp add: u16_at_def to_from_le_bytes slice_def)
  then have "raw = encode c @ drop pos' raw"
    using header_split [of raw] h P B by (simp add: encode_def c)
  then have "prefix (encode c) raw" by (metis prefixI)
  then show ?thesis using P B h by (simp add: within_limits_def c)
qed

text \<open>
  C21. The decoder accepts an input and returns a cell exactly when the cell respects
  every size limit and its encoding is a prefix of the input: nothing outside the
  limits is accepted, every encoded cell is accepted and read back unchanged, and
  bytes after the code section are ignored.
\<close>
theorem decode_iff:
  "decode raw = Inr c \<longleftrightarrow> within_limits c \<and> prefix (encode c) raw"
  using decode_sound decode_complete by (auto elim: prefixE)

lemma encode_is_axiom: "is_axiom (encode c)"
  by (simp add: is_axiom_def encode_def slice_def MAGIC_def)

text \<open>
  Every rejection of the decoder is one of its two error values, and an input whose
  magic bytes are right and whose length reaches the version and reserved bytes is never
  rejected with the magic error.
\<close>
theorem decode_error:
  "(\<exists>c. decode raw = Inr c) \<or>
   decode raw = Inl (if is_axiom raw \<and> 6 \<le> length raw then InvalidBytecode else InvalidMagic)"
proof -
  have blob: "decode_blob raw lim pos = Inl e \<Longrightarrow> e = InvalidBytecode" for lim pos e
    by (auto simp: decode_blob_def Let_def split: if_splits)
  have pool: "decode_pool raw n pos pool = Inl e \<Longrightarrow> e = InvalidBytecode" for n pos pool e
    by (induction n arbitrary: pos pool) (auto dest: blob split: sum.splits)
  show ?thesis
    by (auto simp: decode_def is_axiom_def Let_def dest: blob pool split: sum.splits prod.splits)
qed

end
