(* ===== verification/VM_State.thy ===== *)
theory VM_State
  imports U256 Bytecode
begin

text \<open>
  The state of the Axiom machine (struct \<^verbatim>\<open>Vm\<close> and the locals of \<^verbatim>\<open>execute\<close>), the
  outcome of one instruction, and the macros of \<^verbatim>\<open>execute\<close> as combinators in
  continuation style: each charges gas, reads an operand or asks the host, and either
  passes on the value and the new state or leaves the loop with an error.
\<close>

section \<open>State\<close>

definition CALL_STACK_LIMIT :: nat where
  "CALL_STACK_LIMIT = 64"

definition CALL_BUF_SIZE :: nat where
  "CALL_BUF_SIZE = 4096"

text \<open>
  The register file is an array of 256 registers indexed by a byte, i.e. a total
  function on bytes.
\<close>

record 'h vm =
  vm_host :: 'h
  regs :: "u8 \<Rightarrow> bytes"
  gas :: gas_meter
  call_stack :: "nat list"
  call_depth :: nat
  depth :: nat
  call_buf :: bytes
  call_buf_len :: nat

record 'h frame = "'h vm" +
  pc :: nat
  logs :: "cell_log list"

record exec_result =
  success :: bool
  return_data :: bytes
  res_gas_used :: nat
  error :: "axiom_error option"
  res_logs :: "cell_log list"

definition vm_new :: "'h \<Rightarrow> nat \<Rightarrow> nat \<Rightarrow> 'h vm" where
  "vm_new h gas_limit d = \<lparr>vm_host = h, regs = (\<lambda>_. zeros 32), gas = gas_new gas_limit,
     call_stack = replicate CALL_STACK_LIMIT 0, call_depth = 0, depth = d,
     call_buf = zeros CALL_BUF_SIZE, call_buf_len = 0\<rparr>"

definition reg_at :: "('h, 'z) vm_scheme \<Rightarrow> u8 \<Rightarrow> bytes" where
  "reg_at s r = regs s r"

definition set_reg :: "u8 \<Rightarrow> bytes \<Rightarrow> ('h, 'z) vm_scheme \<Rightarrow> ('h, 'z) vm_scheme" where
  "set_reg r v s = (if r \<noteq> 0 then s\<lparr>regs := (regs s)(r := v)\<rparr> else s)"

text \<open>\<^verbatim>\<open>uN::from_le_bytes(self.reg(r)[..n].try_into().unwrap())\<close>.\<close>

definition reg16 :: "('h, 'z) vm_scheme \<Rightarrow> u8 \<Rightarrow> u16" where
  "reg16 s r = from_le_bytes (take 2 (reg_at s r))"

definition reg_usize :: "('h, 'z) vm_scheme \<Rightarrow> u8 \<Rightarrow> nat" where
  "reg_usize s r = unat (from_le_bytes (take 8 (reg_at s r)) :: u64)"

definition reg128 :: "('h, 'z) vm_scheme \<Rightarrow> u8 \<Rightarrow> u128" where
  "reg128 s r = from_le_bytes (take 16 (reg_at s r))"

section \<open>Outcomes and the macros of the loop\<close>

datatype 'h outcome =
    Continue "'h frame"
  | Halted "'h frame"
  | Bail "'h frame" axiom_error
  | Panic

type_synonym 'h handler = "'h frame \<Rightarrow> 'h outcome"

definition charge :: "nat \<Rightarrow> 'h handler \<Rightarrow> 'h handler" where
  "charge cost k s = (case charge_raw (gas s) cost of
      Inl e \<Rightarrow> Bail s e
    | Inr g \<Rightarrow> k (s\<lparr>gas := g\<rparr>))"

definition read8 :: "cell_bytecode \<Rightarrow> (u8 \<Rightarrow> 'h handler) \<Rightarrow> 'h handler" where
  "read8 cell k s = (if pc s < length (code cell)
     then k (code cell ! pc s) (s\<lparr>pc := pc s + 1\<rparr>)
     else Bail s InvalidBytecode)"

definition read16 :: "cell_bytecode \<Rightarrow> (u16 \<Rightarrow> 'h handler) \<Rightarrow> 'h handler" where
  "read16 cell k s = (if pc s + 2 \<le> length (code cell)
     then k (from_le_bytes (slice (code cell) (pc s) 2)) (s\<lparr>pc := pc s + 2\<rparr>)
     else Bail s InvalidBytecode)"

definition read32 :: "cell_bytecode \<Rightarrow> (u32 \<Rightarrow> 'h handler) \<Rightarrow> 'h handler" where
  "read32 cell k s = (if pc s + 4 \<le> length (code cell)
     then k (from_le_bytes (slice (code cell) (pc s) 4)) (s\<lparr>pc := pc s + 4\<rparr>)
     else Bail s InvalidBytecode)"

definition read64 :: "cell_bytecode \<Rightarrow> (u64 \<Rightarrow> 'h handler) \<Rightarrow> 'h handler" where
  "read64 cell k s = (if pc s + 8 \<le> length (code cell)
     then k (from_le_bytes (slice (code cell) (pc s) 8)) (s\<lparr>pc := pc s + 8\<rparr>)
     else Bail s InvalidBytecode)"

definition get_const :: "cell_bytecode \<Rightarrow> u16 \<Rightarrow> (bytes \<Rightarrow> 'h handler) \<Rightarrow> 'h handler" where
  "get_const cell idx k s = (if unat idx < length (const_pool cell)
     then k (const_pool cell ! unat idx) s
     else Bail s (InvalidConstIndex idx))"

text \<open>
  \<^verbatim>\<open>match self.host.f(..) { Ok(v) => .., Err(e) => bail!(e) }\<close> for a reading and for a
  mutating method, and \<^verbatim>\<open>if c { bail!(e) }\<close>.
\<close>

definition try_read :: "'a axiom_result \<Rightarrow> ('a \<Rightarrow> 'h handler) \<Rightarrow> 'h handler" where
  "try_read r k s = (case r of Inl e \<Rightarrow> Bail s e | Inr v \<Rightarrow> k v s)"

definition try_host :: "'a axiom_result \<times> 'h \<Rightarrow> ('a \<Rightarrow> 'h handler) \<Rightarrow> 'h handler" where
  "try_host rh k s = try_read (fst rh) k (s\<lparr>vm_host := snd rh\<rparr>)"

definition bail_if :: "bool \<Rightarrow> axiom_error \<Rightarrow> 'h handler \<Rightarrow> 'h handler" where
  "bail_if c e k s = (if c then Bail s e else k s)"

definition arith3 :: "cell_bytecode \<Rightarrow> nat \<Rightarrow> (limbs \<Rightarrow> limbs \<Rightarrow> limbs option) \<Rightarrow> 'h handler" where
  "arith3 cell cost f = charge cost (read8 cell (\<lambda>dst. read8 cell (\<lambda>a. read8 cell (\<lambda>b s.
     case f (u256 (reg_at s a)) (u256 (reg_at s b)) of
       Some r \<Rightarrow> Continue (set_reg dst (to32 r) s)
     | None \<Rightarrow> Bail s ArithmeticOverflow))))"

definition arith3_sat :: "cell_bytecode \<Rightarrow> nat \<Rightarrow> (limbs \<Rightarrow> limbs \<Rightarrow> limbs) \<Rightarrow> 'h handler" where
  "arith3_sat cell cost f = charge cost (read8 cell (\<lambda>dst. read8 cell (\<lambda>a. read8 cell (\<lambda>b s.
     Continue (set_reg dst (to32 (f (u256 (reg_at s a)) (u256 (reg_at s b)))) s)))))"

definition bitwise3 :: "cell_bytecode \<Rightarrow> (limbs \<Rightarrow> limbs \<Rightarrow> limbs) \<Rightarrow> 'h handler" where
  "bitwise3 cell f = charge 2 (read8 cell (\<lambda>dst. read8 cell (\<lambda>a. read8 cell (\<lambda>b s.
     Continue (set_reg dst (to32 (f (u256 (reg_at s a)) (u256 (reg_at s b)))) s)))))"

definition cmp3 :: "cell_bytecode \<Rightarrow> (limbs \<Rightarrow> limbs \<Rightarrow> bool) \<Rightarrow> 'h handler" where
  "cmp3 cell p = charge 2 (read8 cell (\<lambda>dst. read8 cell (\<lambda>a. read8 cell (\<lambda>b s.
     Continue (set_reg dst (bval (p (u256 (reg_at s a)) (u256 (reg_at s b)))) s)))))"

section \<open>Reasoning about outcomes\<close>

text \<open>
  \<open>ends C E p out\<close>: a continuing outcome satisfies \<open>C\<close>, a final one (halt or error)
  satisfies \<open>E\<close>, and a panic is possible only if \<open>p\<close>. The rules below walk through a
  handler built from the macros.
\<close>

definition ends :: "('h frame \<Rightarrow> bool) \<Rightarrow> ('h frame \<Rightarrow> bool) \<Rightarrow> bool \<Rightarrow> 'h outcome \<Rightarrow> bool" where
  "ends C E p out \<longleftrightarrow> (case out of
      Continue s \<Rightarrow> C s | Halted s \<Rightarrow> E s | Bail s e \<Rightarrow> E s | Panic \<Rightarrow> p)"

named_theorems vc \<open>rules that walk through the macros of a handler\<close>

lemma ends_simps [simp]:
  "ends C E p (Continue s) = C s" "ends C E p (Halted s) = E s"
  "ends C E p (Bail s e) = E s" "ends C E p Panic = p"
  by (simp_all add: ends_def)

lemma ends_intros [vc]:
  "C s \<Longrightarrow> ends C E p (Continue s)" "E s \<Longrightarrow> ends C E p (Halted s)"
  "E s \<Longrightarrow> ends C E p (Bail s e)" "p \<Longrightarrow> ends C E p Panic"
  by simp_all

lemma ends_if [vc]:
  assumes "b \<Longrightarrow> ends C E p x" and "\<not> b \<Longrightarrow> ends C E p y"
  shows "ends C E p (if b then x else y)"
  using assms by simp

lemma ends_option [vc]:
  assumes "x = None \<Longrightarrow> ends C E p y" and "\<And>v. x = Some v \<Longrightarrow> ends C E p (f v)"
  shows "ends C E p (case x of None \<Rightarrow> y | Some v \<Rightarrow> f v)"
  using assms by (cases x) auto

lemma ends_prod [vc]:
  assumes "\<And>a b. x = (a, b) \<Longrightarrow> ends C E p (f a b)"
  shows "ends C E p (case x of (a, b) \<Rightarrow> f a b)"
  using assms by (cases x) auto

lemma ends_charge [vc]:
  assumes "c \<le> remaining (gas s) \<Longrightarrow>
      ends C E p (k (s\<lparr>gas := (gas s)\<lparr>remaining := remaining (gas s) - c\<rparr>\<rparr>))"
    and "E s"
  shows "ends C E p (charge c k s)"
  using assms by (simp add: charge_def charge_raw_def)

lemma ends_read8 [vc]:
  assumes "\<And>v. pc s + 1 \<le> length (code cell) \<Longrightarrow> ends C E p (k v (s\<lparr>pc := pc s + 1\<rparr>))" and "E s"
  shows "ends C E p (read8 cell k s)"
  using assms by (simp add: read8_def Suc_le_eq)

lemma ends_read16 [vc]:
  assumes "\<And>v. pc s + 2 \<le> length (code cell) \<Longrightarrow> ends C E p (k v (s\<lparr>pc := pc s + 2\<rparr>))" and "E s"
  shows "ends C E p (read16 cell k s)"
  using assms by (simp add: read16_def)

lemma ends_read32 [vc]:
  assumes "\<And>v. pc s + 4 \<le> length (code cell) \<Longrightarrow> ends C E p (k v (s\<lparr>pc := pc s + 4\<rparr>))" and "E s"
  shows "ends C E p (read32 cell k s)"
  using assms by (simp add: read32_def)

lemma ends_read64 [vc]:
  assumes "\<And>v. pc s + 8 \<le> length (code cell) \<Longrightarrow> ends C E p (k v (s\<lparr>pc := pc s + 8\<rparr>))" and "E s"
  shows "ends C E p (read64 cell k s)"
  using assms by (simp add: read64_def)

lemma ends_get_const [vc]:
  assumes "\<And>e. e \<in> set (const_pool cell) \<Longrightarrow> ends C E p (k e s)" and "E s"
  shows "ends C E p (get_const cell i k s)"
  using assms by (simp add: get_const_def)

lemma ends_try_read [vc]:
  assumes "\<And>v. r = Inr v \<Longrightarrow> ends C E p (k v s)" and "E s"
  shows "ends C E p (try_read r k s)"
  using assms by (simp add: try_read_def split: sum.split)

lemma ends_try_host [vc]:
  assumes "\<And>v. fst rh = Inr v \<Longrightarrow> ends C E p (k v (s\<lparr>vm_host := snd rh\<rparr>))"
    and "E (s\<lparr>vm_host := snd rh\<rparr>)"
  shows "ends C E p (try_host rh k s)"
  using assms by (simp add: try_host_def ends_try_read)

lemma ends_bail_if [vc]:
  assumes "\<not> c \<Longrightarrow> ends C E p (k s)" and "E s"
  shows "ends C E p (bail_if c e k s)"
  using assms by (simp add: bail_if_def)

lemma set_reg_frame [simp]:
  "gas (set_reg r v s) = gas s" "vm_host (set_reg r v s) = vm_host s"
  "call_stack (set_reg r v s) = call_stack s" "call_depth (set_reg r v s) = call_depth s"
  "depth (set_reg r v s) = depth s" "call_buf (set_reg r v s) = call_buf s"
  "call_buf_len (set_reg r v s) = call_buf_len s"
  by (simp_all add: set_reg_def)

lemma set_reg_locals [simp]:
  "pc (set_reg r v s) = pc s" "logs (set_reg r v s) = logs s"
  by (simp_all add: set_reg_def)

lemma reg_at_set_reg: "reg_at (set_reg r v s) q = (if q = r \<and> r \<noteq> 0 then v else reg_at s q)"
  by (simp add: reg_at_def set_reg_def)

lemma reg_at_frame [simp]:
  "reg_at (s\<lparr>gas := g\<rparr>) r = reg_at s r" "reg_at (s\<lparr>vm_host := h\<rparr>) r = reg_at s r"
  "reg_at (s\<lparr>call_stack := x\<rparr>) r = reg_at s r" "reg_at (s\<lparr>call_depth := d\<rparr>) r = reg_at s r"
  "reg_at (s\<lparr>call_buf := b\<rparr>) r = reg_at s r" "reg_at (s\<lparr>call_buf_len := d\<rparr>) r = reg_at s r"
  by (simp_all add: reg_at_def)

lemma reg_at_locals [simp]:
  "reg_at (s\<lparr>pc := d\<rparr>) r = reg_at s r" "reg_at (s\<lparr>logs := l\<rparr>) r = reg_at s r"
  by (simp_all add: reg_at_def)

lemma reg_reads_frame [simp]:
  "reg16 (s\<lparr>gas := g\<rparr>) r = reg16 s r" "reg16 (s\<lparr>pc := d\<rparr>) r = reg16 s r"
  "reg_usize (s\<lparr>gas := g\<rparr>) r = reg_usize s r" "reg_usize (s\<lparr>pc := d\<rparr>) r = reg_usize s r"
  "reg128 (s\<lparr>gas := g\<rparr>) r = reg128 s r" "reg128 (s\<lparr>pc := d\<rparr>) r = reg128 s r"
  by (simp_all add: reg16_def reg_usize_def reg128_def)

end
