(* ===== verification/VM.thy ===== *)
theory VM
  imports VM_State
begin

text \<open>
  The execution loop of the Axiom machine (\<^verbatim>\<open>vm.rs\<close>): one handler per arm of the
  match over the instruction tag, the dispatch, the loop, and \<^verbatim>\<open>execute\<close>. The loop is a
  total function: it is proved here that every instruction that continues has paid at
  least one unit of gas.
\<close>

section \<open>Arithmetic, bitwise operations and comparisons\<close>

definition exec_div :: "cell_bytecode \<Rightarrow> 'h handler" where
  "exec_div cell = charge 8 (read8 cell (\<lambda>dst. read8 cell (\<lambda>a. read8 cell (\<lambda>b s.
     let bv = u256 (reg_at s b) in
     bail_if (bv = L4 0 0 0 0) DivisionByZero (\<lambda>s.
       case divmod (u256 (reg_at s a)) bv of
         None \<Rightarrow> Panic
       | Some (q, r) \<Rightarrow> Continue (set_reg dst (to32 q) s)) s))))"

definition exec_mod :: "cell_bytecode \<Rightarrow> 'h handler" where
  "exec_mod cell = charge 8 (read8 cell (\<lambda>dst. read8 cell (\<lambda>a. read8 cell (\<lambda>b s.
     let bv = u256 (reg_at s b) in
     bail_if (bv = L4 0 0 0 0) DivisionByZero (\<lambda>s.
       case divmod (u256 (reg_at s a)) bv of
         None \<Rightarrow> Panic
       | Some (q, r) \<Rightarrow> Continue (set_reg dst (to32 r) s)) s))))"

definition exec_not :: "cell_bytecode \<Rightarrow> 'h handler" where
  "exec_not cell = charge 2 (read8 cell (\<lambda>dst. read8 cell (\<lambda>a s.
     Continue (set_reg dst (to32 (u256_not (u256 (reg_at s a)))) s))))"

definition exec_shl :: "cell_bytecode \<Rightarrow> 'h handler" where
  "exec_shl cell = charge 2 (read8 cell (\<lambda>dst. read8 cell (\<lambda>a. read8 cell (\<lambda>n s.
     Continue (set_reg dst (to32 (u256_shl (u256 (reg_at s a)) n)) s)))))"

definition exec_shr :: "cell_bytecode \<Rightarrow> 'h handler" where
  "exec_shr cell = charge 2 (read8 cell (\<lambda>dst. read8 cell (\<lambda>a. read8 cell (\<lambda>n s.
     Continue (set_reg dst (to32 (u256_shr (u256 (reg_at s a)) n)) s)))))"

definition exec_eq :: "cell_bytecode \<Rightarrow> 'h handler" where
  "exec_eq cell = charge 2 (read8 cell (\<lambda>dst. read8 cell (\<lambda>a. read8 cell (\<lambda>b s.
     Continue (set_reg dst (bval (reg_at s a = reg_at s b)) s)))))"

definition exec_ne :: "cell_bytecode \<Rightarrow> 'h handler" where
  "exec_ne cell = charge 2 (read8 cell (\<lambda>dst. read8 cell (\<lambda>a. read8 cell (\<lambda>b s.
     Continue (set_reg dst (bval (reg_at s a \<noteq> reg_at s b)) s)))))"

definition exec_is_zero :: "cell_bytecode \<Rightarrow> 'h handler" where
  "exec_is_zero cell = charge 2 (read8 cell (\<lambda>dst. read8 cell (\<lambda>a s.
     Continue (set_reg dst (bval (is_zero (reg_at s a))) s))))"

section \<open>Control flow\<close>

definition jump_to :: "cell_bytecode \<Rightarrow> u32 \<Rightarrow> 'h handler" where
  "jump_to cell t = bail_if (unat t \<ge> length (code cell)) (InvalidJumpTarget t) (\<lambda>s.
     Continue (s\<lparr>pc := unat t\<rparr>))"

definition exec_jump :: "cell_bytecode \<Rightarrow> 'h handler" where
  "exec_jump cell = charge 2 (read32 cell (\<lambda>t. jump_to cell t))"

definition exec_jump_if :: "cell_bytecode \<Rightarrow> 'h handler" where
  "exec_jump_if cell = charge 2 (read8 cell (\<lambda>c. read32 cell (\<lambda>t s.
     if \<not> is_zero (reg_at s c) then jump_to cell t s else Continue s)))"

definition exec_jump_if_not :: "cell_bytecode \<Rightarrow> 'h handler" where
  "exec_jump_if_not cell = charge 2 (read8 cell (\<lambda>c. read32 cell (\<lambda>t s.
     if is_zero (reg_at s c) then jump_to cell t s else Continue s)))"

definition exec_call :: "cell_bytecode \<Rightarrow> 'h handler" where
  "exec_call cell = charge 5 (read32 cell (\<lambda>t.
     bail_if (unat t \<ge> length (code cell)) (InvalidJumpTarget t) (\<lambda>s.
     bail_if (call_depth s \<ge> CALL_STACK_LIMIT) CallDepthExceeded (\<lambda>s.
       if call_depth s < length (call_stack s)
       then Continue (s\<lparr>call_stack := (call_stack s)[call_depth s := pc s],
                        call_depth := call_depth s + 1, pc := unat t\<rparr>)
       else Panic) s)))"

definition exec_return :: "'h handler" where
  "exec_return = charge 5 (\<lambda>s.
     bail_if (call_depth s = 0) (InvalidOpcode tag_RETURN) (\<lambda>s.
       let d = call_depth s - 1 in
       if d < length (call_stack s)
       then Continue (s\<lparr>call_depth := d, pc := call_stack s ! d\<rparr>)
       else Panic) s)"

definition exec_halt :: "'h handler" where
  "exec_halt = charge 1 (\<lambda>s. Halted s)"

definition exec_trap :: "cell_bytecode \<Rightarrow> 'h handler" where
  "exec_trap cell = charge 1 (read16 cell (\<lambda>c s. Bail s (Trap c)))"

section \<open>Data movement\<close>

definition exec_load_const :: "cell_bytecode \<Rightarrow> 'h handler" where
  "exec_load_const cell = charge 1 (read8 cell (\<lambda>dst. read16 cell (\<lambda>idx. get_const cell idx (\<lambda>e.
     bail_if (length e > 32) (InvalidConstIndex idx) (\<lambda>s.
       Continue (set_reg dst (pad_to 32 e) s))))))"

definition exec_load_imm8 :: "cell_bytecode \<Rightarrow> 'h handler" where
  "exec_load_imm8 cell = charge 1 (read8 cell (\<lambda>dst. read8 cell (\<lambda>imm s.
     Continue (set_reg dst (pad_to 32 [imm]) s))))"

definition exec_load_imm64 :: "cell_bytecode \<Rightarrow> 'h handler" where
  "exec_load_imm64 cell = charge 1 (read8 cell (\<lambda>dst. read64 cell (\<lambda>imm s.
     Continue (set_reg dst (pad_to 32 (to_le_bytes 8 imm)) s))))"

definition exec_move :: "cell_bytecode \<Rightarrow> 'h handler" where
  "exec_move cell = charge 1 (read8 cell (\<lambda>dst. read8 cell (\<lambda>src s.
     Continue (set_reg dst (reg_at s src) s))))"

definition exec_swap :: "cell_bytecode \<Rightarrow> 'h handler" where
  "exec_swap cell = charge 1 (read8 cell (\<lambda>a. read8 cell (\<lambda>b s.
     if a \<noteq> b \<and> a \<noteq> 0 \<and> b \<noteq> 0
     then Continue (s\<lparr>regs := (regs s)(a := regs s b, b := regs s a)\<rparr>)
     else Continue s)))"

section \<open>Storage and context\<close>

definition exec_sload :: "'h host_ops \<Rightarrow> cell_bytecode \<Rightarrow> 'h handler" where
  "exec_sload H cell = charge 200 (read8 cell (\<lambda>dst. read8 cell (\<lambda>kr s.
     try_read (storage_read H (vm_host s) (reg_at s kr)) (\<lambda>v s. Continue (set_reg dst v s)) s)))"

definition exec_sstore :: "'h host_ops \<Rightarrow> cell_bytecode \<Rightarrow> 'h handler" where
  "exec_sstore H cell = charge 500 (read8 cell (\<lambda>kr. read8 cell (\<lambda>vr s.
     try_host (storage_write H (vm_host s) (reg_at s kr) (reg_at s vr)) (\<lambda>_ s. Continue s) s)))"

definition exec_sdelete :: "'h host_ops \<Rightarrow> cell_bytecode \<Rightarrow> 'h handler" where
  "exec_sdelete H cell = charge 300 (read8 cell (\<lambda>kr s.
     try_host (storage_delete H (vm_host s) (reg_at s kr)) (\<lambda>_ s. Continue s) s))"

definition exec_get_caller :: "'h host_ops \<Rightarrow> cell_bytecode \<Rightarrow> 'h handler" where
  "exec_get_caller H cell = charge 3 (read8 cell (\<lambda>dst s.
     Continue (set_reg dst (caller H (vm_host s)) s)))"

definition exec_get_owner :: "'h host_ops \<Rightarrow> cell_bytecode \<Rightarrow> 'h handler" where
  "exec_get_owner H cell = charge 3 (read8 cell (\<lambda>dst s.
     Continue (set_reg dst (owner H (vm_host s)) s)))"

definition exec_get_cell_id :: "'h host_ops \<Rightarrow> cell_bytecode \<Rightarrow> 'h handler" where
  "exec_get_cell_id H cell = charge 3 (read8 cell (\<lambda>dst s.
     Continue (set_reg dst (cell_id H (vm_host s)) s)))"

definition exec_get_height :: "'h host_ops \<Rightarrow> cell_bytecode \<Rightarrow> 'h handler" where
  "exec_get_height H cell = charge 3 (read8 cell (\<lambda>dst s.
     Continue (set_reg dst (pad_to 32 (to_le_bytes 8 (height H (vm_host s)))) s)))"

definition exec_get_timestamp :: "'h host_ops \<Rightarrow> cell_bytecode \<Rightarrow> 'h handler" where
  "exec_get_timestamp H cell = charge 3 (read8 cell (\<lambda>dst s.
     Continue (set_reg dst (pad_to 32 (to_le_bytes 8 (timestamp H (vm_host s)))) s)))"

definition exec_get_value :: "'h host_ops \<Rightarrow> cell_bytecode \<Rightarrow> 'h handler" where
  "exec_get_value H cell = charge 3 (read8 cell (\<lambda>dst s.
     Continue (set_reg dst (pad_to 32 (to_le_bytes 16 (call_value H (vm_host s)))) s)))"

definition exec_get_calldata_len :: "'h host_ops \<Rightarrow> cell_bytecode \<Rightarrow> 'h handler" where
  "exec_get_calldata_len H cell = charge 3 (read8 cell (\<lambda>dst s.
     Continue (set_reg dst
       (pad_to 32 (to_le_bytes 8 (word_of_nat (length (calldata H (vm_host s))) :: u64))) s)))"

definition exec_get_calldata :: "'h host_ops \<Rightarrow> cell_bytecode \<Rightarrow> 'h handler" where
  "exec_get_calldata H cell = charge 3 (read8 cell (\<lambda>dst. read8 cell (\<lambda>r s.
     let off = reg_usize s r; cd = calldata H (vm_host s);
         val = (if off < length cd
                then let fin = min (off + 32) (length cd) in pad_to 32 (slice cd off (fin - off))
                else zeros 32)
     in Continue (set_reg dst val s))))"

section \<open>Output\<close>

definition exec_set_return :: "'h host_ops \<Rightarrow> cell_bytecode \<Rightarrow> 'h handler" where
  "exec_set_return H cell = read8 cell (\<lambda>ir. read8 cell (\<lambda>lr s.
     let idx = reg16 s ir; len0 = reg_usize s lr in
     get_const cell idx (\<lambda>e s.
       let len = min len0 (length e) in
       bail_if (len > max_return_data H (vm_host s)) ReturnDataTooLarge
         (charge (10 + len div 32) (\<lambda>s.
            try_host (set_return_data H (vm_host s) (take len e)) (\<lambda>_ s. Continue s) s)) s) s))"

definition exec_set_return_reg :: "'h host_ops \<Rightarrow> cell_bytecode \<Rightarrow> 'h handler" where
  "exec_set_return_reg H cell = read8 cell (\<lambda>dr. read8 cell (\<lambda>lr s.
     let len = reg_usize s lr in
     bail_if (len > 32) (InvalidLength len)
       (bail_if (len > max_return_data H (vm_host s)) ReturnDataTooLarge
         (charge (10 + len div 32) (\<lambda>s.
            try_host (set_return_data H (vm_host s) (take len (reg_at s dr)))
              (\<lambda>_ s. Continue s) s))) s))"

text \<open>The push of the log onto the host and onto the local list of logs.\<close>

definition push_log :: "'h host_ops \<Rightarrow> cell_log \<Rightarrow> 'h handler" where
  "push_log H log s =
     try_host (emit_log H (vm_host s) log) (\<lambda>_ s. Continue (s\<lparr>logs := logs s @ [log]\<rparr>)) s"

definition exec_emit_log :: "'h host_ops \<Rightarrow> cell_bytecode \<Rightarrow> 'h handler" where
  "exec_emit_log H cell = read8 cell (\<lambda>tr. read8 cell (\<lambda>dr s.
     get_const cell (reg16 s tr) (\<lambda>traw s.
     get_const cell (reg16 s dr) (\<lambda>draw s.
       bail_if (length draw > max_log_data H (vm_host s)) LogTooLarge
       (bail_if (length traw mod 32 \<noteq> 0) InvalidBytecode
       (let nt = length traw div 32 in
        bail_if (nt > max_log_topics H (vm_host s)) LogTooLarge
        (charge (100 + length draw div 32 + nt * 10)
          (push_log H \<lparr>topics = map (\<lambda>i. slice traw (i * 32) 32) [0..<nt], log_data = draw\<rparr>))))
       s) s) s))"

definition exec_emit_log_reg :: "'h host_ops \<Rightarrow> cell_bytecode \<Rightarrow> 'h handler" where
  "exec_emit_log_reg H cell = read8 cell (\<lambda>tr. read8 cell (\<lambda>dr. read8 cell (\<lambda>lr s.
     let topic = reg_at s tr; len = reg_usize s lr in
     bail_if (len > 32) LogTooLarge
       (let data = take len (reg_at s dr) in
        bail_if (length data > max_log_data H (vm_host s)) LogTooLarge
          (charge (100 + len div 32 + 10)
            (push_log H \<lparr>topics = [topic], log_data = data\<rparr>))) s)))"

section \<open>Cross-cell calls and the call buffer\<close>

text \<open>The common tail of the two call instructions: run the callee with all remaining gas,
  charge what it used, and put its success flag into register 1.\<close>

definition do_call :: "'h host_ops \<Rightarrow> bytes \<Rightarrow> bytes \<Rightarrow> u128 \<Rightarrow> 'h handler" where
  "do_call H cid cd val s =
    (let sub_gas = remaining (gas s) in
     case call_cell H (vm_host s) cid cd val sub_gas of
       None \<Rightarrow> Panic
     | Some (Inl e, h) \<Rightarrow> Bail (s\<lparr>vm_host := h\<rparr>) (CrossCellFailed (error_to_string e))
     | Some (Inr res, h) \<Rightarrow> charge (cc_gas_used res)
         (\<lambda>s. Continue (set_reg 1 (bval (cc_success res)) s)) (s\<lparr>vm_host := h\<rparr>))"

definition exec_call_cell :: "'h host_ops \<Rightarrow> cell_bytecode \<Rightarrow> 'h handler" where
  "exec_call_cell H cell = charge 1000 (read8 cell (\<lambda>cr. read8 cell (\<lambda>cdr.
     read8 cell (\<lambda>lr. read8 cell (\<lambda>vr s.
       bail_if (depth s \<ge> max_call_depth H (vm_host s)) CallDepthExceeded
         (let cid = reg_at s cr; cdlen = reg_usize s lr; val = reg128 s vr in
          get_const cell (reg16 s cdr) (\<lambda>cde.
            let cdlen = min cdlen (length cde) in do_call H cid (take cdlen cde) val)) s)))))"

definition exec_buf_reset :: "'h handler" where
  "exec_buf_reset = charge 1 (\<lambda>s. Continue (s\<lparr>call_buf_len := 0\<rparr>))"

text \<open>\<^verbatim>\<open>self.call_buf[len..len + n].copy_from_slice(v); len += n\<close>, after the check.\<close>

definition buf_append :: "bytes \<Rightarrow> 'h handler" where
  "buf_append v = (\<lambda>s. bail_if (call_buf_len s + length v > CALL_BUF_SIZE) BufOverflow (\<lambda>s.
     if call_buf_len s + length v \<le> length (call_buf s)
     then Continue (s\<lparr>call_buf := overwrite (call_buf s) (call_buf_len s) v,
                      call_buf_len := call_buf_len s + length v\<rparr>)
     else Panic) s)"

definition exec_buf_write_const :: "cell_bytecode \<Rightarrow> 'h handler" where
  "exec_buf_write_const cell = read16 cell (\<lambda>idx. get_const cell idx (\<lambda>e.
     charge (2 + length e div 32) (buf_append e)))"

definition exec_buf_write_reg :: "cell_bytecode \<Rightarrow> 'h handler" where
  "exec_buf_write_reg cell = charge 2 (read8 cell (\<lambda>src s. buf_append (reg_at s src) s))"

definition exec_buf_call_cell :: "'h host_ops \<Rightarrow> cell_bytecode \<Rightarrow> 'h handler" where
  "exec_buf_call_cell H cell = charge 1000 (read8 cell (\<lambda>cr. read8 cell (\<lambda>vr s.
     bail_if (depth s \<ge> max_call_depth H (vm_host s)) CallDepthExceeded (\<lambda>s.
       let cid = reg_at s cr; val = reg128 s vr in
       if call_buf_len s \<le> length (call_buf s)
       then do_call H cid (take (call_buf_len s) (call_buf s)) val s
       else Panic) s)))"

definition exec_buf_set_return :: "'h host_ops \<Rightarrow> 'h handler" where
  "exec_buf_set_return H s =
    (let len = call_buf_len s in
     bail_if (len > max_return_data H (vm_host s)) ReturnDataTooLarge
       (charge (10 + len div 32) (\<lambda>s.
          if len \<le> length (call_buf s)
          then try_host (set_return_data H (vm_host s) (take len (call_buf s))) (\<lambda>_ s. Continue s) s
          else Panic)) s)"

section \<open>Hashing and access control\<close>

definition exec_hash32 :: "'h host_ops \<Rightarrow> cell_bytecode \<Rightarrow> 'h handler" where
  "exec_hash32 H cell = charge 50 (read8 cell (\<lambda>dst. read8 cell (\<lambda>src s.
     Continue (set_reg dst (host_sha256 H (vm_host s) (reg_at s src)) s))))"

definition exec_hash32_const :: "'h host_ops \<Rightarrow> cell_bytecode \<Rightarrow> 'h handler" where
  "exec_hash32_const H cell = charge 50 (read8 cell (\<lambda>dst. read16 cell (\<lambda>idx. get_const cell idx (\<lambda>e s.
     Continue (set_reg dst (host_sha256 H (vm_host s) e) s)))))"

definition exec_require_owner :: "'h host_ops \<Rightarrow> 'h handler" where
  "exec_require_owner H = charge 2 (\<lambda>s.
     bail_if (caller H (vm_host s) \<noteq> owner H (vm_host s)) Unauthorized Continue s)"

definition exec_require_caller :: "'h host_ops \<Rightarrow> cell_bytecode \<Rightarrow> 'h handler" where
  "exec_require_caller H cell = charge 2 (read8 cell (\<lambda>r s.
     bail_if (caller H (vm_host s) \<noteq> reg_at s r) Unauthorized Continue s))"

definition exec_require_eq :: "cell_bytecode \<Rightarrow> 'h handler" where
  "exec_require_eq cell = charge 2 (read8 cell (\<lambda>a. read8 cell (\<lambda>b s.
     bail_if (reg_at s a \<noteq> reg_at s b) AssertFailed Continue s)))"

definition exec_require_ne :: "cell_bytecode \<Rightarrow> 'h handler" where
  "exec_require_ne cell = charge 2 (read8 cell (\<lambda>a. read8 cell (\<lambda>b s.
     bail_if (reg_at s a = reg_at s b) AssertFailed Continue s)))"

definition exec_require_lt :: "cell_bytecode \<Rightarrow> 'h handler" where
  "exec_require_lt cell = charge 2 (read8 cell (\<lambda>a. read8 cell (\<lambda>b s.
     bail_if (u256_cmp (u256 (reg_at s a)) (u256 (reg_at s b)) \<noteq> Less) AssertFailed Continue s)))"

definition exec_require_non_zero :: "cell_bytecode \<Rightarrow> 'h handler" where
  "exec_require_non_zero cell = charge 2 (read8 cell (\<lambda>r s.
     bail_if (is_zero (reg_at s r)) AssertFailed Continue s))"

definition exec_require_gas :: "cell_bytecode \<Rightarrow> 'h handler" where
  "exec_require_gas cell = charge 2 (read64 cell (\<lambda>t s.
     bail_if (\<not> has_at_least (gas s) (unat t)) OutOfGas Continue s))"

section \<open>Tokens and external data\<close>

definition exec_token_balance :: "'h host_ops \<Rightarrow> cell_bytecode \<Rightarrow> 'h handler" where
  "exec_token_balance H cell = charge 200 (read8 cell (\<lambda>dst. read8 cell (\<lambda>tr. read8 cell (\<lambda>ar s.
     try_read (token_balance H (vm_host s) (reg_at s tr) (reg_at s ar))
       (\<lambda>b s. Continue (set_reg dst (pad_to 32 (to_le_bytes 16 b)) s)) s))))"

definition exec_token_transfer :: "'h host_ops \<Rightarrow> cell_bytecode \<Rightarrow> 'h handler" where
  "exec_token_transfer H cell = charge 500 (read8 cell (\<lambda>tr. read8 cell (\<lambda>fr.
     read8 cell (\<lambda>tor. read8 cell (\<lambda>ar s.
       try_host (token_transfer H (vm_host s) (reg_at s tr) (reg_at s fr) (reg_at s tor) (reg128 s ar))
         (\<lambda>_ s. Continue s) s)))))"

definition exec_token_mint :: "'h host_ops \<Rightarrow> cell_bytecode \<Rightarrow> 'h handler" where
  "exec_token_mint H cell = charge 500 (read8 cell (\<lambda>tr. read8 cell (\<lambda>rr. read8 cell (\<lambda>ar s.
     try_host (token_mint H (vm_host s) (reg_at s tr) (reg_at s rr) (reg128 s ar))
       (\<lambda>_ s. Continue s) s))))"

definition exec_token_burn :: "'h host_ops \<Rightarrow> cell_bytecode \<Rightarrow> 'h handler" where
  "exec_token_burn H cell = charge 500 (read8 cell (\<lambda>tr. read8 cell (\<lambda>ow. read8 cell (\<lambda>ar s.
     try_host (token_burn H (vm_host s) (reg_at s tr) (reg_at s ow) (reg128 s ar))
       (\<lambda>_ s. Continue s) s))))"

definition exec_token_freeze :: "'h host_ops \<Rightarrow> cell_bytecode \<Rightarrow> 'h handler" where
  "exec_token_freeze H cell = charge 300 (read8 cell (\<lambda>tr. read8 cell (\<lambda>ar s.
     try_host (token_freeze H (vm_host s) (reg_at s tr) (reg_at s ar)) (\<lambda>_ s. Continue s) s)))"

definition exec_token_thaw :: "'h host_ops \<Rightarrow> cell_bytecode \<Rightarrow> 'h handler" where
  "exec_token_thaw H cell = charge 300 (read8 cell (\<lambda>tr. read8 cell (\<lambda>ar s.
     try_host (token_thaw H (vm_host s) (reg_at s tr) (reg_at s ar)) (\<lambda>_ s. Continue s) s)))"

definition exec_accord_request :: "'h host_ops \<Rightarrow> cell_bytecode \<Rightarrow> 'h handler" where
  "exec_accord_request H cell = charge 10000 (read8 cell (\<lambda>dst. read8 cell (\<lambda>url_r.
     read8 cell (\<lambda>meth_r. read8 cell (\<lambda>body_r s.
       let url_idx = reg16 s url_r; body_idx = reg16 s body_r in
       get_const cell url_idx (\<lambda>url_bytes. get_const cell body_idx (\<lambda>body_bytes s.
         let method_bytes = takeWhile (\<lambda>b. b \<noteq> 0) (reg_at s meth_r) in
         try_host (accord_request H (vm_host s) url_bytes method_bytes body_bytes)
           (\<lambda>req_id s. Continue (set_reg dst req_id s)) s)) s)))))"

definition exec_accord_read :: "'h host_ops \<Rightarrow> cell_bytecode \<Rightarrow> 'h handler" where
  "exec_accord_read H cell = charge 500 (read8 cell (\<lambda>dst. read8 cell (\<lambda>req_r s.
     try_read (accord_read H (vm_host s) (reg_at s req_r)) (\<lambda>res s.
       case res of
         Some body \<Rightarrow> Continue (set_reg 1 (bval True) (set_reg dst (pad_to 32 (take 32 body)) s))
       | None \<Rightarrow> Continue (set_reg 1 (bval False) (set_reg dst (zeros 32) s))) s)))"

section \<open>Dispatch and loop\<close>

text \<open>The match over the tag of the instruction, arm by arm.\<close>

definition handlers :: "'h host_ops \<Rightarrow> cell_bytecode \<Rightarrow> (u8 \<times> 'h handler) list" where
  "handlers H cell = [
     (tag_ADD, arith3 cell 3 u256_add),
     (tag_SUB, arith3 cell 3 u256_sub),
     (tag_MUL, arith3 cell 5 u256_mul),
     (tag_DIV, exec_div cell),
     (tag_MOD, exec_mod cell),
     (tag_ADD_SAT, arith3_sat cell 3 u256_add_sat),
     (tag_SUB_SAT, arith3_sat cell 3 u256_sub_sat),
     (tag_AND, bitwise3 cell u256_and),
     (tag_OR, bitwise3 cell u256_or),
     (tag_XOR, bitwise3 cell u256_xor),
     (tag_NOT, exec_not cell),
     (tag_SHL, exec_shl cell),
     (tag_SHR, exec_shr cell),
     (tag_EQ, exec_eq cell),
     (tag_NE, exec_ne cell),
     (tag_LT, cmp3 cell (\<lambda>a b. u256_cmp a b = Less)),
     (tag_LTE, cmp3 cell (\<lambda>a b. u256_cmp a b \<noteq> Greater)),
     (tag_GT, cmp3 cell (\<lambda>a b. u256_cmp a b = Greater)),
     (tag_GTE, cmp3 cell (\<lambda>a b. u256_cmp a b \<noteq> Less)),
     (tag_IS_ZERO, exec_is_zero cell),
     (tag_JUMP, exec_jump cell),
     (tag_JUMP_IF, exec_jump_if cell),
     (tag_JUMP_IF_NOT, exec_jump_if_not cell),
     (tag_CALL, exec_call cell),
     (tag_RETURN, exec_return),
     (tag_HALT, exec_halt),
     (tag_TRAP, exec_trap cell),
     (tag_LOAD_CONST, exec_load_const cell),
     (tag_LOAD_IMM8, exec_load_imm8 cell),
     (tag_LOAD_IMM64, exec_load_imm64 cell),
     (tag_MOVE, exec_move cell),
     (tag_SWAP, exec_swap cell),
     (tag_SLOAD, exec_sload H cell),
     (tag_SSTORE, exec_sstore H cell),
     (tag_SDELETE, exec_sdelete H cell),
     (tag_GET_CALLER, exec_get_caller H cell),
     (tag_GET_OWNER, exec_get_owner H cell),
     (tag_GET_CELL_ID, exec_get_cell_id H cell),
     (tag_GET_HEIGHT, exec_get_height H cell),
     (tag_GET_TIMESTAMP, exec_get_timestamp H cell),
     (tag_GET_VALUE, exec_get_value H cell),
     (tag_GET_CALLDATA_LEN, exec_get_calldata_len H cell),
     (tag_GET_CALLDATA, exec_get_calldata H cell),
     (tag_SET_RETURN, exec_set_return H cell),
     (tag_SET_RETURN_REG, exec_set_return_reg H cell),
     (tag_EMIT_LOG, exec_emit_log H cell),
     (tag_EMIT_LOG_REG, exec_emit_log_reg H cell),
     (tag_CALL_CELL, exec_call_cell H cell),
     (tag_BUF_RESET, exec_buf_reset),
     (tag_BUF_WRITE_CONST, exec_buf_write_const cell),
     (tag_BUF_WRITE_REG, exec_buf_write_reg cell),
     (tag_BUF_CALL_CELL, exec_buf_call_cell H cell),
     (tag_BUF_SET_RETURN, exec_buf_set_return H),
     (tag_HASH32, exec_hash32 H cell),
     (tag_HASH32_CONST, exec_hash32_const H cell),
     (tag_REQUIRE_OWNER, exec_require_owner H),
     (tag_REQUIRE_CALLER, exec_require_caller H cell),
     (tag_REQUIRE_EQ, exec_require_eq cell),
     (tag_REQUIRE_NE, exec_require_ne cell),
     (tag_REQUIRE_LT, exec_require_lt cell),
     (tag_REQUIRE_NON_ZERO, exec_require_non_zero cell),
     (tag_REQUIRE_GAS, exec_require_gas cell),
     (tag_TOKEN_BALANCE, exec_token_balance H cell),
     (tag_TOKEN_TRANSFER, exec_token_transfer H cell),
     (tag_TOKEN_MINT, exec_token_mint H cell),
     (tag_TOKEN_BURN, exec_token_burn H cell),
     (tag_TOKEN_FREEZE, exec_token_freeze H cell),
     (tag_TOKEN_THAW, exec_token_thaw H cell),
     (tag_ACCORD_REQUEST, exec_accord_request H cell),
     (tag_ACCORD_READ, exec_accord_read H cell)]"

definition dispatch :: "'h host_ops \<Rightarrow> cell_bytecode \<Rightarrow> u8 \<Rightarrow> 'h handler" where
  "dispatch H cell tag = (case map_of (handlers H cell) tag of
      Some h \<Rightarrow> h
    | None \<Rightarrow> (\<lambda>s. Bail s (InvalidOpcode tag)))"

text \<open>One round of the loop, at a position inside the code.\<close>

definition step :: "'h host_ops \<Rightarrow> cell_bytecode \<Rightarrow> 'h handler" where
  "step H cell s = dispatch H cell (code cell ! pc s) (s\<lparr>pc := pc s + 1\<rparr>)"

lemmas macro_defs = arith3_def arith3_sat_def bitwise3_def cmp3_def

lemmas pure_handler_defs =
  exec_div_def exec_mod_def exec_not_def exec_shl_def exec_shr_def exec_eq_def exec_ne_def
  exec_is_zero_def exec_jump_def exec_jump_if_def exec_jump_if_not_def jump_to_def exec_call_def
  exec_return_def exec_halt_def exec_trap_def exec_load_const_def exec_load_imm8_def
  exec_load_imm64_def exec_move_def exec_swap_def exec_buf_reset_def buf_append_def
  exec_buf_write_const_def exec_buf_write_reg_def exec_require_eq_def exec_require_ne_def
  exec_require_lt_def exec_require_non_zero_def exec_require_gas_def

lemmas host_handler_defs =
  exec_sload_def exec_sstore_def exec_sdelete_def exec_get_caller_def exec_get_owner_def
  exec_get_cell_id_def exec_get_height_def exec_get_timestamp_def exec_get_value_def
  exec_get_calldata_len_def exec_get_calldata_def exec_set_return_def exec_set_return_reg_def
  push_log_def exec_emit_log_def exec_emit_log_reg_def exec_call_cell_def
  exec_buf_call_cell_def exec_buf_set_return_def exec_hash32_def exec_hash32_const_def
  exec_require_owner_def exec_require_caller_def exec_token_balance_def exec_token_transfer_def
  exec_token_mint_def exec_token_burn_def exec_token_freeze_def exec_token_thaw_def
  exec_accord_request_def exec_accord_read_def

lemmas handler_defs = macro_defs pure_handler_defs host_handler_defs

subsection \<open>Every instruction that continues has paid\<close>

text \<open>
  \<open>pays s0\<close>: an instruction that continues is left with less gas than \<open>s0\<close> has, one
  that stops with at most as much; the limit and the nesting depth never change.
\<close>

definition same_run :: "'h frame \<Rightarrow> 'h frame \<Rightarrow> bool" where
  "same_run s0 s \<longleftrightarrow> limit (gas s) = limit (gas s0) \<and> depth s = depth s0"

definition pays :: "'h frame \<Rightarrow> 'h outcome \<Rightarrow> bool" where
  "pays s0 = ends (\<lambda>s. remaining (gas s) < remaining (gas s0) \<and> same_run s0 s)
                  (\<lambda>s. remaining (gas s) \<le> remaining (gas s0) \<and> same_run s0 s) True"

lemma do_call_ends [vc]:
  assumes "remaining (gas s) < remaining (gas s0)" and "same_run s0 s"
  shows "ends (\<lambda>s. remaining (gas s) < remaining (gas s0) \<and> same_run s0 s)
              (\<lambda>s. remaining (gas s) \<le> remaining (gas s0) \<and> same_run s0 s) True
              (do_call H cid cd v s)"
  using assms by (auto simp: do_call_def charge_def charge_raw_def same_run_def Let_def
      split: option.split prod.split sum.split)

lemma handlers_pay:
  "list_all (\<lambda>(t, h). \<forall>s. pays s (h s)) (handlers H cell)"
  unfolding handlers_def list.pred_inject prod.case pays_def handler_defs Let_def
  by (intro conjI allI TrueI vc) (simp_all add: same_run_def)

lemma step_pays: "pays s (step H cell s)"
proof (cases "map_of (handlers H cell) (code cell ! pc s)")
  case None
  then show ?thesis by (simp add: step_def dispatch_def pays_def same_run_def)
next
  case (Some h)
  then have "(code cell ! pc s, h) \<in> set (handlers H cell)" by (rule map_of_SomeD)
  then have "pays s' (h s')" for s'
    using handlers_pay [of H cell] by (auto simp: list_all_iff)
  from this [of "s\<lparr>pc := pc s + 1\<rparr>"] Some show ?thesis
    by (simp add: step_def dispatch_def pays_def same_run_def)
qed

lemma step_Continue_gas:
  "step H cell s = Continue s' \<Longrightarrow> remaining (gas s') < remaining (gas s) \<and> same_run s s'"
  using step_pays [of s H cell] by (simp add: pays_def)

lemma step_stop_gas:
  "step H cell s = Halted s' \<Longrightarrow> remaining (gas s') \<le> remaining (gas s) \<and> same_run s s'"
  "step H cell s = Bail s' e \<Longrightarrow> remaining (gas s') \<le> remaining (gas s) \<and> same_run s s'"
  using step_pays [of s H cell] by (simp_all add: pays_def)

subsection \<open>The loop and the entry point\<close>

datatype 'h final =
    Done "'h frame"
  | Failed "'h frame" axiom_error
  | Panicked

function run :: "'h host_ops \<Rightarrow> cell_bytecode \<Rightarrow> 'h frame \<Rightarrow> 'h final" where
  "run H cell s =
    (if pc s \<ge> length (code cell) then Done s
     else case step H cell s of
        Continue s' \<Rightarrow> run H cell s'
      | Halted s' \<Rightarrow> Done s'
      | Bail s' e \<Rightarrow> Failed s' e
      | Panic \<Rightarrow> Panicked)"
  by auto

termination run
  by (relation "measure (\<lambda>(H, cell, s). remaining (gas s))") (auto dest: step_Continue_gas)

declare run.simps [simp del]

definition enter :: "'h vm \<Rightarrow> 'h frame" where
  "enter v = vm.extend v \<lparr>pc = 0, logs = []\<rparr>"

definition leave :: "'h frame \<Rightarrow> 'h vm" where
  "leave s = vm.truncate s"

definition execute :: "'h host_ops \<Rightarrow> cell_bytecode \<Rightarrow> 'h vm \<Rightarrow> (exec_result \<times> 'h vm) option" where
  "execute H cell v = (case run H cell (enter v) of
      Done s \<Rightarrow> Some (\<lparr>success = True, return_data = [], res_gas_used = gas_used (gas s),
                       error = None, res_logs = logs s\<rparr>, leave s)
    | Failed s e \<Rightarrow> Some (\<lparr>success = False, return_data = [], res_gas_used = gas_used (gas s),
                       error = Some e, res_logs = logs s\<rparr>, leave s)
    | Panicked \<Rightarrow> None)"

end
