(* ===== verification/VM_Safety.thy ===== *)
theory VM_Safety
  imports VM
begin

text \<open>
  The safety contract of the machine. The locale states what the machine relies on in a
  host (the result sizes that Rust's array types carry, and that a nested call uses no
  more gas than it was given); inside it, the machine invariant is shown to hold at
  every instruction, and with it that no instruction panics, that every gas figure stays
  within the limit and that every log respects the host's limits.
\<close>

section \<open>The machine invariant\<close>

definition log_ok :: "nat \<Rightarrow> nat \<Rightarrow> cell_log \<Rightarrow> bool" where
  "log_ok ml mt l \<longleftrightarrow> length (log_data l) \<le> ml \<and> length (topics l) \<le> mt
     \<and> (\<forall>t \<in> set (topics l). length t = 32)"

definition vm_ok :: "(nat \<Rightarrow> 'h \<Rightarrow> bool) \<Rightarrow> nat \<Rightarrow> nat \<Rightarrow> cell_bytecode \<Rightarrow> 'h frame \<Rightarrow> bool" where
  "vm_ok I ml mt cell s \<longleftrightarrow>
     regs s 0 = zeros 32 \<and> (\<forall>r. length (regs s r) = 32)
     \<and> length (call_stack s) = CALL_STACK_LIMIT \<and> call_depth s \<le> CALL_STACK_LIMIT
     \<and> (\<forall>i < call_depth s. call_stack s ! i \<le> length (code cell))
     \<and> length (call_buf s) = CALL_BUF_SIZE \<and> call_buf_len s \<le> CALL_BUF_SIZE
     \<and> pc s \<le> length (code cell) \<and> remaining (gas s) \<le> limit (gas s)
     \<and> (\<forall>l \<in> set (logs s). log_ok ml mt l)
     \<and> I (depth s) (vm_host s)"

named_theorems ok \<open>what keeps the machine invariant\<close>

lemma vm_ok_gas [ok]:
  "vm_ok I ml mt cell s \<Longrightarrow> remaining g \<le> limit g \<Longrightarrow> vm_ok I ml mt cell (s\<lparr>gas := g\<rparr>)"
  by (auto simp: vm_ok_def)

lemma vm_ok_pc [ok]:
  "vm_ok I ml mt cell s \<Longrightarrow> p \<le> length (code cell) \<Longrightarrow> vm_ok I ml mt cell (s\<lparr>pc := p\<rparr>)"
  by (auto simp: vm_ok_def)

lemma vm_ok_set_reg [ok]:
  "vm_ok I ml mt cell s \<Longrightarrow> length v = 32 \<Longrightarrow> vm_ok I ml mt cell (set_reg r v s)"
  by (auto simp: vm_ok_def set_reg_def)

lemma vm_ok_host [ok]:
  "vm_ok I ml mt cell s \<Longrightarrow> I (depth s) h \<Longrightarrow> vm_ok I ml mt cell (s\<lparr>vm_host := h\<rparr>)"
  by (auto simp: vm_ok_def)

lemma vm_ok_regs [ok]:
  "vm_ok I ml mt cell s \<Longrightarrow> f 0 = zeros 32 \<Longrightarrow> (\<And>r. length (f r) = 32) \<Longrightarrow>
   vm_ok I ml mt cell (s\<lparr>regs := f\<rparr>)"
  by (auto simp: vm_ok_def)

lemma vm_ok_logs [ok]:
  "vm_ok I ml mt cell s \<Longrightarrow> (\<And>l. l \<in> set ls \<Longrightarrow> log_ok ml mt l) \<Longrightarrow>
   vm_ok I ml mt cell (s\<lparr>logs := ls\<rparr>)"
  by (auto simp: vm_ok_def)

lemma vm_ok_stack [ok]:
  "vm_ok I ml mt cell s \<Longrightarrow> length cs = CALL_STACK_LIMIT \<Longrightarrow> d \<le> CALL_STACK_LIMIT \<Longrightarrow>
   (\<And>i. i < d \<Longrightarrow> cs ! i \<le> length (code cell)) \<Longrightarrow>
   vm_ok I ml mt cell (s\<lparr>call_stack := cs, call_depth := d\<rparr>)"
  by (auto simp: vm_ok_def)

lemma vm_ok_pop [ok]:
  "vm_ok I ml mt cell s \<Longrightarrow> d \<le> call_depth s \<Longrightarrow> vm_ok I ml mt cell (s\<lparr>call_depth := d\<rparr>)"
  by (auto simp: vm_ok_def)

lemma vm_ok_buf [ok]:
  "vm_ok I ml mt cell s \<Longrightarrow> length b = CALL_BUF_SIZE \<Longrightarrow> n \<le> CALL_BUF_SIZE \<Longrightarrow>
   vm_ok I ml mt cell (s\<lparr>call_buf := b, call_buf_len := n\<rparr>)"
  by (auto simp: vm_ok_def)

lemma vm_ok_buf_len [ok]:
  "vm_ok I ml mt cell s \<Longrightarrow> n \<le> CALL_BUF_SIZE \<Longrightarrow> vm_ok I ml mt cell (s\<lparr>call_buf_len := n\<rparr>)"
  by (auto simp: vm_ok_def)

lemma vm_okD:
  assumes "vm_ok I ml mt cell s"
  shows "length (reg_at s r) = 32" "I (depth s) (vm_host s)" "pc s \<le> length (code cell)"
    "length (call_buf s) = CALL_BUF_SIZE" "call_buf_len s \<le> CALL_BUF_SIZE"
    "length (call_stack s) = CALL_STACK_LIMIT" "call_depth s \<le> CALL_STACK_LIMIT"
    "remaining (gas s) \<le> limit (gas s)" "length (regs s r) = 32" "regs s 0 = zeros 32"
    "\<And>i. i < call_depth s \<Longrightarrow> call_stack s ! i \<le> length (code cell)"
    "\<And>l. l \<in> set (logs s) \<Longrightarrow> log_ok ml mt l"
  using assms by (auto simp: vm_ok_def reg_at_def)

lemma log_ok_topics:
  assumes "length d \<le> ml" and "length t div 32 \<le> mt"
  shows "log_ok ml mt \<lparr>topics = map (\<lambda>i. slice t (i * 32) 32) [0..<length t div 32], log_data = d\<rparr>"
  using assms by (auto simp: log_ok_def slice_def)

lemma log_ok_one:
  "length d \<le> ml \<Longrightarrow> 0 < mt \<Longrightarrow> length t = 32 \<Longrightarrow> log_ok ml mt \<lparr>topics = [t], log_data = d\<rparr>"
  by (simp add: log_ok_def Suc_le_eq)

lemma length_calldata_word [simp]:
  "length (pad_to 32 (slice cd i (min (i + 32) (length cd) - i))) = 32"
  by (simp add: slice_def)

lemma divmod_defined: "b \<noteq> L4 0 0 0 0 \<Longrightarrow> divmod a b \<noteq> None"
  using divmod_correct [of b a] by auto

lemma vm_ok_initial:
  assumes "I d h"
  shows "vm_ok I ml mt cell (enter (vm_new h g d))"
  using assms
  by (simp add: vm_ok_def enter_def vm_new_def vm.defs gas_new_def zeros_def)

section \<open>The contract of a host\<close>

locale host_contract =
  fixes H :: "'h host_ops" and I :: "nat \<Rightarrow> 'h \<Rightarrow> bool" and ml mt :: nat
  assumes read_len: "I d h \<Longrightarrow> length key = 32 \<Longrightarrow> storage_read H h key = Inr v \<Longrightarrow> length v = 32"
    and write_inv: "I d h \<Longrightarrow> length key = 32 \<Longrightarrow> length v = 32 \<Longrightarrow> I d (snd (storage_write H h key v))"
    and delete_inv: "I d h \<Longrightarrow> length key = 32 \<Longrightarrow> I d (snd (storage_delete H h key))"
    and caller_len: "I d h \<Longrightarrow> length (caller H h) = 32"
    and owner_len: "I d h \<Longrightarrow> length (owner H h) = 32"
    and cell_id_len: "I d h \<Longrightarrow> length (cell_id H h) = 32"
    and return_inv: "I d h \<Longrightarrow> length data \<le> max_return_data H h \<Longrightarrow> I d (snd (set_return_data H h data))"
    and log_inv: "I d h \<Longrightarrow> log_ok ml mt l \<Longrightarrow> I d (snd (emit_log H h l))"
    and log_limits: "I d h \<Longrightarrow> max_log_data H h = ml" "I d h \<Longrightarrow> max_log_topics H h = mt"
    and topics_pos: "0 < mt"
    and sha_len: "length (host_sha256 H h x) = 32"
    and call_total: "I d h \<Longrightarrow> length cid = 32 \<Longrightarrow> d < max_call_depth H h \<Longrightarrow>
        call_cell H h cid cd val g \<noteq> None"
    and call_inv: "I d h \<Longrightarrow> call_cell H h cid cd val g = Some (r, h') \<Longrightarrow> I d h'"
    and call_gas: "I d h \<Longrightarrow> call_cell H h cid cd val g = Some (Inr res, h') \<Longrightarrow> cc_gas_used res \<le> g"
    and accord_inv: "I d h \<Longrightarrow> I d (snd (accord_request H h url meth body))"
    and accord_len: "I d h \<Longrightarrow> fst (accord_request H h url meth body) = Inr rid \<Longrightarrow> length rid = 32"
    and token_inv: "I d h \<Longrightarrow> I d (snd (token_transfer H h tok from to amt))"
      "I d h \<Longrightarrow> I d (snd (token_mint H h tok to amt))"
      "I d h \<Longrightarrow> I d (snd (token_burn H h tok from amt))"
      "I d h \<Longrightarrow> I d (snd (token_freeze H h tok acc))"
      "I d h \<Longrightarrow> I d (snd (token_thaw H h tok acc))"
begin

lemmas host_laws = read_len write_inv delete_inv caller_len owner_len cell_id_len return_inv
  log_inv sha_len accord_inv accord_len token_inv

lemma do_call_safe:
  assumes s: "vm_ok I ml mt cell s" and "length cid = 32" and "depth s < max_call_depth H (vm_host s)"
  shows "ends (vm_ok I ml mt cell) (vm_ok I ml mt cell) False (do_call H cid cd val s)"
proof -
  have h: "I (depth s) (vm_host s)" using s by (rule vm_okD)
  obtain r h' where c: "call_cell H (vm_host s) cid cd val (remaining (gas s)) = Some (r, h')"
    using call_total [OF h] assms by (metis not_None_eq surj_pair)
  have g: "remaining (gas s) - x \<le> limit (gas s)" for x
    using vm_okD(8) [OF s] by simp
  have s': "vm_ok I ml mt cell (s\<lparr>vm_host := h'\<rparr>)"
    using s call_inv [OF h c] by (intro ok)
  show ?thesis
  proof (cases r)
    case (Inl e)
    then show ?thesis using c s' by (simp add: do_call_def)
  next
    case (Inr res)
    have "ends (vm_ok I ml mt cell) (vm_ok I ml mt cell) False
        (charge (cc_gas_used res) (\<lambda>s. Continue (set_reg 1 (bval (cc_success res)) s)) (s\<lparr>vm_host := h'\<rparr>))"
      using s call_inv [OF h c] g by (intro vc ok) simp_all
    then show ?thesis using c Inr by (simp add: do_call_def)
  qed
qed

lemma handlers_safe:
  assumes s: "vm_ok I ml mt cell s"
  shows "list_all (\<lambda>(t, h). ends (vm_ok I ml mt cell) (vm_ok I ml mt cell) False (h s)) (handlers H cell)"
proof -
  note facts = vm_okD [OF s]
  have g: "remaining (gas s) - c \<le> limit (gas s)" for c
    using facts(8) by simp
  have h: "I (depth s) (vm_host s)" by (rule facts)
  have top: "call_depth s - Suc 0 < CALL_STACK_LIMIT"
    using facts(7) by (simp add: CALL_STACK_LIMIT_def)
  note host_facts = write_inv [OF h] delete_inv [OF h] caller_len [OF h]
    owner_len [OF h] cell_id_len [OF h] return_inv [OF h] log_inv [OF h] log_limits [OF h]
    sha_len accord_inv [OF h] token_inv [OF h]
  show ?thesis
    unfolding handlers_def list.pred_inject prod.case handler_defs Let_def
    by (intro conjI allI TrueI vc do_call_safe)
       (simp_all add: ok facts g s host_facts divmod_defined top nth_list_update less_Suc_eq_le,
        auto intro!: ok simp: facts g s host_facts log_ok_topics log_ok_one topics_pos
          dest: read_len [OF h facts(1)] accord_len [OF h])
qed

lemma step_safe:
  assumes s: "vm_ok I ml mt cell s" and "pc s < length (code cell)"
  shows "ends (vm_ok I ml mt cell) (vm_ok I ml mt cell) False (step H cell s)"
proof -
  have s': "vm_ok I ml mt cell (s\<lparr>pc := pc s + 1\<rparr>)" using assms by (intro ok) auto
  show ?thesis
    using handlers_safe [OF s'] s'
    by (auto simp: step_def dispatch_def list_all_iff dest!: map_of_SomeD split: option.split)
qed

lemma run_safe:
  assumes "vm_ok I ml mt cell s"
  shows "case run H cell s of Done s' \<Rightarrow> vm_ok I ml mt cell s' \<and> same_run s s'
      | Failed s' _ \<Rightarrow> vm_ok I ml mt cell s' \<and> same_run s s'
      | Panicked \<Rightarrow> False"
  using assms
proof (induction "remaining (gas s)" arbitrary: s rule: less_induct)
  case less
  show ?case
  proof (cases "pc s < length (code cell)")
    case False
    then show ?thesis using less.prems by (simp add: run.simps same_run_def)
  next
    case True
    note safe = step_safe [OF less.prems True]
    show ?thesis
    proof (cases "step H cell s")
      case (Continue s')
      then have "run H cell s = run H cell s'" using True by (simp add: run.simps [of H cell s])
      moreover have "remaining (gas s') < remaining (gas s)" "same_run s s'"
        using step_Continue_gas [OF Continue] by auto
      ultimately show ?thesis using less.hyps [of s'] safe Continue
        by (auto simp: same_run_def split: final.split_asm final.split)
    qed (use True safe in \<open>auto simp: run.simps [of H cell s] dest: step_stop_gas\<close>)
  qed
qed

lemma execute_safe:
  assumes "I d h"
  shows "\<exists>res v. execute H cell (vm_new h g d) = Some (res, v)
     \<and> res_gas_used res \<le> g \<and> I d (vm_host v) \<and> (\<forall>l \<in> set (res_logs res). log_ok ml mt l)
     \<and> regs v 0 = zeros 32 \<and> call_depth v \<le> CALL_STACK_LIMIT \<and> call_buf_len v \<le> CALL_BUF_SIZE"
proof -
  have "vm_ok I ml mt cell (enter (vm_new h g d))" using assms by (rule vm_ok_initial)
  from run_safe [OF this] show ?thesis
    by (auto simp: execute_def leave_def vm.defs vm_ok_def same_run_def enter_def vm_new_def
        gas_new_def gas_used_def split: final.split)
qed

end

end
