(* ===== verification/Ordered_Map.thy ===== *)
theory Ordered_Map
  imports Prelude "HOL-Library.List_Lexorder"
begin

text \<open>
  \<^verbatim>\<open>BTreeMap\<close> of Rust's standard library as an association list in ascending key
  order, which is the order its iterators use; keys that are byte vectors compare
  lexicographically. The locale states the contract the clients need of such a map,
  including how a weight summed over all values changes under an update, and derives
  the accounting laws from it.
\<close>

section \<open>The contract\<close>

locale weighted_map =
  fixes inv :: "'m \<Rightarrow> bool" and get :: "'m \<Rightarrow> 'k \<Rightarrow> 'v option"
    and put :: "'k \<Rightarrow> 'v \<Rightarrow> 'm \<Rightarrow> 'm" and del :: "'k \<Rightarrow> 'm \<Rightarrow> 'm"
    and total :: "('v \<Rightarrow> nat) \<Rightarrow> 'm \<Rightarrow> nat"
  assumes get_put: "inv m \<Longrightarrow> get (put k v m) k' = (if k' = k then Some v else get m k')"
    and get_del: "inv m \<Longrightarrow> get (del k m) k' = (if k' = k then None else get m k')"
    and inv_put: "inv m \<Longrightarrow> inv (put k v m)"
    and inv_del: "inv m \<Longrightarrow> inv (del k m)"
    and total_put_new: "inv m \<Longrightarrow> get m k = None \<Longrightarrow> total w (put k v m) = total w m + w v"
    and total_del: "inv m \<Longrightarrow> get m k = Some v \<Longrightarrow> total w m = total w (del k m) + w v"
    and put_del: "inv m \<Longrightarrow> put k v (del k m) = put k v m"
begin

lemma total_put:
  assumes "inv m" and "get m k = Some v"
  shows "total w (put k v' m) + w v = total w m + w v'"
proof -
  have "total w (put k v' (del k m)) = total w (del k m) + w v'"
    using assms by (intro total_put_new) (simp_all add: inv_del get_del)
  then show ?thesis using assms total_del [of m k v w] by (simp add: put_del)
qed

lemma total_ge: "inv m \<Longrightarrow> get m k = Some v \<Longrightarrow> w v \<le> total w m"
  using total_del [of m k v w] by simp

lemma total_same_weight:
  assumes "inv m" and "get m k = Some v" and "w v' = w v"
  shows "total w (put k v' m) = total w m"
  using total_put [OF assms(1,2), of w v'] assms(3) by simp

lemma total_ge_two:
  assumes "inv m" and "get m k = Some v" and "get m k' = Some v'" and "k \<noteq> k'"
  shows "w v + w v' \<le> total w m"
  using total_del [OF assms(1,2), of w] total_ge [of "del k m" k' v' w] assms
  by (simp add: inv_del get_del)

end

section \<open>The implementation\<close>

type_synonym ('k, 'v) omap = "('k \<times> 'v) list"

definition om_inv :: "('k::linorder, 'v) omap \<Rightarrow> bool" where
  "om_inv m \<longleftrightarrow> sorted_wrt (<) (map fst m)"

definition om_get :: "('k, 'v) omap \<Rightarrow> 'k \<Rightarrow> 'v option" where
  "om_get m k = map_of m k"

primrec om_put :: "'k::linorder \<Rightarrow> 'v \<Rightarrow> ('k, 'v) omap \<Rightarrow> ('k, 'v) omap" where
  "om_put k v [] = [(k, v)]"
| "om_put k v (e # m) =
    (if k < fst e then (k, v) # e # m
     else if k = fst e then (k, v) # m
     else e # om_put k v m)"

definition om_del :: "'k \<Rightarrow> ('k, 'v) omap \<Rightarrow> ('k, 'v) omap" where
  "om_del k m = filter (\<lambda>e. fst e \<noteq> k) m"

definition om_total :: "('v \<Rightarrow> nat) \<Rightarrow> ('k, 'v) omap \<Rightarrow> nat" where
  "om_total w m = sum_list (map (\<lambda>e. w (snd e)) m)"

lemma om_inv_Cons: "om_inv (e # m) \<longleftrightarrow> (\<forall>k \<in> fst ` set m. fst e < k) \<and> om_inv m"
  by (simp add: om_inv_def)

lemma om_inv_distinct: "om_inv m \<Longrightarrow> distinct (map fst m)"
  by (simp add: om_inv_def strict_sorted_iff)

lemma om_get_put: "om_inv m \<Longrightarrow> om_get (om_put k v m) k' = (if k' = k then Some v else om_get m k')"
  by (induction m) (auto simp: om_get_def om_inv_Cons)

lemma om_get_del: "om_get (om_del k m) k' = (if k' = k then None else om_get m k')"
  by (induction m) (auto simp: om_get_def om_del_def)

lemma keys_om_put: "fst ` set (om_put k v m) = insert k (fst ` set m)"
  by (induction m) auto

lemma om_inv_put: "om_inv m \<Longrightarrow> om_inv (om_put k v m)"
  by (induction m) (auto simp: om_inv_Cons keys_om_put)

lemma om_inv_del: "om_inv m \<Longrightarrow> om_inv (om_del k m)"
  by (induction m) (auto simp: om_inv_Cons om_del_def)

lemma om_get_None: "om_get m k = None \<longleftrightarrow> k \<notin> fst ` set m"
  by (simp add: om_get_def map_of_eq_None_iff)

lemma om_total_put_new:
  "om_get m k = None \<Longrightarrow> om_total w (om_put k v m) = om_total w m + w v"
  by (induction m) (auto simp: om_get_None om_total_def)

lemma om_del_None: "om_get m k = None \<Longrightarrow> om_del k m = m"
  by (auto simp: om_get_None om_del_def filter_id_conv)

lemma om_total_del:
  "om_inv m \<Longrightarrow> om_get m k = Some v \<Longrightarrow> om_total w m = om_total w (om_del k m) + w v"
proof (induction m)
  case Nil
  then show ?case by (simp add: om_get_def)
next
  case (Cons e m)
  show ?case
  proof (cases "fst e = k")
    case True
    then have "om_get m k = None" using Cons.prems by (auto simp: om_inv_Cons om_get_None)
    then show ?thesis using True Cons.prems om_del_None [of m k]
      by (simp add: om_total_def om_del_def om_get_def)
  next
    case False
    then have "om_get m k = Some v" using Cons.prems by (cases e) (auto simp: om_get_def)
    then show ?thesis using Cons False by (simp add: om_total_def om_del_def om_inv_Cons)
  qed
qed

lemma om_put_del: "om_inv m \<Longrightarrow> om_put k v (om_del k m) = om_put k v m"
proof (induction m)
  case Nil
  then show ?case by (simp add: om_del_def)
next
  case (Cons e m)
  show ?case
  proof (cases "fst e = k")
    case True
    then have n: "k \<notin> fst ` set m" and lt: "\<forall>k' \<in> fst ` set m. k < k'"
      using Cons.prems by (auto simp: om_inv_Cons)
    then have d: "om_del k (e # m) = m"
      using True om_del_None [of m k] by (simp add: om_del_def om_get_None)
    have "om_put k v m = (k, v) # m" using lt by (cases m) auto
    then show ?thesis using True d by simp
  next
    case False
    then have "om_del k (e # m) = e # om_del k m" by (simp add: om_del_def)
    moreover have "k < fst e \<Longrightarrow> om_del k m = m"
      using Cons.prems by (intro om_del_None) (auto simp: om_inv_Cons om_get_None)
    ultimately show ?thesis using False Cons by (auto simp: om_inv_Cons)
  qed
qed

interpretation om: weighted_map om_inv om_get om_put om_del om_total
  by unfold_locales
     (simp_all add: om_get_put om_get_del om_inv_put om_inv_del om_total_put_new om_total_del om_put_del)

lemma om_put_put [simp]: "om_put k v (om_put k w m) = om_put k v m"
  by (induction m) auto

lemma om_get_in: "om_inv m \<Longrightarrow> om_get m k = Some v \<longleftrightarrow> (k, v) \<in> set m"
  by (simp add: om_get_def map_of_eq_Some_iff om_inv_distinct)

end
