(* ===== verification/Staking.thy ===== *)
theory Staking
  imports Ordered_Map Axiom_Types "HOL-Library.Multiset"
begin

text \<open>
  Validator staking (\<^verbatim>\<open>truthlinked-staking\<close>): staking, unstaking with the unbonding
  queue, withdrawal, slashing with redistribution of the slashed amount, and jailing.
  Amounts are 64-bit words and plain \<^verbatim>\<open>+\<close>, \<^verbatim>\<open>*\<close> and \<^verbatim>\<open>sum\<close> wrap, as they do in the
  release profile of the workspace; the theorems bound them where they must not.
  Every operation returns its result together with the new state, because the code
  mutates the state on some error paths. Logging is left out.
  Governance parameters (\<^verbatim>\<open>gp::get_u64\<close>) and the signature scheme (a third-party crate)
  are arguments.
\<close>

section \<open>State\<close>

datatype slash_reason =
    DoubleSign
  | InvalidStateRoot
  | Downtime
  | InvalidSnapshot
  | Censorship
  | OracleLie
  | OracleSilence bytes

record double_sign_evidence =
  ev_pubkey :: bytes
  ev_height :: u64
  batch_hash_1 :: bytes
  batch_hash_2 :: bytes
  signature_1 :: bytes
  signature_2 :: bytes

record unbonding_entry =
  amount :: u64
  completion_tick :: u64

record validator_stake =
  active_stake :: u64
  unbonding :: "unbonding_entry list"
  jailed_until :: "u64 option"

record staking_state =
  validators :: "(bytes, validator_stake) omap"
  current_height :: u64
  treasury_account_id :: "bytes option"

record slash_outcome =
  out_amount :: u64
  redistribution :: "(bytes \<times> u64) list"

definition MIN_VALIDATOR_STAKE :: u64 where
  "MIN_VALIDATOR_STAKE = 10000000000"

definition MAX_VALIDATOR_STAKE :: u64 where
  "MAX_VALIDATOR_STAKE = 1000000000000000000"

definition UNBONDING_TICKS :: u64 where
  "UNBONDING_TICKS = 181440000"

definition JAIL_DURATION_BLOCKS :: u64 where
  "JAIL_DURATION_BLOCKS = 100"

definition MAX_UNBONDING_ENTRIES :: nat where
  "MAX_UNBONDING_ENTRIES = 100"

definition validator_new :: "u64 \<Rightarrow> validator_stake" where
  "validator_new stk = \<lparr>active_stake = stk, unbonding = [], jailed_until = None\<rparr>"

definition total_stake :: "validator_stake \<Rightarrow> u64" where
  "total_stake v = active_stake v + sum_list (map amount (unbonding v))"

definition is_active :: "u64 \<Rightarrow> validator_stake \<Rightarrow> bool" where
  "is_active h v = (if (case jailed_until v of Some j \<Rightarrow> h < j | None \<Rightarrow> False) then False
                    else active_stake v \<ge> MIN_VALIDATOR_STAKE)"

definition staking_new :: staking_state where
  "staking_new = \<lparr>validators = [], current_height = 0, treasury_account_id = None\<rparr>"

type_synonym 'a op_result = "(string + 'a) \<times> staking_state"

definition set_validator :: "bytes \<Rightarrow> validator_stake \<Rightarrow> staking_state \<Rightarrow> staking_state" where
  "set_validator pk v s = s\<lparr>validators := om_put pk v (validators s)\<rparr>"

section \<open>Stake, unstake, withdraw\<close>

definition stake :: "bytes \<Rightarrow> u64 \<Rightarrow> staking_state \<Rightarrow> unit op_result" where
  "stake pk amt s =
    (if amt < MIN_VALIDATOR_STAKE
     then (Inl (''Stake below minimum: '' @ nat_to_dec (unat amt) @ '' < ''
                @ nat_to_dec (unat MIN_VALIDATOR_STAKE)), s)
     else
       let v = (case om_get (validators s) pk of Some v \<Rightarrow> v | None \<Rightarrow> validator_new 0);
           s = set_validator pk v s
       in case checked_add (active_stake v) amt of
            None \<Rightarrow> (Inl ''Stake overflow'', s)
          | Some new_stake \<Rightarrow>
              if new_stake > MAX_VALIDATOR_STAKE
              then (Inl ''Exceeds maximum validator stake'', s)
              else (Inr (), set_validator pk (v\<lparr>active_stake := new_stake\<rparr>) s))"

text \<open>
  \<^verbatim>\<open>unbonding.retain(..)\<close>: the mature entries leave the queue, their amounts are summed.
\<close>

definition mature :: "u64 \<Rightarrow> unbonding_entry \<Rightarrow> bool" where
  "mature h e \<longleftrightarrow> h \<ge> completion_tick e"

definition retain_immature :: "u64 \<Rightarrow> validator_stake \<Rightarrow> u64 \<times> validator_stake" where
  "retain_immature h v =
    (sum_list (map amount (filter (mature h) (unbonding v))),
     v\<lparr>unbonding := filter (\<lambda>e. \<not> mature h e) (unbonding v)\<rparr>)"

text \<open>The automatic withdrawal when the queue is at its limit, then the checks and the new entry.\<close>

definition prune :: "u64 \<Rightarrow> validator_stake \<Rightarrow> validator_stake" where
  "prune h v = (if length (unbonding v) \<ge> MAX_UNBONDING_ENTRIES then snd (retain_immature h v) else v)"

definition begin_unbonding :: "u64 \<Rightarrow> u64 \<Rightarrow> validator_stake \<Rightarrow> string + validator_stake" where
  "begin_unbonding h amt v =
    (if length (unbonding v) \<ge> MAX_UNBONDING_ENTRIES
     then Inl ''Too many unbonding entries, withdraw first''
     else if amt > active_stake v then Inl ''Insufficient active stake''
     else let remain = active_stake v - amt in
       if remain > 0 \<and> remain < MIN_VALIDATOR_STAKE
       then Inl ''Unstaking would leave stake below minimum (must unstake all)''
       else Inr (v\<lparr>active_stake := remain,
                   unbonding := unbonding v @ [\<lparr>amount = amt, completion_tick = h + UNBONDING_TICKS\<rparr>]\<rparr>))"

definition unstake :: "bytes \<Rightarrow> u64 \<Rightarrow> staking_state \<Rightarrow> unit op_result" where
  "unstake pk amt s = (case om_get (validators s) pk of
      None \<Rightarrow> (Inl ''Validator not found'', s)
    | Some v0 \<Rightarrow>
       let v = prune (current_height s) v0;
           s = set_validator pk v s
       in (case begin_unbonding (current_height s) amt v of
             Inl e \<Rightarrow> (Inl e, s)
           | Inr v' \<Rightarrow> (Inr (), set_validator pk v' s)))"

definition withdraw :: "bytes \<Rightarrow> staking_state \<Rightarrow> u64 op_result" where
  "withdraw pk s = (case om_get (validators s) pk of
      None \<Rightarrow> (Inl ''Validator not found'', s)
    | Some v0 \<Rightarrow>
       let (total_withdrawn, v) = retain_immature (current_height s) v0;
           s = set_validator pk v s
       in if total_withdrawn = 0 then (Inl ''No unbonded stake available'', s)
          else if active_stake v = 0 \<and> unbonding v = [] \<and> jailed_until v = None
          then (Inr total_withdrawn, s\<lparr>validators := om_del pk (validators s)\<rparr>)
          else (Inr total_withdrawn, s))"

definition get_active_validators :: "staking_state \<Rightarrow> (bytes \<times> u64) list" where
  "get_active_validators s =
    map (\<lambda>(pk, v). (pk, active_stake v)) (filter (\<lambda>(pk, v). is_active (current_height s) v) (validators s))"

definition advance_height :: "staking_state \<Rightarrow> staking_state" where
  "advance_height s = s\<lparr>current_height := current_height s + 1\<rparr>"

section \<open>Evidence\<close>

record sig_scheme =
  pk_valid :: "bytes \<Rightarrow> bool"
  sig_verify :: "bytes \<Rightarrow> bytes \<Rightarrow> bytes \<Rightarrow> string \<Rightarrow> bool"

definition attestation_message :: "u64 \<Rightarrow> bytes \<Rightarrow> bytes" where
  "attestation_message h batch_hash = to_le_bytes 8 h @ batch_hash"

definition verify_double_sign_evidence :: "sig_scheme \<Rightarrow> double_sign_evidence \<Rightarrow> string + unit" where
  "verify_double_sign_evidence S e =
    (if batch_hash_1 e = batch_hash_2 e then Inl ''Evidence must show two different batches''
     else let msg1 = attestation_message (ev_height e) (batch_hash_1 e);
              msg2 = attestation_message (ev_height e) (batch_hash_2 e)
     in if length (ev_pubkey e) \<noteq> 1952 then Inl ''Invalid pubkey length''
     else if \<not> pk_valid S (ev_pubkey e) then Inl ''Invalid pubkey''
     else if length (signature_1 e) \<noteq> 3309 then Inl ''Invalid signature 1 length''
     else if length (signature_2 e) \<noteq> 3309 then Inl ''Invalid signature 2 length''
     else if \<not> sig_verify S (ev_pubkey e) msg1 (signature_1 e) ''truthlinked-attestation-v1''
     then Inl ''Signature 1 verification failed''
     else if \<not> sig_verify S (ev_pubkey e) msg2 (signature_2 e) ''truthlinked-attestation-v1''
     then Inl ''Signature 2 verification failed''
     else Inr ())"

text \<open>The guard at the head of the two slashing entry points.\<close>

definition check_evidence :: "sig_scheme \<Rightarrow> slash_reason \<Rightarrow> double_sign_evidence option \<Rightarrow> string + unit" where
  "check_evidence S reason ev =
    (if reason = DoubleSign
     then (case ev of None \<Rightarrow> Inl ''Double-sign requires evidence''
                    | Some e \<Rightarrow> verify_double_sign_evidence S e)
     else Inr ())"

section \<open>Slashing\<close>

fun slash_param :: "slash_reason \<Rightarrow> string" where
  "slash_param DoubleSign = ''staking.slash_percentage''"
| "slash_param InvalidStateRoot = ''staking.slash_percentage''"
| "slash_param InvalidSnapshot = ''staking.slash_percentage''"
| "slash_param Downtime = ''staking.downtime_slash_percentage''"
| "slash_param Censorship = ''staking.censorship_slash_percentage''"
| "slash_param OracleLie = ''staking.oracle_lie_slash_percentage''"
| "slash_param (OracleSilence _) = ''staking.oracle_silence_slash_percentage''"

definition slash_amount :: "u64 \<Rightarrow> u64 \<Rightarrow> u64" where
  "slash_amount act percentage =
    (let a = (act * percentage) div 100;
         a = (if a = 0 then 1 else a)
     in if a > act then act else a)"

text \<open>Phase 1: the proportional floor, through 128-bit arithmetic.\<close>

definition floor_share :: "u64 \<Rightarrow> u64 \<Rightarrow> u64 \<Rightarrow> u64" where
  "floor_share total_slashed vstake total_active =
     ucast ((ucast total_slashed * ucast vstake :: u128) div ucast total_active)"

text \<open>Phase 2: the \<^verbatim>\<open>while dust > 0\<close> loop over the slots in order of descending stake.\<close>

definition bump :: "nat \<Rightarrow> (bytes \<times> u64) list \<Rightarrow> (bytes \<times> u64) list" where
  "bump slot shares = shares[slot := (fst (shares ! slot), saturating_add (snd (shares ! slot)) 1)]"

primrec dust_loop :: "nat \<Rightarrow> nat list \<Rightarrow> nat \<Rightarrow> (bytes \<times> u64) list \<Rightarrow> (bytes \<times> u64) list" where
  "dust_loop 0 dust_order idx shares = shares"
| "dust_loop (Suc dust) dust_order idx shares =
     dust_loop dust dust_order (idx + 1) (bump (dust_order ! (idx mod length dust_order)) shares)"

definition dust_order :: "(bytes \<times> u64) list \<Rightarrow> nat list" where
  "dust_order act = sort_key (\<lambda>i. 2 ^ 64 - unat (snd (act ! i))) [0..<length act]"

definition eligible :: "staking_state \<Rightarrow> bytes \<Rightarrow> (bytes \<times> u64) list" where
  "eligible s slashed = map (\<lambda>(pk, v). (pk, active_stake v))
     (filter (\<lambda>(pk, v). pk \<noteq> slashed \<and> is_active (current_height s) v) (validators s))"

definition compute_redistribution :: "staking_state \<Rightarrow> bytes \<Rightarrow> u64 \<Rightarrow> (bytes \<times> u64) list" where
  "compute_redistribution s slashed total_slashed =
    (let act = eligible s slashed in
     if act = [] then (case treasury_account_id s of
         Some t \<Rightarrow> [(t, total_slashed)]
       | None \<Rightarrow> [])
     else
       let act = sort_key fst act;
           total_active = sum_list (map snd act)
       in if total_active = 0 then []
       else
         let shares = map (\<lambda>(pk, st). (pk, floor_share total_slashed st total_active)) act;
             allocated = sum_list (map snd shares);
             dust = saturating_sub total_slashed allocated
         in if dust > 0 then dust_loop (unat dust) (dust_order act) 0 shares else shares)"

definition compute_slash_outcome ::
    "(string \<Rightarrow> u64) \<Rightarrow> sig_scheme \<Rightarrow> staking_state \<Rightarrow> bytes \<Rightarrow> slash_reason
     \<Rightarrow> double_sign_evidence option \<Rightarrow> string + slash_outcome" where
  "compute_slash_outcome gp S s pk reason ev = (case check_evidence S reason ev of
      Inl e \<Rightarrow> Inl e
    | Inr _ \<Rightarrow> (case om_get (validators s) pk of
         None \<Rightarrow> Inl ''Validator not found''
       | Some v \<Rightarrow>
          if active_stake v = 0 then Inl ''No stake to slash''
          else let a = slash_amount (active_stake v) (gp (slash_param reason))
            in Inr \<lparr>out_amount = a, redistribution = compute_redistribution s pk a\<rparr>))"

primrec apply_redistribution :: "(bytes \<times> u64) list \<Rightarrow> staking_state \<Rightarrow> staking_state" where
  "apply_redistribution [] s = s"
| "apply_redistribution (p # ps) s = apply_redistribution ps
    (if snd p = 0 then s
     else case om_get (validators s) (fst p) of
       Some v \<Rightarrow> set_validator (fst p) (v\<lparr>active_stake := saturating_add (active_stake v) (snd p)\<rparr>) s
     | None \<Rightarrow> s)"

definition apply_slash_outcome ::
    "sig_scheme \<Rightarrow> bytes \<Rightarrow> slash_reason \<Rightarrow> slash_outcome \<Rightarrow> double_sign_evidence option
     \<Rightarrow> staking_state \<Rightarrow> unit op_result" where
  "apply_slash_outcome S pk reason out ev s = (case check_evidence S reason ev of
      Inl e \<Rightarrow> (Inl e, s)
    | Inr _ \<Rightarrow> (case om_get (validators s) pk of
         None \<Rightarrow> (Inl ''Validator not found'', s)
       | Some v \<Rightarrow>
          if out_amount out = 0 then (Inl ''No stake to slash'', s)
          else if out_amount out > active_stake v then (Inl ''Slash amount exceeds active stake'', s)
          else (Inr (), apply_redistribution (redistribution out)
                  (set_validator pk
                    (v\<lparr>active_stake := saturating_sub (active_stake v) (out_amount out),
                       jailed_until := Some (current_height s + JAIL_DURATION_BLOCKS)\<rparr>) s))))"

definition slash_validator ::
    "(string \<Rightarrow> u64) \<Rightarrow> sig_scheme \<Rightarrow> bytes \<Rightarrow> slash_reason \<Rightarrow> double_sign_evidence option
     \<Rightarrow> staking_state \<Rightarrow> slash_outcome op_result" where
  "slash_validator gp S pk reason ev s = (case compute_slash_outcome gp S s pk reason ev of
      Inl e \<Rightarrow> (Inl e, s)
    | Inr out \<Rightarrow> (case apply_slash_outcome S pk reason out ev s of
         (Inl e, s') \<Rightarrow> (Inl e, s')
       | (Inr _, s') \<Rightarrow> (Inr out, s')))"

definition slash_for_oracle_lie ::
    "(string \<Rightarrow> u64) \<Rightarrow> sig_scheme \<Rightarrow> bytes \<Rightarrow> staking_state \<Rightarrow> u64 op_result" where
  "slash_for_oracle_lie gp S pk s = (case slash_validator gp S pk OracleLie None s of
      (Inl e, s') \<Rightarrow> (Inl e, s')
    | (Inr out, s') \<Rightarrow> (Inr (out_amount out), s'))"

primrec slash_each ::
    "(string \<Rightarrow> u64) \<Rightarrow> sig_scheme \<Rightarrow> bytes \<Rightarrow> bytes list \<Rightarrow> (bytes \<times> u64) list
     \<Rightarrow> staking_state \<Rightarrow> (bytes \<times> u64) list \<times> staking_state" where
  "slash_each gp S rid [] results s = (results, s)"
| "slash_each gp S rid (pk # pks) results s =
    (case slash_validator gp S pk (OracleSilence rid) None s of
       (Inr out, s') \<Rightarrow> slash_each gp S rid pks (results @ [(pk, out_amount out)]) s'
     | (Inl _, s') \<Rightarrow> slash_each gp S rid pks results s')"

definition slash_silent_oracle_validators ::
    "(string \<Rightarrow> u64) \<Rightarrow> sig_scheme \<Rightarrow> bytes \<Rightarrow> bytes list \<Rightarrow> bytes list
     \<Rightarrow> staking_state \<Rightarrow> (bytes \<times> u64) list \<times> staking_state" where
  "slash_silent_oracle_validators gp S rid committed revealed s =
    (let silent = remdups_adj (sort (filter (\<lambda>pk. pk \<notin> set revealed) committed))
     in slash_each gp S rid silent [] s)"

definition unjail :: "bytes \<Rightarrow> staking_state \<Rightarrow> unit op_result" where
  "unjail pk s = (case om_get (validators s) pk of
      None \<Rightarrow> (Inl ''Validator not found'', s)
    | Some v \<Rightarrow>
       if (case jailed_until v of Some j \<Rightarrow> current_height s < j | None \<Rightarrow> False)
       then (Inl (''Still jailed until height '' @ nat_to_dec (unat (the (jailed_until v)))), s)
       else if active_stake v < MIN_VALIDATOR_STAKE then (Inl ''Insufficient stake to unjail'', s)
       else (Inr (), set_validator pk (v\<lparr>jailed_until := None\<rparr>) s))"

section \<open>The proportional shares\<close>

definition weight :: "(bytes \<times> u64) list \<Rightarrow> nat" where
  "weight ps = sum_list (map (\<lambda>p. unat (snd p)) ps)"

lemma weight_sum_list:
  assumes "weight ps < 2 ^ 64"
  shows "unat (sum_list (map snd ps)) = weight ps"
  using unat_sum_list [of "map snd ps"] assms by (simp add: weight_def comp_def)

lemma unat_floor_share:
  assumes "v \<le> tot" and "0 < tot"
  shows "unat (floor_share t v tot) = unat t * unat v div unat tot"
proof -
  have t: "unat t < 2 ^ 64" and v: "unat v < 2 ^ 64" and q: "unat tot < 2 ^ 64"
    by (rule unat_less_64)+
  have vt: "unat v \<le> unat tot" "0 < unat tot" using assms by (simp_all add: word_le_nat_alt word_less_nat_alt)
  have uc: "unat (ucast x :: u128) = unat x" for x :: u64
    using unat_less_64 [of x] by (simp add: unsigned_ucast_eq take_bit_nat_eq_self)
  have "unat t * unat v < 2 ^ 128"
  proof -
    have "unat t * unat v \<le> 2 ^ 64 * unat v" using t by simp
    also have "\<dots> < 2 ^ 64 * 2 ^ 64" using v by simp
    finally show ?thesis by simp
  qed
  then have m: "unat (ucast t * ucast v :: u128) = unat t * unat v"
    by (simp add: unat_word_ariths uc)
  have "unat t * unat v div unat tot \<le> unat t * unat tot div unat tot"
    using vt by (intro div_le_mono) simp
  then have le: "unat t * unat v div unat tot < 2 ^ 64" using vt t by simp
  have "unat ((ucast t * ucast v :: u128) div ucast tot) = unat t * unat v div unat tot"
    by (simp add: unat_div_distrib m uc)
  then show ?thesis using le
    by (simp add: floor_share_def unsigned_ucast_eq take_bit_nat_eq_self)
qed

lemma floor_sum_bounds:
  fixes vs :: "nat list"
  assumes "sum_list vs = tot" and "0 < tot"
  shows "sum_list (map (\<lambda>v. t * v div tot) vs) \<le> t"
    and "t \<le> sum_list (map (\<lambda>v. t * v div tot) vs) + length vs"
    and "vs \<noteq> [] \<Longrightarrow> t < sum_list (map (\<lambda>v. t * v div tot) vs) + length vs"
proof -
  let ?q = "sum_list (map (\<lambda>v. t * v div tot) vs)"
  let ?r = "sum_list (map (\<lambda>v. t * v mod tot) vs)"
  have "sum_list (map (\<lambda>v. t * v) vs) = t * tot"
    using assms(1) by (simp add: sum_list_const_mult)
  moreover have "sum_list (map (\<lambda>v. t * v) vs) = ?q * tot + ?r"
    by (simp add: sum_list_mult_const [symmetric] sum_list_addf [symmetric])
  ultimately have eq: "t * tot = ?q * tot + ?r" by simp
  then have "?q * tot \<le> t * tot" by simp
  then show "?q \<le> t" using assms(2) by simp
  have r: "?r \<le> length vs * (tot - 1)"
  proof (induction vs)
    case Nil
    then show ?case by simp
  next
    case (Cons v vs)
    have "t * v mod tot \<le> tot - 1" using assms(2) mod_less_divisor [of tot "t * v"] by linarith
    with Cons show ?case by simp
  qed
  then have "t * tot \<le> (?q + length vs) * tot" using eq by (simp add: algebra_simps diff_mult_distrib2)
  then show "t \<le> ?q + length vs" using assms(2) by simp
  show "t < ?q + length vs" if "vs \<noteq> []"
  proof -
    have "length vs * (tot - 1) < length vs * tot" using that assms(2) by simp
    then have "t * tot < (?q + length vs) * tot" using eq r by (simp add: algebra_simps)
    then show ?thesis by simp
  qed
qed

section \<open>The dust loop\<close>

lemma length_bump [simp]: "length (bump i ps) = length ps"
  by (simp add: bump_def)

lemma length_dust_loop [simp]: "length (dust_loop d ord idx ps) = length ps"
  by (induction d arbitrary: idx ps) auto

lemma dust_loop_nth:
  assumes "distinct ord" and "set ord \<subseteq> {..<length ps}" and "idx + d \<le> length ord"
    and "\<forall>j \<in> set (drop idx ord). unat (snd (ps ! j)) + 1 < 2 ^ 64" and "i < length ps"
  shows "fst (dust_loop d ord idx ps ! i) = fst (ps ! i)
    \<and> unat (snd (dust_loop d ord idx ps ! i)) = unat (snd (ps ! i)) + of_bool (i \<in> set (take d (drop idx ord)))"
  using assms
proof (induction d arbitrary: idx ps)
  case 0
  then show ?case by simp
next
  case (Suc d)
  let ?j = "ord ! idx"
  have idx: "idx < length ord" "idx mod length ord = idx" using Suc.prems(3) by auto
  have j: "?j < length ps" using Suc.prems(2) idx by (meson lessThan_iff nth_mem subsetD)
  have notin: "?j \<notin> set (take d (drop (idx + 1) ord))"
    using Suc.prems(1) idx by (auto simp: in_set_conv_nth nth_eq_iff_index_eq)
  have tk: "set (take (Suc d) (drop idx ord)) = insert ?j (set (take d (drop (idx + 1) ord)))"
    using idx(1) by (simp add: Cons_nth_drop_Suc [symmetric])
  let ?ps = "bump ?j ps"
  have nth: "?ps ! i = (if i = ?j then (fst (ps ! i), saturating_add (snd (ps ! i)) 1) else ps ! i)" for i
    using j by (simp add: bump_def nth_list_update)
  have jd: "?j \<notin> set (drop (idx + 1) ord)"
    using Suc.prems(1) idx by (metis Cons_nth_drop_Suc Suc_eq_plus1 distinct.simps(2) distinct_drop)
  have "unat (snd (ps ! ?j)) + 1 < 2 ^ 64"
    using Suc.prems(4) idx by (metis Cons_nth_drop_Suc list.set_intros(1))
  then have sat: "unat (saturating_add (snd (ps ! ?j)) 1) = unat (snd (ps ! ?j)) + 1"
    by (simp add: unat_saturating_add)
  have "\<forall>k \<in> set (drop (idx + 1) ord). unat (snd (?ps ! k)) + 1 < 2 ^ 64"
  proof
    fix k assume k: "k \<in> set (drop (idx + 1) ord)"
    then have "k \<in> set (drop idx ord)" using idx by (simp add: Cons_nth_drop_Suc [symmetric])
    moreover have "k \<noteq> ?j" using k jd by auto
    ultimately show "unat (snd (?ps ! k)) + 1 < 2 ^ 64" using Suc.prems(4) by (simp add: nth)
  qed
  then have "fst (dust_loop d ord (idx + 1) ?ps ! i) = fst (?ps ! i)
    \<and> unat (snd (dust_loop d ord (idx + 1) ?ps ! i))
        = unat (snd (?ps ! i)) + of_bool (i \<in> set (take d (drop (idx + 1) ord)))"
    using Suc.prems by (intro Suc.IH) auto
  then show ?case using notin sat by (auto simp: idx(2) nth tk)
qed

lemma weight_nth: "weight ps = (\<Sum>i<length ps. unat (snd (ps ! i)))"
  by (simp add: weight_def sum_list_sum_nth atLeast0LessThan)

lemma weight_dust_loop:
  assumes "distinct ord" and "set ord \<subseteq> {..<length ps}" and "d \<le> length ord"
    and "\<forall>j \<in> set ord. unat (snd (ps ! j)) + 1 < 2 ^ 64"
  shows "weight (dust_loop d ord 0 ps) = weight ps + d"
proof -
  have "weight (dust_loop d ord 0 ps)
      = (\<Sum>i<length ps. unat (snd (ps ! i)) + of_bool (i \<in> set (take d ord)))"
    unfolding weight_nth length_dust_loop
  proof (rule sum.cong [OF refl])
    fix i assume "i \<in> {..<length ps}"
    with dust_loop_nth [OF assms(1,2), of 0 d i] assms(3,4)
    show "unat (snd (dust_loop d ord 0 ps ! i)) = unat (snd (ps ! i)) + of_bool (i \<in> set (take d ord))"
      by simp
  qed
  also have "\<dots> = weight ps + (\<Sum>i<length ps. of_bool (i \<in> set (take d ord)))"
    by (simp add: weight_nth sum.distrib)
  also have "(\<Sum>i<length ps. of_bool (i \<in> set (take d ord)) :: nat) = card (set (take d ord))"
  proof -
    have sub: "set (take d ord) \<subseteq> {..<length ps}" using assms(2) by (auto dest: in_set_takeD)
    have "(\<Sum>i<length ps. of_bool (i \<in> set (take d ord)) :: nat)
        = card ({..<length ps} \<inter> {i. i \<in> set (take d ord)})"
      by simp
    also have "{..<length ps} \<inter> {i. i \<in> set (take d ord)} = set (take d ord)" using sub by auto
    finally show ?thesis .
  qed
  also have "card (set (take d ord)) = d"
    using assms(1,3) by (simp add: distinct_card)
  finally show ?thesis .
qed

section \<open>Redistribution\<close>

lemma eligible_sorted: "om_inv (validators s) \<Longrightarrow> sorted_wrt (<) (map fst (eligible s pk))"
proof -
  assume "om_inv (validators s)"
  then have "sorted_wrt (<) (map fst (filter P (validators s)))" for P
    by (simp add: om_inv_def sorted_wrt_map sorted_wrt_filter)
  then show ?thesis
    by (simp add: eligible_def comp_def case_prod_unfold)
qed

lemma sort_eligible: "om_inv (validators s) \<Longrightarrow> sort_key fst (eligible s pk) = eligible s pk"
  using eligible_sorted [of s pk] by (simp add: sort_key_id_if_sorted strict_sorted_iff)

lemma eligible_min: "p \<in> set (eligible s pk) \<Longrightarrow> MIN_VALIDATOR_STAKE \<le> snd p"
  by (auto simp: eligible_def is_active_def split: if_splits)

lemma weight_ge: "p \<in> set ps \<Longrightarrow> unat (snd p) \<le> weight ps"
  by (auto simp: weight_def intro: member_le_sum_list)

lemma eligible_weight_pos:
  assumes "eligible s pk \<noteq> []"
  shows "0 < weight (eligible s pk)"
proof -
  obtain p where p: "p \<in> set (eligible s pk)" using assms by (meson last_in_set)
  have "0 < unat MIN_VALIDATOR_STAKE" by (simp add: MIN_VALIDATOR_STAKE_def)
  also have "\<dots> \<le> unat (snd p)" using eligible_min [OF p] by (simp add: word_le_nat_alt)
  also have "\<dots> \<le> weight (eligible s pk)" using p by (rule weight_ge)
  finally show ?thesis .
qed

lemma dust_order_perm: "distinct (dust_order ps)" "set (dust_order ps) = {..<length ps}"
  "length (dust_order ps) = length ps"
  by (auto simp: dust_order_def)

definition share_floor :: "u64 \<Rightarrow> nat \<Rightarrow> bytes \<times> u64 \<Rightarrow> nat" where
  "share_floor t tot p = unat t * unat (snd p) div tot"

text \<open>What the redistribution is, in natural numbers, when the stakes do not overflow.\<close>

lemma redistribution_spec:
  assumes inv: "om_inv (validators s)" and ne: "eligible s pk \<noteq> []"
    and small: "weight (eligible s pk) < 2 ^ 64"
  shows "map fst (compute_redistribution s pk t) = map fst (eligible s pk)"
    and "weight (compute_redistribution s pk t) = unat t"
    and "i < length (eligible s pk) \<Longrightarrow>
       unat (snd (compute_redistribution s pk t ! i))
         \<in> {share_floor t (weight (eligible s pk)) (eligible s pk ! i),
            share_floor t (weight (eligible s pk)) (eligible s pk ! i) + 1}"
proof -
  define act where "act = eligible s pk"
  define tot where "tot = sum_list (map snd act)"
  define sh where "sh = map (\<lambda>(pk, st). (pk, floor_share t st tot)) act"
  have tot: "unat tot = weight act" using small by (simp add: tot_def act_def weight_sum_list)
  have pos: "0 < weight act" using ne by (simp add: act_def eligible_weight_pos)
  then have tot0: "tot \<noteq> 0" using tot by auto
  have fl: "unat (snd (sh ! i)) = share_floor t (weight act) (act ! i)" if "i < length act" for i
  proof -
    have "unat (snd (act ! i)) \<le> weight act" using that by (intro weight_ge) simp
    then have "snd (act ! i) \<le> tot" "0 < tot" using tot pos by (simp_all add: word_le_nat_alt word_less_nat_alt)
    then show ?thesis using that
      by (simp add: sh_def share_floor_def unat_floor_share tot case_prod_unfold)
  qed
  have len: "length sh = length act" by (simp add: sh_def)
  have wsh: "weight sh = sum_list (map (\<lambda>v. unat t * v div weight act) (map (\<lambda>p. unat (snd p)) act))"
    unfolding weight_nth [of sh] len by (simp add: fl share_floor_def sum_list_sum_nth atLeast0LessThan)
  have sumact: "sum_list (map (\<lambda>p. unat (snd p)) act) = weight act" by (simp add: weight_def)
  note fb = floor_sum_bounds [OF sumact pos, of "unat t", folded wsh]
  have le: "weight sh \<le> unat t" using fb(1) .
  have lt: "unat t < weight sh + length act" using fb(3) ne by (simp add: act_def)
  have w64: "weight sh < 2 ^ 64" using le unat_less_64 [of t] by linarith
  define dust where "dust = saturating_sub t (sum_list (map snd sh))"
  have dust: "unat dust = unat t - weight sh"
    using w64 by (simp add: dust_def unat_saturating_sub weight_sum_list)
  have R: "compute_redistribution s pk t = dust_loop (unat dust) (dust_order act) 0 sh"
    using ne tot0 sort_eligible [OF inv, of pk]
    by (simp add: compute_redistribution_def Let_def act_def [symmetric] tot_def [symmetric]
        sh_def [symmetric] dust_def [symmetric] word_gt_0)
  have ord: "distinct (dust_order act)" "set (dust_order act) \<subseteq> {..<length sh}"
    "unat dust \<le> length (dust_order act)"
    using dust lt by (auto simp: dust_order_perm len)
  have room: "\<forall>j \<in> set (drop 0 (dust_order act)). unat (snd (sh ! j)) + 1 < 2 ^ 64" if "0 < unat dust"
  proof
    fix j assume "j \<in> set (drop 0 (dust_order act))"
    then have "j < length sh" by (simp add: dust_order_perm len)
    then have "unat (snd (sh ! j)) \<le> weight sh" by (intro weight_ge) simp
    then show "unat (snd (sh ! j)) + 1 < 2 ^ 64" using that dust unat_less_64 [of t] by linarith
  qed
  have nth: "fst (compute_redistribution s pk t ! i) = fst (sh ! i)
      \<and> unat (snd (compute_redistribution s pk t ! i)) = unat (snd (sh ! i))
          + of_bool (0 < unat dust \<and> i \<in> set (take (unat dust) (dust_order act)))"
    if "i < length act" for i
  proof (cases "0 < unat dust")
    case True
    from dust_loop_nth [OF ord(1,2) _ room [OF True], of "unat dust" i] ord(3) that True
    show ?thesis by (simp add: R len)
  qed (simp add: R)
  show "weight (compute_redistribution s pk t) = unat t"
  proof (cases "0 < unat dust")
    case True
    from weight_dust_loop [OF ord] room [OF True] show ?thesis using dust le by (simp add: R)
  next
    case False
    then show ?thesis using dust le by (simp add: R)
  qed
  show "map fst (compute_redistribution s pk t) = map fst (eligible s pk)"
    using nth by (intro nth_equalityI) (auto simp: R len sh_def act_def case_prod_unfold)
  show "unat (snd (compute_redistribution s pk t ! i))
         \<in> {share_floor t (weight (eligible s pk)) (eligible s pk ! i),
            share_floor t (weight (eligible s pk)) (eligible s pk ! i) + 1}"
    if "i < length (eligible s pk)"
    using nth [of i] fl [of i] that by (auto simp: act_def)
qed

section \<open>Accounting\<close>

abbreviation active_total :: "staking_state \<Rightarrow> nat" where
  "active_total s \<equiv> om_total (\<lambda>v. unat (active_stake v)) (validators s)"

definition queued :: "unbonding_entry list \<Rightarrow> nat" where
  "queued es = sum_list (map (\<lambda>e. unat (amount e)) es)"

abbreviation bonded_total :: "staking_state \<Rightarrow> nat" where
  "bonded_total s \<equiv> om_total (\<lambda>v. unat (active_stake v) + queued (unbonding v)) (validators s)"

lemma set_validator_simps [simp]:
  "validators (set_validator pk v s) = om_put pk v (validators s)"
  "current_height (set_validator pk v s) = current_height s"
  "treasury_account_id (set_validator pk v s) = treasury_account_id s"
  by (simp_all add: set_validator_def)

lemma queued_simps [simp]:
  "queued [] = 0" "queued (e # es) = unat (amount e) + queued es" "queued (es @ fs) = queued es + queued fs"
  by (simp_all add: queued_def)

lemma queued_split: "queued (filter P es) + queued (filter (\<lambda>e. \<not> P e) es) = queued es"
  by (induction es) auto

lemma apply_redistribution_total:
  assumes "om_inv (validators s)" and "\<forall>p \<in> set ps. om_get (validators s) (fst p) \<noteq> None"
    and "active_total s + weight ps < 2 ^ 64"
  shows "om_inv (validators (apply_redistribution ps s))
    \<and> active_total (apply_redistribution ps s) = active_total s + weight ps"
  using assms
proof (induction ps arbitrary: s)
  case Nil
  then show ?case by (simp add: weight_def)
next
  case (Cons p ps)
  let ?w = "\<lambda>v. unat (active_stake v)"
  obtain v where v: "om_get (validators s) (fst p) = Some v" using Cons.prems(2) by auto
  define v' where "v' = v\<lparr>active_stake := saturating_add (active_stake v) (snd p)\<rparr>"
  define s1 where "s1 = set_validator (fst p) v' s"
  have wp: "weight (p # ps) = unat (snd p) + weight ps" by (simp add: weight_def)
  have "?w v \<le> active_total s" using Cons.prems(1) v by (rule om.total_ge)
  then have "unat (saturating_add (active_stake v) (snd p)) = ?w v + unat (snd p)"
    using Cons.prems(3) wp by (simp add: unat_saturating_add)
  then have t1: "active_total s1 = active_total s + unat (snd p)"
    using om.total_put [OF Cons.prems(1) v, of ?w v'] by (simp add: s1_def v'_def)
  show ?case
  proof (cases "snd p = 0")
    case True
    then show ?thesis using Cons wp by simp
  next
    case False
    have "om_inv (validators s1)" using Cons.prems(1) by (simp add: s1_def om_inv_put)
    moreover have "\<forall>q \<in> set ps. om_get (validators s1) (fst q) \<noteq> None"
      using Cons.prems(1,2) by (simp add: s1_def om_get_put)
    moreover have "active_total s1 + weight ps < 2 ^ 64" using Cons.prems(3) t1 wp by simp
    ultimately have "om_inv (validators (apply_redistribution ps s1))
        \<and> active_total (apply_redistribution ps s1) = active_total s1 + weight ps"
      by (rule Cons.IH)
    then show ?thesis using False v t1 wp by (simp add: s1_def v'_def)
  qed
qed

lemma apply_redistribution_other:
  assumes "om_inv (validators s)" and "pk \<notin> fst ` set ps"
  shows "om_get (validators (apply_redistribution ps s)) pk = om_get (validators s) pk"
  using assms
proof (induction ps arbitrary: s)
  case (Cons p ps)
  have pk: "pk \<noteq> fst p" "pk \<notin> fst ` set ps" using Cons.prems(2) by auto
  show ?case
  proof (cases "snd p = 0 \<or> om_get (validators s) (fst p) = None")
    case True
    then show ?thesis using Cons.IH [OF Cons.prems(1) pk(2)] by auto
  next
    case False
    then obtain v where v: "snd p \<noteq> 0" "om_get (validators s) (fst p) = Some v" by auto
    let ?s = "set_validator (fst p) (v\<lparr>active_stake := saturating_add (active_stake v) (snd p)\<rparr>) s"
    have "om_get (validators (apply_redistribution ps ?s)) pk = om_get (validators ?s) pk"
      using Cons.prems(1) pk(2) by (intro Cons.IH) (simp_all add: om_inv_put)
    then show ?thesis using v pk(1) Cons.prems(1) by (simp add: om_get_put)
  qed
qed simp

lemma eligible_in:
  assumes "om_inv (validators s)" and "p \<in> set (eligible s pk)"
  shows "\<exists>v. om_get (validators s) (fst p) = Some v" and "fst p \<noteq> pk"
  using assms by (auto simp: eligible_def om_get_in)

lemma weight_eligible_le:
  "weight (eligible s pk) \<le> om_total (\<lambda>v. unat (active_stake v)) (om_del pk (validators s))"
  unfolding weight_def eligible_def om_total_def om_del_def
  using sum_list_filter_map_le [of "\<lambda>(k, v). k \<noteq> pk \<and> is_active (current_height s) v" "\<lambda>e. fst e \<noteq> pk"
      "\<lambda>e. unat (active_stake (snd e))" "validators s"]
  by (simp add: comp_def case_prod_unfold)

section \<open>Slashing conserves stake\<close>

lemma slash_amount_bounds: "act \<noteq> 0 \<Longrightarrow> 0 < slash_amount act p \<and> slash_amount act p \<le> act"
  by (auto simp: slash_amount_def Let_def word_gt_0 not_less)

lemma compute_slash_outcome_Inr:
  assumes "compute_slash_outcome gp S s pk reason ev = Inr out"
  shows "\<exists>v. om_get (validators s) pk = Some v \<and> active_stake v \<noteq> 0
    \<and> out_amount out = slash_amount (active_stake v) (gp (slash_param reason))
    \<and> redistribution out = compute_redistribution s pk (out_amount out)"
  using assms by (auto simp: compute_slash_outcome_def Let_def split: sum.splits option.splits if_splits)

definition slashed_state :: "bytes \<Rightarrow> slash_outcome \<Rightarrow> validator_stake \<Rightarrow> staking_state \<Rightarrow> staking_state" where
  "slashed_state pk out v s = set_validator pk
     (v\<lparr>active_stake := active_stake v - out_amount out,
        jailed_until := Some (current_height s + JAIL_DURATION_BLOCKS)\<rparr>) s"

lemma apply_slash_outcome_Inr:
  assumes "apply_slash_outcome S pk reason out ev s = (Inr u, s')"
  shows "\<exists>v. om_get (validators s) pk = Some v \<and> 0 < out_amount out \<and> out_amount out \<le> active_stake v
    \<and> s' = apply_redistribution (redistribution out) (slashed_state pk out v s)"
proof -
  have "\<exists>v. om_get (validators s) pk = Some v \<and> out_amount out \<noteq> 0 \<and> \<not> out_amount out > active_stake v
    \<and> s' = apply_redistribution (redistribution out) (set_validator pk
        (v\<lparr>active_stake := saturating_sub (active_stake v) (out_amount out),
           jailed_until := Some (current_height s + JAIL_DURATION_BLOCKS)\<rparr>) s)"
    using assms by (auto simp: apply_slash_outcome_def split: sum.splits option.splits if_splits)
  then show ?thesis by (auto simp: slashed_state_def saturating_sub_def word_gt_0 not_less)
qed

lemma slash_validator_Inr:
  assumes "slash_validator gp S pk reason ev s = (Inr out, s')"
  obtains v where "om_get (validators s) pk = Some v"
    and "0 < out_amount out" and "out_amount out \<le> active_stake v"
    and "out_amount out = slash_amount (active_stake v) (gp (slash_param reason))"
    and "redistribution out = compute_redistribution s pk (out_amount out)"
    and "s' = apply_redistribution (redistribution out) (slashed_state pk out v s)"
proof -
  from assms have c: "compute_slash_outcome gp S s pk reason ev = Inr out"
    and a: "\<exists>u. apply_slash_outcome S pk reason out ev s = (Inr u, s')"
    by (auto simp: slash_validator_def split: sum.splits prod.splits)
  from compute_slash_outcome_Inr [OF c] a [THEN exE, OF apply_slash_outcome_Inr] that
  show ?thesis by force
qed

lemma slashed_state_total:
  assumes "om_inv (validators s)" and "om_get (validators s) pk = Some v"
    and "out_amount out \<le> active_stake v"
  shows "om_inv (validators (slashed_state pk out v s))"
    and "active_total (slashed_state pk out v s) + unat (out_amount out) = active_total s"
proof -
  show "om_inv (validators (slashed_state pk out v s))"
    using assms(1) by (simp add: slashed_state_def om_inv_put)
  have "unat (active_stake v - out_amount out) + unat (out_amount out) = unat (active_stake v)"
    using assms(3) by (simp add: unat_sub_le word_le_nat_alt)
  then show "active_total (slashed_state pk out v s) + unat (out_amount out) = active_total s"
    using om.total_put [OF assms(1,2), of "\<lambda>v. unat (active_stake v)"
        "v\<lparr>active_stake := active_stake v - out_amount out,
           jailed_until := Some (current_height s + JAIL_DURATION_BLOCKS)\<rparr>"]
    by (simp add: slashed_state_def)
qed

text \<open>
  C3. Slashing moves stake, it does not create or destroy it: whenever some other
  validator is active, the sum of all active stakes after a successful slash equals the
  sum before it, provided that sum fits 64 bits.
\<close>
theorem slash_conserves_stake:
  assumes inv: "om_inv (validators s)" and small: "active_total s < 2 ^ 64"
    and ne: "eligible s pk \<noteq> []"
    and slash: "slash_validator gp S pk reason ev s = (Inr out, s')"
  shows "active_total s' = active_total s"
proof -
  from slash obtain v where v: "om_get (validators s) pk = Some v" "out_amount out \<le> active_stake v"
    and red: "redistribution out = compute_redistribution s pk (out_amount out)"
    and s': "s' = apply_redistribution (redistribution out) (slashed_state pk out v s)"
    by (rule slash_validator_Inr)
  let ?s1 = "slashed_state pk out v s"
  have "weight (eligible s pk) \<le> active_total s"
    using weight_eligible_le [of s pk] om.total_del [OF inv v(1), of "\<lambda>v. unat (active_stake v)"] by simp
  then have w64: "weight (eligible s pk) < 2 ^ 64" using small by simp
  note spec = redistribution_spec [OF inv ne w64, where t = "out_amount out", folded red]
  note t1 = slashed_state_total [OF inv v]
  have kq: "fst ` set (redistribution out) = fst ` set (eligible s pk)"
    using spec(1) by (metis set_map)
  have keys: "\<forall>p \<in> set (redistribution out). om_get (validators ?s1) (fst p) \<noteq> None"
  proof (intro ballI)
    fix p assume "p \<in> set (redistribution out)"
    then have "fst p \<in> fst ` set (eligible s pk)" using kq by (metis imageI)
    then obtain q where "q \<in> set (eligible s pk)" "fst p = fst q" by auto
    then show "om_get (validators ?s1) (fst p) \<noteq> None"
      using eligible_in [OF inv, of q pk] inv by (auto simp: slashed_state_def om_get_put)
  qed
  have "active_total ?s1 + weight (redistribution out) < 2 ^ 64" using t1(2) spec(2) small by simp
  from apply_redistribution_total [OF t1(1) keys this] show ?thesis using s' spec(2) t1(2) by simp
qed

definition demo_scheme :: sig_scheme where
  "demo_scheme = \<lparr>pk_valid = (\<lambda>_. True), sig_verify = (\<lambda>_ _ _ _. True)\<rparr>"

definition demo_state :: staking_state where
  "demo_state = \<lparr>validators = [([1], validator_new 30000000000), ([2], validator_new 10000000000),
      ([3], validator_new 20000000000)], current_height = 7, treasury_account_id = None\<rparr>"

lemma demo_slash:
  "\<exists>out s'. slash_validator (\<lambda>_. 5) demo_scheme [1] OracleLie None demo_state = (Inr out, s')"
  by (simp add: slash_validator_def compute_slash_outcome_def apply_slash_outcome_def check_evidence_def
      demo_state_def om_get_def validator_new_def slash_amount_def Let_def)

lemma demo_ok: "om_inv (validators demo_state)" "active_total demo_state < 2 ^ 64"
    "eligible demo_state [1] \<noteq> []"
  by (simp_all add: om_inv_def demo_state_def om_total_def validator_new_def eligible_def is_active_def
      MIN_VALIDATOR_STAKE_def)

theorem slash_conserves_stake_witness:
  "active_total (snd (slash_validator (\<lambda>_. 5) demo_scheme [1] OracleLie None demo_state))
     = active_total demo_state"
  using demo_slash slash_conserves_stake [OF demo_ok] by force

text \<open>
  The shares of a slashed amount: with the eligible stakes summing below $2^{64}$, the
  recipients are exactly the eligible validators in key order, the shares add up to the
  slashed amount, and each recipient gets the floor of its proportional share or one
  unit more.
\<close>
theorem redistribution_fair:
  assumes "om_inv (validators s)" and "eligible s pk \<noteq> []" and "weight (eligible s pk) < 2 ^ 64"
  shows "map fst (compute_redistribution s pk t) = map fst (eligible s pk)
    \<and> weight (compute_redistribution s pk t) = unat t
    \<and> (\<forall>i < length (eligible s pk).
         let f = unat t * unat (snd (eligible s pk ! i)) div weight (eligible s pk)
         in unat (snd (compute_redistribution s pk t ! i)) \<in> {f, f + 1})"
  using redistribution_spec [OF assms] by (simp add: share_floor_def Let_def)

theorem redistribution_fair_witness:
  "weight (compute_redistribution demo_state [1] 10) = 10"
proof -
  have "weight (eligible demo_state [1]) < 2 ^ 64"
    by (simp add: demo_state_def weight_def validator_new_def eligible_def is_active_def
        MIN_VALIDATOR_STAKE_def)
  from redistribution_fair [OF demo_ok(1,3) this, of 10] show ?thesis by simp
qed

section \<open>Slashed validators are jailed\<close>

lemma map_fst_dust_loop: "map fst (dust_loop d ord idx ps) = map fst ps"
proof (induction d arbitrary: idx ps)
  case (Suc d)
  have "map fst (bump j ps) = map fst ps" for j
    by (cases "j < length ps") (simp_all add: bump_def map_update list_update_same_conv list_update_beyond)
  then show ?case using Suc by simp
qed simp

lemma keys_redistribution:
  "fst ` set (compute_redistribution s pk t) \<subseteq> fst ` set (eligible s pk) \<union> set_option (treasury_account_id s)"
proof -
  have k: "fst ` set ps = set (map fst ps)" for ps :: "(bytes \<times> u64) list" by simp
  have srt: "set (map fst (sort_key fst ps)) = set (map fst ps)" for ps :: "(bytes \<times> u64) list" by simp
  show ?thesis
    by (auto simp: compute_redistribution_def Let_def k srt map_fst_dust_loop comp_def case_prod_unfold
        simp del: set_map split: option.splits)
qed

text \<open>
  A successful slash takes a positive amount, at most the active stake, leaves the
  unbonding queue alone, and jails the validator: until 100 blocks later it is not
  active and \<^verbatim>\<open>unjail\<close> does not release it.
\<close>
theorem slash_jails:
  assumes inv: "om_inv (validators s)" and "treasury_account_id s \<noteq> Some pk"
    and slash: "slash_validator gp S pk reason ev s = (Inr out, s')"
    and "unat (current_height s) + 100 < 2 ^ 64"
  shows "\<exists>v v'. om_get (validators s) pk = Some v \<and> om_get (validators s') pk = Some v'
    \<and> 0 < out_amount out \<and> unat (active_stake v') + unat (out_amount out) = unat (active_stake v)
    \<and> unbonding v' = unbonding v
    \<and> (\<forall>h. unat h < unat (current_height s) + 100 \<longrightarrow>
         \<not> is_active h v' \<and> fst (unjail pk (s'\<lparr>current_height := h\<rparr>)) \<noteq> Inr ())"
proof -
  from slash obtain v where v: "om_get (validators s) pk = Some v"
    and pos: "0 < out_amount out" and le: "out_amount out \<le> active_stake v"
    and red: "redistribution out = compute_redistribution s pk (out_amount out)"
    and s': "s' = apply_redistribution (redistribution out) (slashed_state pk out v s)"
    by (rule slash_validator_Inr)
  have "pk \<notin> fst ` set (redistribution out)"
  proof
    assume "pk \<in> fst ` set (redistribution out)"
    with keys_redistribution [of s pk "out_amount out"] assms(2)
    have "pk \<in> fst ` set (eligible s pk)" by (auto simp: red)
    then show False using eligible_in(2) [OF inv] by auto
  qed
  then have "om_get (validators s') pk = om_get (validators (slashed_state pk out v s)) pk"
    unfolding s' using slashed_state_total(1) [OF inv v le] by (intro apply_redistribution_other)
  then have v': "om_get (validators s') pk = Some (v\<lparr>active_stake := active_stake v - out_amount out,
      jailed_until := Some (current_height s + JAIL_DURATION_BLOCKS)\<rparr>)"
    using inv by (simp add: slashed_state_def om_get_put)
  have j: "unat (current_height s + JAIL_DURATION_BLOCKS) = unat (current_height s) + 100"
    using assms(4) by (simp add: JAIL_DURATION_BLOCKS_def unat_word_ariths)
  have "unat (active_stake v - out_amount out) + unat (out_amount out) = unat (active_stake v)"
    using le by (simp add: unat_sub_le word_le_nat_alt)
  then show ?thesis using v v' pos
    by (auto simp: is_active_def unjail_def word_less_nat_alt j)
qed

theorem slash_jails_witness:
  "\<exists>v'. om_get (validators (snd (slash_validator (\<lambda>_. 5) demo_scheme [1] OracleLie None demo_state))) [1] = Some v'
     \<and> \<not> is_active 106 v'"
proof -
  obtain out s' where s: "slash_validator (\<lambda>_. 5) demo_scheme [1] OracleLie None demo_state = (Inr out, s')"
    using demo_slash by blast
  have t: "treasury_account_id demo_state \<noteq> Some [1]" and h: "unat (current_height demo_state) + 100 < 2 ^ 64"
    by (simp_all add: demo_state_def)
  from slash_jails [OF demo_ok(1) t s h] s show ?thesis by (auto simp: demo_state_def)
qed

section \<open>Exact accounting of the other operations\<close>

lemma queued_retain:
  "queued (unbonding (snd (retain_immature h v))) + queued (filter (mature h) (unbonding v)) = queued (unbonding v)"
  using queued_split [of "mature h" "unbonding v"] by (simp add: retain_immature_def)

lemma retain_immature_frame [simp]:
  "active_stake (snd (retain_immature h v)) = active_stake v"
  "jailed_until (snd (retain_immature h v)) = jailed_until v"
  by (simp_all add: retain_immature_def)

lemma begin_unbonding_Inr:
  assumes "begin_unbonding h amt v = Inr v'"
  shows "amt \<le> active_stake v" and "active_stake v' = active_stake v - amt"
    and "unbonding v' = unbonding v @ [\<lparr>amount = amt, completion_tick = h + UNBONDING_TICKS\<rparr>]"
    and "length (unbonding v) < MAX_UNBONDING_ENTRIES"
  using assms by (auto simp: begin_unbonding_def Let_def not_less not_le split: if_split_asm)

lemma unstake_Inr:
  assumes "unstake pk amt s = (Inr u, s')"
  shows "\<exists>v v'. om_get (validators s) pk = Some v
    \<and> begin_unbonding (current_height s) amt (prune (current_height s) v) = Inr v'
    \<and> validators s' = om_put pk v' (validators s)"
  using assms by (auto simp: unstake_def Let_def split: option.splits sum.splits)

lemma unat_move: "a \<le> b \<Longrightarrow> unat (b - a) + unat a = unat b" for a b :: u64
  by (simp add: unat_sub_le word_le_nat_alt)

text \<open>
  C27. \<^verbatim>\<open>unstake\<close> moves the amount from the active stake into the queue, so active stake
  plus queued stake is unchanged, except when the queue has reached its limit of 100
  entries: then the mature entries are dropped from the books without being paid out.
\<close>
theorem unstake_accounting:
  assumes inv: "om_inv (validators s)" and op: "unstake pk amt s = (Inr (), s')"
  shows "\<exists>v. om_get (validators s) pk = Some v
    \<and> active_total s' + unat amt = active_total s
    \<and> bonded_total s' + (if MAX_UNBONDING_ENTRIES \<le> length (unbonding v)
         then queued (filter (mature (current_height s)) (unbonding v)) else 0) = bonded_total s"
proof -
  obtain v v' where v: "om_get (validators s) pk = Some v"
    and b: "begin_unbonding (current_height s) amt (prune (current_height s) v) = Inr v'"
    and s': "validators s' = om_put pk v' (validators s)"
    using unstake_Inr [OF op] by auto
  let ?p = "prune (current_height s) v"
  have p: "active_stake ?p = active_stake v" by (simp add: prune_def)
  have q: "queued (unbonding ?p) + (if MAX_UNBONDING_ENTRIES \<le> length (unbonding v)
       then queued (filter (mature (current_height s)) (unbonding v)) else 0) = queued (unbonding v)"
    using queued_retain [of "current_height s" v] by (simp add: prune_def)
  have a: "unat (active_stake v') + unat amt = unat (active_stake v)"
    using begin_unbonding_Inr(1,2) [OF b] p by (simp add: unat_move)
  have u: "queued (unbonding v') = queued (unbonding ?p) + unat amt"
    using begin_unbonding_Inr(3) [OF b] by simp
  show ?thesis
    using v q a u om.total_put [OF inv v, of "\<lambda>v. unat (active_stake v)" v']
      om.total_put [OF inv v, of "\<lambda>v. unat (active_stake v) + queued (unbonding v)" v']
    by (simp add: s')
qed

theorem unstake_accounting_witness:
  "active_total (snd (unstake [1] 5000000000 demo_state)) + 5000000000 = active_total demo_state"
proof -
  have "\<exists>s'. unstake [1] 5000000000 demo_state = (Inr (), s')"
    by (simp add: unstake_def demo_state_def om_get_def validator_new_def Let_def prune_def
        begin_unbonding_def MAX_UNBONDING_ENTRIES_def MIN_VALIDATOR_STAKE_def)
  then obtain s' where s: "unstake [1] 5000000000 demo_state = (Inr (), s')" by blast
  from unstake_accounting [OF demo_ok(1) s] s show ?thesis by auto
qed

lemma withdraw_Inr:
  assumes "withdraw pk s = (Inr w, s')"
  shows "\<exists>v v'. om_get (validators s) pk = Some v \<and> retain_immature (current_height s) v = (w, v') \<and> w \<noteq> 0
    \<and> validators s' = (if active_stake v' = 0 \<and> unbonding v' = [] \<and> jailed_until v' = None
         then om_del pk (om_put pk v' (validators s)) else om_put pk v' (validators s))"
  using assms by (auto simp: withdraw_def Let_def split: option.splits prod.splits if_split_asm)

text \<open>
  \<^verbatim>\<open>withdraw\<close> pays out exactly the mature entries of the queue: what it returns is
  their sum (when that fits 64 bits), every entry that is not mature stays queued, the
  active stake is untouched, and the validator leaves the map only when nothing of it
  is left and it is not jailed.
\<close>
theorem withdraw_exact:
  assumes inv: "om_inv (validators s)" and op: "withdraw pk s = (Inr w, s')"
  shows "\<exists>v. om_get (validators s) pk = Some v
    \<and> (let mat = filter (mature (current_height s)) (unbonding v);
           rest = filter (\<lambda>e. \<not> mature (current_height s) e) (unbonding v)
       in (queued mat < 2 ^ 64 \<longrightarrow> unat w = queued mat)
        \<and> bonded_total s' + queued mat = bonded_total s \<and> active_total s' = active_total s
        \<and> om_get (validators s') pk =
            (if active_stake v = 0 \<and> rest = [] \<and> jailed_until v = None then None
             else Some (v\<lparr>unbonding := rest\<rparr>)))"
proof -
  obtain v v' where v: "om_get (validators s) pk = Some v"
    and r: "retain_immature (current_height s) v = (w, v')"
    and s': "validators s' = (if active_stake v' = 0 \<and> unbonding v' = [] \<and> jailed_until v' = None
         then om_del pk (om_put pk v' (validators s)) else om_put pk v' (validators s))"
    using withdraw_Inr [OF op] by auto
  let ?mat = "filter (mature (current_height s)) (unbonding v)"
  have v': "v' = v\<lparr>unbonding := filter (\<lambda>e. \<not> mature (current_height s) e) (unbonding v)\<rparr>"
    and w: "w = sum_list (map amount ?mat)"
    using r by (simp_all add: retain_immature_def)
  have "queued ?mat < 2 ^ 64 \<longrightarrow> unat w = queued ?mat"
    using unat_sum_list [of "map amount ?mat"] by (simp add: w queued_def comp_def)
  moreover have put: "om_inv (om_put pk v' (validators s))" "om_get (om_put pk v' (validators s)) pk = Some v'"
    using inv by (simp_all add: om_inv_put om_get_put)
  moreover have tot: "om_total f (om_put pk v' (validators s)) = om_total f (validators s')"
    if "active_stake v' = 0 \<and> unbonding v' = [] \<and> jailed_until v' = None \<longrightarrow> f v' = 0" for f
    using om.total_del [OF put, of f] that by (auto simp: s')
  ultimately show ?thesis
    using v om.total_put [OF inv v, of "\<lambda>v. unat (active_stake v)" v']
      om.total_put [OF inv v, of "\<lambda>v. unat (active_stake v) + queued (unbonding v)" v']
      queued_split [of "mature (current_height s)" "unbonding v"] inv
      tot [of "\<lambda>v. unat (active_stake v)"] tot [of "\<lambda>v. unat (active_stake v) + queued (unbonding v)"]
    by (auto simp: Let_def v' s' om_get_put om_get_del om_inv_put)
qed

definition demo_queue :: staking_state where
  "demo_queue = \<lparr>validators = [([1], \<lparr>active_stake = 0,
       unbonding = [\<lparr>amount = 5, completion_tick = 3\<rparr>, \<lparr>amount = 6, completion_tick = 9\<rparr>],
       jailed_until = None\<rparr>)], current_height = 7, treasury_account_id = None\<rparr>"

theorem withdraw_exact_witness:
  "bonded_total (snd (withdraw [1] demo_queue)) + 5 = bonded_total demo_queue"
proof -
  have "\<exists>s'. withdraw [1] demo_queue = (Inr 5, s')"
    by (simp add: withdraw_def demo_queue_def om_get_def retain_immature_def mature_def)
  then obtain s' where s: "withdraw [1] demo_queue = (Inr 5, s')" by blast
  have "om_inv (validators demo_queue)" by (simp add: demo_queue_def om_inv_def)
  from withdraw_exact [OF this s] s show ?thesis
    by (auto simp: demo_queue_def om_get_def mature_def Let_def)
qed

text \<open>
  \<^verbatim>\<open>stake\<close> is exact and bounded: on success the validator's active stake grows by the
  amount, without overflow and never beyond the maximum, and the total grows by the same;
  on failure no active stake changes, but when the maximum is the reason a validator
  that was unknown is left in the map with no stake.
\<close>
theorem stake_exact:
  assumes inv: "om_inv (validators s)"
  shows "(case stake pk amt s of
      (Inr _, s') \<Rightarrow> \<exists>v'. om_get (validators s') pk = Some v'
         \<and> unat (active_stake v') = unat amt + (case om_get (validators s) pk of
             Some v \<Rightarrow> unat (active_stake v) | None \<Rightarrow> 0)
         \<and> active_stake v' \<le> MAX_VALIDATOR_STAKE \<and> active_total s' = active_total s + unat amt
    | (Inl _, s') \<Rightarrow> active_total s' = active_total s
         \<and> (amt > MAX_VALIDATOR_STAKE \<and> om_get (validators s) pk = None
              \<longrightarrow> om_get (validators s') pk = Some (validator_new 0)))"
proof -
  define v where "v = (case om_get (validators s) pk of Some v \<Rightarrow> v | None \<Rightarrow> validator_new 0)"
  let ?w = "\<lambda>v. unat (active_stake v)"
  have act: "?w v = (case om_get (validators s) pk of Some v \<Rightarrow> ?w v | None \<Rightarrow> 0)"
    by (simp add: v_def validator_new_def split: option.split)
  have i1: "om_inv (om_put pk v (validators s))" and g1: "om_get (om_put pk v (validators s)) pk = Some v"
    using inv by (simp_all add: om_inv_put om_get_put)
  have t1: "om_total ?w (om_put pk v (validators s)) = active_total s"
  proof (cases "om_get (validators s) pk")
    case None
    then show ?thesis using om.total_put_new [OF inv None, of ?w v] by (simp add: v_def validator_new_def)
  next
    case (Some u)
    then show ?thesis using om.total_put [OF inv Some, of ?w v] by (simp add: v_def)
  qed
  have t2: "om_total ?w (om_put pk (v\<lparr>active_stake := n\<rparr>) (validators s)) + ?w v = active_total s + unat n" for n
    using om.total_put [OF i1 g1, of ?w "v\<lparr>active_stake := n\<rparr>"] t1 by simp
  have big: "amt < MIN_VALIDATOR_STAKE \<Longrightarrow> \<not> amt > MAX_VALIDATOR_STAKE"
    by (auto simp: MAX_VALIDATOR_STAKE_def MIN_VALIDATOR_STAKE_def word_less_nat_alt)
  have new: "om_get (validators s) pk = None \<Longrightarrow> v = validator_new 0" by (simp add: v_def)
  show ?thesis
  proof (cases "amt < MIN_VALIDATOR_STAKE")
    case True
    then show ?thesis using big by (simp add: stake_def)
  next
    case False
    note st = stake_def [of pk amt s, folded v_def, unfolded Let_def, simplified False if_False]
    show ?thesis
    proof (cases "checked_add (active_stake v) amt")
      case None
      then show ?thesis using t1 new inv by (simp add: st om_get_put)
    next
      case (Some n)
      then have "unat n = ?w v + unat amt" by (rule checked_add_Some)
      then show ?thesis using Some t1 t2 [of n] g1 inv act new
        by (simp add: st om_get_put not_less)
    qed
  qed
qed

theorem stake_exact_witness:
  "active_total (snd (stake [9] 10000000000 demo_state)) = active_total demo_state + 10000000000"
proof -
  have "\<exists>s'. stake [9] 10000000000 demo_state = (Inr (), s')"
    by (simp add: stake_def demo_state_def om_get_def validator_new_def Let_def checked_add_def
        MAX_VALIDATOR_STAKE_def MIN_VALIDATOR_STAKE_def)
  then obtain s' where "stake [9] 10000000000 demo_state = (Inr (), s')" by blast
  with stake_exact [OF demo_ok(1), where pk = "[9]" and amt = 10000000000] show ?thesis by auto
qed

text \<open>
  The slashed amount is the exact percentage of the active stake, at least one unit and
  at most the stake, as long as stake times percentage fits 64 bits. At the maximum stake
  and the default oracle-lie percentage of 30 it does not: the product wraps and less
  than 12 percent is taken.
\<close>
theorem slash_amount_exact:
  "(unat act * unat pct < 2 ^ 64 \<longrightarrow>
      unat (slash_amount act pct) = min (unat act) (max 1 (unat act * unat pct div 100)))
   \<and> unat (slash_amount MAX_VALIDATOR_STAKE 30) = 115532559262904483"
proof
  show "unat act * unat pct < 2 ^ 64 \<longrightarrow>
      unat (slash_amount act pct) = min (unat act) (max 1 (unat act * unat pct div 100))"
  proof
    assume small: "unat act * unat pct < 2 ^ 64"
    then have m: "unat ((act * pct) div 100) = unat act * unat pct div 100"
      by (simp add: unat_div_distrib unat_word_ariths)
    then have z: "(act * pct) div 100 = 0 \<longleftrightarrow> unat act * unat pct div 100 = 0"
      by (metis unsigned_0 unsigned_eq_0_iff)
    show "unat (slash_amount act pct) = min (unat act) (max 1 (unat act * unat pct div 100))"
      using m z by (auto simp: slash_amount_def Let_def word_less_nat_alt)
  qed
  show "unat (slash_amount MAX_VALIDATOR_STAKE 30) = 115532559262904483"
    by (simp add: slash_amount_def MAX_VALIDATOR_STAKE_def Let_def)
qed

theorem slash_amount_exact_witness: "unat (slash_amount 1000 30) = 300"
  using slash_amount_exact [of 1000 30] by simp

end
