(* ===== verification/Oracle.thy ===== *)
theory Oracle
  imports Staking U256 Bytecode "HOL-Library.Multiset"
begin

text \<open>
  The HTTP oracle (\<^verbatim>\<open>truthlinked-oracle/src/http_oracle.rs\<close>) with the governance records
  it reads: URL policy, request identifiers, and the commit-reveal tally that turns
  revealed responses into a result. Rust strings are their UTF-8 bytes. The hash
  functions are third-party code and arguments of the model; a digest is given by its
  four 64-bit limbs and used as 32 bytes. A hash map is the list of its entries in the
  order its iterator happens to use.
\<close>

section \<open>Strings\<close>

definition str_bytes :: "string \<Rightarrow> bytes" where
  "str_bytes s = map of_char s"

definition starts_with :: "bytes \<Rightarrow> bytes \<Rightarrow> bool" where
  "starts_with s p \<longleftrightarrow> take (length p) s = p"

definition ends_with :: "bytes \<Rightarrow> bytes \<Rightarrow> bool" where
  "ends_with s p \<longleftrightarrow> length p \<le> length s \<and> drop (length s - length p) s = p"

definition contains :: "bytes \<Rightarrow> bytes \<Rightarrow> bool" where
  "contains s p \<longleftrightarrow> list_ex (\<lambda>i. starts_with (drop i s) p) [0..<Suc (length s)]"

text \<open>\<^verbatim>\<open>std::str::from_utf8\<close>: the well-formed byte sequences of the Unicode standard.\<close>

definition cont_byte :: "u8 \<Rightarrow> bool" where
  "cont_byte b \<longleftrightarrow> 0x80 \<le> b \<and> b \<le> 0xBF"

fun utf8_valid :: "bytes \<Rightarrow> bool" where
  "utf8_valid [] = True"
| "utf8_valid (a # bs) =
    (if a \<le> 0x7F then utf8_valid bs
     else if 0xC2 \<le> a \<and> a \<le> 0xDF then
       (case bs of b # r \<Rightarrow> cont_byte b \<and> utf8_valid r | _ \<Rightarrow> False)
     else if 0xE0 \<le> a \<and> a \<le> 0xEF then
       (case bs of b # c # r \<Rightarrow> cont_byte b \<and> cont_byte c
          \<and> (a = 0xE0 \<longrightarrow> 0xA0 \<le> b) \<and> (a = 0xED \<longrightarrow> b \<le> 0x9F) \<and> utf8_valid r | _ \<Rightarrow> False)
     else if 0xF0 \<le> a \<and> a \<le> 0xF4 then
       (case bs of b # c # d # r \<Rightarrow> cont_byte b \<and> cont_byte c \<and> cont_byte d
          \<and> (a = 0xF0 \<longrightarrow> 0x90 \<le> b) \<and> (a = 0xF4 \<longrightarrow> b \<le> 0x8F) \<and> utf8_valid r | _ \<Rightarrow> False)
     else False)"

declare utf8_valid.simps(2) [simp del]

section \<open>Records\<close>

datatype url_response_format = Raw | JsonCanonical | PriceUsd

datatype cell_visibility = Private | Public

record url_proposal =
  url_pattern :: bytes
  proposer :: bytes
  bond_amount :: u128
  voters :: "bytes list"
  votes_for_stake :: u64
  votes_against_stake :: u64
  created_at :: u64
  voting_ends_at :: u64
  approved :: bool
  rejected :: bool
  slashed :: bool
  response_format :: url_response_format
  prop_schema_id :: "bytes option"

definition voting_open :: "url_proposal \<Rightarrow> u64 \<Rightarrow> bool" where
  "voting_open p h \<longleftrightarrow> \<not> approved p \<and> \<not> rejected p \<and> h \<le> voting_ends_at p"

record oracle_request =
  req_id :: bytes
  req_url :: bytes
  req_method :: bytes
  req_body :: bytes
  req_format :: url_response_format
  req_schema_id :: "bytes option"
  requested_at :: u64
  req_expires_at :: u64
  requesting_cell :: bytes

record oracle_result =
  ores_id :: bytes
  ores_url :: bytes
  ores_method :: bytes
  response_body :: bytes
  response_status :: u16
  body_hash :: bytes
  finalized_at :: u64
  res_expires_at :: u64
  quorum_stake_num :: u64
  quorum_stake_den :: u64
  ores_cell :: bytes

definition is_expired :: "oracle_result \<Rightarrow> u64 \<Rightarrow> bool" where
  "is_expired r h \<longleftrightarrow> h \<ge> res_expires_at r"

section \<open>URL policy\<close>

definition url_matches_pattern :: "bytes \<Rightarrow> bytes \<Rightarrow> bool" where
  "url_matches_pattern url pattern =
    (if ends_with pattern (str_bytes ''/*'')
     then starts_with url (take (length pattern - 2) pattern)
     else url = pattern)"

definition check_url_permitted :: "bytes \<Rightarrow> cell_visibility \<Rightarrow> url_proposal list \<Rightarrow> bool" where
  "check_url_permitted url vis props = (case vis of
      Private \<Rightarrow> True
    | Public \<Rightarrow> list_ex (\<lambda>p. approved p \<and> url_matches_pattern url (url_pattern p)) props)"

definition url_response_format_of :: "bytes \<Rightarrow> cell_visibility \<Rightarrow> url_proposal list \<Rightarrow> url_response_format" where
  "url_response_format_of url vis props = (case vis of
      Private \<Rightarrow> Raw
    | Public \<Rightarrow> (case find (\<lambda>p. approved p \<and> url_matches_pattern url (url_pattern p)) props of
         Some p \<Rightarrow> response_format p
       | None \<Rightarrow> Raw))"

definition url_schema_id :: "bytes \<Rightarrow> cell_visibility \<Rightarrow> url_proposal list \<Rightarrow> bytes option" where
  "url_schema_id url vis props = (case vis of
      Private \<Rightarrow> None
    | Public \<Rightarrow> (case find (\<lambda>p. approved p \<and> url_matches_pattern url (url_pattern p)) props of
         Some p \<Rightarrow> prop_schema_id p
       | None \<Rightarrow> None))"

section \<open>Requests and commits\<close>

type_synonym hash_fn = "bytes \<Rightarrow> limbs"

definition digest :: "hash_fn \<Rightarrow> bytes \<Rightarrow> bytes" where
  "digest h x = to32 (h x)"

lemma length_digest [simp]: "length (digest h x) = 32"
  by (cases "h x") (simp add: digest_def)

fun format_tag :: "url_response_format \<Rightarrow> bytes" where
  "format_tag Raw = str_bytes ''raw''"
| "format_tag JsonCanonical = str_bytes ''json''"
| "format_tag PriceUsd = str_bytes ''price_usd''"

definition request_id :: "hash_fn \<Rightarrow> bytes \<Rightarrow> bytes \<Rightarrow> bytes \<Rightarrow> url_response_format \<Rightarrow> bytes option \<Rightarrow> bytes" where
  "request_id blake3 url meth body fmt sid = digest blake3
     (str_bytes ''oracle:request:'' @ url @ str_bytes '':'' @ meth @ str_bytes '':'' @ body
      @ str_bytes '':'' @ format_tag fmt
      @ (case sid of Some i \<Rightarrow> str_bytes '':schema:'' @ i | None \<Rightarrow> []))"

definition compute_commit_hash :: "hash_fn \<Rightarrow> bytes \<Rightarrow> bytes \<Rightarrow> bytes \<Rightarrow> u16 \<Rightarrow> bytes" where
  "compute_commit_hash blake3 pk rid body status = digest blake3
     (str_bytes ''oracle:commit:'' @ pk @ rid @ body @ to_le_bytes 2 status)"

definition queue_oracle_request ::
    "(string \<Rightarrow> u64) \<Rightarrow> hash_fn \<Rightarrow> bytes \<Rightarrow> bytes \<Rightarrow> bytes \<Rightarrow> url_response_format \<Rightarrow> bytes option
     \<Rightarrow> bytes \<Rightarrow> u64 \<Rightarrow> oracle_request" where
  "queue_oracle_request gp blake3 url meth body fmt sid cell h =
    \<lparr>req_id = request_id blake3 url meth body fmt sid, req_url = url, req_method = meth,
     req_body = body, req_format = fmt, req_schema_id = sid, requested_at = h,
     req_expires_at = h + gp ''oracle.request_timeout_blocks'', requesting_cell = cell\<rparr>"

section \<open>The tally\<close>

record oracle_tally =
  tally_id :: bytes
  commits :: "(bytes \<times> bytes) list"
  reveals :: "(bytes \<times> bytes \<times> u16) list"
  committed_stake :: u64
  tally_total_stake :: u64
  commit_phase_closed :: bool

definition commit_quorum_reached :: "(string \<Rightarrow> u64) \<Rightarrow> oracle_tally \<Rightarrow> bool" where
  "commit_quorum_reached gp t =
    (if tally_total_stake t = 0 then False
     else (committed_stake t * 100) div tally_total_stake t \<ge> gp ''oracle.commit_quorum_percent'')"

type_synonym tally_map = "(bytes \<times> bytes \<times> u16 \<times> u64) list"

text \<open>\<^verbatim>\<open>tally.entry(hash).or_insert((body, status, 0)).2 += stake\<close>.\<close>

primrec tally_add :: "bytes \<Rightarrow> bytes \<Rightarrow> u16 \<Rightarrow> u64 \<Rightarrow> tally_map \<Rightarrow> tally_map" where
  "tally_add k body status stk [] = [(k, body, status, stk)]"
| "tally_add k body status stk (e # m) =
    (if fst e = k then (k, fst (snd e), fst (snd (snd e)), snd (snd (snd e)) + stk) # m
     else e # tally_add k body status stk m)"

definition reveal_valid :: "hash_fn \<Rightarrow> oracle_tally \<Rightarrow> bytes \<times> bytes \<times> u16 \<Rightarrow> bool" where
  "reveal_valid blake3 t r = (case r of (pk, body, status) \<Rightarrow>
     (case map_of (commits t) pk of
        Some c \<Rightarrow> compute_commit_hash blake3 pk (tally_id t) body status = c
      | None \<Rightarrow> False))"

definition stake_of :: "staking_state \<Rightarrow> bytes \<Rightarrow> u64" where
  "stake_of st pk = (case om_get (validators st) pk of Some v \<Rightarrow> active_stake v | None \<Rightarrow> 0)"

primrec tally_reveals ::
    "hash_fn \<Rightarrow> oracle_tally \<Rightarrow> staking_state \<Rightarrow> (bytes \<times> bytes \<times> u16) list \<Rightarrow> tally_map \<Rightarrow> tally_map" where
  "tally_reveals blake3 t st [] m = m"
| "tally_reveals blake3 t st (r # rs) m = tally_reveals blake3 t st rs
    (if reveal_valid blake3 t r
     then tally_add (digest blake3 (fst (snd r))) (fst (snd r)) (snd (snd r)) (stake_of st (fst r)) m
     else m)"

definition active_stake_sum :: "staking_state \<Rightarrow> u64" where
  "active_stake_sum st = sum_list (map (\<lambda>(pk, v). active_stake v)
     (filter (\<lambda>(pk, v). is_active (current_height st) v) (validators st)))"

text \<open>
  The final search over the tally in the iteration order \<open>ord\<close> of its hash map; the
  price format has its own search, below.
\<close>

definition try_finalize ::
    "(string \<Rightarrow> u64) \<Rightarrow> hash_fn \<Rightarrow> (tally_map \<Rightarrow> tally_map) \<Rightarrow> oracle_tally \<Rightarrow> staking_state
     \<Rightarrow> (bytes \<times> u16 \<times> u64 \<times> u64) option" where
  "try_finalize gp blake3 ord t st =
    (let tally = tally_reveals blake3 t st (reveals t) []; total = active_stake_sum st in
     if total = 0 then None
     else case find (\<lambda>(k, body, status, agreeing).
                (agreeing * 100) div total \<ge> gp ''oracle.reveal_quorum_percent'') (ord tally) of
        Some (k, body, status, agreeing) \<Rightarrow> Some (body, status, agreeing, total)
      | None \<Rightarrow> None)"

section \<open>URL patterns\<close>

text \<open>
  A pattern that ends in the wildcard permits exactly the URLs that begin with what
  stands before the slash of the wildcard, any other pattern only itself. In particular
  the slash itself is not required: the pattern of a host also permits every host whose
  name extends it.
\<close>
theorem url_pattern_meaning:
  "(url_matches_pattern url (p @ str_bytes ''/*'') \<longleftrightarrow> (\<exists>rest. url = p @ rest))
   \<and> (\<not> ends_with q (str_bytes ''/*'') \<longrightarrow> (url_matches_pattern url q \<longleftrightarrow> url = q))"
proof -
  have "take (length p) url = p \<longleftrightarrow> (\<exists>rest. url = p @ rest)"
    by (metis append_eq_conv_conj append_take_drop_id)
  then have "url_matches_pattern url (p @ str_bytes ''/*'') \<longleftrightarrow> (\<exists>rest. url = p @ rest)"
    by (simp add: url_matches_pattern_def ends_with_def starts_with_def str_bytes_def)
  then show ?thesis by (simp add: url_matches_pattern_def)
qed

theorem url_pattern_meaning_witness:
  "\<not> url_matches_pattern (str_bytes ''https://a'') (str_bytes ''https://b'')
   \<and> url_matches_pattern (str_bytes ''https://api.com.evil.net'') (str_bytes ''https://api.com'' @ str_bytes ''/*'')"
proof
  have "\<not> ends_with (str_bytes ''https://b'') (str_bytes ''/*'')"
    by (simp add: ends_with_def str_bytes_def)
  with url_pattern_meaning [of "str_bytes ''https://a''" "[]" "str_bytes ''https://b''"]
  show "\<not> url_matches_pattern (str_bytes ''https://a'') (str_bytes ''https://b'')"
    by (simp add: str_bytes_def)
  have "str_bytes ''https://api.com.evil.net'' = str_bytes ''https://api.com'' @ str_bytes ''.evil.net''"
    by (simp add: str_bytes_def)
  then show "url_matches_pattern (str_bytes ''https://api.com.evil.net'') (str_bytes ''https://api.com'' @ str_bytes ''/*'')"
    using url_pattern_meaning [of _ "str_bytes ''https://api.com''" "[]"] by blast
qed

section \<open>Counting revealed stake\<close>

definition tally_weight :: "tally_map \<Rightarrow> nat" where
  "tally_weight m = sum_list (map (\<lambda>e. unat (snd (snd (snd e)))) m)"

definition revealed_weight :: "hash_fn \<Rightarrow> oracle_tally \<Rightarrow> staking_state \<Rightarrow> (bytes \<times> bytes \<times> u16) list \<Rightarrow> nat" where
  "revealed_weight b t st rs = sum_list (map (\<lambda>r. unat (stake_of st (fst r))) (filter (reveal_valid b t) rs))"

lemma tally_add_weight:
  "tally_weight m + unat stk < 2 ^ 64 \<Longrightarrow> tally_weight (tally_add k body status stk m) = tally_weight m + unat stk"
proof (induction m)
  case (Cons e m)
  have w: "tally_weight (e # m) = unat (snd (snd (snd e))) + tally_weight m" by (simp add: tally_weight_def)
  show ?case
  proof (cases "fst e = k")
    case True
    have "unat (snd (snd (snd e))) + unat stk < 2 ^ 64" using Cons.prems w by linarith
    then have "unat (snd (snd (snd e)) + stk) = unat (snd (snd (snd e))) + unat stk"
      by (rule unat_add_64)
    then show ?thesis using True by (simp add: tally_weight_def)
  next
    case False
    have "tally_weight m + unat stk < 2 ^ 64" using Cons.prems w by linarith
    then have "tally_weight (tally_add k body status stk m) = tally_weight m + unat stk" by (rule Cons.IH)
    then show ?thesis using False by (simp add: tally_weight_def)
  qed
qed (simp add: tally_weight_def)

lemma tally_add_keys: "fst ` set (tally_add k body status stk m) = insert k (fst ` set m)"
  by (induction m) auto

lemma tally_add_distinct: "distinct (map fst m) \<Longrightarrow> distinct (map fst (tally_add k body status stk m))"
proof (induction m)
  case (Cons e m)
  then show ?case using tally_add_keys [of k body status stk m] by (auto simp: image_iff)
qed simp

lemma tally_reveals_inv:
  assumes "tally_weight m + revealed_weight b t st rs < 2 ^ 64" and "distinct (map fst m)"
  shows "tally_weight (tally_reveals b t st rs m) = tally_weight m + revealed_weight b t st rs"
    and "distinct (map fst (tally_reveals b t st rs m))"
proof -
  have "tally_weight (tally_reveals b t st rs m) = tally_weight m + revealed_weight b t st rs
    \<and> distinct (map fst (tally_reveals b t st rs m))"
    using assms
  proof (induction rs arbitrary: m)
    case Nil
    then show ?case by (simp add: revealed_weight_def)
  next
    case (Cons r rs)
    show ?case
    proof (cases "reveal_valid b t r")
      case True
      let ?m = "tally_add (digest b (fst (snd r))) (fst (snd r)) (snd (snd r)) (stake_of st (fst r)) m"
      have rw: "revealed_weight b t st (r # rs) = unat (stake_of st (fst r)) + revealed_weight b t st rs"
        using True by (simp add: revealed_weight_def)
      then have w: "tally_weight ?m = tally_weight m + unat (stake_of st (fst r))"
        using Cons.prems(1) by (intro tally_add_weight) simp
      have "distinct (map fst ?m)" using Cons.prems(2) by (rule tally_add_distinct)
      from Cons.IH [OF _ this] show ?thesis using True rw w Cons.prems(1) by simp
    next
      case False
      then have "revealed_weight b t st (r # rs) = revealed_weight b t st rs"
        by (simp add: revealed_weight_def)
      then show ?thesis using Cons False by simp
    qed
  qed
  then show "tally_weight (tally_reveals b t st rs m) = tally_weight m + revealed_weight b t st rs"
    and "distinct (map fst (tally_reveals b t st rs m))" by auto
qed

lemma active_stake_sum_eq:
  assumes inv: "om_inv (validators st)" and small: "active_total st < 2 ^ 64"
  shows "unat (active_stake_sum st) =
    (\<Sum>e \<in> {e \<in> set (validators st). is_active (current_height st) (snd e)}. unat (active_stake (snd e)))"
proof -
  let ?act = "filter (\<lambda>e. is_active (current_height st) (snd e)) (validators st)"
  let ?w = "\<lambda>e :: bytes \<times> validator_stake. unat (active_stake (snd e))"
  have d: "distinct ?act" using om_inv_distinct [OF inv] by (simp add: distinct_map)
  have "sum_list (map ?w ?act) \<le> active_total st"
    using sum_list_filter_map_le [of "\<lambda>e. is_active (current_height st) (snd e)" "\<lambda>_. True" ?w "validators st"]
    by (simp add: om_total_def)
  then have "sum_list (map unat (map (\<lambda>e. active_stake (snd e)) ?act)) < 2 ^ 64"
    using small by (simp add: comp_def)
  then have "unat (sum_list (map (\<lambda>e. active_stake (snd e)) ?act)) = sum_list (map ?w ?act)"
    using unat_sum_list [of "map (\<lambda>e. active_stake (snd e)) ?act"] by (simp add: comp_def)
  also have "\<dots> = (\<Sum>e \<in> set ?act. ?w e)" using d by (simp add: sum_list_distinct_conv_sum_set)
  finally show ?thesis by (simp add: active_stake_sum_def case_prod_unfold)
qed

lemma active_stake_sum_le:
  assumes inv: "om_inv (validators st)" and small: "active_total st < 2 ^ 64"
  shows "unat (active_stake_sum st) \<le> active_total st"
proof -
  have "unat (active_stake_sum st) \<le> (\<Sum>e \<in> set (validators st). unat (active_stake (snd e)))"
    unfolding active_stake_sum_eq [OF assms] by (intro sum_mono2) auto
  also have "\<dots> = active_total st"
    using om_inv_distinct [OF inv] by (simp add: om_total_def distinct_map sum_list_distinct_conv_sum_set)
  finally show ?thesis .
qed

text \<open>The reveals that count come from distinct active validators, so they weigh at most the total.\<close>

lemma revealed_weight_le:
  assumes inv: "om_inv (validators st)" and small: "active_total st < 2 ^ 64"
    and dist: "distinct (map fst rs)"
    and act: "\<forall>r \<in> set rs. reveal_valid b t r \<longrightarrow>
      (\<exists>v. om_get (validators st) (fst r) = Some v \<and> is_active (current_height st) v)"
  shows "revealed_weight b t st rs \<le> unat (active_stake_sum st)"
proof -
  let ?A = "{e \<in> set (validators st). is_active (current_height st) (snd e)}"
  let ?vs = "filter (reveal_valid b t) rs"
  define g where "g r = (fst r, the (om_get (validators st) (fst r)))" for r :: "bytes \<times> bytes \<times> u16"
  have gA: "g r \<in> ?A \<and> unat (active_stake (snd (g r))) = unat (stake_of st (fst r))" if R: "r \<in> set ?vs" for r
  proof -
    obtain v where v: "om_get (validators st) (fst r) = Some v" "is_active (current_height st) v"
      using act R by auto
    then have "(fst r, v) \<in> set (validators st)" using inv by (simp add: om_get_in)
    then show ?thesis using v by (simp add: g_def stake_of_def)
  qed
  have dv: "distinct ?vs" and inj: "inj_on g (set ?vs)"
    using dist by (auto simp: distinct_map inj_on_def g_def)
  have "revealed_weight b t st rs = (\<Sum>r \<in> set ?vs. unat (stake_of st (fst r)))"
    unfolding revealed_weight_def using dv by (rule sum_list_distinct_conv_sum_set)
  also have "\<dots> = (\<Sum>r \<in> set ?vs. unat (active_stake (snd (g r))))" using gA by (intro sum.cong) auto
  also have "\<dots> = (\<Sum>e \<in> g ` set ?vs. unat (active_stake (snd e)))" using inj by (simp add: sum.reindex)
  also have "\<dots> \<le> (\<Sum>e \<in> ?A. unat (active_stake (snd e)))" using gA by (intro sum_mono2) auto
  also have "\<dots> = unat (active_stake_sum st)" using active_stake_sum_eq [OF inv small] by simp
  finally show ?thesis .
qed

text \<open>The entries of a tally: who they come from and what they weigh, whatever the order of the reveals.\<close>

definition key_weight :: "bytes \<Rightarrow> tally_map \<Rightarrow> nat" where
  "key_weight k m = sum_list (map (\<lambda>e. unat (snd (snd (snd e)))) (filter (\<lambda>e. fst e = k) m))"

definition reveals_for :: "hash_fn \<Rightarrow> oracle_tally \<Rightarrow> staking_state \<Rightarrow> bytes \<Rightarrow> (bytes \<times> bytes \<times> u16) list \<Rightarrow> nat" where
  "reveals_for b t st k rs = sum_list (map (\<lambda>r. unat (stake_of st (fst r)))
     (filter (\<lambda>r. reveal_valid b t r \<and> digest b (fst (snd r)) = k) rs))"

lemma key_weight_le: "key_weight k m \<le> tally_weight m"
  by (induction m) (auto simp: key_weight_def tally_weight_def)

lemma tally_add_key_weight:
  "tally_weight m + unat stk < 2 ^ 64
    \<Longrightarrow> key_weight k' (tally_add k body status stk m) = key_weight k' m + (if k' = k then unat stk else 0)"
proof (induction m)
  case (Cons e m)
  have w: "tally_weight (e # m) = unat (snd (snd (snd e))) + tally_weight m" by (simp add: tally_weight_def)
  show ?case
  proof (cases "fst e = k")
    case True
    have "unat (snd (snd (snd e))) + unat stk < 2 ^ 64" using Cons.prems w by linarith
    then have "unat (snd (snd (snd e)) + stk) = unat (snd (snd (snd e))) + unat stk"
      by (rule unat_add_64)
    then show ?thesis using True by (simp add: key_weight_def)
  next
    case False
    have "tally_weight m + unat stk < 2 ^ 64" using Cons.prems w by linarith
    then show ?thesis using Cons.IH False by (auto simp: key_weight_def)
  qed
qed (simp add: key_weight_def)

lemma tally_reveals_key_weight:
  assumes "tally_weight m + revealed_weight b t st rs < 2 ^ 64" and "distinct (map fst m)"
  shows "key_weight k (tally_reveals b t st rs m) = key_weight k m + reveals_for b t st k rs"
  using assms
proof (induction rs arbitrary: m)
  case (Cons r rs)
  show ?case
  proof (cases "reveal_valid b t r")
    case True
    let ?m = "tally_add (digest b (fst (snd r))) (fst (snd r)) (snd (snd r)) (stake_of st (fst r)) m"
    have small: "tally_weight m + unat (stake_of st (fst r)) + revealed_weight b t st rs < 2 ^ 64"
      using Cons.prems(1) True by (simp add: revealed_weight_def)
    then have "tally_weight ?m = tally_weight m + unat (stake_of st (fst r))" by (intro tally_add_weight) simp
    with small Cons.IH [of ?m] tally_add_distinct [OF Cons.prems(2)] tally_add_key_weight [of m "stake_of st (fst r)" k]
    show ?thesis using True by (simp add: reveals_for_def)
  next
    case False
    then show ?thesis using Cons by (simp add: reveals_for_def revealed_weight_def)
  qed
qed (simp add: reveals_for_def)

lemma tally_add_entries:
  assumes "e \<in> set (tally_add k body status stk m)"
  shows "(\<exists>e' \<in> set m. fst e' = fst e \<and> fst (snd e') = fst (snd e) \<and> fst (snd (snd e')) = fst (snd (snd e)))
    \<or> fst e = k \<and> fst (snd e) = body \<and> fst (snd (snd e)) = status"
  using assms by (induction m) (auto split: if_splits)

lemma tally_reveals_entries:
  assumes "e \<in> set (tally_reveals b t st rs m)"
  shows "(\<exists>e' \<in> set m. fst e' = fst e \<and> fst (snd e') = fst (snd e) \<and> fst (snd (snd e')) = fst (snd (snd e)))
    \<or> (\<exists>r \<in> set rs. reveal_valid b t r \<and> fst e = digest b (fst (snd r)) \<and> fst (snd e) = fst (snd r) \<and> fst (snd (snd e)) = snd (snd r))"
  using assms
proof (induction rs arbitrary: m)
  case Nil
  then show ?case by auto
next
  case (Cons r rs)
  let ?m = "if reveal_valid b t r then tally_add (digest b (fst (snd r))) (fst (snd r)) (snd (snd r)) (stake_of st (fst r)) m else m"
  from Cons.IH [of ?m] Cons.prems consider
      (old) e' where "e' \<in> set ?m" "fst e' = fst e" "fst (snd e') = fst (snd e)" "fst (snd (snd e')) = fst (snd (snd e))"
    | (new) "\<exists>r \<in> set rs. reveal_valid b t r \<and> fst e = digest b (fst (snd r)) \<and> fst (snd e) = fst (snd r) \<and> fst (snd (snd e)) = snd (snd r)"
    by auto
  then show ?case
  proof cases
    case old
    then show ?thesis
      using tally_add_entries [of e' "digest b (fst (snd r))" "fst (snd r)" "snd (snd r)" "stake_of st (fst r)" m]
      by (cases "reveal_valid b t r") (force, force)
  qed auto
qed

lemma tally_reveals_keys:
  "fst ` set (tally_reveals b t st rs m) = fst ` set m \<union> (\<lambda>r. digest b (fst (snd r))) ` {r \<in> set rs. reveal_valid b t r}"
  by (induction rs arbitrary: m) (auto simp: tally_add_keys)

lemma entry_weight:
  "distinct (map fst m) \<Longrightarrow> e \<in> set m \<Longrightarrow> unat (snd (snd (snd e))) = key_weight (fst e) m"
proof (induction m)
  case (Cons x m)
  have "filter (\<lambda>y. fst y = fst x) m = []"
    using Cons.prems(1) by (auto simp: filter_empty_conv intro: rev_image_eqI)
  moreover have "fst e \<noteq> fst x" if "e \<in> set m" using Cons.prems(1) that by (metis distinct.simps(2) image_eqI list.set_map list.simps(9))
  ultimately show ?case using Cons by (auto simp: key_weight_def)
qed simp

lemma reveals_permuted:
  assumes "mset rs = mset rs'"
  shows "reveals_for b t st k rs = reveals_for b t st k rs'" and "revealed_weight b t st rs = revealed_weight b t st rs'"
  using assms unfolding reveals_for_def revealed_weight_def sum_mset_sum_list [symmetric] mset_map mset_filter by simp_all

lemma valid_reveals_update [simp]:
  "reveal_valid b (t\<lparr>reveals := rs\<rparr>) = reveal_valid b t"
  "tally_reveals b (t\<lparr>reveals := rs\<rparr>) st rs' m = tally_reveals b t st rs' m"
proof -
  show v: "reveal_valid b (t\<lparr>reveals := rs\<rparr>) = reveal_valid b t" by (rule ext) (simp add: reveal_valid_def split: prod.split option.split)
  show "tally_reveals b (t\<lparr>reveals := rs\<rparr>) st rs' m = tally_reveals b t st rs' m"
    by (induction rs' arbitrary: m) (simp_all add: v)
qed

lemma reveals_for_two: "k \<noteq> k' \<Longrightarrow> reveals_for b t st k rs + reveals_for b t st k' rs \<le> revealed_weight b t st rs"
  by (induction rs) (auto simp: reveals_for_def revealed_weight_def)

definition reaches_quorum :: "(string \<Rightarrow> u64) \<Rightarrow> hash_fn \<Rightarrow> oracle_tally \<Rightarrow> staking_state \<Rightarrow> bytes \<Rightarrow> bool" where
  "reaches_quorum gp b t st k \<longleftrightarrow> active_stake_sum st \<noteq> 0
     \<and> unat (gp ''oracle.reveal_quorum_percent'') \<le> reveals_for b t st k (reveals t) * 100 div unat (active_stake_sum st)"

text \<open>A tally of distinct active validators whose stakes do not overflow.\<close>

definition countable_tally :: "hash_fn \<Rightarrow> oracle_tally \<Rightarrow> staking_state \<Rightarrow> bool" where
  "countable_tally b t st \<longleftrightarrow> om_inv (validators st) \<and> active_total st * 100 < 2 ^ 64 \<and> distinct (map fst (reveals t))
     \<and> (\<forall>r \<in> set (reveals t). reveal_valid b t r \<longrightarrow> (\<exists>v. om_get (validators st) (fst r) = Some v \<and> is_active (current_height st) v))"

lemma countable_tallyD:
  assumes "countable_tally b t st"
  shows "revealed_weight b t st (reveals t) \<le> unat (active_stake_sum st)" and "unat (active_stake_sum st) * 100 < 2 ^ 64"
proof -
  have c: "om_inv (validators st)" "active_total st * 100 < 2 ^ 64" using assms by (simp_all add: countable_tally_def)
  then have "active_total st < 2 ^ 64" by linarith
  then show "revealed_weight b t st (reveals t) \<le> unat (active_stake_sum st)" "unat (active_stake_sum st) * 100 < 2 ^ 64"
    using assms revealed_weight_le [OF c(1)] active_stake_sum_le [OF c(1)] c(2) by (auto simp: countable_tally_def)
qed

lemma quorum_unique:
  assumes "countable_tally b t st" and "50 < unat (gp ''oracle.reveal_quorum_percent'')"
    and "reaches_quorum gp b t st k" and "reaches_quorum gp b t st k'"
  shows "k = k'"
proof (rule ccontr)
  let ?S = "unat (active_stake_sum st)"
  assume "k \<noteq> k'"
  then have le: "reveals_for b t st k (reveals t) + reveals_for b t st k' (reveals t) \<le> ?S"
    using reveals_for_two countable_tallyD(1) [OF assms(1)] order_trans by blast
  have half: "51 * ?S \<le> reveals_for b t st j (reveals t) * 100" if "reaches_quorum gp b t st j" for j
  proof -
    have "0 < ?S" "51 \<le> reveals_for b t st j (reveals t) * 100 div ?S"
      using that assms(2) by (auto simp: reaches_quorum_def unat_gt_0)
    then show ?thesis by (simp add: less_eq_div_iff_mult_less_eq)
  qed
  have "0 < ?S" using assms(3) by (simp add: reaches_quorum_def unat_gt_0)
  then show False using half [OF assms(3)] half [OF assms(4)] le by linarith
qed

text \<open>What is finalised comes from a reveal whose digest reaches the quorum; nothing is when none does.\<close>

lemma try_finalize_spec:
  assumes ok: "countable_tally b t st" and ord: "\<And>m. set (ord m) = set m"
  shows "case try_finalize gp b ord t st of
      None \<Rightarrow> \<forall>r \<in> set (reveals t). reveal_valid b t r \<longrightarrow> \<not> reaches_quorum gp b t st (digest b (fst (snd r)))
    | Some (body, status, agreeing, tot) \<Rightarrow> (\<exists>r \<in> set (reveals t). reveal_valid b t r \<and> reaches_quorum gp b t st (digest b (fst (snd r)))
        \<and> body = fst (snd r) \<and> status = snd (snd r) \<and> unat agreeing = reveals_for b t st (digest b (fst (snd r))) (reveals t)
        \<and> tot = active_stake_sum st)"
proof (cases "active_stake_sum st = 0")
  case True
  then show ?thesis by (simp add: try_finalize_def reaches_quorum_def)
next
  case False
  let ?S = "active_stake_sum st"
  define m where "m = tally_reveals b t st (reveals t) []"
  let ?P = "\<lambda>(k :: bytes, body :: bytes, status :: u16, agreeing). (agreeing * 100) div ?S \<ge> gp ''oracle.reveal_quorum_percent''"
  note rw = countable_tallyD [OF ok]
  then have w: "tally_weight [] + revealed_weight b t st (reveals t) < 2 ^ 64" by (simp add: tally_weight_def)
  have mw: "tally_weight m = revealed_weight b t st (reveals t)" "distinct (map fst m)"
    using tally_reveals_inv [OF w] by (simp_all add: m_def tally_weight_def)
  have ew: "unat (snd (snd (snd z))) = reveals_for b t st (fst z) (reveals t)" if "z \<in> set m" for z
    using entry_weight [OF mw(2) that] tally_reveals_key_weight [OF w] by (simp add: m_def key_weight_def)
  have P: "?P z \<longleftrightarrow> reaches_quorum gp b t st (fst z)" if "z \<in> set m" for z
  proof -
    have "unat (snd (snd (snd z))) * 100 < 2 ^ 64"
      using entry_weight [OF mw(2) that] key_weight_le [of "fst z" m] mw(1) rw by linarith
    then have "unat (snd (snd (snd z)) * 100) = reveals_for b t st (fst z) (reveals t) * 100"
      using ew [OF that] by (simp add: unat_word_ariths)
    then show ?thesis
      using False by (simp add: case_prod_unfold reaches_quorum_def word_le_nat_alt unat_div_distrib)
  qed
  have f: "try_finalize gp b ord t st = map_option (\<lambda>e. (fst (snd e), fst (snd (snd e)), snd (snd (snd e)), ?S)) (find ?P (ord m))"
    using False by (simp add: try_finalize_def m_def [symmetric] Let_def case_prod_unfold split: option.split)
  show ?thesis
  proof (cases "find ?P (ord m)")
    case None
    then have "\<not> ?P e" if "e \<in> set m" for e using that ord by (fastforce simp: find_None_iff)
    moreover have "\<exists>e \<in> set m. fst e = digest b (fst (snd r))" if "r \<in> set (reveals t)" "reveal_valid b t r" for r
    proof -
      have "digest b (fst (snd r)) \<in> fst ` set m" using that by (auto simp: m_def tally_reveals_keys)
      then show ?thesis by force
    qed
    ultimately have "\<not> reaches_quorum gp b t st (digest b (fst (snd r)))" if "r \<in> set (reveals t)" "reveal_valid b t r" for r
      using that P by metis
    then show ?thesis using None f by simp
  next
    case (Some e)
    then have "e \<in> set (ord m) \<and> ?P e" unfolding find_Some_iff by (metis nth_mem)
    then have e: "e \<in> set m" "?P e" using ord by simp_all
    obtain r where "r \<in> set (reveals t)" "reveal_valid b t r" "fst e = digest b (fst (snd r))" "fst (snd e) = fst (snd r)"
        "fst (snd (snd e)) = snd (snd r)"
      using tally_reveals_entries [of e b t st "reveals t" "[]"] e(1) by (auto simp: m_def)
    moreover have "reaches_quorum gp b t st (fst e)" using P [OF e(1)] e(2) by simp
    ultimately show ?thesis using Some f ew [OF e(1)] by (simp, intro bexI [of _ r]) simp_all
  qed
qed

text \<open>
  C34. What the oracle finalises does not depend on the iteration order of its hash maps, neither of
  the reveals nor of the tally: when the reveal quorum is above one half, every validator whose
  reveal counts is active, the stakes do not overflow and the revealed bodies have different
  digests, every node with the same reveals finalises the same body with the same agreeing and
  total stake, or all of them none. The status is the same as well when equal bodies were revealed
  with equal statuses; otherwise it can depend on the order of the reveals.
\<close>
theorem try_finalize_deterministic:
  assumes ok: "countable_tally b t st" and q: "50 < unat (gp ''oracle.reveal_quorum_percent'')"
    and perm: "mset rs = mset (reveals t)" and inj: "inj_on (digest b) ((\<lambda>r. fst (snd r)) ` set (reveals t))"
    and ord: "\<And>m. set (ord1 m) = set m" "\<And>m. set (ord2 m) = set m"
  shows "map_option (\<lambda>(body, status, agreeing, tot). (body, agreeing, tot)) (try_finalize gp b ord1 t st)
      = map_option (\<lambda>(body, status, agreeing, tot). (body, agreeing, tot)) (try_finalize gp b ord2 (t\<lparr>reveals := rs\<rparr>) st)
    \<and> ((\<forall>r \<in> set rs. \<forall>r' \<in> set rs. fst (snd r) = fst (snd r') \<longrightarrow> snd (snd r) = snd (snd r'))
      \<longrightarrow> try_finalize gp b ord1 t st = try_finalize gp b ord2 (t\<lparr>reveals := rs\<rparr>) st)"
proof -
  let ?t = "t\<lparr>reveals := rs\<rparr>"
  have sets: "set rs = set (reveals t)" by (rule mset_eq_setD [OF perm])
  have rf: "reveals_for b ?t st k rs = reveals_for b t st k (reveals t)" for k
    using reveals_permuted(1) [OF perm, of b t st k] by (simp add: reveals_for_def)
  have rq: "reaches_quorum gp b ?t st k = reaches_quorum gp b t st k" for k by (simp add: reaches_quorum_def rf)
  have "distinct (map fst rs) = distinct (map fst (reveals t))"
    by (rule mset_eq_imp_distinct_iff) (simp add: perm)
  then have "countable_tally b ?t st" using ok by (simp add: countable_tally_def sets)
  note two = try_finalize_spec [OF this ord(2), of gp] and one = try_finalize_spec [OF ok ord(1), of gp]
  show ?thesis
  proof (cases "try_finalize gp b ord1 t st")
    case None
    then have "try_finalize gp b ord2 ?t st = None"
      using one two by (auto simp: rq sets split: option.splits)
    then show ?thesis using None by simp
  next
    case (Some x)
    then obtain r where r: "r \<in> set (reveals t)" "reveal_valid b t r" "reaches_quorum gp b t st (digest b (fst (snd r)))"
        "fst x = fst (snd r)" "fst (snd x) = snd (snd r)" "unat (fst (snd (snd x))) = reveals_for b t st (digest b (fst (snd r))) (reveals t)"
        "snd (snd (snd x)) = active_stake_sum st"
      using one by (auto split: prod.splits)
    then obtain y where y: "try_finalize gp b ord2 ?t st = Some y" using two by (auto simp: rq sets split: option.splits)
    then obtain r' where r': "r' \<in> set (reveals t)" "reaches_quorum gp b t st (digest b (fst (snd r')))" "fst y = fst (snd r')"
        "fst (snd y) = snd (snd r')" "unat (fst (snd (snd y))) = reveals_for b t st (digest b (fst (snd r'))) (reveals t)"
        "snd (snd (snd y)) = active_stake_sum st"
      using two by (auto simp: rq rf sets split: prod.splits)
    have k: "digest b (fst (snd r)) = digest b (fst (snd r'))" by (rule quorum_unique [OF ok q r(3) r'(2)])
    then have body: "fst (snd r) = fst (snd r')" using inj r(1) r'(1) by (auto dest: inj_onD)
    have a: "fst (snd (snd x)) = fst (snd (snd y))" using r(6) r'(5) k by (metis word_unat_eq_iff)
    have same: "fst x = fst y" "snd (snd (snd x)) = snd (snd (snd y))" using r(4,7) r'(3,6) body by simp_all
    have status: "fst (snd x) = fst (snd y)"
      if "\<forall>r \<in> set rs. \<forall>r' \<in> set rs. fst (snd r) = fst (snd r') \<longrightarrow> snd (snd r) = snd (snd r')"
      using that body r(1,5) r'(1,4) unfolding sets by metis
    show ?thesis
      unfolding Some y option.map option.inject case_prod_unfold
      using a same by (intro conjI impI prod_eqI) (simp_all only: fst_conv snd_conv status)
  qed
qed

definition demo_hash :: hash_fn where
  "demo_hash x = L4 (from_le_bytes (take 8 (rev x))) 0 0 0"

definition demo_tally :: "(bytes \<times> bytes \<times> u16) list \<Rightarrow> oracle_tally" where
  "demo_tally rs = \<lparr>tally_id = [],
     commits = map (\<lambda>(pk, body, status). (pk, compute_commit_hash demo_hash pk [] body status)) rs,
     reveals = rs, committed_stake = 0, tally_total_stake = 0, commit_phase_closed = True\<rparr>"

definition two_bodies :: oracle_tally where
  "two_bodies = demo_tally [([1], [7], 200), ([2], [8], 200)]"

theorem try_finalize_deterministic_witness:
  "try_finalize (\<lambda>_. 67) demo_hash id two_bodies demo_state
   = try_finalize (\<lambda>_. 67) demo_hash rev (two_bodies\<lparr>reveals := rev (reveals two_bodies)\<rparr>) demo_state"
proof -
  have "countable_tally demo_hash two_bodies demo_state"
    using demo_ok(1) by (simp add: countable_tally_def two_bodies_def demo_tally_def demo_state_def om_get_def is_active_def
        validator_new_def MIN_VALIDATOR_STAKE_def om_total_def)
  moreover have "inj_on (digest demo_hash) ((\<lambda>r. fst (snd r)) ` set (reveals two_bodies))"
  proof -
    have "u256 (digest demo_hash [a]) = L4 (from_le_bytes [a]) 0 0 0" for a
      by (simp only: digest_def u256_to32) (simp add: demo_hash_def)
    then have "u256 (digest demo_hash [7]) \<noteq> u256 (digest demo_hash [8])" by (simp add: from_le_bytes_def)
    then show ?thesis by (auto simp: two_bodies_def demo_tally_def inj_on_def)
  qed
  ultimately show ?thesis
    using try_finalize_deterministic [of demo_hash two_bodies demo_state "\<lambda>_. 67" "rev (reveals two_bodies)" id rev]
    by (simp add: two_bodies_def demo_tally_def)
qed

definition demo_jailed :: staking_state where
  "demo_jailed = \<lparr>validators = [([1], validator_new 10000000000),
       ([2], (validator_new 10000000000)\<lparr>jailed_until := Some 100\<rparr>)],
     current_height = 7, treasury_account_id = None\<rparr>"

text \<open>
  Two ways the tally departs from what it means to count. The stake of a jailed
  validator counts towards the quorum although it is missing from the total, so a jailed
  validator alone can finalise a response; and when two validators reveal the same body
  with different status codes, the finalised status depends on the iteration order of
  the reveals.
\<close>
theorem try_finalize_anomalies:
  "\<not> is_active 7 ((validator_new 10000000000)\<lparr>jailed_until := Some 100\<rparr>)
     \<and> try_finalize (\<lambda>_. 67) demo_hash id (demo_tally [([2], [7], 200)]) demo_jailed
         = Some ([7], 200, 10000000000, 10000000000)
     \<and> try_finalize (\<lambda>_. 30) demo_hash id (demo_tally [([1], [7], 200), ([2], [7], 201)]) demo_state
         = Some ([7], 200, 40000000000, 60000000000)
     \<and> try_finalize (\<lambda>_. 30) demo_hash id (demo_tally [([2], [7], 201), ([1], [7], 200)]) demo_state
         = Some ([7], 201, 40000000000, 60000000000)"
  by (simp add: demo_jailed_def try_finalize_def demo_tally_def reveal_valid_def active_stake_sum_def
      is_active_def validator_new_def MIN_VALIDATOR_STAKE_def stake_of_def om_get_def demo_state_def Let_def)

section \<open>Prices\<close>

text \<open>
  The price format. Parsing a body (floating point and JSON) and writing the result are
  arguments; the reveals are scanned in the iteration order of their hash map.
\<close>

type_synonym sample = "u64 \<times> u64 \<times> u16"

definition PRICE_TOLERANCE_BPS :: u64 where
  "PRICE_TOLERANCE_BPS = 10"

primrec price_samples ::
    "hash_fn \<Rightarrow> (bytes \<Rightarrow> u64 option) \<Rightarrow> oracle_tally \<Rightarrow> staking_state \<Rightarrow> (bytes \<times> bytes \<times> u16) list
     \<Rightarrow> sample list \<Rightarrow> sample list option" where
  "price_samples blake3 parse t st [] acc = Some acc"
| "price_samples blake3 parse t st (r # rs) acc =
    (case map_of (commits t) (fst r) of
       None \<Rightarrow> None
     | Some c \<Rightarrow> price_samples blake3 parse t st rs
         (if compute_commit_hash blake3 (fst r) (tally_id t) (fst (snd r)) (snd (snd r)) \<noteq> c then acc
          else if stake_of st (fst r) = 0 then acc
          else case parse (fst (snd r)) of
              Some price \<Rightarrow> acc @ [(price, stake_of st (fst r), snd (snd r))]
            | None \<Rightarrow> acc))"

fun extend_window :: "u64 \<Rightarrow> u64 \<Rightarrow> sample list \<Rightarrow> nat \<times> u64 \<Rightarrow> nat \<times> u64" where
  "extend_window anchor tol [] (e, s) = (e, s)"
| "extend_window anchor tol (x # xs) (e, s) =
    (if saturating_sub (fst x) anchor \<le> tol
     then extend_window anchor tol xs (e + 1, saturating_add s (fst (snd x))) else (e, s))"

definition anchor_of :: "sample \<Rightarrow> u64" where
  "anchor_of x = max (fst x) 1"

definition tolerance_of :: "u64 \<Rightarrow> u64" where
  "tolerance_of a = ucast ((ucast a :: u128) * ucast PRICE_TOLERANCE_BPS div 10000)"

primrec best_window :: "sample list \<Rightarrow> nat list \<Rightarrow> (nat \<times> nat \<times> u64) option \<Rightarrow> (nat \<times> nat \<times> u64) option" where
  "best_window ss [] best = best"
| "best_window ss (i # is) best =
    (let a = anchor_of (ss ! i); (e, s) = extend_window a (tolerance_of a) (drop i ss) (i, 0) in
     best_window ss is (case best of
         Some (_, _, b) \<Rightarrow> if s > b then Some (i, e, s) else best
       | None \<Rightarrow> Some (i, e, s)))"

primrec median_from :: "u64 \<Rightarrow> u64 \<Rightarrow> u64 \<Rightarrow> sample list \<Rightarrow> u64" where
  "median_from target cum m [] = m"
| "median_from target cum m (x # xs) =
    (let cum' = saturating_add cum (fst (snd x)) in
     if cum' \<ge> target then fst x else median_from target cum' m xs)"

definition try_finalize_price_usd ::
    "(string \<Rightarrow> u64) \<Rightarrow> hash_fn \<Rightarrow> (bytes \<Rightarrow> u64 option) \<Rightarrow> (u64 \<Rightarrow> nat \<Rightarrow> bytes option) \<Rightarrow> oracle_tally
     \<Rightarrow> staking_state \<Rightarrow> (bytes \<times> u16 \<times> u64 \<times> u64) option" where
  "try_finalize_price_usd gp blake3 parse to_vec t st =
    (let tot = active_stake_sum st in
     if tot = 0 then None
     else case price_samples blake3 parse t st (reveals t) [] of
       None \<Rightarrow> None
     | Some unsorted \<Rightarrow>
         let ss = sort_key fst unsorted in
         (case best_window ss [0..<length ss] None of
            None \<Rightarrow> None
          | Some (start, e, agreeing) \<Rightarrow>
              if (agreeing * 100) div tot < gp ''oracle.reveal_quorum_percent'' then None
              else
                let w = take (e - start) (drop start ss);
                    median = median_from (saturating_add agreeing 1 div 2) 0 (fst (ss ! start)) w;
                    status = (case find (\<lambda>x. fst x = median) w of Some x \<Rightarrow> snd (snd x) | None \<Rightarrow> 200)
                in map_option (\<lambda>body. (body, status, agreeing, tot)) (to_vec median (e - start))))"

definition try_finalize_with_format ::
    "(string \<Rightarrow> u64) \<Rightarrow> hash_fn \<Rightarrow> (tally_map \<Rightarrow> tally_map) \<Rightarrow> (bytes \<Rightarrow> u64 option)
     \<Rightarrow> (u64 \<Rightarrow> nat \<Rightarrow> bytes option) \<Rightarrow> oracle_tally \<Rightarrow> staking_state \<Rightarrow> url_response_format
     \<Rightarrow> (bytes \<times> u16 \<times> u64 \<times> u64) option" where
  "try_finalize_with_format gp blake3 ord parse to_vec t st fmt =
    (if fmt = PriceUsd then try_finalize_price_usd gp blake3 parse to_vec t st
     else try_finalize gp blake3 ord t st)"

definition stakes :: "sample list \<Rightarrow> nat" where
  "stakes ss = sum_list (map (\<lambda>x. unat (fst (snd x))) ss)"

lemma stakes_simps [simp]:
  "stakes [] = 0" "stakes (x # xs) = unat (fst (snd x)) + stakes xs" "stakes (xs @ ys) = stakes xs + stakes ys"
  by (simp_all add: stakes_def)

lemma extend_window_takeWhile:
  assumes "unat s + stakes xs < 2 ^ 64"
  shows "extend_window a tol xs (e, s) =
    (let w = takeWhile (\<lambda>x. saturating_sub (fst x) a \<le> tol) xs in (e + length w, s + of_nat (stakes w)))"
  using assms
proof (induction xs arbitrary: e s)
  case (Cons x xs)
  show ?case
  proof (cases "saturating_sub (fst x) a \<le> tol")
    case True
    have u: "unat (s + fst (snd x)) = unat s + unat (fst (snd x))"
      using Cons.prems by (intro unat_add_64) simp
    have "saturating_add s (fst (snd x)) = s + fst (snd x)"
      using Cons.prems by (intro saturating_add_exact) simp
    with True show ?thesis using Cons.IH [of "s + fst (snd x)" "e + 1"] Cons.prems u
      by (simp add: Let_def ac_simps)
  qed (simp add: Let_def)
qed simp

definition window :: "sample list \<Rightarrow> nat \<Rightarrow> sample list" where
  "window ss i = (let a = anchor_of (ss ! i) in
     takeWhile (\<lambda>x. saturating_sub (fst x) a \<le> tolerance_of a) (drop i ss))"

definition is_window :: "sample list \<Rightarrow> nat \<times> nat \<times> u64 \<Rightarrow> bool" where
  "is_window ss b = (case b of (i, e, s) \<Rightarrow>
     i < length ss \<and> e = i + length (window ss i) \<and> unat s = stakes (window ss i))"

lemma stakes_takeWhile_drop: "stakes (takeWhile P (drop i ss)) \<le> stakes ss"
proof -
  have "stakes ss = stakes (take i ss) + stakes (drop i ss)"
    by (subst append_take_drop_id [of i ss, symmetric]) (simp del: append_take_drop_id)
  moreover have "stakes (drop i ss) = stakes (takeWhile P (drop i ss)) + stakes (dropWhile P (drop i ss))"
    by (subst takeWhile_dropWhile_id [of P "drop i ss", symmetric]) (simp del: takeWhile_dropWhile_id)
  ultimately show ?thesis by simp
qed

lemma extend_is_window:
  assumes "i < length ss" and "stakes ss < 2 ^ 64"
  shows "is_window ss (i, extend_window (anchor_of (ss ! i)) (tolerance_of (anchor_of (ss ! i))) (drop i ss) (i, 0))"
proof -
  have "stakes (drop i ss) \<le> stakes ss"
    using stakes_takeWhile_drop [of "\<lambda>_. True" i ss] by (simp add: takeWhile_eq_all_conv [THEN iffD2])
  then have d: "unat (0 :: u64) + stakes (drop i ss) < 2 ^ 64" using assms(2) by simp
  have "stakes (window ss i) < 2 ^ 64"
    using stakes_takeWhile_drop assms(2) unfolding window_def Let_def by (rule le_less_trans)
  then show ?thesis using assms(1) extend_window_takeWhile [OF d]
    by (simp add: is_window_def window_def Let_def unat_of_nat)
qed

lemma best_window_is:
  assumes "\<forall>i \<in> set is. i < length ss" and "stakes ss < 2 ^ 64"
    and "\<forall>b. best = Some b \<longrightarrow> is_window ss b"
    and "best_window ss is best = Some r"
  shows "is_window ss r"
  using assms
proof (induction "is" arbitrary: best)
  case (Cons i "is")
  obtain e s where es: "extend_window (anchor_of (ss ! i)) (tolerance_of (anchor_of (ss ! i))) (drop i ss) (i, 0) = (e, s)"
    by fastforce
  let ?b = "case best of Some (_, _, b) \<Rightarrow> if s > b then Some (i, e, s) else best | None \<Rightarrow> Some (i, e, s)"
  have "is_window ss (i, e, s)" using extend_is_window [of i ss] Cons.prems(1,2) es by simp
  then have "\<forall>b. ?b = Some b \<longrightarrow> is_window ss b"
    using Cons.prems(3) by (auto split: option.splits)
  moreover have "best_window ss is ?b = Some r" using Cons.prems(4) es by (simp add: Let_def)
  ultimately show ?case using Cons.IH [of ?b] Cons.prems(1,2) by simp
next
  case Nil
  then show ?case by (cases r) simp
qed

lemma median_split:
  assumes "unat cum < unat target" and "unat target \<le> unat cum + stakes w" and "unat cum + stakes w < 2 ^ 64"
  shows "\<exists>ys x zs. w = ys @ x # zs \<and> median_from target cum m w = fst x
    \<and> unat cum + stakes ys < unat target \<and> unat target \<le> unat cum + stakes ys + unat (fst (snd x))"
  using assms
proof (induction w arbitrary: cum)
  case (Cons y w)
  let ?c = "cum + fst (snd y)"
  have u: "unat ?c = unat cum + unat (fst (snd y))" using Cons.prems(3) by (intro unat_add_64) simp
  have sat: "saturating_add cum (fst (snd y)) = ?c" using Cons.prems(3) by (intro saturating_add_exact) simp
  show ?case
  proof (cases "target \<le> ?c")
    case True
    then show ?thesis using sat u Cons.prems(1)
      by (intro exI [of _ "[]"] exI [of _ y] exI [of _ w]) (simp add: word_le_nat_alt)
  next
    case False
    then have "unat ?c < unat target" by (simp add: word_le_nat_alt)
    with Cons.IH [of ?c] Cons.prems u obtain ys x zs where "w = ys @ x # zs" "median_from target ?c m w = fst x"
      "unat ?c + stakes ys < unat target" "unat target \<le> unat ?c + stakes ys + unat (fst (snd x))"
      by (auto simp: ac_simps)
    then show ?thesis using False sat u
      by (intro exI [of _ "y # ys"] exI [of _ x] exI [of _ zs]) (simp add: Let_def)
  qed
qed simp

lemma stakes_filter_le: "stakes (filter P xs) \<le> stakes xs"
  by (induction xs) auto

lemma median_of_sorted:
  assumes "sorted (map fst (ys @ x # zs))"
  shows "stakes (filter (\<lambda>y. fst y < fst x) (ys @ x # zs)) \<le> stakes ys"
    and "stakes ys + unat (fst (snd x)) \<le> stakes (filter (\<lambda>y. fst y \<le> fst x) (ys @ x # zs))"
proof -
  have "filter (\<lambda>y. fst y < fst x) zs = []" and "filter (\<lambda>y. fst y \<le> fst x) ys = ys"
    using assms by (auto simp: sorted_append filter_empty_conv filter_id_conv)
  then show "stakes (filter (\<lambda>y. fst y < fst x) (ys @ x # zs)) \<le> stakes ys"
    and "stakes ys + unat (fst (snd x)) \<le> stakes (filter (\<lambda>y. fst y \<le> fst x) (ys @ x # zs))"
    using stakes_filter_le [of "\<lambda>y. fst y < fst x" ys] by simp_all
qed

lemma tolerance_val: "unat (tolerance_of a) = unat a div 1000"
proof -
  have a: "unat a < 2 ^ 64" by (rule unat_less_64)
  have "unat (ucast a :: u128) = unat a" using a by (simp add: unsigned_ucast_eq take_bit_nat_eq_self)
  moreover have "unat a * 10 < 2 ^ 128" using a by simp
  ultimately have "unat ((ucast a :: u128) * 10 div 10000) = unat a * 10 div 10000"
    by (simp add: unat_div_distrib unat_word_ariths)
  moreover have "unat a * 10 div 10000 = unat a div 1000" by simp
  ultimately show ?thesis using a div_le_dividend [of "unat a" 1000]
    by (simp add: tolerance_of_def PRICE_TOLERANCE_BPS_def unsigned_ucast_eq take_bit_nat_eq_self)
qed

lemma price_samples_valid:
  assumes "price_samples blake3 parse t st rs acc = Some ss" and "x \<in> set ss"
  shows "x \<in> set acc \<or> (\<exists>r \<in> set rs. reveal_valid blake3 t r \<and> parse (fst (snd r)) = Some (fst x)
    \<and> fst (snd x) = stake_of st (fst r) \<and> stake_of st (fst r) \<noteq> 0)"
  using assms
proof (induction rs arbitrary: acc)
  case (Cons r rs)
  obtain c where c: "map_of (commits t) (fst r) = Some c" using Cons.prems(1) by (cases "map_of (commits t) (fst r)") auto
  from Cons.IH Cons.prems c show ?case
    by (cases r) (fastforce simp: reveal_valid_def split: if_splits option.splits)
qed simp

lemma stakes_mset: "mset xs = mset ys \<Longrightarrow> stakes xs = stakes ys"
  unfolding stakes_def sum_mset_sum_list [symmetric] by simp

lemma window_props:
  assumes sorted: "sorted (map fst ss)" and i: "i < length ss"
  shows "\<forall>x \<in> set (window ss i). \<forall>y \<in> set (window ss i).
      unat (fst x) \<le> max (unat (fst y)) 1 + max (unat (fst y)) 1 div 1000"
    and "window ss i = take (length (window ss i)) (drop i ss)"
    and "ss ! i \<in> set (window ss i)"
proof -
  let ?a = "anchor_of (ss ! i)"
  have a: "unat ?a = max (unat (fst (ss ! i))) 1"
    by (simp add: anchor_of_def max_def word_le_nat_alt)
  have hi: "unat (fst x) \<le> unat ?a + unat ?a div 1000" if "x \<in> set (window ss i)" for x
  proof -
    have "saturating_sub (fst x) ?a \<le> tolerance_of ?a"
      using that unfolding window_def Let_def by (rule set_takeWhileD [THEN conjunct2])
    then have "unat (saturating_sub (fst x) ?a) \<le> unat ?a div 1000"
      by (simp add: word_le_nat_alt tolerance_val)
    then show ?thesis by (auto simp: rust_int word_le_nat_alt unat_sub split: if_splits)
  qed
  have lo: "unat ?a \<le> max (unat (fst y)) 1" if "y \<in> set (window ss i)" for y
  proof -
    have "y \<in> set (drop i ss)" using that unfolding window_def Let_def by (rule set_takeWhileD [THEN conjunct1])
    then obtain j where "y = ss ! (i + j)" "i + j < length ss" by (auto simp: in_set_conv_nth)
    then have "fst (ss ! i) \<le> fst y" using sorted sorted_nth_mono [of "map fst ss" i "i + j"] by simp
    then show ?thesis using a by (simp add: word_le_nat_alt max_def)
  qed
  show "\<forall>x \<in> set (window ss i). \<forall>y \<in> set (window ss i).
      unat (fst x) \<le> max (unat (fst y)) 1 + max (unat (fst y)) 1 div 1000"
    using hi lo by (meson add_mono div_le_mono le_trans)
  show "window ss i = take (length (window ss i)) (drop i ss)"
    unfolding window_def Let_def by (metis takeWhile_eq_take length_takeWhile_le min.absorb2 length_take)
  have "drop i ss = ss ! i # drop (Suc i) ss" using i by (simp add: Cons_nth_drop_Suc)
  then show "ss ! i \<in> set (window ss i)"
    by (simp add: window_def Let_def anchor_of_def rust_int max_def)
qed

lemma median_of_window:
  assumes "sorted (map fst w)" and "0 < stakes w" and "stakes w < 2 ^ 64 - 1" and "unat s = stakes w"
  shows "median_from (saturating_add s 1 div 2) 0 m w \<in> fst ` set w
    \<and> 2 * stakes (filter (\<lambda>x. fst x < median_from (saturating_add s 1 div 2) 0 m w) w) \<le> stakes w
    \<and> stakes w \<le> 2 * stakes (filter (\<lambda>x. fst x \<le> median_from (saturating_add s 1 div 2) 0 m w) w)"
proof -
  let ?t = "saturating_add s 1 div 2"
  have "saturating_add s 1 = s + 1" using assms(3,4) by (intro saturating_add_exact) simp
  moreover have "unat (s + 1) = unat s + 1" using assms(3,4) by (subst unat_add_64) simp_all
  ultimately have t: "unat ?t = (stakes w + 1) div 2" using assms(4) by (simp add: unat_div_distrib)
  have "unat (0 :: u64) < unat ?t" "unat ?t \<le> unat (0 :: u64) + stakes w" "unat (0 :: u64) + stakes w < 2 ^ 64"
    using t assms(2,3) by simp_all
  from median_split [OF this, of m] obtain ys x zs where
    w: "w = ys @ x # zs" "median_from ?t 0 m w = fst x" and
    b: "stakes ys < unat ?t" "unat ?t \<le> stakes ys + unat (fst (snd x))" by auto
  note med = median_of_sorted [of ys x zs, folded w(1), OF assms(1)]
  have "fst x \<in> fst ` set w" using w(1) by simp
  moreover have "2 * stakes ys \<le> stakes w" using b(1) t by linarith
  moreover have "stakes w \<le> 2 * (stakes ys + unat (fst (snd x)))" using b(2) t by presburger
  ultimately show ?thesis unfolding w(2) using med by (intro conjI) (assumption, presburger+)
qed

text \<open>
  C23. The price the oracle publishes is a stake-weighted median of agreeing validators.
  Whenever a price is published, it is the price of a window of samples in which any two
  prices differ by at most a thousandth, every sample is the price of a reveal that
  matches the commitment of a validator with stake, the reported stake is the stake of
  the window and reaches the quorum, and at most half of it lies below and at least half
  of it at or below the published price.
\<close>
theorem price_is_weighted_median:
  assumes fin: "try_finalize_price_usd gp blake3 parse to_vec t st = Some (body, status, agreeing, tot)"
    and ss: "price_samples blake3 parse t st (reveals t) [] = Some ss" and small: "stakes ss < 2 ^ 64 - 1"
  shows "\<exists>w p. to_vec p (length w) = Some body \<and> p \<in> fst ` set w \<and> mset w \<subseteq># mset ss
    \<and> stakes w = unat agreeing \<and> gp ''oracle.reveal_quorum_percent'' \<le> agreeing * 100 div tot
    \<and> 2 * stakes (filter (\<lambda>x. fst x < p) w) \<le> unat agreeing
    \<and> unat agreeing \<le> 2 * stakes (filter (\<lambda>x. fst x \<le> p) w)
    \<and> (\<forall>x \<in> set w. \<forall>y \<in> set w. unat (fst x) \<le> max (unat (fst y)) 1 + max (unat (fst y)) 1 div 1000)
    \<and> (\<forall>x \<in> set w. \<exists>r \<in> set (reveals t). reveal_valid blake3 t r \<and> parse (fst (snd r)) = Some (fst x)
         \<and> fst (snd x) = stake_of st (fst r) \<and> stake_of st (fst r) \<noteq> 0)"
proof -
  define sd where "sd = sort_key fst ss"
  have perm: "mset sd = mset ss" and sorted: "sorted (map fst sd)" by (simp_all add: sd_def)
  have st: "stakes sd < 2 ^ 64 - 1" using small stakes_mset [OF perm] by simp
  from fin ss obtain i e where best: "best_window sd [0..<length sd] None = Some (i, e, agreeing)"
    and q: "gp ''oracle.reveal_quorum_percent'' \<le> agreeing * 100 div tot"
    and tv: "to_vec (median_from (saturating_add agreeing 1 div 2) 0 (fst (sd ! i)) (take (e - i) (drop i sd))) (e - i) = Some body"
    by (auto simp: try_finalize_price_usd_def sd_def Let_def not_less split: if_splits option.splits)
  have "is_window sd (i, e, agreeing)" using best_window_is [OF _ _ _ best] st by simp
  then have i: "i < length sd" and e: "e - i = length (window sd i)" and a: "unat agreeing = stakes (window sd i)"
    by (simp_all add: is_window_def)
  note wp = window_props [OF sorted i]
  let ?w = "window sd i"
  let ?p = "median_from (saturating_add agreeing 1 div 2) 0 (fst (sd ! i)) ?w"
  have mw: "mset ?w \<subseteq># mset sd"
    using wp(2) append_take_drop_id by (metis mset_subset_eq_add_left mset_subset_eq_add_right mset_append subset_mset.trans)
  have real: "\<forall>x \<in> set ?w. \<exists>r \<in> set (reveals t). reveal_valid blake3 t r \<and> parse (fst (snd r)) = Some (fst x)
         \<and> fst (snd x) = stake_of st (fst r) \<and> stake_of st (fst r) \<noteq> 0"
  proof
    fix x assume "x \<in> set ?w"
    then have "x \<in> set ss" using mw unfolding perm by (metis mset_subset_eqD set_mset_mset)
    then show "\<exists>r \<in> set (reveals t). reveal_valid blake3 t r \<and> parse (fst (snd r)) = Some (fst x)
         \<and> fst (snd x) = stake_of st (fst r) \<and> stake_of st (fst r) \<noteq> 0"
      using price_samples_valid [OF ss] by simp
  qed
  have "unat (fst (snd (sd ! i))) \<noteq> 0" using real wp(3) by (auto simp: unat_eq_0)
  moreover have "unat (fst (snd (sd ! i))) \<le> stakes ?w"
    unfolding stakes_def using wp(3) by (intro member_le_sum_list) simp_all
  ultimately have pos: "0 < stakes ?w" by simp
  have "stakes ?w < 2 ^ 64 - 1" using stakes_takeWhile_drop st unfolding window_def Let_def by (rule le_less_trans)
  moreover have "sorted (map fst ?w)"
    by (subst wp(2)) (simp add: take_map [symmetric] drop_map [symmetric] sorted sorted_wrt_take sorted_wrt_drop)
  ultimately have "?p \<in> fst ` set ?w \<and> 2 * stakes (filter (\<lambda>x. fst x < ?p) ?w) \<le> stakes ?w
      \<and> stakes ?w \<le> 2 * stakes (filter (\<lambda>x. fst x \<le> ?p) ?w)"
    using pos a by (intro median_of_window) simp_all
  moreover have "to_vec ?p (length ?w) = Some body" using tv e wp(2) by simp
  ultimately show ?thesis using q a wp(1) real mw perm by (intro exI [of _ ?w] exI [of _ ?p]) simp
qed

definition demo_prices :: oracle_tally where
  "demo_prices = demo_tally [([1], to_le_bytes 8 (1000000 :: u64), 200), ([2], to_le_bytes 8 (1000900 :: u64), 200)]"

theorem price_is_weighted_median_witness:
  "\<exists>p. p \<in> {1000000, 1000900} \<and> try_finalize_price_usd (\<lambda>_. 60) demo_hash (\<lambda>b. Some (from_le_bytes b))
     (\<lambda>p n. Some (to_le_bytes 8 p)) demo_prices demo_state
       = Some (to_le_bytes 8 (p :: u64), 200, 40000000000, 60000000000)"
proof -
  let ?parse = "\<lambda>b. Some (from_le_bytes b) :: u64 option"
  let ?ss = "[(1000000, 30000000000, 200), (1000900, 10000000000, 200)] :: sample list"
  have s: "price_samples demo_hash ?parse demo_prices demo_state (reveals demo_prices) [] = Some ?ss"
    by (simp add: demo_prices_def demo_tally_def stake_of_def demo_state_def validator_new_def om_get_def
        from_to_le_bytes)
  have t: "active_stake_sum demo_state = 60000000000"
    by (simp add: active_stake_sum_def demo_state_def is_active_def validator_new_def MIN_VALIDATOR_STAKE_def)
  have f: "try_finalize_price_usd (\<lambda>_. 60) demo_hash ?parse (\<lambda>p n. Some (to_le_bytes 8 p)) demo_prices demo_state
      = Some (to_le_bytes 8 (1000000 :: u64), 200, 40000000000, 60000000000)"
    using s t by (simp add: try_finalize_price_usd_def Let_def anchor_of_def tolerance_of_def
        PRICE_TOLERANCE_BPS_def rust_int upt_rec)
  have "stakes ?ss < 2 ^ 64 - 1" by (simp add: stakes_def)
  from price_is_weighted_median [OF f s this]
  obtain w p where w: "to_le_bytes 8 p = to_le_bytes 8 (1000000 :: u64)" "p \<in> fst ` set w" "mset w \<subseteq># mset ?ss" by auto
  have "set w \<subseteq> set ?ss" using w(3) by (metis set_mset_mono set_mset_mset)
  then have "p \<in> {1000000, 1000900}" using w(2) by auto
  then show ?thesis using f w(1) by auto
qed

end
