(* ===== verification/Manifest.thy ===== *)
theory Manifest
  imports Bytecode "HOL-Library.List_Lexorder"
begin

text \<open>
  The static analyser of cells (\<^verbatim>\<open>truthlinked-core/src/cells.rs\<close>): it scans the code for
  storage instructions, remembers which register was last loaded with which 32-byte
  constant, and so derives the storage slots a cell touches; the check of a declared
  manifest against it; and the manifest hash. The parallel scheduler relies on these
  slots to keep conflicting transactions apart. The text of a message is the source's;
  \<^verbatim>\<open>hex::encode\<close> and the hash function are arguments.
\<close>

section \<open>Parsing the container\<close>

record manifest_analysis =
  static_read_slots :: "bytes list"
  static_write_slots :: "bytes list"
  has_storage_reads :: bool
  has_storage_writes :: bool
  fully_resolved :: bool

record storage_key_spec =
  spec_offset :: nat
  spec_len :: nat

text \<open>A length-prefixed field at a position, with the two messages of its truncations.\<close>

definition mf_blob :: "bytes \<Rightarrow> string \<Rightarrow> string \<Rightarrow> nat \<Rightarrow> string + (bytes \<times> nat)" where
  "mf_blob raw no_len no_body pos =
    (if pos + 4 > length raw then Inl no_len
     else let n = u32_at raw pos; pos = pos + 4 in
       if pos + n > length raw then Inl no_body else Inr (slice raw pos n, pos + n))"

primrec mf_pool :: "bytes \<Rightarrow> nat \<Rightarrow> nat \<Rightarrow> bytes list \<Rightarrow> string + (bytes list \<times> nat)" where
  "mf_pool raw 0 pos cpool = Inr (cpool, pos)"
| "mf_pool raw (Suc n) pos cpool =
    (case mf_blob raw ''Truncated const pool'' ''Truncated const pool entry'' pos of
       Inl e \<Rightarrow> Inl e
     | Inr (entry, pos) \<Rightarrow> mf_pool raw n pos (cpool @ [entry]))"

definition mf_parse :: "bytes \<Rightarrow> string + (bytes list \<times> bytes)" where
  "mf_parse raw =
    (if length raw < 6 \<or> slice raw 0 4 \<noteq> MAGIC then Inl ''Not Axiom bytecode''
     else if 6 + 2 > length raw then Inl ''Truncated bytecode: missing const pool count''
     else case mf_pool raw (u16_at raw 6) 8 [] of
       Inl e \<Rightarrow> Inl e
     | Inr (cpool, pos) \<Rightarrow>
        (case mf_blob raw ''Truncated bytecode: missing code length'' ''Truncated code section'' pos of
           Inl e \<Rightarrow> Inl e
         | Inr (c, _) \<Rightarrow> Inr (cpool, c)))"

section \<open>The scan\<close>

record scan_acc =
  reg_consts :: "u8 \<Rightarrow> bytes option"
  acc_reads :: "bytes list"
  acc_writes :: "bytes list"
  has_reads :: bool
  has_writes :: bool
  resolved :: bool

definition scan_init :: scan_acc where
  "scan_init = \<lparr>reg_consts = (\<lambda>_. None), acc_reads = [], acc_writes = [], has_reads = False,
     has_writes = False, resolved = True\<rparr>"

definition note_read :: "u8 \<Rightarrow> scan_acc \<Rightarrow> scan_acc" where
  "note_read r a = (let a = a\<lparr>has_reads := True\<rparr> in
     case reg_consts a r of Some key \<Rightarrow> a\<lparr>acc_reads := acc_reads a @ [key]\<rparr> | None \<Rightarrow> a\<lparr>resolved := False\<rparr>)"

definition note_write :: "u8 \<Rightarrow> scan_acc \<Rightarrow> scan_acc" where
  "note_write r a = (let a = a\<lparr>has_writes := True\<rparr> in
     case reg_consts a r of Some key \<Rightarrow> a\<lparr>acc_writes := acc_writes a @ [key]\<rparr> | None \<Rightarrow> a\<lparr>resolved := False\<rparr>)"

definition set_const :: "u8 \<Rightarrow> bytes option \<Rightarrow> scan_acc \<Rightarrow> scan_acc" where
  "set_const r v a = a\<lparr>reg_consts := (reg_consts a)(r := v)\<rparr>"

definition pool_key :: "bytes list \<Rightarrow> nat \<Rightarrow> bytes option" where
  "pool_key cpool idx = (if idx < length cpool \<and> length (cpool ! idx) = 32 then Some (cpool ! idx) else None)"

text \<open>The operand bytes of the opcodes that the scan skips; \<open>None\<close> is an unknown opcode, where it stops.\<close>

definition skip_size :: "u8 \<Rightarrow> nat option" where
  "skip_size op =
    (if 0x01 \<le> op \<and> op \<le> 0x07 then Some 3
     else if 0x10 \<le> op \<and> op \<le> 0x12 then Some 3
     else if op = 0x13 then Some 2
     else if 0x14 \<le> op \<and> op \<le> 0x15 then Some 3
     else if 0x20 \<le> op \<and> op \<le> 0x25 then Some 3
     else if op = 0x26 then Some 2
     else if op = 0x30 then Some 4
     else if 0x31 \<le> op \<and> op \<le> 0x32 then Some 5
     else if op = 0x33 then Some 4
     else if op = 0x34 then Some 0
     else if op = 0x35 then Some 0
     else if op = 0x36 then Some 2
     else if op = 0x43 then Some 2
     else if op = 0x44 then Some 2
     else if 0x60 \<le> op \<and> op \<le> 0x65 then Some 1
     else if op = 0x66 then Some 1
     else if op = 0x67 then Some 2
     else if op = 0x70 then Some 2
     else if op = 0x71 then Some 2
     else if op = 0x72 then Some 2
     else if op = 0x73 then Some 3
     else if op = 0x80 then Some 4
     else if op = 0x90 then Some 2
     else if op = 0x91 then Some 3
     else if op = 0xA0 then Some 0
     else if op = 0xA1 then Some 1
     else if 0xA2 \<le> op \<and> op \<le> 0xA4 then Some 2
     else if op = 0xA5 then Some 1
     else if op = 0xA6 then Some 8
     else if op = 0xB0 then Some 3
     else if op = 0xB1 then Some 4
     else if 0xB2 \<le> op \<and> op \<le> 0xB3 then Some 3
     else if 0xB4 \<le> op \<and> op \<le> 0xB5 then Some 2
     else if op = 0xC0 then Some 4
     else if op = 0xC1 then Some 2
     else None)"

text \<open>One round of the loop, the opcode already consumed; \<open>None\<close> leaves the loop.\<close>

definition scan_op :: "bytes list \<Rightarrow> bytes \<Rightarrow> u8 \<Rightarrow> nat \<Rightarrow> scan_acc \<Rightarrow> (nat \<times> scan_acc) option" where
  "scan_op cpool cd op pos a =
    (if op = 0x40 then
       (if pos + 3 > length cd then None
        else Some (pos + 3, set_const (cd ! pos) (pool_key cpool (u16_at cd (pos + 1))) a))
     else if op = 0x41 then (if pos + 2 > length cd then None else Some (pos + 2, set_const (cd ! pos) None a))
     else if op = 0x42 then (if pos + 9 > length cd then None else Some (pos + 9, set_const (cd ! pos) None a))
     else if op = 0x50 then (if pos + 2 > length cd then None else Some (pos + 2, note_read (cd ! (pos + 1)) a))
     else if op = 0x51 then (if pos + 2 > length cd then None else Some (pos + 2, note_write (cd ! pos) a))
     else if op = 0x52 then (if pos + 1 > length cd then None else Some (pos + 1, note_write (cd ! pos) a))
     else (case skip_size op of Some n \<Rightarrow> Some (pos + n, a) | None \<Rightarrow> None))"

lemma scan_op_forward: "scan_op cpool cd op pos a = Some (pos', a') \<Longrightarrow> pos \<le> pos'"
  by (auto simp: scan_op_def split: if_splits option.splits)

function scan_code :: "bytes list \<Rightarrow> bytes \<Rightarrow> nat \<Rightarrow> scan_acc \<Rightarrow> scan_acc" where
  "scan_code cpool cd pos a =
    (if pos < length cd then
       (case scan_op cpool cd (cd ! pos) (pos + 1) a of
          Some (pos', a') \<Rightarrow> scan_code cpool cd pos' a' | None \<Rightarrow> a)
     else a)"
  by auto
termination
  by (relation "measure (\<lambda>(cpool, cd, pos, a). length cd - pos)") (auto dest: scan_op_forward)

declare scan_code.simps [simp del]

definition analyze_bytecode :: "bytes \<Rightarrow> string + manifest_analysis" where
  "analyze_bytecode raw =
    (if raw = [] then Inr \<lparr>static_read_slots = [], static_write_slots = [], has_storage_reads = False,
       has_storage_writes = False, fully_resolved = True\<rparr>
     else case mf_parse raw of
       Inl e \<Rightarrow> Inl e
     | Inr (cpool, cd) \<Rightarrow> let a = scan_code cpool cd 0 scan_init in
         Inr \<lparr>static_read_slots = remdups_adj (sort (acc_reads a)),
              static_write_slots = remdups_adj (sort (acc_writes a)),
              has_storage_reads = has_reads a, has_storage_writes = has_writes a,
              fully_resolved = resolved a\<rparr>)"

section \<open>Manifests\<close>

text \<open>The first slot that is not declared decides the message.\<close>

definition undeclared :: "bytes list \<Rightarrow> bytes list \<Rightarrow> bytes option" where
  "undeclared slots decl = find (\<lambda>s. s \<notin> set decl) slots"

definition verify_manifest_against_bytecode ::
    "(bytes \<Rightarrow> string) \<Rightarrow> bytes \<Rightarrow> bytes list \<Rightarrow> bytes list \<Rightarrow> storage_key_spec list \<Rightarrow> string + unit" where
  "verify_manifest_against_bytecode hex raw reads writes specs =
    (if raw = [] then Inr ()
     else case analyze_bytecode raw of
       Inl e \<Rightarrow> Inl e
     | Inr an \<Rightarrow>
        if has_storage_reads an \<and> reads = [] \<and> specs = []
        then Inl ''Bytecode reads storage but declared_reads is empty.''
        else if has_storage_writes an \<and> writes = [] \<and> specs = []
        then Inl ''Bytecode writes storage but declared_writes is empty.''
        else if fully_resolved an then
          (case undeclared (static_read_slots an) reads of
             Some slot \<Rightarrow> Inl (''Bytecode reads slot '' @ hex slot @ '' not in declared_reads.'')
           | None \<Rightarrow> (case undeclared (static_write_slots an) writes of
               Some slot \<Rightarrow> Inl (''Bytecode writes slot '' @ hex slot @ '' not in declared_writes.'')
             | None \<Rightarrow> Inr ()))
        else Inr ())"

text \<open>\<^verbatim>\<open>CellAccount::require_inferable\<close> of the runtime crate, which the deployment uses.\<close>

definition require_inferable :: "bytes \<Rightarrow> storage_key_spec list \<Rightarrow> string + unit" where
  "require_inferable raw specs =
    (case analyze_bytecode raw of
       Inl e \<Rightarrow> Inl e
     | Inr an \<Rightarrow> if fully_resolved an then Inr () else if specs \<noteq> [] then Inr ()
         else Inl ''Storage slots are not inferable. Provide storage_key_specs via the SDK manifest.'')"

definition compute_manifest_hash ::
    "(bytes \<Rightarrow> bytes) \<Rightarrow> bytes \<Rightarrow> bytes list \<Rightarrow> bytes list \<Rightarrow> bytes list \<Rightarrow> bytes list \<Rightarrow> bytes" where
  "compute_manifest_hash blake3 raw reads writes comm schemas =
     blake3 (raw @ concat reads @ concat writes @ concat comm @ concat schemas)"

end
