(* ===== verification/Cells.thy ===== *)
theory Cells
  imports Manifest Ordered_Map "HOL-Library.Product_Lexorder"
begin

text \<open>
  Cell accounts and tokens: the cell table with its deployments, upgrades and changes of
  ownership (\<^verbatim>\<open>truthlinked-runtime/src/cells.rs\<close>), and the token rules
  (\<^verbatim>\<open>TokenExecutor\<close> in \<^verbatim>\<open>truthlinked-state/src/cells.rs\<close>). Hash maps that are only looked
  up and updated by key are ordered maps here. Governance parameters, the hash function
  and \<^verbatim>\<open>hex::encode\<close> are arguments.
\<close>

section \<open>Records\<close>

record token_config =
  tc_name :: bytes
  tc_symbol :: bytes
  tc_decimals :: u8
  tc_total_supply :: u128
  tc_mint_authority :: "bytes option"
  tc_freeze_authority :: "bytes option"
  tc_transfer_fee_bps :: u16
  tc_transfer_fee_recipient :: "bytes option"
  tc_transfer_hook :: "bytes option"
  tc_transfer_hook_gas :: u64
  tc_max_supply :: "u128 option"
  tc_non_transferable :: bool
  tc_metadata_uri :: "bytes option"
  tc_permanent_delegate :: "bytes option"

datatype proposal_type =
    OwnershipTransfer bytes
  | Upgrade bytes "bytes list" "bytes list" "bytes list" "storage_key_spec list" "bytes list"
  | MakeImmutable

record governance_proposal =
  gpr_type :: proposal_type
  gpr_proposer :: bytes
  gpr_created_at_height :: u64
  gpr_timelock_blocks :: u64
  gpr_require_vote :: bool
  gpr_votes_for :: u64
  gpr_votes_against :: u64
  gpr_voters :: "bytes set"
  gpr_executed :: bool

record cell_account =
  acc_cell_id :: bytes
  acc_owner :: bytes
  acc_bytecode :: bytes
  acc_storage :: "bytes \<rightharpoonup> bytes"
  acc_balance :: u128
  acc_rent_deposit :: u128
  acc_is_token :: bool
  acc_token_config :: "token_config option"
  acc_created_at :: u64
  acc_upgraded_at :: "u64 option"
  acc_last_rent_paid_height :: u64
  acc_rent_grace_blocks :: u64
  acc_pending_owner :: "bytes option"
  acc_is_immutable :: bool
  acc_declared_reads :: "bytes list"
  acc_declared_writes :: "bytes list"
  acc_commutative_keys :: "bytes list"
  acc_storage_key_specs :: "storage_key_spec list"
  acc_oracle_schema_ids :: "bytes list"
  acc_governance_proposal :: "governance_proposal option"
  acc_manifest_version :: u64
  acc_manifest_hash :: bytes

record cell_state =
  cst_cells :: "(bytes, cell_account) omap"
  cst_token_balances :: "(bytes \<times> bytes, u128) omap"
  cst_frozen_accounts :: "(bytes \<times> bytes, bool) omap"

text \<open>What the cell table takes from outside: \<^verbatim>\<open>gp::get_u64\<close>, \<^verbatim>\<open>gp::get_u128\<close>, blake3 and hex.\<close>

record cells_env =
  ce_gp :: "string \<Rightarrow> u64"
  ce_gp128 :: "string \<Rightarrow> u128"
  ce_blake3 :: "bytes \<Rightarrow> bytes"
  ce_hex :: "bytes \<Rightarrow> string"

definition cell_state_new :: cell_state where
  "cell_state_new = \<lparr>cst_cells = [], cst_token_balances = [], cst_frozen_accounts = []\<rparr>"

definition set_cell :: "bytes \<Rightarrow> cell_account \<Rightarrow> cell_state \<Rightarrow> cell_state" where
  "set_cell cid c cs = cs\<lparr>cst_cells := om_put cid c (cst_cells cs)\<rparr>"

definition balance_in :: "cell_state \<Rightarrow> bytes \<Rightarrow> bytes \<Rightarrow> u128" where
  "balance_in cs tok a = (case om_get (cst_token_balances cs) (tok, a) of Some b \<Rightarrow> b | None \<Rightarrow> 0)"

section \<open>The cell table\<close>

text \<open>
  The checks both deployment and upgrade make: size, manifest, inferable slots. The initial
  storage is the list of the entries of its hash map.
\<close>

definition bytecode_ok :: "cells_env \<Rightarrow> bytes \<Rightarrow> string + unit" where
  "bytecode_ok E raw =
    (if length raw > unat (ce_gp E ''limits.max_cell_bytecode_size'')
     then Inl (''Bytecode too large: '' @ nat_to_dec (length raw) @ '' bytes (max: ''
       @ nat_to_dec (unat (ce_gp E ''limits.max_cell_bytecode_size'')) @ '')'')
     else Inr ())"

definition manifest_ok ::
    "cells_env \<Rightarrow> bytes \<Rightarrow> bytes list \<Rightarrow> bytes list \<Rightarrow> storage_key_spec list \<Rightarrow> string + unit" where
  "manifest_ok E raw reads writes specs =
    (case verify_manifest_against_bytecode (ce_hex E) raw reads writes specs of
       Inl e \<Rightarrow> Inl e | Inr _ \<Rightarrow> require_inferable raw specs)"

definition fresh_cell :: "cells_env \<Rightarrow> bytes \<Rightarrow> bytes \<Rightarrow> u128 \<Rightarrow> u64 \<Rightarrow> cell_account" where
  "fresh_cell E cid own bal ts = \<lparr>acc_cell_id = cid, acc_owner = own, acc_bytecode = [],
     acc_storage = Map.empty, acc_balance = bal,
     acc_rent_deposit = ce_gp128 E ''storage.rent_lifetime_fee'', acc_is_token = False,
     acc_token_config = None, acc_created_at = ts, acc_upgraded_at = None,
     acc_last_rent_paid_height = 0,
     acc_rent_grace_blocks = ce_gp E ''storage.rent_grace_period_blocks'', acc_pending_owner = None,
     acc_is_immutable = False, acc_declared_reads = [], acc_declared_writes = [],
     acc_commutative_keys = [], acc_storage_key_specs = [], acc_oracle_schema_ids = [],
     acc_governance_proposal = None, acc_manifest_version = 1,
     acc_manifest_hash = compute_manifest_hash (ce_blake3 E) [] [] [] [] []\<rparr>"

definition deploy_cell :: "cells_env \<Rightarrow> bytes \<Rightarrow> bytes \<Rightarrow> bytes \<Rightarrow> (bytes \<times> bytes) list \<Rightarrow> u128 \<Rightarrow> u64
    \<Rightarrow> bytes list \<Rightarrow> bytes list \<Rightarrow> bytes list \<Rightarrow> storage_key_spec list \<Rightarrow> bytes list
    \<Rightarrow> cell_state \<Rightarrow> string + cell_state" where
  "deploy_cell E cid own raw storage bal ts reads writes comm specs schemas cs =
    (if om_get (cst_cells cs) cid \<noteq> None then Inl ''Cell already exists''
     else case bytecode_ok E raw of
       Inl e \<Rightarrow> Inl e
     | Inr _ \<Rightarrow>
        let storage_size = sum_list (map (\<lambda>(k, v). length k + length v) storage) in
        if storage_size > unat (ce_gp E ''limits.max_cell_storage_bytes'')
        then Inl (''Initial storage too large: '' @ nat_to_dec storage_size @ '' bytes'')
        else case manifest_ok E raw reads writes specs of
          Inl e \<Rightarrow> Inl e
        | Inr _ \<Rightarrow> Inr (set_cell cid ((fresh_cell E cid own bal ts)\<lparr>acc_bytecode := raw,
             acc_storage := map_of storage, acc_declared_reads := reads, acc_declared_writes := writes,
             acc_commutative_keys := comm, acc_storage_key_specs := specs,
             acc_oracle_schema_ids := schemas,
             acc_manifest_hash := compute_manifest_hash (ce_blake3 E) raw reads writes comm schemas\<rparr>) cs))"

definition deploy_token ::
    "cells_env \<Rightarrow> bytes \<Rightarrow> bytes \<Rightarrow> token_config \<Rightarrow> u128 \<Rightarrow> u64 \<Rightarrow> cell_state \<Rightarrow> string + cell_state" where
  "deploy_token E cid own config bal ts cs =
    (if om_get (cst_cells cs) cid \<noteq> None then Inl ''Cell already exists''
     else let cs = cs\<lparr>cst_token_balances :=
            om_put (cid, own) (tc_total_supply config) (cst_token_balances cs)\<rparr> in
       Inr (set_cell cid ((fresh_cell E cid own bal ts)\<lparr>acc_is_token := True,
         acc_token_config := Some config\<rparr>) cs))"

definition accept_ownership :: "bytes \<Rightarrow> bytes \<Rightarrow> cell_state \<Rightarrow> string + cell_state" where
  "accept_ownership cid who cs =
    (case om_get (cst_cells cs) cid of
       None \<Rightarrow> Inl ''Cell not found''
     | Some c \<Rightarrow> if acc_pending_owner c \<noteq> Some who then Inl ''Not pending owner''
         else Inr (set_cell cid (c\<lparr>acc_owner := who, acc_pending_owner := None\<rparr>) cs))"

definition make_immutable :: "bytes \<Rightarrow> bytes \<Rightarrow> cell_state \<Rightarrow> string + cell_state" where
  "make_immutable cid who cs =
    (case om_get (cst_cells cs) cid of
       None \<Rightarrow> Inl ''Cell not found''
     | Some c \<Rightarrow> if acc_owner c \<noteq> who then Inl ''Not cell owner''
         else Inr (set_cell cid (c\<lparr>acc_is_immutable := True, acc_pending_owner := None\<rparr>) cs))"

definition upgrade_cell :: "cells_env \<Rightarrow> bytes \<Rightarrow> bytes \<Rightarrow> bytes \<Rightarrow> u64 \<Rightarrow> bytes list \<Rightarrow> bytes list
    \<Rightarrow> bytes list \<Rightarrow> storage_key_spec list \<Rightarrow> bytes list \<Rightarrow> cell_state \<Rightarrow> string + cell_state" where
  "upgrade_cell E cid who raw ts reads writes comm specs schemas cs =
    (case om_get (cst_cells cs) cid of
       None \<Rightarrow> Inl ''Cell not found''
     | Some c \<Rightarrow>
        if acc_owner c \<noteq> who then Inl ''Not cell owner''
        else if acc_is_immutable c then Inl ''Cell is immutable, cannot upgrade''
        else case bytecode_ok E raw of
          Inl e \<Rightarrow> Inl e
        | Inr _ \<Rightarrow> (case manifest_ok E raw reads writes specs of
            Inl e \<Rightarrow> Inl e
          | Inr _ \<Rightarrow> (case checked_add (acc_manifest_version c) 1 of
              None \<Rightarrow> Inl ''Manifest version overflow''
            | Some v \<Rightarrow> Inr (set_cell cid (c\<lparr>acc_manifest_version := v, acc_bytecode := raw,
                acc_declared_reads := reads, acc_declared_writes := writes, acc_commutative_keys := comm,
                acc_storage_key_specs := specs, acc_oracle_schema_ids := schemas,
                acc_manifest_hash := compute_manifest_hash (ce_blake3 E) raw reads writes comm schemas,
                acc_upgraded_at := Some ts\<rparr>) cs))))"

section \<open>Token rules\<close>

text \<open>The balances a token operation works on, and \<^verbatim>\<open>balances.get(&a).copied().unwrap_or(0)\<close>.\<close>

type_synonym balances = "(bytes, u128) omap"

definition bal :: "balances \<Rightarrow> bytes \<Rightarrow> u128" where
  "bal m a = (case om_get m a of Some b \<Rightarrow> b | None \<Rightarrow> 0)"

definition is_frozen :: "cell_state \<Rightarrow> bytes \<Rightarrow> bytes \<Rightarrow> bool" where
  "is_frozen cs tok a = (om_get (cst_frozen_accounts cs) (tok, a) = Some True)"

definition transfer_fee :: "token_config \<Rightarrow> u128 \<Rightarrow> string + u128" where
  "transfer_fee cfg amt =
    (if tc_transfer_fee_bps cfg = 0 then Inr 0
     else if unat amt * unat (tc_transfer_fee_bps cfg) < 2 ^ 128
     then Inr ((amt * ucast (tc_transfer_fee_bps cfg)) div 10000)
     else Inl ''Transfer fee overflow'')"

definition texec_transfer :: "cell_account \<Rightarrow> bytes \<Rightarrow> bytes \<Rightarrow> u128 \<Rightarrow> cell_state option \<Rightarrow> balances
    \<Rightarrow> string + balances" where
  "texec_transfer tok sender recipient amt cst m =
    (if \<not> acc_is_token tok then Inl ''Not a token cell''
     else case acc_token_config tok of
       None \<Rightarrow> Inl ''Token config missing''
     | Some cfg \<Rightarrow>
        if tc_non_transferable cfg then Inl ''Token is non-transferable''
        else if (case cst of Some st \<Rightarrow> is_frozen st (acc_cell_id tok) sender | None \<Rightarrow> False)
        then Inl ''Sender account is frozen''
        else if (case cst of Some st \<Rightarrow> is_frozen st (acc_cell_id tok) recipient | None \<Rightarrow> False)
        then Inl ''Recipient account is frozen''
        else if bal m sender < amt then Inl ''Insufficient token balance''
        else case transfer_fee cfg amt of
          Inl e \<Rightarrow> Inl e
        | Inr fee \<Rightarrow>
           if fee > amt then Inl ''Transfer fee exceeds amount''
           else
             let net = amt - fee;
                 m = om_put sender (bal m sender - amt) m;
                 m = om_put recipient (saturating_add (bal m recipient) net) m
             in Inr (if fee > 0 then
                       (case tc_transfer_fee_recipient cfg of
                          Some f \<Rightarrow> om_put f (saturating_add (bal m f) fee) m
                        | None \<Rightarrow> m)
                     else m))"

definition ABSOLUTE_MAX :: u128 where
  "ABSOLUTE_MAX = 1000000000 * 1000000000"

definition texec_mint :: "cell_account \<Rightarrow> bytes \<Rightarrow> bytes \<Rightarrow> u128 \<Rightarrow> balances \<Rightarrow> string + (cell_account \<times> balances)" where
  "texec_mint tok sender recipient amt m =
    (if \<not> acc_is_token tok then Inl ''Not a token cell''
     else case acc_token_config tok of
       None \<Rightarrow> Inl ''Token config missing''
     | Some cfg \<Rightarrow>
       (case tc_mint_authority cfg of
          None \<Rightarrow> Inl ''Token has no mint authority''
        | Some authority \<Rightarrow>
           if authority \<noteq> sender then Inl ''Unauthorized mint''
           else
             let m = om_put recipient (saturating_add (bal m recipient) amt) m in
             case checked_add (tc_total_supply cfg) amt of
               None \<Rightarrow> Inl ''Total supply overflow''
             | Some new_supply \<Rightarrow>
                let cap = min (case tc_max_supply cfg of Some c \<Rightarrow> c | None \<Rightarrow> ABSOLUTE_MAX) ABSOLUTE_MAX in
                if new_supply > cap
                then Inl (''Mint would exceed max supply ('' @ nat_to_dec (unat cap) @ '' xiom)'')
                else Inr (tok\<lparr>acc_token_config := Some (cfg\<lparr>tc_total_supply := new_supply\<rparr>)\<rparr>, m)))"

definition texec_burn :: "cell_account \<Rightarrow> bytes \<Rightarrow> u128 \<Rightarrow> balances \<Rightarrow> string + (cell_account \<times> balances)" where
  "texec_burn tok sender amt m =
    (if \<not> acc_is_token tok then Inl ''Not a token cell''
     else if bal m sender < amt then Inl ''Insufficient token balance''
     else let m = om_put sender (bal m sender - amt) m in
       case acc_token_config tok of
         None \<Rightarrow> Inr (tok, m)
       | Some cfg \<Rightarrow> (case checked_sub (tc_total_supply cfg) amt of
            None \<Rightarrow> Inl ''Total supply underflow''
          | Some supply \<Rightarrow> Inr (tok\<lparr>acc_token_config := Some (cfg\<lparr>tc_total_supply := supply\<rparr>)\<rparr>, m)))"

definition freeze_check :: "string \<Rightarrow> cell_account \<Rightarrow> bytes \<Rightarrow> string + unit" where
  "freeze_check denied tok sender =
    (if \<not> acc_is_token tok then Inl ''Not a token cell''
     else case acc_token_config tok of
       None \<Rightarrow> Inl ''Token config missing''
     | Some cfg \<Rightarrow> (case tc_freeze_authority cfg of
          None \<Rightarrow> Inl ''Token has no freeze authority''
        | Some authority \<Rightarrow> if authority \<noteq> sender then Inl denied else Inr ()))"

definition texec_freeze :: "cell_account \<Rightarrow> bytes \<Rightarrow> bytes \<Rightarrow> string + unit" where
  "texec_freeze tok sender account = freeze_check ''Unauthorized freeze'' tok sender"

definition texec_thaw :: "cell_account \<Rightarrow> bytes \<Rightarrow> bytes \<Rightarrow> string + unit" where
  "texec_thaw tok sender account = freeze_check ''Unauthorized thaw'' tok sender"

end
