(* ===== verification/Axiom_Host.thy ===== *)
theory Axiom_Host
  imports VM_Safety Oracle Cells
begin

text \<open>
  The host that connects the machine to the chain (\<^verbatim>\<open>vm/axiom_runtime.rs\<close>): the state
  of \<^verbatim>\<open>AxiomHost\<close>, its implementation of every host method, and \<^verbatim>\<open>execute_axiom\<close>, which
  runs a cell and is called again by a cross-cell call. The nesting is a recursion on
  the number of levels still allowed; that 500 levels are enough is a theorem, because
  the machine refuses calls from depth 500 on.
\<close>

section \<open>Host state\<close>

datatype staking_update =
    UpStake bytes u64
  | UpUnstake bytes u64
  | UpWithdraw bytes
  | UpSlash bytes slash_reason u64 "(bytes \<times> u64) list"
  | UpUnjail bytes

record pending_name_registration =
  reg_name :: bytes
  reg_cell_id :: bytes
  reg_owner :: bytes
  reg_is_cell :: bool
  reg_proposer :: bytes
  reg_votes :: "bytes list"
  reg_total_stake_voted :: u64
  reg_proposed_at :: u64

text \<open>The parts of the chain state that the host reads, and the cell table behind its lock.\<close>

record chain_state =
  cs_staking :: staking_state
  cs_visibility :: "bytes \<rightharpoonup> cell_visibility"
  cs_url_proposals :: "url_proposal list"
  cs_pending_requests :: "oracle_request list"
  cs_oracle_results :: "bytes \<rightharpoonup> oracle_result"

text \<open>The shared cell table, \<^verbatim>\<open>Arc<RwLock<CellState>>\<close>: a lock that may be poisoned.\<close>

record locked_cells =
  lk_poisoned :: bool
  lk_state :: cell_state

record axiom_host =
  hs_storage :: "bytes \<rightharpoonup> bytes"
  hs_storage_diff :: "(bytes \<times> bytes option) list"
  hs_caller :: bytes
  hs_owner :: bytes
  hs_cell_id :: bytes
  hs_height :: u64
  hs_timestamp :: u64
  hs_value :: u128
  hs_calldata :: bytes
  hs_return_data :: bytes
  hs_logs :: "cell_log list"
  hs_execution_depth :: nat
  hs_gas_limit :: nat
  hs_global_state :: "chain_state option"
  hs_cell_state :: "locked_cells option"
  hs_staking_updates :: "staking_update list"
  hs_param_updates :: "(bytes \<times> bytes) list"
  hs_native_credits :: "(bytes \<times> u128) list"
  hs_name_proposals :: "(bytes \<times> pending_name_registration \<times> bytes \<times> bool) list"
  hs_name_votes :: "(bytes \<times> bytes \<times> u64) list"
  hs_name_renewals :: "(bytes \<times> u64) list"
  hs_name_transfers :: "(bytes \<times> bytes) list"
  hs_is_system_cell :: bool
  hs_oracle_updates :: "oracle_request list"

text \<open>
  What the runtime takes from outside: the hash functions, the governance parameters,
  the process-wide table of oracle results, and the iteration order of the hash map of
  active validators (only summed over, so not visible).
\<close>

record axiom_env =
  env_sha256 :: hash_fn
  env_blake3 :: hash_fn
  env_gp :: "string \<Rightarrow> u64"
  env_global_results :: "bytes \<rightharpoonup> oracle_result"

section \<open>Storage, context and output\<close>

definition ah_storage_read :: "axiom_host \<Rightarrow> bytes \<Rightarrow> bytes axiom_result" where
  "ah_storage_read h key = Inr (case hs_storage h key of Some v \<Rightarrow> v | None \<Rightarrow> zeros 32)"

definition ah_storage_write :: "axiom_host \<Rightarrow> bytes \<Rightarrow> bytes \<Rightarrow> unit axiom_result \<times> axiom_host" where
  "ah_storage_write h key v = (Inr (), h\<lparr>hs_storage := (hs_storage h)(key \<mapsto> v),
     hs_storage_diff := hs_storage_diff h @ [(key, Some v)]\<rparr>)"

definition ah_storage_delete :: "axiom_host \<Rightarrow> bytes \<Rightarrow> unit axiom_result \<times> axiom_host" where
  "ah_storage_delete h key = (Inr (), h\<lparr>hs_storage := (hs_storage h)(key := None),
     hs_storage_diff := hs_storage_diff h @ [(key, None)]\<rparr>)"

definition ah_set_return_data :: "axiom_host \<Rightarrow> bytes \<Rightarrow> unit axiom_result \<times> axiom_host" where
  "ah_set_return_data h data = (Inr (), h\<lparr>hs_return_data := data\<rparr>)"

definition ah_emit_log :: "axiom_host \<Rightarrow> cell_log \<Rightarrow> unit axiom_result \<times> axiom_host" where
  "ah_emit_log h log = (Inr (), h\<lparr>hs_logs := hs_logs h @ [log]\<rparr>)"

section \<open>Privileged operations\<close>

fun staking_update_of :: "staking_op \<Rightarrow> staking_update" where
  "staking_update_of (Stake pk amt) = UpStake pk amt"
| "staking_update_of (Unstake pk amt) = UpUnstake pk amt"
| "staking_update_of (Withdraw pk) = UpWithdraw pk"
| "staking_update_of (Unjail pk) = UpUnjail pk"

definition ah_staking_op :: "axiom_host \<Rightarrow> staking_op \<Rightarrow> unit axiom_result \<times> axiom_host" where
  "ah_staking_op h sop =
    (if \<not> hs_is_system_cell h then (Inl Unauthorized, h)
     else (Inr (), h\<lparr>hs_staking_updates := hs_staking_updates h @ [staking_update_of sop]\<rparr>))"

definition ah_staking_validator_stake :: "axiom_host \<Rightarrow> bytes \<Rightarrow> u64 axiom_result" where
  "ah_staking_validator_stake h pk =
    (if \<not> hs_is_system_cell h then Inl Unauthorized
     else case hs_global_state h of
       None \<Rightarrow> Inl (CrossCellFailed ''no global state'')
     | Some gs \<Rightarrow> Inr (case om_get (validators (cs_staking gs)) pk of
         Some v \<Rightarrow> total_stake v | None \<Rightarrow> 0))"

definition ah_staking_total_stake :: "axiom_host \<Rightarrow> u64 axiom_result" where
  "ah_staking_total_stake h =
    (if \<not> hs_is_system_cell h then Inl Unauthorized
     else case hs_global_state h of
       None \<Rightarrow> Inl (CrossCellFailed ''no global state'')
     | Some gs \<Rightarrow> Inr (sum_list (map snd (get_active_validators (cs_staking gs)))))"

definition ah_governance_set_param :: "axiom_host \<Rightarrow> bytes \<Rightarrow> bytes \<Rightarrow> unit axiom_result \<times> axiom_host" where
  "ah_governance_set_param h key v =
    (if \<not> hs_is_system_cell h then (Inl Unauthorized, h)
     else (Inr (), h\<lparr>hs_param_updates := hs_param_updates h @ [(key, v)]\<rparr>))"

definition ah_native_transfer :: "axiom_host \<Rightarrow> bytes \<Rightarrow> u128 \<Rightarrow> unit axiom_result \<times> axiom_host" where
  "ah_native_transfer h to amt =
    (if \<not> hs_is_system_cell h then (Inl Unauthorized, h)
     else (Inr (), h\<lparr>hs_native_credits := hs_native_credits h @ [(to, amt)]\<rparr>))"

fun ah_name_op :: "axiom_host \<Rightarrow> name_op \<Rightarrow> unit axiom_result \<times> axiom_host" where
  "ah_name_op h (Propose name target own) =
    (if \<not> hs_is_system_cell h then (Inl Unauthorized, h)
     else if \<not> utf8_valid name then (Inl AssertFailed, h)
     else let reg = \<lparr>reg_name = name, reg_cell_id = target, reg_owner = own, reg_is_cell = False,
                reg_proposer = hs_caller h, reg_votes = [], reg_total_stake_voted = 0,
                reg_proposed_at = hs_height h\<rparr>
       in (Inr (), h\<lparr>hs_name_proposals := hs_name_proposals h @ [(name, reg, hs_caller h, False)]\<rparr>))"
| "ah_name_op h (Vote name approve) =
    (if \<not> hs_is_system_cell h then (Inl Unauthorized, h)
     else if \<not> utf8_valid name then (Inl AssertFailed, h)
     else case ah_staking_validator_stake h (hs_caller h) of
       Inl e \<Rightarrow> (Inl e, h)
     | Inr stk \<Rightarrow> (Inr (), h\<lparr>hs_name_votes := hs_name_votes h
          @ [(name, hs_caller h, if approve then stk else 0)]\<rparr>))"
| "ah_name_op h (Renew name) =
    (if \<not> hs_is_system_cell h then (Inl Unauthorized, h)
     else if \<not> utf8_valid name then (Inl AssertFailed, h)
     else (Inr (), h\<lparr>hs_name_renewals := hs_name_renewals h @ [(name, hs_height h)]\<rparr>))"
| "ah_name_op h (Transfer name new_owner) =
    (if \<not> hs_is_system_cell h then (Inl Unauthorized, h)
     else if \<not> utf8_valid name then (Inl AssertFailed, h)
     else (Inr (), h\<lparr>hs_name_transfers := hs_name_transfers h @ [(name, new_owner)]\<rparr>))"

section \<open>External data\<close>

definition PRIVATE_ACCORD_LIMIT :: nat where
  "PRIVATE_ACCORD_LIMIT = 5"

definition accord_policy ::
    "chain_state option \<Rightarrow> bytes \<Rightarrow> bytes \<Rightarrow> (url_response_format \<times> bytes option) axiom_result" where
  "accord_policy st cid url = (case st of
      None \<Rightarrow> Inr (Raw, None)
    | Some gs \<Rightarrow>
       let vis = (case cs_visibility gs cid of Some v \<Rightarrow> v | None \<Rightarrow> Private) in
       if \<not> check_url_permitted url vis (cs_url_proposals gs) then Inl Unauthorized
       else if vis = Private
          \<and> length (filter (\<lambda>r. requesting_cell r = cid) (cs_pending_requests gs)) \<ge> PRIVATE_ACCORD_LIMIT
       then Inl Unauthorized
       else Inr (if contains url (str_bytes ''accord_format=price_usd'') then PriceUsd
                 else url_response_format_of url vis (cs_url_proposals gs),
                 url_schema_id url vis (cs_url_proposals gs)))"

definition ah_accord_request ::
    "axiom_env \<Rightarrow> axiom_host \<Rightarrow> bytes \<Rightarrow> bytes \<Rightarrow> bytes \<Rightarrow> bytes axiom_result \<times> axiom_host" where
  "ah_accord_request E h url meth body =
    (if \<not> utf8_valid url then (Inl InvalidBytecode, h)
     else if \<not> utf8_valid meth then (Inl InvalidBytecode, h)
     else case accord_policy (hs_global_state h) (hs_cell_id h) url of
       Inl e \<Rightarrow> (Inl e, h)
     | Inr (fmt, sid) \<Rightarrow>
        let req = queue_oracle_request (env_gp E) (env_blake3 E) url meth body fmt sid
                    (hs_cell_id h) (hs_height h)
        in (Inr (req_id req), h\<lparr>hs_oracle_updates := hs_oracle_updates h @ [req]\<rparr>))"

definition ah_accord_read :: "axiom_env \<Rightarrow> axiom_host \<Rightarrow> bytes \<Rightarrow> bytes option axiom_result" where
  "ah_accord_read E h rid =
    (let fresh = (\<lambda>r. case r of Some res \<Rightarrow> \<not> is_expired res (hs_height h) | None \<Rightarrow> False);
         local_res = (case hs_global_state h of Some gs \<Rightarrow> cs_oracle_results gs rid | None \<Rightarrow> None);
         global_res = env_global_results E rid
     in Inr (if fresh local_res then map_option response_body local_res
             else if fresh global_res then map_option response_body global_res
             else None))"

section \<open>Running a cell\<close>

definition system_cell_id :: "axiom_env \<Rightarrow> string \<Rightarrow> bytes" where
  "system_cell_id E label = digest (env_sha256 E) (str_bytes label)"

definition is_system_cell :: "axiom_env \<Rightarrow> bytes \<Rightarrow> bool" where
  "is_system_cell E cid \<longleftrightarrow> List.member
     [system_cell_id E ''truthlinked-staking-v1'', system_cell_id E ''truthlinked-staking-v1'',
      system_cell_id E ''truthlinked-wtrth-v1'', system_cell_id E ''truthlinked-treasury-v1'',
      system_cell_id E ''truthlinked-governance-v1'', system_cell_id E ''truthlinked-name-registry-v1'',
      system_cell_id E ''truthlinked-token-governance-v1'',
      system_cell_id E ''truthlinked-oracle-governance-v1''] cid"

record execution_result =
  er_success :: bool
  er_return_data :: bytes
  er_gas_used :: nat
  er_storage_diff :: "(bytes \<times> bytes option) list"
  er_logs :: "cell_log list"
  er_staking_updates :: "staking_update list"
  er_param_updates :: "(bytes \<times> bytes) list"
  er_native_credits :: "(bytes \<times> u128) list"
  er_cell_debits :: "(bytes \<times> u128) list"
  er_name_proposals :: "(bytes \<times> pending_name_registration \<times> bytes \<times> bool) list"
  er_name_votes :: "(bytes \<times> bytes \<times> u64) list"
  er_name_renewals :: "(bytes \<times> u64) list"
  er_name_transfers :: "(bytes \<times> bytes) list"
  er_oracle_updates :: "oracle_request list"
  er_error :: "string option"

definition default_result :: execution_result where
  "default_result = \<lparr>er_success = False, er_return_data = [], er_gas_used = 0, er_storage_diff = [],
     er_logs = [], er_staking_updates = [], er_param_updates = [], er_native_credits = [], er_cell_debits = [],
     er_name_proposals = [], er_name_votes = [], er_name_renewals = [], er_name_transfers = [],
     er_oracle_updates = [], er_error = None\<rparr>"

text \<open>The arguments of \<^verbatim>\<open>execute_axiom\<close>.\<close>

record call_args =
  ca_bytecode :: bytes
  ca_storage :: "bytes \<rightharpoonup> bytes"
  ca_cell_id :: bytes
  ca_owner :: bytes
  ca_caller :: bytes
  ca_height :: u64
  ca_timestamp :: u64
  ca_calldata :: bytes
  ca_value :: u128
  ca_gas_limit :: nat
  ca_depth :: nat
  ca_global_state :: "chain_state option"
  ca_cell_state :: "locked_cells option"

definition new_host :: "axiom_env \<Rightarrow> call_args \<Rightarrow> axiom_host" where
  "new_host E a = \<lparr>hs_storage = ca_storage a, hs_storage_diff = [], hs_caller = ca_caller a,
     hs_owner = ca_owner a, hs_cell_id = ca_cell_id a, hs_height = ca_height a,
     hs_timestamp = ca_timestamp a, hs_value = ca_value a, hs_calldata = ca_calldata a,
     hs_return_data = [], hs_logs = [], hs_execution_depth = ca_depth a,
     hs_gas_limit = ca_gas_limit a, hs_global_state = ca_global_state a,
     hs_cell_state = ca_cell_state a, hs_staking_updates = [], hs_param_updates = [],
     hs_native_credits = [], hs_name_proposals = [], hs_name_votes = [], hs_name_renewals = [],
     hs_name_transfers = [], hs_is_system_cell = is_system_cell E (ca_cell_id a),
     hs_oracle_updates = []\<rparr>"

definition execution_result_of :: "exec_result \<Rightarrow> axiom_host \<Rightarrow> execution_result" where
  "execution_result_of res h = \<lparr>er_success = success res, er_return_data = hs_return_data h,
     er_gas_used = res_gas_used res, er_storage_diff = hs_storage_diff h, er_logs = hs_logs h,
     er_staking_updates = hs_staking_updates h, er_param_updates = hs_param_updates h,
     er_native_credits = hs_native_credits h, er_cell_debits = [], er_name_proposals = hs_name_proposals h,
     er_name_votes = hs_name_votes h, er_name_renewals = hs_name_renewals h,
     er_name_transfers = hs_name_transfers h, er_oracle_updates = hs_oracle_updates h,
     er_error = map_option error_to_string (error res)\<rparr>"

text \<open>
  \<^verbatim>\<open>execute_axiom\<close> with the host operations of the level it runs at; \<^const>\<open>None\<close> is a panic
  (or a nesting beyond the levels of the model, which never happens).
\<close>

definition execute_level ::
    "axiom_env \<Rightarrow> axiom_host host_ops \<Rightarrow> call_args \<Rightarrow> execution_result option" where
  "execute_level E H a = (case decode (ca_bytecode a) of
      Inl e \<Rightarrow> Some (default_result\<lparr>er_error := Some (''Axiom decode error: '' @ error_to_string e)\<rparr>)
    | Inr cell \<Rightarrow> (case execute H cell (vm_new (new_host E a) (ca_gas_limit a) (ca_depth a)) of
         None \<Rightarrow> None
       | Some (res, v) \<Rightarrow> Some (execution_result_of res (vm_host v))))"

definition ah_call_cell ::
    "axiom_env \<Rightarrow> axiom_host host_ops \<Rightarrow> axiom_host \<Rightarrow> bytes \<Rightarrow> bytes \<Rightarrow> u128 \<Rightarrow> nat
     \<Rightarrow> (cross_cell_result axiom_result \<times> axiom_host) option" where
  "ah_call_cell E H h cid cd val g = (case hs_global_state h of
      None \<Rightarrow> Some (Inl (CrossCellFailed ''no global state''), h)
    | Some gs \<Rightarrow> (case hs_cell_state h of
         None \<Rightarrow> Some (Inl (CrossCellFailed ''no cell state''), h)
       | Some cs \<Rightarrow>
          if lk_poisoned cs then Some (Inl (CrossCellFailed ''lock poisoned''), h)
          else (case om_get (cst_cells (lk_state cs)) cid of
             None \<Rightarrow> Some (Inl (CrossCellFailed ''cell not found''), h)
           | Some cell \<Rightarrow>
              (case execute_level E H
                  \<lparr>ca_bytecode = acc_bytecode cell, ca_storage = acc_storage cell,
                   ca_cell_id = acc_cell_id cell, ca_owner = acc_owner cell,
                   ca_caller = hs_caller h, ca_height = hs_height h, ca_timestamp = hs_timestamp h,
                   ca_calldata = cd, ca_value = val, ca_gas_limit = g,
                   ca_depth = hs_execution_depth h + 1,
                   ca_global_state = Some gs, ca_cell_state = Some cs\<rparr> of
                 None \<Rightarrow> None
               | Some r \<Rightarrow> Some (Inr \<lparr>cc_success = er_success r, cc_return_data = er_return_data r,
                                    cc_gas_used = er_gas_used r\<rparr>, h)))))"

definition ah_max_call_depth :: "axiom_host \<Rightarrow> nat" where
  "ah_max_call_depth h = 500"

definition host_with ::
    "axiom_env \<Rightarrow> (axiom_host \<Rightarrow> bytes \<Rightarrow> bytes \<Rightarrow> u128 \<Rightarrow> nat
       \<Rightarrow> (cross_cell_result axiom_result \<times> axiom_host) option) \<Rightarrow> axiom_host host_ops" where
  "host_with E call = \<lparr>storage_read = ah_storage_read, storage_write = ah_storage_write,
     storage_delete = ah_storage_delete, caller = hs_caller, owner = hs_owner, cell_id = hs_cell_id,
     height = hs_height, timestamp = hs_timestamp, call_value = hs_value, calldata = hs_calldata,
     set_return_data = ah_set_return_data, emit_log = ah_emit_log, call_cell = call,
     host_sha256 = (\<lambda>h x. digest (env_sha256 E) x),
     staking_op_call = ah_staking_op, staking_validator_stake = ah_staking_validator_stake,
     staking_total_stake = ah_staking_total_stake, governance_set_param = ah_governance_set_param,
     native_transfer = ah_native_transfer, name_op_call = ah_name_op,
     accord_request = ah_accord_request E, accord_read = ah_accord_read E,
     token_balance = default_token_balance, token_transfer = default_token_transfer,
     token_mint = default_token_mint, token_burn = default_token_burn,
     token_freeze = default_token_freeze, token_thaw = default_token_thaw,
     max_return_data = default_max_return_data, max_log_data = default_max_log_data,
     max_log_topics = default_max_log_topics, max_call_depth = ah_max_call_depth\<rparr>"

primrec axiom_ops :: "axiom_env \<Rightarrow> nat \<Rightarrow> axiom_host host_ops" where
  "axiom_ops E 0 = host_with E (\<lambda>h cid cd val g. None)"
| "axiom_ops E (Suc n) = host_with E (ah_call_cell E (axiom_ops E n))"

definition MAX_LEVELS :: nat where
  "MAX_LEVELS = 500"

definition execute_axiom :: "axiom_env \<Rightarrow> call_args \<Rightarrow> execution_result option" where
  "execute_axiom E a = execute_level E (axiom_ops E MAX_LEVELS) a"

section \<open>The host meets the machine's contract\<close>

definition values32 :: "(bytes \<rightharpoonup> bytes) \<Rightarrow> bool" where
  "values32 m \<longleftrightarrow> (\<forall>k v. m k = Some v \<longrightarrow> length v = 32)"

definition cell_ok :: "cell_account \<Rightarrow> bool" where
  "cell_ok c \<longleftrightarrow> length (acc_cell_id c) = 32 \<and> length (acc_owner c) = 32 \<and> values32 (acc_storage c)"

definition cells_ok :: "locked_cells option \<Rightarrow> bool" where
  "cells_ok cs \<longleftrightarrow> (\<forall>st k c. cs = Some st \<longrightarrow> om_get (cst_cells (lk_state st)) k = Some c \<longrightarrow> cell_ok c)"

definition args_ok :: "call_args \<Rightarrow> bool" where
  "args_ok a \<longleftrightarrow> values32 (ca_storage a) \<and> length (ca_cell_id a) = 32 \<and> length (ca_owner a) = 32
     \<and> length (ca_caller a) = 32 \<and> cells_ok (ca_cell_state a)"

definition replay :: "(bytes \<rightharpoonup> bytes) \<Rightarrow> (bytes \<times> bytes option) list \<Rightarrow> bytes \<rightharpoonup> bytes" where
  "replay st0 diff = foldl (\<lambda>m e. m(fst e := snd e)) st0 diff"

definition no_privileged_effects :: "axiom_host \<Rightarrow> bool" where
  "no_privileged_effects h \<longleftrightarrow> hs_staking_updates h = [] \<and> hs_param_updates h = []
     \<and> hs_native_credits h = [] \<and> hs_name_proposals h = [] \<and> hs_name_votes h = []
     \<and> hs_name_renewals h = [] \<and> hs_name_transfers h = []"

definition host_ok :: "(bytes \<rightharpoonup> bytes) \<Rightarrow> axiom_host \<Rightarrow> bool" where
  "host_ok st0 h \<longleftrightarrow> hs_storage h = replay st0 (hs_storage_diff h)
     \<and> values32 (replay st0 (hs_storage_diff h))
     \<and> length (hs_caller h) = 32 \<and> length (hs_owner h) = 32 \<and> length (hs_cell_id h) = 32
     \<and> length (hs_return_data h) \<le> 262144 \<and> (\<forall>l \<in> set (hs_logs h). log_ok 65536 8 l)
     \<and> no_privileged_effects h \<and> cells_ok (hs_cell_state h)"

definition host_inv :: "(bytes \<rightharpoonup> bytes) \<Rightarrow> nat \<Rightarrow> nat \<Rightarrow> axiom_host \<Rightarrow> bool" where
  "host_inv st0 n d h \<longleftrightarrow> host_ok st0 h \<and> hs_execution_depth h = d \<and> MAX_LEVELS \<le> d + n"

lemmas host_inv_defs = host_inv_def host_ok_def no_privileged_effects_def

lemmas ah_defs = ah_storage_read_def ah_storage_write_def ah_storage_delete_def
  ah_set_return_data_def ah_emit_log_def

lemma replay_snoc: "replay st0 (d @ [(k, v)]) = (replay st0 d)(k := v)"
  by (simp add: replay_def)

lemma values32_upd: "values32 m \<Longrightarrow> (\<And>x. v = Some x \<Longrightarrow> length x = 32) \<Longrightarrow> values32 (m(k := v))"
  by (auto simp: values32_def)

lemma accord_request_frame:
  "snd (ah_accord_request E h url meth body) = h \<or>
   (\<exists>req. snd (ah_accord_request E h url meth body) = h\<lparr>hs_oracle_updates := hs_oracle_updates h @ [req]\<rparr>)"
  by (auto simp: ah_accord_request_def Let_def split: sum.split prod.split)

lemma host_inv_accord: "host_inv st0 n d h \<Longrightarrow> host_inv st0 n d (snd (ah_accord_request E h url meth body))"
  using accord_request_frame [of E h url meth body] by (auto simp: host_inv_defs)

lemma accord_request_len:
  "fst (ah_accord_request E h url meth body) = Inr rid \<Longrightarrow> length rid = 32"
  by (auto simp: ah_accord_request_def queue_oracle_request_def request_id_def Let_def
      split: if_splits sum.splits prod.splits)

text \<open>What a run of a cell promises, given the contract of the level it runs on.\<close>

definition result_ok :: "call_args \<Rightarrow> execution_result \<Rightarrow> bool" where
  "result_ok a r \<longleftrightarrow> er_gas_used r \<le> ca_gas_limit a \<and> length (er_return_data r) \<le> 262144
     \<and> (\<forall>l \<in> set (er_logs r). log_ok 65536 8 l)
     \<and> values32 (replay (ca_storage a) (er_storage_diff r))
     \<and> er_staking_updates r = [] \<and> er_param_updates r = [] \<and> er_native_credits r = []
     \<and> er_name_proposals r = [] \<and> er_name_votes r = [] \<and> er_name_renewals r = []
     \<and> er_name_transfers r = []"

lemma new_host_inv:
  "args_ok a \<Longrightarrow> MAX_LEVELS \<le> ca_depth a + n \<Longrightarrow> host_inv (ca_storage a) n (ca_depth a) (new_host E a)"
  by (simp add: host_inv_defs new_host_def args_ok_def replay_def)

lemma execute_level_ok:
  assumes "host_contract H (host_inv (ca_storage a) n) 65536 8"
    and "args_ok a" and "MAX_LEVELS \<le> ca_depth a + n"
  shows "\<exists>r. execute_level E H a = Some r \<and> result_ok a r"
proof (cases "decode (ca_bytecode a)")
  case (Inl e)
  then show ?thesis using assms(2)
    by (simp add: execute_level_def result_ok_def default_result_def replay_def args_ok_def)
next
  case (Inr cell)
  from host_contract.execute_safe [OF assms(1) new_host_inv [OF assms(2,3)]]
  obtain res v where "execute H cell (vm_new (new_host E a) (ca_gas_limit a) (ca_depth a)) = Some (res, v)"
    "res_gas_used res \<le> ca_gas_limit a" "host_inv (ca_storage a) n (ca_depth a) (vm_host v)"
    by blast
  then show ?thesis using Inr
    by (auto simp: execute_level_def result_ok_def execution_result_of_def host_inv_defs)
qed

lemma ah_call_cell_host: "ah_call_cell E H h cid cd val g = Some (r, h') \<Longrightarrow> h' = h"
  by (auto simp: ah_call_cell_def split: option.splits if_splits)

lemma ah_call_cell_ok:
  assumes H: "\<And>st. host_contract H (host_inv st n) 65536 8" and h: "host_inv st0 (Suc n) d h"
  shows "\<exists>r. ah_call_cell E H h cid cd val g = Some (r, h)
    \<and> (\<forall>res. r = Inr res \<longrightarrow> cc_gas_used res \<le> g)"
proof (cases "\<exists>gs cs cell. hs_global_state h = Some gs \<and> hs_cell_state h = Some cs
      \<and> \<not> lk_poisoned cs \<and> om_get (cst_cells (lk_state cs)) cid = Some cell")
  case False
  then show ?thesis by (auto simp: ah_call_cell_def split: option.split)
next
  case True
  then obtain gs cs cell where st: "hs_global_state h = Some gs" "hs_cell_state h = Some cs"
    "\<not> lk_poisoned cs" "om_get (cst_cells (lk_state cs)) cid = Some cell" by blast
  let ?a = "\<lparr>ca_bytecode = acc_bytecode cell, ca_storage = acc_storage cell,
     ca_cell_id = acc_cell_id cell, ca_owner = acc_owner cell,
     ca_caller = hs_caller h, ca_height = hs_height h, ca_timestamp = hs_timestamp h,
     ca_calldata = cd, ca_value = val, ca_gas_limit = g, ca_depth = hs_execution_depth h + 1,
     ca_global_state = Some gs, ca_cell_state = Some cs\<rparr>"
  have "cell_ok cell" "cells_ok (Some cs)" using h st by (auto simp: host_inv_defs cells_ok_def)
  then have a: "args_ok ?a" using h by (simp add: args_ok_def cell_ok_def host_inv_defs)
  have d: "MAX_LEVELS \<le> ca_depth ?a + n" using h by (simp add: host_inv_def)
  from execute_level_ok [OF H a d, of E]
  obtain r where "execute_level E H ?a = Some r" "er_gas_used r \<le> g"
    by (auto simp: result_ok_def)
  then show ?thesis using st by (simp add: ah_call_cell_def)
qed

lemma host_with_contract:
  assumes call: "\<And>d h cid cd val g. host_inv st0 n d h \<Longrightarrow> d < 500 \<Longrightarrow> call h cid cd val g \<noteq> None"
    and ret: "\<And>d h cid cd val g r h'. host_inv st0 n d h \<Longrightarrow> call h cid cd val g = Some (r, h') \<Longrightarrow>
      h' = h \<and> (\<forall>res. r = Inr res \<longrightarrow> cc_gas_used res \<le> g)"
  shows "host_contract (host_with E call) (host_inv st0 n) 65536 8"
proof
  fix d h key v data l cid cd val g r h' res url meth body rid
  show "storage_read (host_with E call) h key = Inr v \<Longrightarrow> length v = 32" if "host_inv st0 n d h"
    using that by (auto simp: host_with_def ah_defs host_inv_defs values32_def split: option.splits)
  show "host_inv st0 n d (snd (storage_write (host_with E call) h key v))"
    if "host_inv st0 n d h" "length v = 32"
    using that by (auto simp: host_with_def ah_defs host_inv_defs replay_snoc intro!: values32_upd)
  show "host_inv st0 n d (snd (storage_delete (host_with E call) h key))" if "host_inv st0 n d h"
    using that by (auto simp: host_with_def ah_defs host_inv_defs replay_snoc intro!: values32_upd)
  show "host_inv st0 n d (snd (accord_request (host_with E call) h url meth body))" if "host_inv st0 n d h"
    using that by (simp add: host_with_def host_inv_accord)
  show "fst (accord_request (host_with E call) h url meth body) = Inr rid \<Longrightarrow> length rid = 32"
    by (simp add: host_with_def accord_request_len)
  show "call_cell (host_with E call) h cid cd val g \<noteq> None"
    if "host_inv st0 n d h" "d < max_call_depth (host_with E call) h"
    using call [OF that(1)] that(2) by (simp add: host_with_def ah_max_call_depth_def)
  show "host_inv st0 n d h'" if "host_inv st0 n d h" "call_cell (host_with E call) h cid cd val g = Some (r, h')"
    using ret [OF that(1), of cid cd val g r h'] that by (simp add: host_with_def)
  show "cc_gas_used res \<le> g" if "host_inv st0 n d h"
    "call_cell (host_with E call) h cid cd val g = Some (Inr res, h')"
    using ret [OF that(1)] that(2) by (auto simp: host_with_def)
qed (simp_all add: host_with_def ah_defs host_inv_defs default_host_defs)

lemma axiom_ops_contract: "host_contract (axiom_ops E n) (host_inv st0 n) 65536 8"
proof (induction n arbitrary: st0)
  case 0
  show ?case unfolding axiom_ops.simps
    by (rule host_with_contract) (auto simp: host_inv_def MAX_LEVELS_def)
next
  case (Suc n)
  show ?case unfolding axiom_ops.simps
  proof (rule host_with_contract)
    fix d h cid cd val g assume h: "host_inv st0 (Suc n) d h"
    show "ah_call_cell E (axiom_ops E n) h cid cd val g \<noteq> None"
      using ah_call_cell_ok [OF Suc.IH h, of E cid cd val g] by auto
    fix r h' assume "ah_call_cell E (axiom_ops E n) h cid cd val g = Some (r, h')"
    then show "h' = h \<and> (\<forall>res. r = Inr res \<longrightarrow> cc_gas_used res \<le> g)"
      using ah_call_cell_ok [OF Suc.IH h, of E cid cd val g] by auto
  qed
qed

interpretation ah: host_contract "axiom_ops E n" "host_inv st0 n" 65536 8 for E n st0
  by (rule axiom_ops_contract)

section \<open>Properties of cell execution\<close>

lemma execute_axiom_ok: "args_ok a \<Longrightarrow> \<exists>r. execute_axiom E a = Some r \<and> result_ok a r"
  unfolding execute_axiom_def by (rule execute_level_ok [OF axiom_ops_contract]) simp_all

text \<open>
  C1. Running a cell always comes back: for every bytecode, every gas limit and every
  starting depth, with well-formed account data, \<^verbatim>\<open>execute_axiom\<close> neither panics nor
  exceeds its levels of nesting, uses at most the gas limit, returns at most 256 KiB of
  data, and every log it produced respects the limits.
\<close>
theorem execute_axiom_safe:
  assumes "args_ok a"
  shows "\<exists>r. execute_axiom E a = Some r \<and> er_gas_used r \<le> ca_gas_limit a
    \<and> length (er_return_data r) \<le> 262144
    \<and> (\<forall>l \<in> set (er_logs r). length (log_data l) \<le> 65536 \<and> length (topics l) \<le> 8
         \<and> (\<forall>t \<in> set (topics l). length t = 32))"
  using execute_axiom_ok [OF assms, of E] by (auto simp: result_ok_def log_ok_def)

definition demo_env :: axiom_env where
  "demo_env = \<lparr>env_sha256 = demo_hash, env_blake3 = demo_hash, env_gp = (\<lambda>_. 10),
     env_global_results = Map.empty\<rparr>"

definition demo_args :: "bytes \<Rightarrow> call_args" where
  "demo_args c = \<lparr>ca_bytecode = encode \<lparr>const_pool = [], code = c\<rparr>, ca_storage = Map.empty,
     ca_cell_id = zeros 32, ca_owner = zeros 32, ca_caller = zeros 32, ca_height = 1, ca_timestamp = 2,
     ca_calldata = [], ca_value = 0, ca_gas_limit = 5000, ca_depth = 0, ca_global_state = None,
     ca_cell_state = None\<rparr>"

lemma demo_args_ok: "args_ok (demo_args c)"
  by (simp add: demo_args_def args_ok_def values32_def cells_ok_def)

theorem execute_axiom_safe_witness:
  "\<exists>r. execute_axiom demo_env (demo_args [tag_CALL_CELL, 1, 2, 3, 4]) = Some r \<and> er_gas_used r \<le> 5000"
  using execute_axiom_safe [OF demo_args_ok [of "[tag_CALL_CELL, 1, 2, 3, 4]"], of demo_env]
  by (auto simp: demo_args_def)

lemma execute_axiom_journal:
  assumes "args_ok a" and "execute_axiom E a = Some r" and "decode (ca_bytecode a) = Inr cell"
  shows "\<exists>res v. execute (axiom_ops E MAX_LEVELS) cell (vm_new (new_host E a) (ca_gas_limit a) (ca_depth a)) = Some (res, v)
    \<and> er_success r = success res \<and> hs_storage (vm_host v) = replay (ca_storage a) (er_storage_diff r)"
proof -
  have "host_inv (ca_storage a) MAX_LEVELS (ca_depth a) (new_host E a)" by (rule new_host_inv [OF assms(1)]) simp
  from ah.execute_safe [OF this, of E cell "ca_gas_limit a"]
  obtain res v where "execute (axiom_ops E MAX_LEVELS) cell (vm_new (new_host E a) (ca_gas_limit a) (ca_depth a)) = Some (res, v)"
    "host_inv (ca_storage a) MAX_LEVELS (ca_depth a) (vm_host v)"
    by blast
  then show ?thesis using assms(2,3)
    by (auto simp: execute_axiom_def execute_level_def execution_result_of_def host_inv_def host_ok_def)
qed

text \<open>
  C22. A cell cannot reach the privileged operations of its host: no run of any bytecode
  queues a staking, parameter, native-transfer or name-registry effect, not even for a
  system cell, because no instruction calls those methods. And the storage diff of the result
  is complete: replayed over the storage the run started from, it gives exactly the storage the
  host holds when the machine stops, whether the run succeeded or failed.
\<close>
theorem execute_axiom_sandboxed:
  assumes "args_ok a" and "execute_axiom E a = Some r"
  shows "er_staking_updates r = [] \<and> er_param_updates r = [] \<and> er_native_credits r = []
    \<and> er_name_proposals r = [] \<and> er_name_votes r = [] \<and> er_name_renewals r = []
    \<and> er_name_transfers r = []
    \<and> (\<forall>cell. decode (ca_bytecode a) = Inr cell \<longrightarrow>
        (\<exists>res v. execute (axiom_ops E MAX_LEVELS) cell (vm_new (new_host E a) (ca_gas_limit a) (ca_depth a)) = Some (res, v)
          \<and> er_success r = success res \<and> hs_storage (vm_host v) = replay (ca_storage a) (er_storage_diff r)))"
proof -
  have "result_ok a r" using execute_axiom_ok [OF assms(1), of E] assms(2) by simp
  then show ?thesis using execute_axiom_journal [OF assms] by (simp add: result_ok_def)
qed

theorem execute_axiom_sandboxed_witness:
  "\<exists>r res v. execute_axiom demo_env (demo_args [tag_HALT]) = Some r \<and> er_native_credits r = []
     \<and> execute (axiom_ops demo_env MAX_LEVELS) \<lparr>const_pool = [], code = [tag_HALT]\<rparr>
         (vm_new (new_host demo_env (demo_args [tag_HALT])) 5000 0) = Some (res, v)
     \<and> hs_storage (vm_host v) = replay Map.empty (er_storage_diff r)"
proof -
  obtain r where r: "execute_axiom demo_env (demo_args [tag_HALT]) = Some r" using execute_axiom_ok [OF demo_args_ok] by blast
  have "decode (ca_bytecode (demo_args [tag_HALT])) = Inr \<lparr>const_pool = [], code = [tag_HALT]\<rparr>"
    using decode_complete [of "\<lparr>const_pool = [], code = [tag_HALT]\<rparr>" _ "[]"]
    by (simp add: demo_args_def within_limits_def limit_defs)
  with execute_axiom_sandboxed [OF demo_args_ok r] r show ?thesis by (fastforce simp: demo_args_def)
qed

text \<open>
  Token instructions never succeed on this host: it does not override the token
  methods of the interface, so an instruction with a token tag never lets execution
  continue, whatever the state of the machine.
\<close>
theorem token_instructions_fail:
  assumes "code cell ! pc s \<in> {tag_TOKEN_BALANCE, tag_TOKEN_TRANSFER, tag_TOKEN_MINT, tag_TOKEN_BURN,
      tag_TOKEN_FREEZE, tag_TOKEN_THAW}"
  shows "\<exists>s' e. step (axiom_ops E n) cell s = Bail s' e
    \<and> e \<in> {OutOfGas, InvalidBytecode, Unauthorized}"
proof -
  have tok: "token_balance (axiom_ops E n) = default_token_balance"
    "token_transfer (axiom_ops E n) = default_token_transfer" "token_mint (axiom_ops E n) = default_token_mint"
    "token_burn (axiom_ops E n) = default_token_burn" "token_freeze (axiom_ops E n) = default_token_freeze"
    "token_thaw (axiom_ops E n) = default_token_thaw"
    by (cases n; simp add: host_with_def)+
  show ?thesis
    using assms unfolding step_def
    by (elim insertE emptyE)
       (simp_all add: dispatch_def handlers_def exec_token_balance_def exec_token_transfer_def
         exec_token_mint_def exec_token_burn_def exec_token_freeze_def exec_token_thaw_def
         tok default_host_defs charge_def charge_raw_def read8_def try_host_def try_read_def)
qed

definition demo_frame :: "axiom_host frame" where
  "demo_frame = enter (vm_new (new_host demo_env (demo_args [])) 5000 0)"

theorem token_instructions_fail_witness:
  "\<exists>s' e. step (axiom_ops demo_env 3) \<lparr>const_pool = [], code = [tag_TOKEN_MINT, 1, 2, 3]\<rparr> demo_frame = Bail s' e"
proof -
  have "code \<lparr>const_pool = [], code = [tag_TOKEN_MINT, 1, 2, 3]\<rparr> ! pc demo_frame
      \<in> {tag_TOKEN_BALANCE, tag_TOKEN_TRANSFER, tag_TOKEN_MINT, tag_TOKEN_BURN, tag_TOKEN_FREEZE, tag_TOKEN_THAW}"
    by (simp add: demo_frame_def enter_def vm.defs)
  from token_instructions_fail [OF this] show ?thesis by blast
qed

text \<open>
  Storage behaves as a map and its journal is faithful: a read returns what the last
  write or delete of that key left (zero when there is nothing), and replaying the
  journal of changes over the initial storage gives the current storage, so the diff a
  run reports determines what the cell stored.
\<close>
theorem storage_journal:
  assumes "host_ok st0 h" and "length v = 32"
  shows "ah_storage_read (snd (ah_storage_write h k v)) k' = (if k' = k then Inr v else ah_storage_read h k')
    \<and> ah_storage_read (snd (ah_storage_delete h k)) k' = (if k' = k then Inr (zeros 32) else ah_storage_read h k')
    \<and> (let h1 = snd (ah_storage_write h k v); h2 = snd (ah_storage_delete h k)
       in hs_storage h1 = replay st0 (hs_storage_diff h1) \<and> hs_storage h2 = replay st0 (hs_storage_diff h2))"
  using assms by (simp add: ah_defs host_ok_def replay_snoc Let_def)

theorem storage_journal_witness:
  "ah_storage_read (snd (ah_storage_write (new_host demo_env (demo_args [])) (zeros 32) (pad_to 32 [7]))) (zeros 32)
     = Inr (pad_to 32 [7])"
proof -
  have "host_ok Map.empty (new_host demo_env (demo_args []))"
    using new_host_inv [OF demo_args_ok [of "[]"], of MAX_LEVELS demo_env]
    by (simp add: host_inv_def demo_args_def)
  from storage_journal [OF this, of "pad_to 32 [7]" "zeros 32" "zeros 32"] show ?thesis by simp
qed

text \<open>
  External requests respect the policy: a request is queued only for valid UTF-8, a
  public cell only reaches URLs that an approved proposal matches, a private cell only
  while it has fewer than five requests pending; the request that is queued carries the
  identifier that is returned and the requesting cell, and a refused request leaves the
  host unchanged.
\<close>
theorem accord_request_policy:
  "case ah_accord_request E h url meth body of
     (Inl e, h') \<Rightarrow> h' = h \<and> e \<in> {InvalidBytecode, Unauthorized}
   | (Inr rid, h') \<Rightarrow> utf8_valid url \<and> utf8_valid meth
       \<and> (\<exists>req. hs_oracle_updates h' = hs_oracle_updates h @ [req] \<and> req_id req = rid
            \<and> req_url req = url \<and> requesting_cell req = hs_cell_id h \<and> length rid = 32)
       \<and> (case hs_global_state h of None \<Rightarrow> True | Some gs \<Rightarrow>
            (if cs_visibility gs (hs_cell_id h) = Some Public
             then \<exists>p \<in> set (cs_url_proposals gs). approved p \<and> url_matches_pattern url (url_pattern p)
             else length (filter (\<lambda>r. requesting_cell r = hs_cell_id h) (cs_pending_requests gs)) < 5))"
proof -
  have pol: "case hs_global_state h of None \<Rightarrow> True | Some gs \<Rightarrow>
      (if cs_visibility gs (hs_cell_id h) = Some Public
       then \<exists>p \<in> set (cs_url_proposals gs). approved p \<and> url_matches_pattern url (url_pattern p)
       else length (filter (\<lambda>r. requesting_cell r = hs_cell_id h) (cs_pending_requests gs)) < 5)"
    if "accord_policy (hs_global_state h) (hs_cell_id h) url = Inr x" for x
    using that by (auto simp: accord_policy_def check_url_permitted_def PRIVATE_ACCORD_LIMIT_def Let_def
        list_ex_iff split: option.splits cell_visibility.splits if_splits)
  have err: "e = Unauthorized" if "accord_policy (hs_global_state h) (hs_cell_id h) url = Inl e" for e
    using that by (auto simp: accord_policy_def Let_def split: option.splits if_splits)
  show ?thesis
  proof (cases "accord_policy (hs_global_state h) (hs_cell_id h) url")
    case (Inl e)
    then show ?thesis using err by (simp add: ah_accord_request_def)
  next
    case (Inr x)
    then show ?thesis using pol [OF Inr]
      by (simp add: ah_accord_request_def queue_oracle_request_def request_id_def Let_def case_prod_unfold)
  qed
qed

end
