(* ===== verification/Round_State.thy ===== *)
theory Round_State
  imports Ordered_Map
begin

text \<open>
  The voting core of consensus: the per-height round state with its votes, quorums and
  lock (\<^verbatim>\<open>round_state.rs\<close>), and the parts of \<^verbatim>\<open>streaming_consensus.rs\<close> that drive it: the
  handlers of incoming prevotes and precommits, the quorum queries with the threshold
  of two thirds of the stake plus one, and the transitions of the consensus task. Hash
  maps are ordered maps here; the one place where iteration order could show, the
  search of the tally, takes the order as an argument. Signature checking and the
  active-validator test are arguments.
\<close>

section \<open>State\<close>

datatype bft_step = StepPropose | StepPrevote | StepPrecommit | StepCommitted

record vote =
  v_height :: u64
  v_round :: u32
  block_hash :: "bytes option"
  validator_pubkey :: bytes
  signature :: bytes

type_synonym ballot = "(bytes, vote) omap"
type_synonym stake_map = "(bytes, u64) omap"

record round_state =
  rs_height :: u64
  round :: u32
  bstep :: bft_step
  proposal :: "bytes option"
  prevotes :: "(u32, ballot) omap"
  precommits :: "(u32, ballot) omap"
  locked_block :: "bytes option"
  locked_round :: int

definition round_state_new :: "u64 \<Rightarrow> round_state" where
  "round_state_new h = \<lparr>rs_height = h, round = 0, bstep = StepPropose, proposal = None,
     prevotes = [], precommits = [], locked_block = None, locked_round = - 1\<rparr>"

definition next_round :: "round_state \<Rightarrow> round_state" where
  "next_round rs = rs\<lparr>round := round rs + 1, bstep := StepPropose, proposal := None\<rparr>"

text \<open>\<^verbatim>\<open>votes.entry(vote.round).or_default()\<close> with the duplicate check and the insertion.\<close>

definition ballot_of :: "(u32, ballot) omap \<Rightarrow> u32 \<Rightarrow> ballot" where
  "ballot_of vs r = (case om_get vs r of Some b \<Rightarrow> b | None \<Rightarrow> [])"

definition add_vote :: "vote \<Rightarrow> (u32, ballot) omap \<Rightarrow> bool \<times> (u32, ballot) omap" where
  "add_vote v vs =
    (let b = ballot_of vs (v_round v) in
     if om_get b (validator_pubkey v) \<noteq> None then (False, om_put (v_round v) b vs)
     else (True, om_put (v_round v) (om_put (validator_pubkey v) v b) vs))"

definition add_prevote :: "vote \<Rightarrow> round_state \<Rightarrow> bool \<times> round_state" where
  "add_prevote v rs = (let (fresh, vs) = add_vote v (prevotes rs) in (fresh, rs\<lparr>prevotes := vs\<rparr>))"

definition add_precommit :: "vote \<Rightarrow> round_state \<Rightarrow> bool \<times> round_state" where
  "add_precommit v rs = (let (fresh, vs) = add_vote v (precommits rs) in (fresh, rs\<lparr>precommits := vs\<rparr>))"

section \<open>Counting\<close>

definition votes_stake :: "(u32, ballot) omap \<Rightarrow> u32 \<Rightarrow> bytes option \<Rightarrow> stake_map \<Rightarrow> u64" where
  "votes_stake vs r bh sm = (case om_get vs r of
      None \<Rightarrow> 0
    | Some b \<Rightarrow> sum_list (List.map_filter (\<lambda>(pk, v). om_get sm (validator_pubkey v))
                  (filter (\<lambda>(pk, v). block_hash v = bh) b)))"

definition prevote_stake :: "round_state \<Rightarrow> u32 \<Rightarrow> bytes option \<Rightarrow> stake_map \<Rightarrow> u64" where
  "prevote_stake rs = votes_stake (prevotes rs)"

definition precommit_stake :: "round_state \<Rightarrow> u32 \<Rightarrow> bytes option \<Rightarrow> stake_map \<Rightarrow> u64" where
  "precommit_stake rs = votes_stake (precommits rs)"

type_synonym hash_tally = "(bytes \<times> u64) list"

text \<open>\<^verbatim>\<open>*tally.entry(h).or_insert(0) += s\<close>.\<close>

primrec tally_bump :: "bytes \<Rightarrow> u64 \<Rightarrow> hash_tally \<Rightarrow> hash_tally" where
  "tally_bump h s [] = [(h, s)]"
| "tally_bump h s (e # t) = (if fst e = h then (h, snd e + s) # t else e # tally_bump h s t)"

primrec tally_votes :: "stake_map \<Rightarrow> ballot \<Rightarrow> hash_tally \<Rightarrow> hash_tally" where
  "tally_votes sm [] t = t"
| "tally_votes sm (e # b) t = tally_votes sm b
    (case block_hash (snd e) of
       None \<Rightarrow> t
     | Some h \<Rightarrow> (case om_get sm (validator_pubkey (snd e)) of
          None \<Rightarrow> t
        | Some s \<Rightarrow> tally_bump h s t))"

definition votes_quorum ::
    "(hash_tally \<Rightarrow> hash_tally) \<Rightarrow> (u32, ballot) omap \<Rightarrow> u32 \<Rightarrow> u64 \<Rightarrow> stake_map \<Rightarrow> bytes option" where
  "votes_quorum ord vs r threshold sm = (case om_get vs r of
      None \<Rightarrow> None
    | Some b \<Rightarrow> map_option fst (find (\<lambda>e. snd e \<ge> threshold) (ord (tally_votes sm b []))))"

definition prevote_quorum ::
    "(hash_tally \<Rightarrow> hash_tally) \<Rightarrow> round_state \<Rightarrow> u32 \<Rightarrow> u64 \<Rightarrow> stake_map \<Rightarrow> bytes option" where
  "prevote_quorum ord rs = votes_quorum ord (prevotes rs)"

definition precommit_quorum ::
    "(hash_tally \<Rightarrow> hash_tally) \<Rightarrow> round_state \<Rightarrow> u32 \<Rightarrow> u64 \<Rightarrow> stake_map \<Rightarrow> bytes option" where
  "precommit_quorum ord rs = votes_quorum ord (precommits rs)"

definition should_prevote :: "round_state \<Rightarrow> bytes \<Rightarrow> u64 \<Rightarrow> stake_map \<Rightarrow> bool" where
  "should_prevote rs ph threshold sm = (case locked_block rs of
      None \<Rightarrow> True
    | Some locked \<Rightarrow>
       if locked = ph then True
       else list_ex (\<lambda>(r, b). int (unat r) > locked_round rs
              \<and> prevote_stake rs r (Some ph) sm \<ge> threshold) (prevotes rs))"

section \<open>The drivers\<close>

definition stake_total :: "stake_map \<Rightarrow> u64" where
  "stake_total sm = sum_list (map snd sm)"

definition bft_threshold :: "u64 \<Rightarrow> u64" where
  "bft_threshold total_st = (total_st * 2 div 3) + 1"

text \<open>\<^verbatim>\<open>for round in 0..=rs.round { if let Some(h) = .. { return Some(h) } } None\<close>.\<close>

fun first_quorum :: "(u32 \<Rightarrow> bytes option) \<Rightarrow> nat list \<Rightarrow> bytes option" where
  "first_quorum q [] = None"
| "first_quorum q (r # rs) = (case q (word_of_nat r) of Some h \<Rightarrow> Some h | None \<Rightarrow> first_quorum q rs)"

definition bft_precommit_quorum ::
    "(hash_tally \<Rightarrow> hash_tally) \<Rightarrow> round_state \<Rightarrow> stake_map \<Rightarrow> bytes option" where
  "bft_precommit_quorum ord rs sm =
    (let tot = stake_total sm in
     if tot = 0 then None
     else first_quorum (\<lambda>r. precommit_quorum ord rs r (bft_threshold tot) sm) [0..<Suc (unat (round rs))])"

definition bft_prevote_quorum ::
    "(hash_tally \<Rightarrow> hash_tally) \<Rightarrow> round_state \<Rightarrow> stake_map \<Rightarrow> bytes option" where
  "bft_prevote_quorum ord rs sm =
    (let tot = stake_total sm in
     if tot = 0 then None
     else first_quorum (\<lambda>r. prevote_quorum ord rs r (bft_threshold tot) sm) [0..<Suc (unat (round rs))])"

definition MAX_BFT_ROUND :: u32 where
  "MAX_BFT_ROUND = 10"

text \<open>\<^verbatim>\<open>while rs.round < round { rs.next_round() }\<close>.\<close>

definition fast_forward :: "u32 \<Rightarrow> round_state \<Rightarrow> round_state" where
  "fast_forward r rs = (if r > round rs \<and> r \<le> MAX_BFT_ROUND
     then (next_round ^^ (unat r - unat (round rs))) rs else rs)"

record vote_checks =
  sig_ok :: "string \<Rightarrow> vote \<Rightarrow> bool"
  active_ok :: "bytes \<Rightarrow> bool"

definition handle_prevote :: "vote_checks \<Rightarrow> vote \<Rightarrow> round_state \<Rightarrow> round_state" where
  "handle_prevote C v rs =
    (if \<not> sig_ok C ''prevote'' v then rs
     else if \<not> active_ok C (validator_pubkey v) then rs
     else if rs_height rs \<noteq> v_height v then rs
     else let rs = fast_forward (v_round v) rs in
       if om_get (ballot_of (prevotes rs) (v_round v)) (validator_pubkey v) \<noteq> None then rs
       else snd (add_prevote v rs))"

definition handle_precommit :: "vote_checks \<Rightarrow> vote \<Rightarrow> round_state \<Rightarrow> round_state" where
  "handle_precommit C v rs =
    (if \<not> sig_ok C ''precommit'' v then rs
     else if \<not> active_ok C (validator_pubkey v) then rs
     else if rs_height rs \<noteq> v_height v then rs
     else let rs = fast_forward (v_round v) rs in
       if om_get (ballot_of (precommits rs) (v_round v)) (validator_pubkey v) \<noteq> None then rs
       else snd (add_precommit v rs))"

text \<open>
  The transitions of the consensus task on its round state. The lock is set with the
  round read before the prevotes were awaited; when the height was finalised by
  attestations in the meantime, the task goes on with a sentinel of zeros.
\<close>

definition start_height :: "u64 \<Rightarrow> round_state \<Rightarrow> round_state" where
  "start_height h rs = (if rs_height rs \<noteq> h then round_state_new h else rs)"

definition accept_proposal :: "bytes \<Rightarrow> round_state \<Rightarrow> round_state" where
  "accept_proposal h rs = rs\<lparr>proposal := Some h, bstep := StepPrevote, round := 0,
     prevotes := [], precommits := []\<rparr>"

definition propose_timeout :: "round_state \<Rightarrow> round_state" where
  "propose_timeout rs = rs\<lparr>bstep := StepPrevote\<rparr>"

definition prevote_choice :: "round_state \<Rightarrow> stake_map \<Rightarrow> bytes option" where
  "prevote_choice rs sm = (case proposal rs of
      Some ph \<Rightarrow> if should_prevote rs ph (bft_threshold (stake_total sm)) sm then Some ph else None
    | None \<Rightarrow> None)"

definition update_lock :: "u32 \<Rightarrow> bytes option \<Rightarrow> round_state \<Rightarrow> round_state" where
  "update_lock r ph rs = (case ph of
      Some h \<Rightarrow> rs\<lparr>locked_block := Some h, locked_round := int (unat r), bstep := StepPrecommit\<rparr>
    | None \<Rightarrow> rs)"

definition mark_committed :: "round_state \<Rightarrow> round_state" where
  "mark_committed rs = rs\<lparr>bstep := StepCommitted\<rparr>"

text \<open>
  The active set and the stake map are read from the current chain state at every event,
  so an event carries its own; \<open>C\<close> bounds the active sets that occur.
\<close>

definition within :: "vote_checks \<Rightarrow> vote_checks \<Rightarrow> bool" where
  "within C' C \<longleftrightarrow> sig_ok C' = sig_ok C \<and> (\<forall>pk. active_ok C' pk \<longrightarrow> active_ok C pk)"

inductive bft_trans :: "vote_checks \<Rightarrow> round_state \<Rightarrow> round_state \<Rightarrow> bool"
  for C :: vote_checks where
  start: "bft_trans C rs (start_height h rs)"
| recv_prevote: "within C' C \<Longrightarrow> bft_trans C rs (handle_prevote C' v rs)"
| recv_precommit: "within C' C \<Longrightarrow> bft_trans C rs (handle_precommit C' v rs)"
| propose: "bft_trans C rs (accept_proposal h rs)"
| propose_late: "bft_trans C rs (propose_timeout rs)"
| lock: "bft_prevote_quorum ord rs0 sm = Some h \<Longrightarrow> (\<And>t. set (ord t) = set t)
    \<Longrightarrow> bft_trans C rs (update_lock r (Some h) rs)"
| lock_finalized: "bft_trans C rs (update_lock r (Some (zeros 32)) rs)"
| commit_finalized: "bft_trans C rs (mark_committed rs)"
| commit: "bft_precommit_quorum ord rs0 sm = Some h \<Longrightarrow> (\<And>t. set (ord t) = set t)
    \<Longrightarrow> bft_trans C rs (mark_committed rs)"
| timeout: "bft_trans C rs (next_round rs)"

inductive_cases bft_transE: "bft_trans C rs rs'"

inductive bft_reachable :: "vote_checks \<Rightarrow> round_state \<Rightarrow> bool"
  for C :: vote_checks where
  init: "bft_reachable C (round_state_new h)"
| trans: "bft_reachable C rs \<Longrightarrow> bft_trans C rs rs' \<Longrightarrow> bft_reachable C rs'"

section \<open>Quorum intersection\<close>

locale weighted_quorums =
  fixes w :: "'p \<Rightarrow> nat" and P :: "'p set" and th :: nat
  assumes fin: "finite P" and outside: "x \<notin> P \<Longrightarrow> w x = 0" and major: "sum w P < 2 * th"
begin

lemma sum_le:
  assumes "finite S"
  shows "sum w S \<le> sum w P"
proof -
  have "sum w S = sum w (S \<inter> P)"
    using assms by (intro sum.mono_neutral_right) (auto simp: outside)
  also have "\<dots> \<le> sum w P" using fin by (intro sum_mono2) auto
  finally show ?thesis .
qed

lemma overlap:
  assumes "finite A" and "finite B" and "th \<le> sum w A" and "th \<le> sum w B"
  shows "2 * th - sum w P \<le> sum w (A \<inter> B)"
proof -
  have "sum w A + sum w B = sum w (A \<union> B) + sum w (A \<inter> B)"
    using assms by (simp add: sum.union_inter)
  then show ?thesis using sum_le [of "A \<union> B"] assms by simp
qed

lemma overlap_nonempty:
  assumes "finite A" and "finite B" and "th \<le> sum w A" and "th \<le> sum w B"
  shows "A \<inter> B \<noteq> {}"
  using overlap [OF assms] major by auto

end

definition stake_weight :: "stake_map \<Rightarrow> bytes \<Rightarrow> nat" where
  "stake_weight sm pk = (case om_get sm pk of Some s \<Rightarrow> unat s | None \<Rightarrow> 0)"

definition total_weight :: "stake_map \<Rightarrow> nat" where
  "total_weight sm = (\<Sum>pk \<in> fst ` set sm. stake_weight sm pk)"

lemma threshold_major: "t < 2 * (t * 2 div 3 + 1)" for t :: nat
  by presburger

interpretation bft: weighted_quorums "stake_weight sm" "fst ` set sm" "total_weight sm * 2 div 3 + 1" for sm
proof
  show "stake_weight sm x = 0" if "x \<notin> fst ` set sm" for x
    using that by (simp add: stake_weight_def om_get_None [symmetric])
  show "sum (stake_weight sm) (fst ` set sm) < 2 * (total_weight sm * 2 div 3 + 1)"
    using threshold_major [of "total_weight sm"] by (simp add: total_weight_def)
qed simp

section \<open>Votes are authentic\<close>

definition ballots_ok :: "(vote \<Rightarrow> bool) \<Rightarrow> u64 \<Rightarrow> (u32, ballot) omap \<Rightarrow> bool" where
  "ballots_ok auth h vs \<longleftrightarrow> om_inv vs \<and> (\<forall>r b. om_get vs r = Some b \<longrightarrow> om_inv b \<and>
     (\<forall>pk v. om_get b pk = Some v \<longrightarrow>
        validator_pubkey v = pk \<and> v_round v = r \<and> v_height v = h \<and> auth v))"

definition auth_for :: "vote_checks \<Rightarrow> string \<Rightarrow> vote \<Rightarrow> bool" where
  "auth_for C kind v \<longleftrightarrow> sig_ok C kind v \<and> active_ok C (validator_pubkey v)"

definition round_ok :: "vote_checks \<Rightarrow> round_state \<Rightarrow> bool" where
  "round_ok C rs \<longleftrightarrow> ballots_ok (auth_for C ''prevote'') (rs_height rs) (prevotes rs)
     \<and> ballots_ok (auth_for C ''precommit'') (rs_height rs) (precommits rs)"

lemma ballots_ok_Nil [simp]: "ballots_ok auth h []"
  by (simp add: ballots_ok_def om_inv_def om_get_def)

lemma add_vote_ok:
  assumes vs: "ballots_ok auth h vs" and v: "auth v" "v_height v = h"
  shows "ballots_ok auth h (snd (add_vote v vs))"
proof -
  have inv: "om_inv vs" using vs by (simp add: ballots_ok_def)
  have b: "om_inv (ballot_of vs (v_round v))"
    "\<And>pk u. om_get (ballot_of vs (v_round v)) pk = Some u \<Longrightarrow>
       validator_pubkey u = pk \<and> v_round u = v_round v \<and> v_height u = h \<and> auth u"
    using vs by (auto simp: ballots_ok_def ballot_of_def om_inv_def om_get_def split: option.splits)
  show ?thesis
    using vs inv b v
    by (auto simp: add_vote_def Let_def ballots_ok_def om_get_put om_inv_put split: if_splits)
qed

lemma next_round_frame [simp]:
  "prevotes (next_round rs) = prevotes rs" "precommits (next_round rs) = precommits rs"
  "rs_height (next_round rs) = rs_height rs" "locked_block (next_round rs) = locked_block rs"
  "locked_round (next_round rs) = locked_round rs"
  by (simp_all add: next_round_def)

lemma next_round_iter [simp]:
  "prevotes ((next_round ^^ n) rs) = prevotes rs" "precommits ((next_round ^^ n) rs) = precommits rs"
  "rs_height ((next_round ^^ n) rs) = rs_height rs" "locked_block ((next_round ^^ n) rs) = locked_block rs"
  "locked_round ((next_round ^^ n) rs) = locked_round rs"
  by (induction n) simp_all

lemma fast_forward_frame [simp]:
  "prevotes (fast_forward r rs) = prevotes rs" "precommits (fast_forward r rs) = precommits rs"
  "rs_height (fast_forward r rs) = rs_height rs" "locked_block (fast_forward r rs) = locked_block rs"
  "locked_round (fast_forward r rs) = locked_round rs"
  by (simp_all add: fast_forward_def)

lemma within_refl [simp]: "within C C"
  by (simp add: within_def)

lemma handle_prevote_ok: "round_ok C rs \<Longrightarrow> within C' C \<Longrightarrow> round_ok C (handle_prevote C' v rs)"
  using add_vote_ok [of "auth_for C ''prevote''" "rs_height rs" "prevotes rs" v]
  by (auto simp: handle_prevote_def within_def round_ok_def add_prevote_def Let_def auth_for_def case_prod_unfold)

lemma handle_precommit_ok: "round_ok C rs \<Longrightarrow> within C' C \<Longrightarrow> round_ok C (handle_precommit C' v rs)"
  using add_vote_ok [of "auth_for C ''precommit''" "rs_height rs" "precommits rs" v]
  by (auto simp: handle_precommit_def within_def round_ok_def add_precommit_def Let_def auth_for_def case_prod_unfold)

lemma round_ok_new: "round_ok C (round_state_new h)"
  by (simp add: round_ok_def round_state_new_def)

lemma round_ok_simple:
  assumes "round_ok C rs"
  shows "round_ok C (start_height h rs)" "round_ok C (accept_proposal ph rs)"
    "round_ok C (propose_timeout rs)" "round_ok C (update_lock r (Some ph) rs)"
    "round_ok C (mark_committed rs)" "round_ok C (next_round rs)"
proof -
  show "round_ok C (start_height h rs)"
    using assms round_ok_new [of C h] by (simp add: start_height_def)
qed (use assms in \<open>simp_all add: accept_proposal_def propose_timeout_def update_lock_def
      mark_committed_def round_ok_def\<close>)

lemma bft_trans_ok: "bft_trans C rs rs' \<Longrightarrow> round_ok C rs \<Longrightarrow> round_ok C rs'"
  by (induction rule: bft_trans.induct) (simp_all add: handle_prevote_ok handle_precommit_ok round_ok_simple)

lemma ballots_okD:
  assumes "ballots_ok auth h vs" and "om_get vs r = Some b" and "om_get b pk = Some v"
  shows "validator_pubkey v = pk \<and> v_round v = r \<and> v_height v = h \<and> auth v"
  using assms by (simp add: ballots_ok_def)

lemma bft_reachable_ok: "bft_reachable C rs \<Longrightarrow> round_ok C rs"
  by (induction rule: bft_reachable.induct) (auto intro: round_ok_new bft_trans_ok)

lemma ballots_authentic:
  assumes "ballots_ok (auth_for C k) h vs"
  shows "om_get vs r = Some b \<and> om_get b pk = Some v \<longrightarrow>
    validator_pubkey v = pk \<and> v_round v = r \<and> v_height v = h \<and> sig_ok C k v \<and> active_ok C pk"
  using ballots_okD [OF assms, of r b pk v] by (auto simp: auth_for_def)

text \<open>The states of a run, the newest first.\<close>

inductive bft_history :: "vote_checks \<Rightarrow> round_state list \<Rightarrow> bool"
  for C :: vote_checks where
  first: "bft_history C [round_state_new h]"
| further: "bft_history C (rs # past) \<Longrightarrow> bft_trans C rs rs' \<Longrightarrow> bft_history C (rs' # rs # past)"

inductive_cases bft_historyE: "bft_history C (rs # past)"

lemma history_reachable: "bft_history C past \<Longrightarrow> past \<noteq> [] \<and> bft_reachable C (hd past)"
  by (induction rule: bft_history.induct) (auto intro: bft_reachable.intros)

lemma ballots_inv: "ballots_ok auth h vs \<Longrightarrow> om_inv vs \<and> om_inv (ballot_of vs r)"
  by (auto simp: ballots_ok_def ballot_of_def om_inv_def split: option.splits)

lemma add_vote_recorded:
  assumes "om_inv vs" and "om_inv (ballot_of vs (v_round w))" and "om_get (ballot_of (snd (add_vote w vs)) r) pk = Some v"
  shows "om_get (ballot_of vs r) pk = Some v \<or> v = w \<and> pk = validator_pubkey w \<and> r = v_round w"
  using assms by (auto simp: add_vote_def Let_def ballot_of_def om_get_put split: if_splits option.splits)

lemma other_frames:
  "prevotes (handle_precommit C v rs) = prevotes rs" "precommits (handle_prevote C v rs) = precommits rs"
  "prevotes (start_height h rs) = (if rs_height rs \<noteq> h then [] else prevotes rs)"
  "precommits (start_height h rs) = (if rs_height rs \<noteq> h then [] else precommits rs)"
  "prevotes (accept_proposal ph rs) = []" "precommits (accept_proposal ph rs) = []"
  "prevotes (propose_timeout rs) = prevotes rs" "precommits (propose_timeout rs) = precommits rs"
  "prevotes (update_lock r (Some ph) rs) = prevotes rs" "precommits (update_lock r (Some ph) rs) = precommits rs"
  "prevotes (mark_committed rs) = prevotes rs" "precommits (mark_committed rs) = precommits rs"
  "ballot_of [] r = []" "om_get [] k = None"
  by (simp_all add: handle_precommit_def add_precommit_def handle_prevote_def add_prevote_def Let_def case_prod_unfold start_height_def
      round_state_new_def accept_proposal_def propose_timeout_def update_lock_def mark_committed_def ballot_of_def om_get_def)

lemma handled_votes:
  "prevotes (handle_prevote C w rs) = prevotes rs \<or> prevotes (handle_prevote C w rs) = snd (add_vote w (prevotes rs))
     \<and> sig_ok C ''prevote'' w \<and> active_ok C (validator_pubkey w)"
  "precommits (handle_precommit C w rs) = precommits rs \<or> precommits (handle_precommit C w rs) = snd (add_vote w (precommits rs))
     \<and> sig_ok C ''precommit'' w \<and> active_ok C (validator_pubkey w)"
  by (simp_all add: handle_precommit_def add_precommit_def handle_prevote_def add_prevote_def Let_def case_prod_unfold)

text \<open>A vote that a transition records is the one its handler accepted.\<close>

lemma prevote_recorded:
  assumes "bft_trans C rs rs'" and "round_ok C rs" and "om_get (ballot_of (prevotes rs') r) pk = Some v"
  shows "om_get (ballot_of (prevotes rs) r) pk = Some v
    \<or> (\<exists>C'. within C' C \<and> rs' = handle_prevote C' v rs \<and> sig_ok C' ''prevote'' v \<and> active_ok C' pk)"
  using assms
proof (induction rule: bft_trans.induct)
  case (recv_prevote C' rs w)
  have "om_inv (prevotes rs) \<and> om_inv (ballot_of (prevotes rs) (v_round w))"
    using recv_prevote(2) ballots_inv by (auto simp: round_ok_def)
  then show ?case
    using recv_prevote(1,3) add_vote_recorded [of "prevotes rs" w r pk v] handled_votes(1) [of C' w rs] by metis
qed (simp_all add: other_frames split: if_splits)

lemma precommit_recorded:
  assumes "bft_trans C rs rs'" and "round_ok C rs" and "om_get (ballot_of (precommits rs') r) pk = Some v"
  shows "om_get (ballot_of (precommits rs) r) pk = Some v
    \<or> (\<exists>C'. within C' C \<and> rs' = handle_precommit C' v rs \<and> sig_ok C' ''precommit'' v \<and> active_ok C' pk)"
  using assms
proof (induction rule: bft_trans.induct)
  case (recv_precommit C' rs w)
  have "om_inv (precommits rs) \<and> om_inv (ballot_of (precommits rs) (v_round w))"
    using recv_precommit(2) ballots_inv by (auto simp: round_ok_def)
  then show ?case
    using recv_precommit(1,3) add_vote_recorded [of "precommits rs" w r pk v] handled_votes(2) [of C' w rs] by metis
qed (simp_all add: other_frames split: if_splits)

text \<open>Where a vote of a given kind arrived in a history: with a valid signature, from a validator active then.\<close>

definition arrived :: "vote_checks \<Rightarrow> string \<Rightarrow> (vote_checks \<Rightarrow> vote \<Rightarrow> round_state \<Rightarrow> round_state) \<Rightarrow> round_state list \<Rightarrow> vote \<Rightarrow> bool" where
  "arrived C kind handle hist v \<longleftrightarrow> (\<exists>C' newer s older. hist = newer @ handle C' v s # s # older \<and> within C' C
     \<and> sig_ok C' kind v \<and> active_ok C' (validator_pubkey v))"

lemma arrived_earlier: "arrived C kind handle past v \<Longrightarrow> arrived C kind handle (rs # past) v"
  unfolding arrived_def by (metis append_Cons)

lemma arrived_now:
  "within C' C \<Longrightarrow> sig_ok C' kind v \<Longrightarrow> active_ok C' (validator_pubkey v) \<Longrightarrow> arrived C kind handle (handle C' v rs # rs # past) v"
  unfolding arrived_def by (metis append_Nil)

lemma history_arrived:
  assumes "bft_history C hist"
  shows "(om_get (ballot_of (prevotes (hd hist)) r) pk = Some v \<longrightarrow> arrived C ''prevote'' handle_prevote hist v)
    \<and> (om_get (ballot_of (precommits (hd hist)) r) pk = Some v \<longrightarrow> arrived C ''precommit'' handle_precommit hist v)"
  using assms
proof (induction rule: bft_history.induct)
  case (first h)
  then show ?case by (simp add: round_state_new_def ballot_of_def om_get_def)
next
  case (further rs past rs')
  have ok: "round_ok C rs" "round_ok C rs'"
    using history_reachable [OF further(1)] further(2) bft_reachable_ok bft_trans_ok by auto
  have pk: "om_get (ballot_of (prevotes rs') r) pk = Some v \<Longrightarrow> validator_pubkey v = pk"
      "om_get (ballot_of (precommits rs') r) pk = Some v \<Longrightarrow> validator_pubkey v = pk"
    using ok(2) by (auto simp: round_ok_def ballots_ok_def ballot_of_def om_get_def split: option.splits)
  show ?case
    using prevote_recorded [OF further(2) ok(1), of r pk v] precommit_recorded [OF further(2) ok(1), of r pk v] pk further(3)
    by (auto intro: arrived_earlier arrived_now)
qed

lemma ballot_found: "om_get vs r = Some b \<Longrightarrow> om_get b pk = Some v \<Longrightarrow> om_get (ballot_of vs r) pk = Some v"
  by (simp add: ballot_of_def)



section \<open>Quorums count distinct validators\<close>

text \<open>The stake cast for a hash in a ballot, in natural numbers.\<close>

definition cast_weight :: "stake_map \<Rightarrow> ballot \<Rightarrow> bytes \<Rightarrow> nat" where
  "cast_weight sm b h = sum_list (map (\<lambda>e. stake_weight sm (fst e)) (filter (\<lambda>e. block_hash (snd e) = Some h) b))"

definition voters_for :: "ballot \<Rightarrow> bytes \<Rightarrow> bytes set" where
  "voters_for b h = {pk. \<exists>v. om_get b pk = Some v \<and> block_hash v = Some h}"

definition keyed :: "ballot \<Rightarrow> bool" where
  "keyed b \<longleftrightarrow> om_inv b \<and> (\<forall>e \<in> set b. validator_pubkey (snd e) = fst e)"

lemma ballots_ok_keyed: "ballots_ok auth h vs \<Longrightarrow> om_get vs r = Some b \<Longrightarrow> keyed b"
  by (auto simp: ballots_ok_def keyed_def om_get_in)

lemma cast_weight_Cons:
  "cast_weight sm (e # b) h = (if block_hash (snd e) = Some h then stake_weight sm (fst e) else 0) + cast_weight sm b h"
  by (simp add: cast_weight_def)

lemma finite_voters: "finite (voters_for b h)"
proof -
  have "voters_for b h \<subseteq> fst ` set b" by (force simp: voters_for_def om_get_def dest: map_of_SomeD)
  then show ?thesis by (rule finite_subset) simp
qed

lemma cast_weight_voters:
  assumes "om_inv b"
  shows "cast_weight sm b h = (\<Sum>pk \<in> voters_for b h. stake_weight sm pk)"
proof -
  let ?f = "filter (\<lambda>e. block_hash (snd e) = Some h) b"
  have d: "distinct (map fst b)" using assms by (rule om_inv_distinct)
  then have df: "distinct ?f" and inj: "inj_on fst (set ?f)" by (auto simp: distinct_map inj_on_def)
  have v: "fst ` set ?f = voters_for b h"
    using assms by (force simp: voters_for_def om_get_in)
  have "cast_weight sm b h = (\<Sum>e \<in> set ?f. stake_weight sm (fst e))"
    unfolding cast_weight_def using df by (rule sum_list_distinct_conv_sum_set)
  also have "\<dots> = (\<Sum>pk \<in> fst ` set ?f. stake_weight sm pk)" using inj by (simp add: sum.reindex)
  finally show ?thesis unfolding v .
qed

lemma cast_weight_le: "om_inv b \<Longrightarrow> cast_weight sm b h \<le> total_weight sm"
  using bft.sum_le [OF finite_voters, of sm b h] by (simp add: cast_weight_voters total_weight_def)

lemma cast_weight_two:
  assumes "om_inv b" and "h \<noteq> h'"
  shows "cast_weight sm b h + cast_weight sm b h' \<le> total_weight sm"
proof -
  have "voters_for b h \<inter> voters_for b h' = {}" using assms(2) by (auto simp: voters_for_def)
  then have "cast_weight sm b h + cast_weight sm b h' = (\<Sum>pk \<in> voters_for b h \<union> voters_for b h'. stake_weight sm pk)"
    using assms(1) by (simp add: cast_weight_voters sum.union_disjoint finite_voters)
  then show ?thesis using bft.sum_le [of "voters_for b h \<union> voters_for b h'" sm]
    by (simp add: finite_voters total_weight_def)
qed

definition tally_val :: "hash_tally \<Rightarrow> bytes \<Rightarrow> nat" where
  "tally_val t h = (case map_of t h of Some s \<Rightarrow> unat s | None \<Rightarrow> 0)"

lemma tally_bump_val:
  assumes "tally_val t h + unat s < 2 ^ 64"
  shows "tally_val (tally_bump h s t) h' = tally_val t h' + (if h' = h then unat s else 0)"
  using assms
proof (induction t)
  case Nil
  then show ?case by (simp add: tally_val_def)
next
  case (Cons e t)
  show ?case
  proof (cases "fst e = h")
    case True
    then have "tally_val (e # t) h = unat (snd e)" by (cases e) (simp add: tally_val_def)
    then have "unat (snd e + s) = unat (snd e) + unat s" using Cons.prems by (intro unat_add_64) simp
    then show ?thesis using True by (cases e) (auto simp: tally_val_def)
  next
    case False
    then have "tally_val t h = tally_val (e # t) h" by (cases e) (simp add: tally_val_def)
    then have "tally_val (tally_bump h s t) h' = tally_val t h' + (if h' = h then unat s else 0)"
      using Cons by simp
    then show ?thesis using False by (cases e) (auto simp: tally_val_def)
  qed
qed

lemma tally_bump_keys: "fst ` set (tally_bump h s t) = insert h (fst ` set t)"
  by (induction t) auto

lemma tally_bump_distinct: "distinct (map fst t) \<Longrightarrow> distinct (map fst (tally_bump h s t))"
proof (induction t)
  case (Cons e t)
  then show ?case using tally_bump_keys [of h s t] by (auto simp: image_iff)
qed simp

lemma tally_votes_spec:
  assumes "\<forall>e \<in> set b. validator_pubkey (snd e) = fst e"
    and "\<forall>h. tally_val t h + cast_weight sm b h < 2 ^ 64" and "distinct (map fst t)"
  shows "tally_val (tally_votes sm b t) h = tally_val t h + cast_weight sm b h
    \<and> distinct (map fst (tally_votes sm b t))"
  using assms
proof (induction b arbitrary: t)
  case Nil
  then show ?case by (simp add: cast_weight_def)
next
  case (Cons e b)
  have k: "validator_pubkey (snd e) = fst e" using Cons.prems(1) by simp
  have skip: ?case if "block_hash (snd e) = None \<or> om_get sm (fst e) = None"
  proof -
    have z: "cast_weight sm (e # b) h' = cast_weight sm b h'" for h'
      using that by (auto simp: cast_weight_Cons stake_weight_def)
    have "tally_votes sm (e # b) t = tally_votes sm b t" using that k by (auto split: option.split)
    then show ?thesis using Cons z by simp
  qed
  show ?case
  proof (cases "block_hash (snd e) = None \<or> om_get sm (fst e) = None")
    case True
    then show ?thesis by (rule skip)
  next
    case False
    then obtain h0 s0 where hs: "block_hash (snd e) = Some h0" "om_get sm (fst e) = Some s0" by auto
    let ?t = "tally_bump h0 s0 t"
    have cw: "cast_weight sm (e # b) h' = (if h' = h0 then unat s0 else 0) + cast_weight sm b h'" for h'
      using hs by (auto simp: cast_weight_Cons stake_weight_def)
    have "tally_val t h0 + cast_weight sm (e # b) h0 < 2 ^ 64" using Cons.prems(2) by blast
    then have "tally_val t h0 + unat s0 < 2 ^ 64" using cw [of h0] by simp
    note tv = tally_bump_val [OF this]
    have bound: "\<forall>h. tally_val ?t h + cast_weight sm b h < 2 ^ 64"
    proof
      fix h'
      have "tally_val t h' + cast_weight sm (e # b) h' < 2 ^ 64" using Cons.prems(2) by blast
      then show "tally_val ?t h' + cast_weight sm b h' < 2 ^ 64" using tv [of h'] cw [of h'] by simp
    qed
    have dt: "distinct (map fst ?t)" using Cons.prems(3) by (rule tally_bump_distinct)
    have "tally_val (tally_votes sm b ?t) h = tally_val ?t h + cast_weight sm b h
      \<and> distinct (map fst (tally_votes sm b ?t))"
      using Cons.prems(1) by (intro Cons.IH [OF _ bound dt]) simp
    moreover have "tally_votes sm (e # b) t = tally_votes sm b ?t" using hs k by simp
    ultimately show ?thesis using tv [of h] cw [of h] by simp
  qed
qed

lemma votes_stake_weight:
  assumes "om_get vs r = Some b" and "keyed b" and small: "total_weight sm < 2 ^ 64"
  shows "unat (votes_stake vs r (Some h) sm) = cast_weight sm b h"
proof -
  let ?ss = "List.map_filter (\<lambda>(pk, v). om_get sm (validator_pubkey v)) (filter (\<lambda>(pk, v). block_hash v = Some h) b)"
  have "\<forall>e \<in> set b. validator_pubkey (snd e) = fst e" using assms(2) by (simp add: keyed_def)
  then have eq: "sum_list (map unat ?ss) = cast_weight sm b h"
  proof (induction b)
    case (Cons e b)
    then show ?case
      by (cases e) (auto simp: cast_weight_Cons List.map_filter_simps stake_weight_def split: option.split)
  qed (simp add: cast_weight_def List.map_filter_simps)
  have "cast_weight sm b h < 2 ^ 64"
    using cast_weight_le [of b sm h] assms(2) small by (simp add: keyed_def)
  then have "sum_list (map unat ?ss) < 2 ^ LENGTH(64)" using eq by simp
  then show ?thesis using eq unat_sum_list [of ?ss] assms(1) by (simp add: votes_stake_def)
qed

lemma find_in: "find P xs = Some x \<Longrightarrow> x \<in> set xs \<and> P x"
  by (induction xs) (auto split: if_splits)

lemma votes_quorum_iff:
  assumes "ballots_ok auth hgt vs" and small: "total_weight sm < 2 ^ 64"
    and maj: "total_weight sm < 2 * unat threshold" and ord: "\<And>t. set (ord t) = set t"
  shows "votes_quorum ord vs r threshold sm = Some h \<longleftrightarrow>
    0 < threshold \<and> threshold \<le> votes_stake vs r (Some h) sm"
proof (cases "om_get vs r")
  case None
  then show ?thesis by (auto simp: votes_quorum_def votes_stake_def)
next
  case (Some b)
  have k: "keyed b" using ballots_ok_keyed [OF assms(1) Some] .
  let ?t = "tally_votes sm b []"
  have cw: "cast_weight sm b h' < 2 ^ 64" for h'
    using cast_weight_le [of b sm h'] k small by (simp add: keyed_def)
  have spec: "tally_val ?t h' = cast_weight sm b h'" "distinct (map fst ?t)" for h'
    using tally_votes_spec [of b "[]" sm h'] k cw by (auto simp: keyed_def tally_val_def)
  have th: "0 < unat threshold" using maj by simp
  have val: "unat (snd e) = cast_weight sm b (fst e)" if "e \<in> set ?t" for e
  proof -
    have "map_of ?t (fst e) = Some (snd e)" using that spec(2) by (simp add: map_of_eq_Some_iff)
    then show ?thesis using spec(1) [of "fst e"] by (simp add: tally_val_def)
  qed
  have vs: "unat (votes_stake vs r (Some h') sm) = cast_weight sm b h'" for h'
    using votes_stake_weight [OF Some k small] .
  have uniq: "fst e = h" if "e \<in> set ?t" "threshold \<le> snd e" "unat threshold \<le> cast_weight sm b h" for e
  proof (rule ccontr)
    assume "fst e \<noteq> h"
    then have "cast_weight sm b (fst e) + cast_weight sm b h \<le> total_weight sm"
      using k by (intro cast_weight_two) (auto simp: keyed_def)
    then show False using that val [OF that(1)] maj by (simp add: word_le_nat_alt)
  qed
  show ?thesis
  proof
    assume "votes_quorum ord vs r threshold sm = Some h"
    then obtain e where f: "find (\<lambda>e. threshold \<le> snd e) (ord ?t) = Some e" and "fst e = h"
      using Some by (auto simp: votes_quorum_def)
    moreover have "e \<in> set ?t" "threshold \<le> snd e" using find_in [OF f] ord by auto
    ultimately have "e \<in> set ?t" "threshold \<le> snd e" "fst e = h" by auto
    then show "0 < threshold \<and> threshold \<le> votes_stake vs r (Some h) sm"
      using val [of e] vs th by (simp add: word_le_nat_alt word_less_nat_alt)
  next
    assume "0 < threshold \<and> threshold \<le> votes_stake vs r (Some h) sm"
    then have ge: "unat threshold \<le> cast_weight sm b h" using vs by (simp add: word_le_nat_alt)
    then have "map_of ?t h \<noteq> None" using spec(1) [of h] th by (cases "map_of ?t h") (simp_all add: tally_val_def)
    then obtain s where hs: "(h, s) \<in> set ?t" by (auto dest: map_of_SomeD)
    then have "threshold \<le> s" using val [OF hs] ge by (simp add: word_le_nat_alt)
    then obtain e where e: "find (\<lambda>e. snd e \<ge> threshold) (ord ?t) = Some e"
      using hs ord by (metis (mono_tags, lifting) find_None_iff2 not_None_eq snd_conv)
    from find_in [OF e] have "e \<in> set ?t" "threshold \<le> snd e" using ord by auto
    then show "votes_quorum ord vs r threshold sm = Some h"
      using uniq ge e Some by (simp add: votes_quorum_def)
  qed
qed

definition demo_sm :: stake_map where
  "demo_sm = [([1], 4), ([2], 3), ([3], 2)]"

lemma demo_sm_total: "total_weight demo_sm = 9"
  by (simp add: total_weight_def stake_weight_def demo_sm_def om_get_def)

definition demo_vote :: "u8 \<Rightarrow> vote" where
  "demo_vote k = \<lparr>v_height = 5, v_round = 0, block_hash = Some [9], validator_pubkey = [k], signature = []\<rparr>"

lemma demo_reachable: "bft_reachable C rs
  \<Longrightarrow> bft_reachable C (handle_precommit C v rs)"
  by (erule bft_reachable.trans) (rule bft_trans.recv_precommit, simp)

definition demo_checks :: vote_checks where
  "demo_checks = \<lparr>sig_ok = \<lambda>_ _. True, active_ok = \<lambda>_. True\<rparr>"

definition demo_rs :: round_state where
  "demo_rs = handle_precommit demo_checks (demo_vote 2) (handle_precommit demo_checks (demo_vote 1) (round_state_new 5))"

text \<open>
  C25. A quorum is a real majority: in every reachable state, with a threshold above half
  of the total stake (and the stake fitting 64 bits), the quorum queries return a hash
  exactly when the votes recorded for it in that round carry at least the threshold of
  stake; the answer does not depend on the iteration order of the tally.
\<close>
theorem quorum_iff_stake:
  assumes "bft_reachable C rs" and "total_weight sm < 2 ^ 64"
    and "total_weight sm < 2 * unat threshold" and "\<And>t. set (ord t) = set t"
  shows "(prevote_quorum ord rs r threshold sm = Some h \<longleftrightarrow>
      0 < threshold \<and> threshold \<le> prevote_stake rs r (Some h) sm)
    \<and> (precommit_quorum ord rs r threshold sm = Some h \<longleftrightarrow>
      0 < threshold \<and> threshold \<le> precommit_stake rs r (Some h) sm)"
proof -
  from bft_reachable_ok [OF assms(1)] have
    "ballots_ok (auth_for C ''prevote'') (rs_height rs) (prevotes rs)"
    "ballots_ok (auth_for C ''precommit'') (rs_height rs) (precommits rs)"
    by (simp_all add: round_ok_def)
  then show ?thesis
    using votes_quorum_iff [OF _ assms(2-4)]
    by (simp add: prevote_quorum_def precommit_quorum_def prevote_stake_def precommit_stake_def)
qed

theorem quorum_iff_stake_witness: "precommit_quorum rev demo_rs 0 7 demo_sm = Some [9]"
proof -
  have r: "bft_reachable demo_checks demo_rs"
    unfolding demo_rs_def by (intro demo_reachable bft_reachable.init)
  have "(7 :: u64) \<le> precommit_stake demo_rs 0 (Some [9]) demo_sm" by code_simp
  with quorum_iff_stake [OF r, of demo_sm 7 rev 0 "[9]"] show ?thesis by (simp add: demo_sm_total)
qed

section \<open>Conflicting commits are accountable\<close>

lemma stake_total_weight:
  assumes inv: "om_inv sm" and small: "total_weight sm < 2 ^ 64"
  shows "unat (stake_total sm) = total_weight sm"
proof -
  have d: "distinct (map fst sm)" using inv by (rule om_inv_distinct)
  then have inj: "inj_on fst (set sm)" and ds: "distinct sm" by (simp_all add: distinct_map)
  have w: "stake_weight sm (fst e) = unat (snd e)" if "e \<in> set sm" for e
  proof -
    have "om_get sm (fst e) = Some (snd e)" using that inv by (simp add: om_get_in)
    then show ?thesis by (simp add: stake_weight_def)
  qed
  have "total_weight sm = (\<Sum>e \<in> set sm. stake_weight sm (fst e))"
    unfolding total_weight_def using inj by (simp add: sum.reindex)
  also have "\<dots> = (\<Sum>e \<in> set sm. unat (snd e))" using w by (intro sum.cong) auto
  also have "\<dots> = sum_list (map unat (map snd sm))"
    using ds by (simp add: comp_def sum_list_distinct_conv_sum_set)
  finally show ?thesis using small unat_sum_list [of "map snd sm"] by (simp add: stake_total_def)
qed

lemma third_small: "n < 2 ^ 64 \<Longrightarrow> n div 3 + 1 < (2 ^ 64 :: nat)"
  by (rule le_less_trans [of _ "(2 ^ 64 - 1) div 3 + 1"]) (auto intro!: div_le_mono)

lemma bft_threshold_weight:
  assumes "om_inv sm" and "total_weight sm * 2 < 2 ^ 64"
  shows "unat (bft_threshold (stake_total sm)) = total_weight sm * 2 div 3 + 1"
proof -
  have t: "unat (stake_total sm) = total_weight sm" using assms by (intro stake_total_weight) auto
  have "unat (stake_total sm * 2) = total_weight sm * 2" using assms(2) t by (simp add: unat_word_ariths)
  then have "unat (stake_total sm * 2 div 3) = total_weight sm * 2 div 3" by (simp add: unat_div_distrib)
  moreover have "total_weight sm * 2 div 3 + 1 < 2 ^ 64" using assms(2) by (rule third_small)
  ultimately show ?thesis unfolding bft_threshold_def by (subst unat_add_64) simp_all
qed

lemma third_overlap: "2 * (t * 2 div 3 + 1) - t \<le> s \<Longrightarrow> t < 3 * s" for t s :: nat
proof -
  assume a: "2 * (t * 2 div 3 + 1) - t \<le> s"
  define q where "q = t * 2 div 3"
  have "t * 2 < 3 * q + 3" unfolding q_def by simp
  moreover have "2 * (q + 1) \<le> s + t" using a unfolding q_def [symmetric] by (simp add: le_diff_conv)
  ultimately show "t < 3 * s" by presburger
qed

definition equivocators :: "round_state \<Rightarrow> round_state \<Rightarrow> u32 \<Rightarrow> bytes \<Rightarrow> bytes \<Rightarrow> bytes set" where
  "equivocators A B r h1 h2 =
     voters_for (ballot_of (precommits A) r) h1 \<inter> voters_for (ballot_of (precommits B) r) h2"

lemma precommit_quorum_cast:
  assumes rs: "bft_reachable C rs" and sm: "om_inv sm" "total_weight sm * 2 < 2 ^ 64"
    and q: "precommit_quorum ord rs r (bft_threshold (stake_total sm)) sm = Some h"
    and ord: "\<And>t. set (ord t) = set t"
  shows "total_weight sm * 2 div 3 + 1 \<le> (\<Sum>pk \<in> voters_for (ballot_of (precommits rs) r) h. stake_weight sm pk)"
proof -
  have b: "ballots_ok (auth_for C ''precommit'') (rs_height rs) (precommits rs)"
    using bft_reachable_ok [OF rs] by (simp add: round_ok_def)
  note th = bft_threshold_weight [OF sm]
  have small: "total_weight sm < 2 ^ 64" using sm(2) by linarith
  have "total_weight sm < 2 * unat (bft_threshold (stake_total sm))"
    unfolding th by (rule threshold_major)
  from votes_quorum_iff [OF b small this ord] q
  have ge: "bft_threshold (stake_total sm) \<le> votes_stake (precommits rs) r (Some h) sm"
    unfolding precommit_quorum_def by blast
  obtain bal where bal: "om_get (precommits rs) r = Some bal"
    using q by (auto simp: precommit_quorum_def votes_quorum_def split: option.splits)
  have k: "keyed bal" using ballots_ok_keyed [OF b bal] .
  then have "cast_weight sm bal h = (\<Sum>pk \<in> voters_for bal h. stake_weight sm pk)"
    by (intro cast_weight_voters) (simp add: keyed_def)
  then show ?thesis using ge th votes_stake_weight [OF bal k small, of h] bal
    by (simp add: word_le_nat_alt ballot_of_def)
qed

text \<open>
  C2. Two nodes that see precommit quorums for blocks h1 and h2 in the same round share
  validators holding more than a third of the stake, each with a validly signed precommit
  for both: the validators recorded for one block at one node and for the other block at
  the other node carry more than a third of the total stake.  When the nodes are at the
  same height and the blocks differ, these are conflicting signatures, which is what
  double-sign evidence needs.
\<close>
theorem conflicting_quorums_accountable:
  assumes A: "bft_reachable C A" and B: "bft_reachable C B"
    and sm: "om_inv sm" "total_weight sm * 2 < 2 ^ 64"
    and qA: "precommit_quorum ordA A r (bft_threshold (stake_total sm)) sm = Some h1"
    and qB: "precommit_quorum ordB B r (bft_threshold (stake_total sm)) sm = Some h2"
    and ord: "\<And>t. set (ordA t) = set t" "\<And>t. set (ordB t) = set t"
  shows "total_weight sm < 3 * (\<Sum>pk \<in> equivocators A B r h1 h2. stake_weight sm pk)
    \<and> (\<forall>pk \<in> equivocators A B r h1 h2. \<exists>v1 v2.
         sig_ok C ''precommit'' v1 \<and> sig_ok C ''precommit'' v2
         \<and> validator_pubkey v1 = pk \<and> validator_pubkey v2 = pk
         \<and> v_round v1 = r \<and> v_round v2 = r \<and> v_height v1 = rs_height A \<and> v_height v2 = rs_height B
         \<and> block_hash v1 = Some h1 \<and> block_hash v2 = Some h2)"
proof
  let ?VA = "voters_for (ballot_of (precommits A) r) h1"
  let ?VB = "voters_for (ballot_of (precommits B) r) h2"
  have "2 * (total_weight sm * 2 div 3 + 1) - (\<Sum>pk \<in> fst ` set sm. stake_weight sm pk)
      \<le> (\<Sum>pk \<in> ?VA \<inter> ?VB. stake_weight sm pk)"
    by (rule bft.overlap [OF finite_voters finite_voters
        precommit_quorum_cast [OF A sm qA ord(1)] precommit_quorum_cast [OF B sm qB ord(2)]])
  then show "total_weight sm < 3 * (\<Sum>pk \<in> equivocators A B r h1 h2. stake_weight sm pk)"
    unfolding equivocators_def total_weight_def [symmetric] by (rule third_overlap)
  show "\<forall>pk \<in> equivocators A B r h1 h2. \<exists>v1 v2.
         sig_ok C ''precommit'' v1 \<and> sig_ok C ''precommit'' v2
         \<and> validator_pubkey v1 = pk \<and> validator_pubkey v2 = pk
         \<and> v_round v1 = r \<and> v_round v2 = r \<and> v_height v1 = rs_height A \<and> v_height v2 = rs_height B
         \<and> block_hash v1 = Some h1 \<and> block_hash v2 = Some h2"
  proof
    fix pk assume "pk \<in> equivocators A B r h1 h2"
    then obtain v1 v2 where v: "om_get (ballot_of (precommits A) r) pk = Some v1" "block_hash v1 = Some h1"
      "om_get (ballot_of (precommits B) r) pk = Some v2" "block_hash v2 = Some h2"
      by (auto simp: equivocators_def voters_for_def)
    have auth: "validator_pubkey u = pk \<and> v_round u = r \<and> v_height u = rs_height rs \<and> sig_ok C ''precommit'' u"
      if "bft_reachable C rs" "om_get (ballot_of (precommits rs) r) pk = Some u" for rs u
    proof -
      from that(2) obtain b where b: "om_get (precommits rs) r = Some b" "om_get b pk = Some u"
        by (auto simp: ballot_of_def om_get_def split: option.splits)
      have "ballots_ok (auth_for C ''precommit'') (rs_height rs) (precommits rs)"
        using bft_reachable_ok [OF that(1)] by (simp add: round_ok_def)
      from ballots_okD [OF this b] show ?thesis by (simp add: auth_for_def)
    qed
    show "\<exists>v1 v2. sig_ok C ''precommit'' v1 \<and> sig_ok C ''precommit'' v2
         \<and> validator_pubkey v1 = pk \<and> validator_pubkey v2 = pk
         \<and> v_round v1 = r \<and> v_round v2 = r \<and> v_height v1 = rs_height A \<and> v_height v2 = rs_height B
         \<and> block_hash v1 = Some h1 \<and> block_hash v2 = Some h2"
      using auth [OF A v(1)] auth [OF B v(3)] v(2,4) by blast
  qed
qed

theorem conflicting_quorums_accountable_witness:
  "total_weight demo_sm < 3 * (\<Sum>pk \<in> equivocators demo_rs demo_rs 0 [9] [9]. stake_weight demo_sm pk)"
proof -
  have r: "bft_reachable demo_checks demo_rs"
    unfolding demo_rs_def by (intro demo_reachable bft_reachable.init)
  have sm: "om_inv demo_sm" by (simp add: demo_sm_def om_inv_def)
  have q: "precommit_quorum rev demo_rs 0 (bft_threshold (stake_total demo_sm)) demo_sm = Some [9]" by code_simp
  show ?thesis
    using conflicting_quorums_accountable [OF r r sm _ q q] by (simp add: demo_sm_total)
qed

end
