(* ===== verification/Builder.thy ===== *)
theory Builder
  imports Axiom_Types Bytecode
begin

text \<open>
  The bytecode assembler of the SDK (\<^verbatim>\<open>truthlinked-sdk/src/builder.rs\<close>): code bytes,
  constant pool, the table of labels, and the jumps whose four target bytes are still to
  be patched. A method that returns the builder is a function of the builder; the panic
  of \<^verbatim>\<open>build\<close> on an undefined label is \<open>None\<close>.
\<close>

record pending_jump =
  patch_offset :: nat
  pj_label :: string

record cell_builder =
  cb_code :: bytes
  cb_pool :: "bytes list"
  cb_labels :: "string \<rightharpoonup> u32"
  cb_pending :: "pending_jump list"

definition cb_new :: cell_builder where
  "cb_new = \<lparr>cb_code = [], cb_pool = [], cb_labels = Map.empty, cb_pending = []\<rparr>"

definition add_const :: "bytes \<Rightarrow> cell_builder \<Rightarrow> u16 \<times> cell_builder" where
  "add_const d cb = (of_nat (length (cb_pool cb)), cb\<lparr>cb_pool := cb_pool cb @ [d]\<rparr>)"

definition cb_offset :: "cell_builder \<Rightarrow> u32" where
  "cb_offset cb = of_nat (length (cb_code cb))"

definition cb_label :: "string \<Rightarrow> cell_builder \<Rightarrow> cell_builder" where
  "cb_label name cb = cb\<lparr>cb_labels := (cb_labels cb)(name \<mapsto> cb_offset cb)\<rparr>"

definition emit_bytes :: "bytes \<Rightarrow> cell_builder \<Rightarrow> cell_builder" where
  "emit_bytes bs cb = cb\<lparr>cb_code := cb_code cb @ bs\<rparr>"

named_theorems builder \<open>what each method of the builder appends\<close>

definition e1 :: "u8 \<Rightarrow> cell_builder \<Rightarrow> cell_builder" where
  [builder]: "e1 t cb = emit_bytes [t] cb"

definition e2 :: "u8 \<Rightarrow> u8 \<Rightarrow> cell_builder \<Rightarrow> cell_builder" where
  [builder]: "e2 t a cb = emit_bytes [t, a] cb"

definition e3 :: "u8 \<Rightarrow> u8 \<Rightarrow> u8 \<Rightarrow> cell_builder \<Rightarrow> cell_builder" where
  [builder]: "e3 t a b cb = emit_bytes [t, a, b] cb"

definition e4 :: "u8 \<Rightarrow> u8 \<Rightarrow> u8 \<Rightarrow> u8 \<Rightarrow> cell_builder \<Rightarrow> cell_builder" where
  [builder]: "e4 t a b c cb = emit_bytes [t, a, b, c] cb"

definition eu16 :: "u16 \<Rightarrow> cell_builder \<Rightarrow> cell_builder" where
  [builder]: "eu16 v cb = emit_bytes (to_le_bytes 2 v) cb"

definition eu32 :: "u32 \<Rightarrow> cell_builder \<Rightarrow> cell_builder" where
  [builder]: "eu32 v cb = emit_bytes (to_le_bytes 4 v) cb"

definition eu64 :: "u64 \<Rightarrow> cell_builder \<Rightarrow> cell_builder" where
  [builder]: "eu64 v cb = emit_bytes (to_le_bytes 8 v) cb"

definition jump_pending :: "u8 \<Rightarrow> u8 option \<Rightarrow> string \<Rightarrow> cell_builder \<Rightarrow> cell_builder" where
  "jump_pending t cond label cb =
    (let cb = emit_bytes (t # (case cond of Some c \<Rightarrow> [c] | None \<Rightarrow> [])) cb;
         patch = length (cb_code cb);
         cb = eu32 0 cb
     in cb\<lparr>cb_pending := cb_pending cb @ [\<lparr>patch_offset = patch, pj_label = label\<rparr>]\<rparr>)"

section \<open>One method per instruction\<close>

definition cb_add :: "u8 \<Rightarrow> u8 \<Rightarrow> u8 \<Rightarrow> cell_builder \<Rightarrow> cell_builder" where
  [builder]: "cb_add d a b cb = e4 tag_ADD d a b cb"

definition cb_sub :: "u8 \<Rightarrow> u8 \<Rightarrow> u8 \<Rightarrow> cell_builder \<Rightarrow> cell_builder" where
  [builder]: "cb_sub d a b cb = e4 tag_SUB d a b cb"

definition cb_mul :: "u8 \<Rightarrow> u8 \<Rightarrow> u8 \<Rightarrow> cell_builder \<Rightarrow> cell_builder" where
  [builder]: "cb_mul d a b cb = e4 tag_MUL d a b cb"

definition cb_div :: "u8 \<Rightarrow> u8 \<Rightarrow> u8 \<Rightarrow> cell_builder \<Rightarrow> cell_builder" where
  [builder]: "cb_div d a b cb = e4 tag_DIV d a b cb"

definition cb_modulo :: "u8 \<Rightarrow> u8 \<Rightarrow> u8 \<Rightarrow> cell_builder \<Rightarrow> cell_builder" where
  [builder]: "cb_modulo d a b cb = e4 tag_MOD d a b cb"

definition cb_add_sat :: "u8 \<Rightarrow> u8 \<Rightarrow> u8 \<Rightarrow> cell_builder \<Rightarrow> cell_builder" where
  [builder]: "cb_add_sat d a b cb = e4 tag_ADD_SAT d a b cb"

definition cb_sub_sat :: "u8 \<Rightarrow> u8 \<Rightarrow> u8 \<Rightarrow> cell_builder \<Rightarrow> cell_builder" where
  [builder]: "cb_sub_sat d a b cb = e4 tag_SUB_SAT d a b cb"

definition cb_and :: "u8 \<Rightarrow> u8 \<Rightarrow> u8 \<Rightarrow> cell_builder \<Rightarrow> cell_builder" where
  [builder]: "cb_and d a b cb = e4 tag_AND d a b cb"

definition cb_or :: "u8 \<Rightarrow> u8 \<Rightarrow> u8 \<Rightarrow> cell_builder \<Rightarrow> cell_builder" where
  [builder]: "cb_or d a b cb = e4 tag_OR d a b cb"

definition cb_xor :: "u8 \<Rightarrow> u8 \<Rightarrow> u8 \<Rightarrow> cell_builder \<Rightarrow> cell_builder" where
  [builder]: "cb_xor d a b cb = e4 tag_XOR d a b cb"

definition cb_not :: "u8 \<Rightarrow> u8 \<Rightarrow> cell_builder \<Rightarrow> cell_builder" where
  [builder]: "cb_not d a cb = e3 tag_NOT d a cb"

definition cb_shl :: "u8 \<Rightarrow> u8 \<Rightarrow> u8 \<Rightarrow> cell_builder \<Rightarrow> cell_builder" where
  [builder]: "cb_shl d a s cb = e4 tag_SHL d a s cb"

definition cb_shr :: "u8 \<Rightarrow> u8 \<Rightarrow> u8 \<Rightarrow> cell_builder \<Rightarrow> cell_builder" where
  [builder]: "cb_shr d a s cb = e4 tag_SHR d a s cb"

definition cb_eq :: "u8 \<Rightarrow> u8 \<Rightarrow> u8 \<Rightarrow> cell_builder \<Rightarrow> cell_builder" where
  [builder]: "cb_eq d a b cb = e4 tag_EQ d a b cb"

definition cb_ne :: "u8 \<Rightarrow> u8 \<Rightarrow> u8 \<Rightarrow> cell_builder \<Rightarrow> cell_builder" where
  [builder]: "cb_ne d a b cb = e4 tag_NE d a b cb"

definition cb_lt :: "u8 \<Rightarrow> u8 \<Rightarrow> u8 \<Rightarrow> cell_builder \<Rightarrow> cell_builder" where
  [builder]: "cb_lt d a b cb = e4 tag_LT d a b cb"

definition cb_lte :: "u8 \<Rightarrow> u8 \<Rightarrow> u8 \<Rightarrow> cell_builder \<Rightarrow> cell_builder" where
  [builder]: "cb_lte d a b cb = e4 tag_LTE d a b cb"

definition cb_gt :: "u8 \<Rightarrow> u8 \<Rightarrow> u8 \<Rightarrow> cell_builder \<Rightarrow> cell_builder" where
  [builder]: "cb_gt d a b cb = e4 tag_GT d a b cb"

definition cb_gte :: "u8 \<Rightarrow> u8 \<Rightarrow> u8 \<Rightarrow> cell_builder \<Rightarrow> cell_builder" where
  [builder]: "cb_gte d a b cb = e4 tag_GTE d a b cb"

definition cb_is_zero :: "u8 \<Rightarrow> u8 \<Rightarrow> cell_builder \<Rightarrow> cell_builder" where
  [builder]: "cb_is_zero d a cb = e3 tag_IS_ZERO d a cb"

definition cb_jump :: "u32 \<Rightarrow> cell_builder \<Rightarrow> cell_builder" where
  [builder]: "cb_jump t cb = eu32 t (e1 tag_JUMP cb)"

definition cb_jump_if :: "u8 \<Rightarrow> u32 \<Rightarrow> cell_builder \<Rightarrow> cell_builder" where
  [builder]: "cb_jump_if c t cb = eu32 t (e2 tag_JUMP_IF c cb)"

definition cb_jump_if_not :: "u8 \<Rightarrow> u32 \<Rightarrow> cell_builder \<Rightarrow> cell_builder" where
  [builder]: "cb_jump_if_not c t cb = eu32 t (e2 tag_JUMP_IF_NOT c cb)"

definition cb_jump_label :: "string \<Rightarrow> cell_builder \<Rightarrow> cell_builder" where
  [builder]: "cb_jump_label l cb = jump_pending tag_JUMP None l cb"

definition cb_jump_if_label :: "u8 \<Rightarrow> string \<Rightarrow> cell_builder \<Rightarrow> cell_builder" where
  [builder]: "cb_jump_if_label c l cb = jump_pending tag_JUMP_IF (Some c) l cb"

definition cb_jump_if_not_label :: "u8 \<Rightarrow> string \<Rightarrow> cell_builder \<Rightarrow> cell_builder" where
  [builder]: "cb_jump_if_not_label c l cb = jump_pending tag_JUMP_IF_NOT (Some c) l cb"

definition cb_call :: "u32 \<Rightarrow> cell_builder \<Rightarrow> cell_builder" where
  [builder]: "cb_call t cb = eu32 t (e1 tag_CALL cb)"

definition cb_call_label :: "string \<Rightarrow> cell_builder \<Rightarrow> cell_builder" where
  [builder]: "cb_call_label l cb = jump_pending tag_CALL None l cb"

definition cb_ret :: "cell_builder \<Rightarrow> cell_builder" where
  [builder]: "cb_ret cb = e1 tag_RETURN cb"

definition cb_halt :: "cell_builder \<Rightarrow> cell_builder" where
  [builder]: "cb_halt cb = e1 tag_HALT cb"

definition cb_trap :: "u16 \<Rightarrow> cell_builder \<Rightarrow> cell_builder" where
  [builder]: "cb_trap c cb = eu16 c (e1 tag_TRAP cb)"

definition cb_load_const :: "u8 \<Rightarrow> u16 \<Rightarrow> cell_builder \<Rightarrow> cell_builder" where
  [builder]: "cb_load_const d i cb = eu16 i (e2 tag_LOAD_CONST d cb)"

definition cb_load_imm8 :: "u8 \<Rightarrow> u8 \<Rightarrow> cell_builder \<Rightarrow> cell_builder" where
  [builder]: "cb_load_imm8 d v cb = e3 tag_LOAD_IMM8 d v cb"

definition cb_load_imm64 :: "u8 \<Rightarrow> u64 \<Rightarrow> cell_builder \<Rightarrow> cell_builder" where
  [builder]: "cb_load_imm64 d v cb = eu64 v (e2 tag_LOAD_IMM64 d cb)"

definition cb_load_bytes32 :: "u8 \<Rightarrow> bytes \<Rightarrow> cell_builder \<Rightarrow> cell_builder" where
  [builder]: "cb_load_bytes32 d data cb = (let (i, cb) = add_const data cb in cb_load_const d i cb)"

definition cb_mov :: "u8 \<Rightarrow> u8 \<Rightarrow> cell_builder \<Rightarrow> cell_builder" where
  [builder]: "cb_mov d s cb = e3 tag_MOVE d s cb"

definition cb_swap :: "u8 \<Rightarrow> u8 \<Rightarrow> cell_builder \<Rightarrow> cell_builder" where
  [builder]: "cb_swap a b cb = e3 tag_SWAP a b cb"

definition cb_sload :: "u8 \<Rightarrow> u8 \<Rightarrow> cell_builder \<Rightarrow> cell_builder" where
  [builder]: "cb_sload d k cb = e3 tag_SLOAD d k cb"

definition cb_sstore :: "u8 \<Rightarrow> u8 \<Rightarrow> cell_builder \<Rightarrow> cell_builder" where
  [builder]: "cb_sstore k v cb = e3 tag_SSTORE k v cb"

definition cb_sdelete :: "u8 \<Rightarrow> cell_builder \<Rightarrow> cell_builder" where
  [builder]: "cb_sdelete k cb = e2 tag_SDELETE k cb"

definition cb_get_caller :: "u8 \<Rightarrow> cell_builder \<Rightarrow> cell_builder" where
  [builder]: "cb_get_caller d cb = e2 tag_GET_CALLER d cb"

definition cb_get_owner :: "u8 \<Rightarrow> cell_builder \<Rightarrow> cell_builder" where
  [builder]: "cb_get_owner d cb = e2 tag_GET_OWNER d cb"

definition cb_get_cell_id :: "u8 \<Rightarrow> cell_builder \<Rightarrow> cell_builder" where
  [builder]: "cb_get_cell_id d cb = e2 tag_GET_CELL_ID d cb"

definition cb_get_height :: "u8 \<Rightarrow> cell_builder \<Rightarrow> cell_builder" where
  [builder]: "cb_get_height d cb = e2 tag_GET_HEIGHT d cb"

definition cb_get_timestamp :: "u8 \<Rightarrow> cell_builder \<Rightarrow> cell_builder" where
  [builder]: "cb_get_timestamp d cb = e2 tag_GET_TIMESTAMP d cb"

definition cb_get_value :: "u8 \<Rightarrow> cell_builder \<Rightarrow> cell_builder" where
  [builder]: "cb_get_value d cb = e2 tag_GET_VALUE d cb"

definition cb_get_calldata_len :: "u8 \<Rightarrow> cell_builder \<Rightarrow> cell_builder" where
  [builder]: "cb_get_calldata_len d cb = e2 tag_GET_CALLDATA_LEN d cb"

definition cb_get_calldata :: "u8 \<Rightarrow> u8 \<Rightarrow> cell_builder \<Rightarrow> cell_builder" where
  [builder]: "cb_get_calldata d off cb = e3 tag_GET_CALLDATA d off cb"

definition cb_set_return :: "u8 \<Rightarrow> u8 \<Rightarrow> cell_builder \<Rightarrow> cell_builder" where
  [builder]: "cb_set_return i l cb = e3 tag_SET_RETURN i l cb"

definition cb_set_return_reg :: "u8 \<Rightarrow> u8 \<Rightarrow> cell_builder \<Rightarrow> cell_builder" where
  [builder]: "cb_set_return_reg d l cb = e3 tag_SET_RETURN_REG d l cb"

definition cb_emit_log :: "u8 \<Rightarrow> u8 \<Rightarrow> cell_builder \<Rightarrow> cell_builder" where
  [builder]: "cb_emit_log t d cb = e3 tag_EMIT_LOG t d cb"

definition cb_emit_log_reg :: "u8 \<Rightarrow> u8 \<Rightarrow> u8 \<Rightarrow> cell_builder \<Rightarrow> cell_builder" where
  [builder]: "cb_emit_log_reg t d l cb = e4 tag_EMIT_LOG_REG t d l cb"

definition cb_call_cell :: "u8 \<Rightarrow> u8 \<Rightarrow> u8 \<Rightarrow> u8 \<Rightarrow> cell_builder \<Rightarrow> cell_builder" where
  [builder]: "cb_call_cell cell cd len val cb = emit_bytes [cell, cd, len, val] (e1 tag_CALL_CELL cb)"

definition cb_buf_reset :: "cell_builder \<Rightarrow> cell_builder" where
  [builder]: "cb_buf_reset cb = e1 tag_BUF_RESET cb"

definition cb_buf_write_const :: "u16 \<Rightarrow> cell_builder \<Rightarrow> cell_builder" where
  [builder]: "cb_buf_write_const idx cb = eu16 idx (e1 tag_BUF_WRITE_CONST cb)"

definition cb_buf_write_reg :: "u8 \<Rightarrow> cell_builder \<Rightarrow> cell_builder" where
  [builder]: "cb_buf_write_reg src cb = e2 tag_BUF_WRITE_REG src cb"

definition cb_buf_call_cell :: "u8 \<Rightarrow> u8 \<Rightarrow> cell_builder \<Rightarrow> cell_builder" where
  [builder]: "cb_buf_call_cell cell val cb = e3 tag_BUF_CALL_CELL cell val cb"

definition cb_buf_set_return :: "cell_builder \<Rightarrow> cell_builder" where
  [builder]: "cb_buf_set_return cb = e1 tag_BUF_SET_RETURN cb"

definition cb_hash32 :: "u8 \<Rightarrow> u8 \<Rightarrow> cell_builder \<Rightarrow> cell_builder" where
  [builder]: "cb_hash32 d s cb = e3 tag_HASH32 d s cb"

definition cb_hash32_const :: "u8 \<Rightarrow> u16 \<Rightarrow> cell_builder \<Rightarrow> cell_builder" where
  [builder]: "cb_hash32_const d i cb = eu16 i (e2 tag_HASH32_CONST d cb)"

definition cb_require_owner :: "cell_builder \<Rightarrow> cell_builder" where
  [builder]: "cb_require_owner cb = e1 tag_REQUIRE_OWNER cb"

definition cb_require_caller :: "u8 \<Rightarrow> cell_builder \<Rightarrow> cell_builder" where
  [builder]: "cb_require_caller r cb = e2 tag_REQUIRE_CALLER r cb"

definition cb_require_eq :: "u8 \<Rightarrow> u8 \<Rightarrow> cell_builder \<Rightarrow> cell_builder" where
  [builder]: "cb_require_eq a b cb = e3 tag_REQUIRE_EQ a b cb"

definition cb_require_ne :: "u8 \<Rightarrow> u8 \<Rightarrow> cell_builder \<Rightarrow> cell_builder" where
  [builder]: "cb_require_ne a b cb = e3 tag_REQUIRE_NE a b cb"

definition cb_require_lt :: "u8 \<Rightarrow> u8 \<Rightarrow> cell_builder \<Rightarrow> cell_builder" where
  [builder]: "cb_require_lt a b cb = e3 tag_REQUIRE_LT a b cb"

definition cb_require_non_zero :: "u8 \<Rightarrow> cell_builder \<Rightarrow> cell_builder" where
  [builder]: "cb_require_non_zero r cb = e2 tag_REQUIRE_NON_ZERO r cb"

definition cb_require_gas :: "u64 \<Rightarrow> cell_builder \<Rightarrow> cell_builder" where
  [builder]: "cb_require_gas t cb = eu64 t (e1 tag_REQUIRE_GAS cb)"

definition cb_token_balance :: "u8 \<Rightarrow> u8 \<Rightarrow> u8 \<Rightarrow> cell_builder \<Rightarrow> cell_builder" where
  [builder]: "cb_token_balance d tok acc cb = e4 tag_TOKEN_BALANCE d tok acc cb"

definition cb_token_transfer :: "u8 \<Rightarrow> u8 \<Rightarrow> u8 \<Rightarrow> u8 \<Rightarrow> cell_builder \<Rightarrow> cell_builder" where
  [builder]: "cb_token_transfer tok from to amt cb = emit_bytes [tok, from, to, amt] (e1 tag_TOKEN_TRANSFER cb)"

definition cb_token_mint :: "u8 \<Rightarrow> u8 \<Rightarrow> u8 \<Rightarrow> cell_builder \<Rightarrow> cell_builder" where
  [builder]: "cb_token_mint tok rec amt cb = e4 tag_TOKEN_MINT tok rec amt cb"

definition cb_token_burn :: "u8 \<Rightarrow> u8 \<Rightarrow> u8 \<Rightarrow> cell_builder \<Rightarrow> cell_builder" where
  [builder]: "cb_token_burn tok own amt cb = e4 tag_TOKEN_BURN tok own amt cb"

definition cb_token_freeze :: "u8 \<Rightarrow> u8 \<Rightarrow> cell_builder \<Rightarrow> cell_builder" where
  [builder]: "cb_token_freeze tok acc cb = e3 tag_TOKEN_FREEZE tok acc cb"

definition cb_token_thaw :: "u8 \<Rightarrow> u8 \<Rightarrow> cell_builder \<Rightarrow> cell_builder" where
  [builder]: "cb_token_thaw tok acc cb = e3 tag_TOKEN_THAW tok acc cb"

definition cb_accord_request :: "u8 \<Rightarrow> u8 \<Rightarrow> u8 \<Rightarrow> u8 \<Rightarrow> cell_builder \<Rightarrow> cell_builder" where
  [builder]: "cb_accord_request dst url_r meth_r body_r cb = emit_bytes [dst, url_r, meth_r, body_r] (e1 tag_ACCORD_REQUEST cb)"

definition cb_accord_read :: "u8 \<Rightarrow> u8 \<Rightarrow> cell_builder \<Rightarrow> cell_builder" where
  [builder]: "cb_accord_read dst req_r cb = e3 tag_ACCORD_READ dst req_r cb"

section \<open>Building\<close>

primrec patch_all :: "(string \<rightharpoonup> u32) \<Rightarrow> pending_jump list \<Rightarrow> bytes \<Rightarrow> bytes option" where
  "patch_all labels [] cd = Some cd"
| "patch_all labels (j # js) cd = (case labels (pj_label j) of
     None \<Rightarrow> None
   | Some target \<Rightarrow> patch_all labels js (overwrite cd (patch_offset j) (to_le_bytes 4 target)))"

definition build :: "cell_builder \<Rightarrow> bytes option" where
  "build cb = map_option (\<lambda>cd. encode \<lparr>const_pool = cb_pool cb, code = cd\<rparr>)
     (patch_all (cb_labels cb) (cb_pending cb) (cb_code cb))"

lemma emit_bytes_simps [simp]:
  "cb_code (emit_bytes bs cb) = cb_code cb @ bs" "cb_pool (emit_bytes bs cb) = cb_pool cb"
  "cb_labels (emit_bytes bs cb) = cb_labels cb" "cb_pending (emit_bytes bs cb) = cb_pending cb"
  by (simp_all add: emit_bytes_def)

lemma jump_pending_simps [simp]:
  "cb_code (jump_pending t c l cb) = cb_code cb @ t # (case c of Some c \<Rightarrow> [c] | None \<Rightarrow> []) @ to_le_bytes 4 (0 :: u32)"
  "cb_pool (jump_pending t c l cb) = cb_pool cb" "cb_labels (jump_pending t c l cb) = cb_labels cb"
  "cb_pending (jump_pending t c l cb) = cb_pending cb @ [\<lparr>patch_offset =
     length (cb_code cb) + (case c of Some _ \<Rightarrow> 2 | None \<Rightarrow> 1), pj_label = l\<rparr>]"
  by (cases c; simp add: jump_pending_def Let_def eu32_def)+

end
