(* ===== verification/Ir.thy ===== *)
theory Ir
  imports Prelude
begin

text \<open>
  The virtual instructions of the SDK (\<^verbatim>\<open>truthlinked-sdk/src/ir.rs\<close>) and the
  registers each of them writes and reads, as the register allocator sees them. Virtual
  register 0 is the zero register and never reported.
\<close>

type_synonym vreg = u32
type_synonym label = u32

datatype (plugins only: size) ir =
    IrAdd vreg vreg vreg
  | IrSub vreg vreg vreg
  | IrMul vreg vreg vreg
  | IrDiv vreg vreg vreg
  | IrMod vreg vreg vreg
  | IrAddSat vreg vreg vreg
  | IrSubSat vreg vreg vreg
  | IrAnd vreg vreg vreg
  | IrOr vreg vreg vreg
  | IrXor vreg vreg vreg
  | IrNot vreg vreg
  | IrShl vreg vreg u8
  | IrShr vreg vreg u8
  | IrEq vreg vreg vreg
  | IrNe vreg vreg vreg
  | IrLt vreg vreg vreg
  | IrLte vreg vreg vreg
  | IrGt vreg vreg vreg
  | IrGte vreg vreg vreg
  | IrIsZero vreg vreg
  | IrLabel label
  | IrJump label
  | IrJumpIf vreg label
  | IrJumpIfNot vreg label
  | IrCall label
  | IrReturn
  | IrHalt
  | IrTrap u16
  | IrLoadConst vreg bytes
  | IrLoadConstIndex vreg bytes
  | IrLoadImm8 vreg u8
  | IrLoadImm64 vreg u64
  | IrMov vreg vreg
  | IrSLoad vreg vreg
  | IrSStore vreg vreg
  | IrSDelete vreg
  | IrGetCaller vreg
  | IrGetOwner vreg
  | IrGetCellId vreg
  | IrGetHeight vreg
  | IrGetTimestamp vreg
  | IrGetValue vreg
  | IrGetCalldataLen vreg
  | IrGetCalldata vreg vreg
  | IrSetReturn vreg vreg
  | IrSetReturnReg vreg vreg
  | IrEmitLog vreg vreg
  | IrEmitLogReg vreg vreg vreg
  | IrCallCell vreg vreg vreg vreg
  | IrBufReset
  | IrBufWriteConst bytes
  | IrBufWriteReg vreg
  | IrBufCallCell vreg vreg
  | IrBufSetReturn
  | IrHash32 vreg vreg
  | IrHash32Const vreg bytes
  | IrRequireOwner
  | IrRequireCaller vreg
  | IrRequireEq vreg vreg
  | IrRequireNe vreg vreg
  | IrRequireLt vreg vreg
  | IrRequireNonZero vreg
  | IrRequireGas u64
  | IrTokenBalance vreg vreg vreg
  | IrTokenTransfer vreg vreg vreg vreg
  | IrTokenMint vreg vreg vreg
  | IrTokenBurn vreg vreg vreg
  | IrTokenFreeze vreg vreg
  | IrTokenThaw vreg vreg
  | IrAccordRequest vreg vreg vreg vreg
  | IrAccordRead vreg vreg

text \<open>The register an instruction defines.\<close>

definition written :: "vreg \<Rightarrow> vreg option" where
  "written d = (if d \<noteq> 0 then Some d else None)"

primrec ir_def :: "ir \<Rightarrow> vreg option" where
  "ir_def (IrAdd x0 x1 x2) = written x0"
| "ir_def (IrSub x0 x1 x2) = written x0"
| "ir_def (IrMul x0 x1 x2) = written x0"
| "ir_def (IrDiv x0 x1 x2) = written x0"
| "ir_def (IrMod x0 x1 x2) = written x0"
| "ir_def (IrAddSat x0 x1 x2) = written x0"
| "ir_def (IrSubSat x0 x1 x2) = written x0"
| "ir_def (IrAnd x0 x1 x2) = written x0"
| "ir_def (IrOr x0 x1 x2) = written x0"
| "ir_def (IrXor x0 x1 x2) = written x0"
| "ir_def (IrNot x0 x1) = written x0"
| "ir_def (IrShl x0 x1 x2) = written x0"
| "ir_def (IrShr x0 x1 x2) = written x0"
| "ir_def (IrEq x0 x1 x2) = written x0"
| "ir_def (IrNe x0 x1 x2) = written x0"
| "ir_def (IrLt x0 x1 x2) = written x0"
| "ir_def (IrLte x0 x1 x2) = written x0"
| "ir_def (IrGt x0 x1 x2) = written x0"
| "ir_def (IrGte x0 x1 x2) = written x0"
| "ir_def (IrIsZero x0 x1) = written x0"
| "ir_def (IrLabel x0) = None"
| "ir_def (IrJump x0) = None"
| "ir_def (IrJumpIf x0 x1) = None"
| "ir_def (IrJumpIfNot x0 x1) = None"
| "ir_def (IrCall x0) = None"
| "ir_def IrReturn = None"
| "ir_def IrHalt = None"
| "ir_def (IrTrap x0) = None"
| "ir_def (IrLoadConst x0 x1) = written x0"
| "ir_def (IrLoadConstIndex x0 x1) = written x0"
| "ir_def (IrLoadImm8 x0 x1) = written x0"
| "ir_def (IrLoadImm64 x0 x1) = written x0"
| "ir_def (IrMov x0 x1) = written x0"
| "ir_def (IrSLoad x0 x1) = written x0"
| "ir_def (IrSStore x0 x1) = None"
| "ir_def (IrSDelete x0) = None"
| "ir_def (IrGetCaller x0) = written x0"
| "ir_def (IrGetOwner x0) = written x0"
| "ir_def (IrGetCellId x0) = written x0"
| "ir_def (IrGetHeight x0) = written x0"
| "ir_def (IrGetTimestamp x0) = written x0"
| "ir_def (IrGetValue x0) = written x0"
| "ir_def (IrGetCalldataLen x0) = written x0"
| "ir_def (IrGetCalldata x0 x1) = written x0"
| "ir_def (IrSetReturn x0 x1) = None"
| "ir_def (IrSetReturnReg x0 x1) = None"
| "ir_def (IrEmitLog x0 x1) = None"
| "ir_def (IrEmitLogReg x0 x1 x2) = None"
| "ir_def (IrCallCell x0 x1 x2 x3) = None"
| "ir_def IrBufReset = None"
| "ir_def (IrBufWriteConst x0) = None"
| "ir_def (IrBufWriteReg x0) = None"
| "ir_def (IrBufCallCell x0 x1) = None"
| "ir_def IrBufSetReturn = None"
| "ir_def (IrHash32 x0 x1) = written x0"
| "ir_def (IrHash32Const x0 x1) = written x0"
| "ir_def IrRequireOwner = None"
| "ir_def (IrRequireCaller x0) = None"
| "ir_def (IrRequireEq x0 x1) = None"
| "ir_def (IrRequireNe x0 x1) = None"
| "ir_def (IrRequireLt x0 x1) = None"
| "ir_def (IrRequireNonZero x0) = None"
| "ir_def (IrRequireGas x0) = None"
| "ir_def (IrTokenBalance x0 x1 x2) = written x0"
| "ir_def (IrTokenTransfer x0 x1 x2 x3) = None"
| "ir_def (IrTokenMint x0 x1 x2) = None"
| "ir_def (IrTokenBurn x0 x1 x2) = None"
| "ir_def (IrTokenFreeze x0 x1) = None"
| "ir_def (IrTokenThaw x0 x1) = None"
| "ir_def (IrAccordRequest x0 x1 x2 x3) = written x0"
| "ir_def (IrAccordRead x0 x1) = written x0"

text \<open>The registers it uses, in the order they are pushed.\<close>

definition used :: "vreg list \<Rightarrow> vreg list" where
  "used vs = filter (\<lambda>r. r \<noteq> 0) vs"

primrec ir_uses :: "ir \<Rightarrow> vreg list" where
  "ir_uses (IrAdd x0 x1 x2) = used [x1, x2]"
| "ir_uses (IrSub x0 x1 x2) = used [x1, x2]"
| "ir_uses (IrMul x0 x1 x2) = used [x1, x2]"
| "ir_uses (IrDiv x0 x1 x2) = used [x1, x2]"
| "ir_uses (IrMod x0 x1 x2) = used [x1, x2]"
| "ir_uses (IrAddSat x0 x1 x2) = used [x1, x2]"
| "ir_uses (IrSubSat x0 x1 x2) = used [x1, x2]"
| "ir_uses (IrAnd x0 x1 x2) = used [x1, x2]"
| "ir_uses (IrOr x0 x1 x2) = used [x1, x2]"
| "ir_uses (IrXor x0 x1 x2) = used [x1, x2]"
| "ir_uses (IrNot x0 x1) = used [x1]"
| "ir_uses (IrShl x0 x1 x2) = used [x1]"
| "ir_uses (IrShr x0 x1 x2) = used [x1]"
| "ir_uses (IrEq x0 x1 x2) = used [x1, x2]"
| "ir_uses (IrNe x0 x1 x2) = used [x1, x2]"
| "ir_uses (IrLt x0 x1 x2) = used [x1, x2]"
| "ir_uses (IrLte x0 x1 x2) = used [x1, x2]"
| "ir_uses (IrGt x0 x1 x2) = used [x1, x2]"
| "ir_uses (IrGte x0 x1 x2) = used [x1, x2]"
| "ir_uses (IrIsZero x0 x1) = used [x1]"
| "ir_uses (IrLabel x0) = []"
| "ir_uses (IrJump x0) = []"
| "ir_uses (IrJumpIf x0 x1) = used [x0]"
| "ir_uses (IrJumpIfNot x0 x1) = used [x0]"
| "ir_uses (IrCall x0) = []"
| "ir_uses IrReturn = []"
| "ir_uses IrHalt = []"
| "ir_uses (IrTrap x0) = []"
| "ir_uses (IrLoadConst x0 x1) = []"
| "ir_uses (IrLoadConstIndex x0 x1) = []"
| "ir_uses (IrLoadImm8 x0 x1) = []"
| "ir_uses (IrLoadImm64 x0 x1) = []"
| "ir_uses (IrMov x0 x1) = used [x1]"
| "ir_uses (IrSLoad x0 x1) = used [x1]"
| "ir_uses (IrSStore x0 x1) = used [x0, x1]"
| "ir_uses (IrSDelete x0) = used [x0]"
| "ir_uses (IrGetCaller x0) = []"
| "ir_uses (IrGetOwner x0) = []"
| "ir_uses (IrGetCellId x0) = []"
| "ir_uses (IrGetHeight x0) = []"
| "ir_uses (IrGetTimestamp x0) = []"
| "ir_uses (IrGetValue x0) = []"
| "ir_uses (IrGetCalldataLen x0) = []"
| "ir_uses (IrGetCalldata x0 x1) = used [x1]"
| "ir_uses (IrSetReturn x0 x1) = used [x0, x1]"
| "ir_uses (IrSetReturnReg x0 x1) = used [x0, x1]"
| "ir_uses (IrEmitLog x0 x1) = used [x0, x1]"
| "ir_uses (IrEmitLogReg x0 x1 x2) = used [x0, x1, x2]"
| "ir_uses (IrCallCell x0 x1 x2 x3) = used [x0, x1, x2, x3]"
| "ir_uses IrBufReset = []"
| "ir_uses (IrBufWriteConst x0) = []"
| "ir_uses (IrBufWriteReg x0) = used [x0]"
| "ir_uses (IrBufCallCell x0 x1) = used [x0, x1]"
| "ir_uses IrBufSetReturn = []"
| "ir_uses (IrHash32 x0 x1) = used [x1]"
| "ir_uses (IrHash32Const x0 x1) = []"
| "ir_uses IrRequireOwner = []"
| "ir_uses (IrRequireCaller x0) = used [x0]"
| "ir_uses (IrRequireEq x0 x1) = used [x0, x1]"
| "ir_uses (IrRequireNe x0 x1) = used [x0, x1]"
| "ir_uses (IrRequireLt x0 x1) = used [x0, x1]"
| "ir_uses (IrRequireNonZero x0) = used [x0]"
| "ir_uses (IrRequireGas x0) = []"
| "ir_uses (IrTokenBalance x0 x1 x2) = used [x1, x2]"
| "ir_uses (IrTokenTransfer x0 x1 x2 x3) = used [x0, x1, x2, x3]"
| "ir_uses (IrTokenMint x0 x1 x2) = used [x1, x2]"
| "ir_uses (IrTokenBurn x0 x1 x2) = used [x1, x2]"
| "ir_uses (IrTokenFreeze x0 x1) = used [x0, x1]"
| "ir_uses (IrTokenThaw x0 x1) = used [x0, x1]"
| "ir_uses (IrAccordRequest x0 x1 x2 x3) = used [x1, x2, x3]"
| "ir_uses (IrAccordRead x0 x1) = used [x1]"

primrec is_call :: "ir \<Rightarrow> bool" where
  "is_call (IrAdd x0 x1 x2) = False"
| "is_call (IrSub x0 x1 x2) = False"
| "is_call (IrMul x0 x1 x2) = False"
| "is_call (IrDiv x0 x1 x2) = False"
| "is_call (IrMod x0 x1 x2) = False"
| "is_call (IrAddSat x0 x1 x2) = False"
| "is_call (IrSubSat x0 x1 x2) = False"
| "is_call (IrAnd x0 x1 x2) = False"
| "is_call (IrOr x0 x1 x2) = False"
| "is_call (IrXor x0 x1 x2) = False"
| "is_call (IrNot x0 x1) = False"
| "is_call (IrShl x0 x1 x2) = False"
| "is_call (IrShr x0 x1 x2) = False"
| "is_call (IrEq x0 x1 x2) = False"
| "is_call (IrNe x0 x1 x2) = False"
| "is_call (IrLt x0 x1 x2) = False"
| "is_call (IrLte x0 x1 x2) = False"
| "is_call (IrGt x0 x1 x2) = False"
| "is_call (IrGte x0 x1 x2) = False"
| "is_call (IrIsZero x0 x1) = False"
| "is_call (IrLabel x0) = False"
| "is_call (IrJump x0) = False"
| "is_call (IrJumpIf x0 x1) = False"
| "is_call (IrJumpIfNot x0 x1) = False"
| "is_call (IrCall x0) = True"
| "is_call IrReturn = False"
| "is_call IrHalt = False"
| "is_call (IrTrap x0) = False"
| "is_call (IrLoadConst x0 x1) = False"
| "is_call (IrLoadConstIndex x0 x1) = False"
| "is_call (IrLoadImm8 x0 x1) = False"
| "is_call (IrLoadImm64 x0 x1) = False"
| "is_call (IrMov x0 x1) = False"
| "is_call (IrSLoad x0 x1) = False"
| "is_call (IrSStore x0 x1) = False"
| "is_call (IrSDelete x0) = False"
| "is_call (IrGetCaller x0) = False"
| "is_call (IrGetOwner x0) = False"
| "is_call (IrGetCellId x0) = False"
| "is_call (IrGetHeight x0) = False"
| "is_call (IrGetTimestamp x0) = False"
| "is_call (IrGetValue x0) = False"
| "is_call (IrGetCalldataLen x0) = False"
| "is_call (IrGetCalldata x0 x1) = False"
| "is_call (IrSetReturn x0 x1) = False"
| "is_call (IrSetReturnReg x0 x1) = False"
| "is_call (IrEmitLog x0 x1) = False"
| "is_call (IrEmitLogReg x0 x1 x2) = False"
| "is_call (IrCallCell x0 x1 x2 x3) = False"
| "is_call IrBufReset = False"
| "is_call (IrBufWriteConst x0) = False"
| "is_call (IrBufWriteReg x0) = False"
| "is_call (IrBufCallCell x0 x1) = False"
| "is_call IrBufSetReturn = False"
| "is_call (IrHash32 x0 x1) = False"
| "is_call (IrHash32Const x0 x1) = False"
| "is_call IrRequireOwner = False"
| "is_call (IrRequireCaller x0) = False"
| "is_call (IrRequireEq x0 x1) = False"
| "is_call (IrRequireNe x0 x1) = False"
| "is_call (IrRequireLt x0 x1) = False"
| "is_call (IrRequireNonZero x0) = False"
| "is_call (IrRequireGas x0) = False"
| "is_call (IrTokenBalance x0 x1 x2) = False"
| "is_call (IrTokenTransfer x0 x1 x2 x3) = False"
| "is_call (IrTokenMint x0 x1 x2) = False"
| "is_call (IrTokenBurn x0 x1 x2) = False"
| "is_call (IrTokenFreeze x0 x1) = False"
| "is_call (IrTokenThaw x0 x1) = False"
| "is_call (IrAccordRequest x0 x1 x2 x3) = False"
| "is_call (IrAccordRead x0 x1) = False"

lemma ir_def_nonzero: "ir_def i \<noteq> Some 0"
  by (induction i) (simp_all add: written_def)

lemma ir_uses_nonzero: "0 \<notin> set (ir_uses i)"
  by (induction i) (simp_all add: used_def)

end
