(* ===== verification/Regalloc.thy ===== *)
theory Regalloc
  imports Ir "HOL-Library.Multiset"
begin

text \<open>
  The linear-scan register allocator of the SDK (\<^verbatim>\<open>truthlinked-sdk/src/regalloc.rs\<close>).
  The two hash maps of the interval analysis are association lists in insertion order.
  The intervals are collected in the iteration order of a hash map and then sorted by
  their start with an unstable sort: the composition of both is an argument \<open>srt\<close> of
  the model, of which only is known that it permutes and sorts (\<open>sorts\<close> below). A panic
  of the code is \<open>None\<close>.
\<close>

definition FIRST_PHYS :: nat where
  "FIRST_PHYS = 1"

definition LAST_PHYS :: nat where
  "LAST_PHYS = 254"

record interval =
  vreg_of :: vreg
  istart :: nat
  iend :: nat

section \<open>Live intervals\<close>

type_synonym reg_map = "(vreg \<times> nat) list"

text \<open>\<^verbatim>\<open>entry(v).or_insert(i)\<close> and \<^verbatim>\<open>entry(v).and_modify(max).or_insert(i)\<close>.\<close>

definition or_insert :: "vreg \<Rightarrow> nat \<Rightarrow> reg_map \<Rightarrow> reg_map" where
  "or_insert v i m = (case map_of m v of None \<Rightarrow> m @ [(v, i)] | Some _ \<Rightarrow> m)"

definition max_insert :: "vreg \<Rightarrow> nat \<Rightarrow> reg_map \<Rightarrow> reg_map" where
  "max_insert v i m = (case map_of m v of
     None \<Rightarrow> m @ [(v, i)] | Some _ \<Rightarrow> map (\<lambda>(u, e). if u = v then (u, max e i) else (u, e)) m)"

definition note_def :: "nat \<Rightarrow> ir \<Rightarrow> reg_map \<times> reg_map \<Rightarrow> reg_map \<times> reg_map" where
  "note_def i instr s = (case ir_def instr of
     Some d \<Rightarrow> (or_insert d i (fst s), max_insert d i (snd s)) | None \<Rightarrow> s)"

definition note_use :: "nat \<Rightarrow> vreg \<Rightarrow> reg_map \<times> reg_map \<Rightarrow> reg_map \<times> reg_map" where
  "note_use i u s = (or_insert u 0 (fst s), max_insert u i (snd s))"

primrec scan :: "nat \<Rightarrow> ir list \<Rightarrow> reg_map \<times> reg_map \<Rightarrow> reg_map \<times> reg_map" where
  "scan i [] s = s"
| "scan i (instr # instrs) s = scan (Suc i) instrs (fold (note_use i) (ir_uses instr) (note_def i instr s))"

text \<open>The second pass: at a call, what is live across it stays live to the end.\<close>

definition USIZE_MAX :: nat where
  "USIZE_MAX = 2 ^ 64 - 1"

definition extend_call :: "reg_map \<Rightarrow> nat \<Rightarrow> nat \<Rightarrow> reg_map \<Rightarrow> reg_map" where
  "extend_call first_def n i last_use = map (\<lambda>(v, lu).
     (v, if (case map_of first_def v of Some d \<Rightarrow> d | None \<Rightarrow> USIZE_MAX) < i \<and> i < lu then n - 1 else lu))
     last_use"

primrec extend_calls :: "reg_map \<Rightarrow> nat \<Rightarrow> nat \<Rightarrow> ir list \<Rightarrow> reg_map \<Rightarrow> reg_map" where
  "extend_calls fd n i [] lu = lu"
| "extend_calls fd n i (instr # instrs) lu =
     extend_calls fd n (Suc i) instrs (if is_call instr then extend_call fd n i lu else lu)"

definition mk_interval :: "reg_map \<Rightarrow> vreg \<times> nat \<Rightarrow> interval" where
  "mk_interval last_use e = \<lparr>vreg_of = fst e, istart = snd e,
     iend = (case map_of last_use (fst e) of Some l \<Rightarrow> l | None \<Rightarrow> snd e)\<rparr>"

definition compute_intervals :: "(interval list \<Rightarrow> interval list) \<Rightarrow> ir list \<Rightarrow> interval list" where
  "compute_intervals srt instrs =
    (let (fd, lu) = scan 0 instrs ([], []); lu = extend_calls fd (length instrs) 0 instrs lu in
     srt (map (mk_interval lu) fd))"

section \<open>Linear scan\<close>

definition partition_point :: "('a \<Rightarrow> bool) \<Rightarrow> 'a list \<Rightarrow> nat" where
  "partition_point P xs = length (takeWhile P xs)"

definition insert_at :: "nat \<Rightarrow> 'a \<Rightarrow> 'a list \<Rightarrow> 'a list" where
  "insert_at p x xs = take p xs @ x # drop p xs"

type_synonym allocation = "vreg \<rightharpoonup> u8"

record scan_state =
  alloc :: allocation
  free :: "u8 list"
  active :: "interval list"

fun expire :: "allocation \<Rightarrow> nat \<Rightarrow> interval list \<Rightarrow> u8 list \<Rightarrow> (u8 list \<times> interval list) option" where
  "expire al start [] fr = Some (fr, [])"
| "expire al start (a # as) fr =
    (if iend a < start then
       (case al (vreg_of a) of
          Some p \<Rightarrow> expire al start as (insert_at (partition_point (\<lambda>r. r < p) fr) p fr)
        | None \<Rightarrow> None)
     else Some (fr, a # as))"

definition place :: "interval \<Rightarrow> scan_state \<Rightarrow> scan_state option" where
  "place iv s =
    (if vreg_of iv = 0 then Some s
     else case expire (alloc s) (istart iv) (active s) (free s) of
       None \<Rightarrow> None
     | Some (fr, act) \<Rightarrow> (case fr of
          [] \<Rightarrow> None
        | phys # fr' \<Rightarrow> Some \<lparr>alloc = (alloc s)(vreg_of iv \<mapsto> phys), free = fr',
            active = insert_at (partition_point (\<lambda>a. iend a \<le> iend iv) act) iv act\<rparr>))"

primrec place_all :: "interval list \<Rightarrow> scan_state \<Rightarrow> scan_state option" where
  "place_all [] s = Some s"
| "place_all (iv # ivs) s = Option.bind (place iv s) (place_all ivs)"

definition init_state :: scan_state where
  "init_state = \<lparr>alloc = [0 \<mapsto> 0], free = map of_nat [FIRST_PHYS..<Suc LAST_PHYS], active = []\<rparr>"

definition allocate :: "(interval list \<Rightarrow> interval list) \<Rightarrow> ir list \<Rightarrow> allocation option" where
  "allocate srt instrs =
    (case compute_intervals srt instrs of
       [] \<Rightarrow> Some [0 \<mapsto> 0]
     | ivs \<Rightarrow> map_option alloc (place_all ivs init_state))"

definition resolve :: "allocation \<Rightarrow> vreg \<Rightarrow> u8 option" where
  "resolve al v = al v"

section \<open>The interval analysis\<close>

definition sorts :: "(interval list \<Rightarrow> interval list) \<Rightarrow> bool" where
  "sorts srt \<longleftrightarrow> (\<forall>xs. mset (srt xs) = mset xs \<and> sorted (map istart (srt xs)))"

text \<open>
  The registers an instruction touches, as the analysis sees them: those of its def and use lists.
  (Token mints and burns read one register more, and calls and oracle reads also write the
  physical register 1.)
\<close>

definition touches :: "ir \<Rightarrow> vreg set" where
  "touches instr = set_option (ir_def instr) \<union> set (ir_uses instr)"

lemma map_of_or_insert:
  "map_of (or_insert v i m) u = (if u = v \<and> map_of m v = None then Some i else map_of m u)"
  by (auto simp: or_insert_def map_add_def split: option.splits)

lemma map_of_max_map: "map_of (map (\<lambda>(u, e). if u = v then (u, max e i) else (u, e)) m) w
    = (if w = v then map_option (\<lambda>e. max e i) (map_of m w) else map_of m w)"
  by (induction m) auto

lemma map_of_max_insert:
  "map_of (max_insert v i m) u = (if u = v then Some (case map_of m v of Some e \<Rightarrow> max e i | None \<Rightarrow> i) else map_of m u)"
  by (auto simp: max_insert_def map_of_max_map map_add_def split: option.splits)

lemma distinct_or_insert: "distinct (map fst m) \<Longrightarrow> distinct (map fst (or_insert v i m))"
  by (auto simp: or_insert_def map_of_eq_None_iff split: option.splits)

text \<open>
  Both kinds of note are one event: register \<open>v\<close> is touched at position \<open>i\<close>, and enters
  the map of starts with \<open>d\<close> when it is new. The state of the analysis after position \<open>i\<close>
  keeps starts before ends; \<open>spans\<close> says that a position lies within the interval so far.
\<close>

definition touch :: "vreg \<Rightarrow> nat \<Rightarrow> nat \<Rightarrow> reg_map \<times> reg_map \<Rightarrow> reg_map \<times> reg_map" where
  "touch v d i s = (or_insert v d (fst s), max_insert v i (snd s))"

lemma note_touch:
  "note_def i instr s = (case ir_def instr of Some d \<Rightarrow> touch d i i s | None \<Rightarrow> s)"
  "note_use i u s = touch u 0 i s"
  by (simp_all add: note_def_def note_use_def touch_def split: option.split)

definition scan_ok :: "nat \<Rightarrow> reg_map \<times> reg_map \<Rightarrow> bool" where
  "scan_ok i s \<longleftrightarrow> distinct (map fst (fst s)) \<and> map_of (fst s) 0 = None
     \<and> (\<forall>v. map_of (fst s) v = None \<longrightarrow> map_of (snd s) v = None)
     \<and> (\<forall>v d. map_of (fst s) v = Some d \<longrightarrow> (\<exists>l. map_of (snd s) v = Some l \<and> d \<le> l \<and> l < i))"

definition spans :: "reg_map \<times> reg_map \<Rightarrow> vreg \<Rightarrow> nat \<Rightarrow> bool" where
  "spans s v j \<longleftrightarrow> (\<exists>d l. map_of (fst s) v = Some d \<and> map_of (snd s) v = Some l \<and> d \<le> j \<and> j \<le> l)"

lemma scan_okD:
  assumes "scan_ok i s" and "map_of (fst s) v = Some d"
  obtains l where "map_of (snd s) v = Some l" "d \<le> l" "l < i"
  using assms unfolding scan_ok_def by blast

lemma scan_ok_None: "scan_ok i s \<Longrightarrow> map_of (fst s) v = None \<Longrightarrow> map_of (snd s) v = None"
  unfolding scan_ok_def by blast

lemma touch_ok:
  assumes s: "scan_ok (Suc i) s" and "d \<le> i" and "v \<noteq> 0"
  shows "scan_ok (Suc i) (touch v d i s)" and "spans (touch v d i s) v i"
    and "spans s u j \<Longrightarrow> spans (touch v d i s) u j"
proof -
  have dist: "distinct (map fst (fst s))" and zero: "map_of (fst s) 0 = None" using s by (simp_all add: scan_ok_def)
  have new: "map_of (snd s) v = None" if "map_of (fst s) v = None" using scan_ok_None [OF s that] .
  have old: "\<exists>l. map_of (snd s) w = Some l \<and> e \<le> l \<and> l < Suc i" if "map_of (fst s) w = Some e" for w e
    using scan_okD [OF s that] by metis
  have none: "map_of (snd s) w = None" if "map_of (fst s) w = None" for w using scan_ok_None [OF s that] .
  show "scan_ok (Suc i) (touch v d i s)"
    unfolding scan_ok_def touch_def using dist zero assms(2,3) new old none
    by (force simp: distinct_or_insert map_of_or_insert map_of_max_insert split: option.splits if_splits)
  show "spans (touch v d i s) v i"
    using old [of v] new assms(2) by (cases "map_of (fst s) v")
      (auto simp: spans_def touch_def map_of_or_insert map_of_max_insert split: option.splits)
  show "spans s u j \<Longrightarrow> spans (touch v d i s) u j"
    by (auto simp: spans_def touch_def map_of_or_insert map_of_max_insert split: option.splits)
qed

lemma uses_ok:
  assumes "scan_ok (Suc i) s" and "0 \<notin> set us"
  shows "scan_ok (Suc i) (fold (note_use i) us s) \<and> (\<forall>u \<in> set us. spans (fold (note_use i) us s) u i)
    \<and> (\<forall>u j. spans s u j \<longrightarrow> spans (fold (note_use i) us s) u j)"
  using assms
proof (induction us arbitrary: s)
  case (Cons u us)
  have u: "u \<noteq> 0" and us: "0 \<notin> set us" using Cons.prems(2) by auto
  note t = touch_ok [OF Cons.prems(1) le0 u]
  from Cons.IH [OF t(1) us] show ?case using t(2,3) by (auto simp: note_touch)
qed simp

lemma instr_ok:
  assumes "scan_ok (Suc i) s"
  shows "scan_ok (Suc i) (fold (note_use i) (ir_uses x) (note_def i x s))
    \<and> (\<forall>v \<in> touches x. spans (fold (note_use i) (ir_uses x) (note_def i x s)) v i)
    \<and> (\<forall>u j. spans s u j \<longrightarrow> spans (fold (note_use i) (ir_uses x) (note_def i x s)) u j)"
proof -
  have d: "scan_ok (Suc i) (note_def i x s) \<and> (\<forall>v. ir_def x = Some v \<longrightarrow> spans (note_def i x s) v i)
    \<and> (\<forall>u j. spans s u j \<longrightarrow> spans (note_def i x s) u j)"
  proof (cases "ir_def x")
    case (Some v)
    then have "v \<noteq> 0" using ir_def_nonzero [of x] by auto
    then show ?thesis using touch_ok [OF assms le_refl] Some by (auto simp: note_touch)
  qed (simp add: note_touch assms)
  from uses_ok [of i "note_def i x s" "ir_uses x"] d ir_uses_nonzero [of x]
  show ?thesis by (auto simp: touches_def)
qed

lemma scan_ok_mono: "scan_ok i s \<Longrightarrow> i \<le> j \<Longrightarrow> scan_ok j s"
  unfolding scan_ok_def by (meson less_le_trans)

lemma scan_spans:
  assumes "scan_ok i s"
  shows "scan_ok (i + length xs) (scan i xs s)
    \<and> (\<forall>k < length xs. \<forall>v \<in> touches (xs ! k). spans (scan i xs s) v (i + k))
    \<and> (\<forall>u j. spans s u j \<longrightarrow> spans (scan i xs s) u j)"
  using assms
proof (induction xs arbitrary: i s)
  case (Cons x xs)
  let ?s = "fold (note_use i) (ir_uses x) (note_def i x s)"
  note o = instr_ok [OF scan_ok_mono [OF Cons.prems le_SucI [OF le_refl]], of x]
  note ih = Cons.IH [OF o [THEN conjunct1]]
  have "spans (scan i (x # xs) s) v (i + k)" if "k < length (x # xs)" "v \<in> touches ((x # xs) ! k)" for k v
    using that o ih by (cases k) auto
  then show ?case using o ih by auto
qed simp

lemma map_of_map_key: "map_of (map (\<lambda>(k, x). (k, f k x)) xs) k = map_option (f k) (map_of xs k)"
  by (induction xs) auto

lemma map_of_extend_call: "map_of (extend_call fd n i lu) v = map_option (\<lambda>l.
    if (case map_of fd v of Some d \<Rightarrow> d | None \<Rightarrow> USIZE_MAX) < i \<and> i < l then n - 1 else l) (map_of lu v)"
  unfolding extend_call_def by (rule map_of_map_key)

lemma extend_calls_grows:
  assumes "map_of lu v = Some l" and "l < n"
  shows "\<exists>l'. map_of (extend_calls fd n i xs lu) v = Some l' \<and> l \<le> l' \<and> l' < n"
  using assms
proof (induction xs arbitrary: i lu l)
  case (Cons x xs)
  have "\<exists>m. map_of (if is_call x then extend_call fd n i lu else lu) v = Some m \<and> l \<le> m \<and> m < n"
    using Cons.prems by (auto simp: map_of_extend_call)
  then obtain m where m: "map_of (if is_call x then extend_call fd n i lu else lu) v = Some m" "l \<le> m" "m < n"
    by blast
  from Cons.IH [OF m(1,3), of "Suc i"] m(2) show ?case by (auto intro: le_trans)
qed auto

text \<open>
  The intervals the allocator works on: one for each register, sorted by start, and wide
  enough for every position where the register is touched.
\<close>

definition intervals_ok :: "ir list \<Rightarrow> interval list \<Rightarrow> bool" where
  "intervals_ok instrs ivs \<longleftrightarrow> distinct (map vreg_of ivs) \<and> 0 \<notin> vreg_of ` set ivs \<and> sorted (map istart ivs)
     \<and> (\<forall>iv \<in> set ivs. istart iv \<le> iend iv \<and> iend iv < length instrs)
     \<and> (\<forall>k < length instrs. \<forall>v \<in> touches (instrs ! k).
          \<exists>iv \<in> set ivs. vreg_of iv = v \<and> istart iv \<le> k \<and> k \<le> iend iv)"

lemma compute_intervals_ok:
  assumes "sorts srt"
  shows "intervals_ok instrs (compute_intervals srt instrs)"
proof -
  obtain fd lu where sc: "scan 0 instrs ([], []) = (fd, lu)" by fastforce
  define lu' where "lu' = extend_calls fd (length instrs) 0 instrs lu"
  let ?raw = "map (mk_interval lu') fd"
  have civ: "compute_intervals srt instrs = srt ?raw" by (simp add: compute_intervals_def sc lu'_def)
  have perm: "mset (srt ?raw) = mset ?raw" and sorted: "sorted (map istart (srt ?raw))"
    using assms by (simp_all add: sorts_def)
  have st: "set (srt ?raw) = set ?raw" using perm by (metis set_mset_mset)
  have "mset (map vreg_of (srt ?raw)) = mset (map vreg_of ?raw)" unfolding mset_map perm ..
  then have dist: "distinct (map vreg_of (srt ?raw)) = distinct (map vreg_of ?raw)" by (rule mset_eq_imp_distinct_iff)
  have "scan_ok 0 ([], [])" by (simp add: scan_ok_def)
  note sp = scan_spans [OF this, of instrs, unfolded sc, simplified]
  then have ok: "scan_ok (length instrs) (fd, lu)" by simp
  have fdv: "map vreg_of ?raw = map fst fd" by (simp add: mk_interval_def)
  have d: "distinct (map fst fd)" using ok by (simp add: scan_ok_def)
  have z: "0 \<notin> fst ` set fd" using ok by (simp add: scan_ok_def map_of_eq_None_iff)
  have iv: "\<exists>l l'. map_of lu v = Some l \<and> map_of lu' v = Some l' \<and> a \<le> l \<and> l \<le> l' \<and> l' < length instrs"
    if "map_of fd v = Some a" for v a
  proof -
    have "map_of (fst (fd, lu)) v = Some a" using that by simp
    from scan_okD [OF ok this] obtain l where l: "map_of lu v = Some l" "a \<le> l" "l < length instrs" by auto
    then show ?thesis using extend_calls_grows [OF l(1,3), of fd 0 instrs] by (auto simp: lu'_def)
  qed
  have "\<forall>iv \<in> set ?raw. istart iv \<le> iend iv \<and> iend iv < length instrs"
    using iv d by (fastforce simp: mk_interval_def)
  moreover have "\<exists>iv \<in> set ?raw. vreg_of iv = v \<and> istart iv \<le> k \<and> k \<le> iend iv"
    if "k < length instrs" "v \<in> touches (instrs ! k)" for k v
  proof -
    have "spans (fd, lu) v k" using sp that by simp
    then obtain a l where al: "map_of fd v = Some a" "map_of lu v = Some l" "a \<le> k" "k \<le> l" by (auto simp: spans_def)
    from iv [OF al(1)] al obtain l' where "map_of lu' v = Some l'" "l \<le> l'" by auto
    moreover have "mk_interval lu' (v, a) \<in> set ?raw" using map_of_SomeD [OF al(1)] by simp
    ultimately show ?thesis using al by (intro bexI [of _ "mk_interval lu' (v, a)"]) (auto simp: mk_interval_def)
  qed
  moreover have "0 \<notin> vreg_of ` set ?raw" using z by (simp add: mk_interval_def image_image)
  ultimately show ?thesis unfolding intervals_ok_def civ st dist fdv using d sorted by blast
qed

section \<open>The scan\<close>

definition phys :: "allocation \<Rightarrow> interval \<Rightarrow> u8" where
  "phys al a = the (al (vreg_of a))"

definition pool :: "u8 multiset" where
  "pool = mset (map of_nat [FIRST_PHYS..<Suc LAST_PHYS])"

definition overlap :: "interval \<Rightarrow> interval \<Rightarrow> bool" where
  "overlap a b \<longleftrightarrow> istart a \<le> iend b \<and> istart b \<le> iend a"

lemma mset_insert_at [simp]: "mset (insert_at p x xs) = add_mset x (mset xs)"
  by (simp add: insert_at_def) (metis append_take_drop_id mset_append)

lemma set_insert_at [simp]: "set (insert_at p x xs) = insert x (set xs)"
  by (metis mset_insert_at set_mset_add_mset_insert set_mset_mset)

lemma sorted_insert_at:
  assumes "sorted (map f xs)"
  shows "sorted (map f (insert_at (partition_point (\<lambda>a. f a \<le> f x) xs) x xs))"
proof -
  let ?P = "\<lambda>a. f a \<le> f x"
  have eq: "insert_at (partition_point ?P xs) x xs = takeWhile ?P xs @ x # dropWhile ?P xs"
    by (simp add: insert_at_def partition_point_def takeWhile_eq_take [symmetric] dropWhile_eq_drop [symmetric])
  have "f x \<le> f y" if "y \<in> set (dropWhile ?P xs)" for y
  proof (cases "dropWhile ?P xs")
    case (Cons z zs)
    then have "\<not> ?P z" using hd_dropWhile [of ?P xs] by simp
    moreover have "sorted (map f (takeWhile ?P xs @ dropWhile ?P xs))" using assms by simp
    then have "sorted (map f (dropWhile ?P xs))" by (simp only: map_append sorted_append)
    ultimately show ?thesis using that Cons by fastforce
  next
    case Nil
    with that show ?thesis by (metis empty_iff empty_set)
  qed
  moreover have "\<forall>y \<in> set (takeWhile ?P xs). f y \<le> f x" by (auto dest: set_takeWhileD)
  moreover have "sorted (map f (takeWhile ?P xs @ dropWhile ?P xs))" using assms by simp
  then have "sorted (map f (takeWhile ?P xs))" "sorted (map f (dropWhile ?P xs))"
    by (simp_all only: map_append sorted_append)
  ultimately show ?thesis unfolding eq by (auto simp: sorted_append intro: order_trans)
qed

lemma expire_spec:
  assumes "\<forall>a \<in> set act. al (vreg_of a) \<noteq> None"
  shows "\<exists>fr'. expire al start act fr = Some (fr', dropWhile (\<lambda>a. iend a < start) act)
    \<and> mset fr' + mset (map (phys al) (dropWhile (\<lambda>a. iend a < start) act)) = mset fr + mset (map (phys al) act)"
  using assms
proof (induction act arbitrary: fr)
  case (Cons a act)
  then obtain p where "al (vreg_of a) = Some p" by auto
  then show ?case using Cons.IH [of "insert_at (partition_point (\<lambda>r. r < p) fr) p fr"] Cons.prems
    by (auto simp: phys_def)
qed simp

text \<open>
  The state after the intervals \<open>done\<close>, the last of which started at \<open>p\<close>: the free
  registers and those of the active intervals are together the whole pool, what is no
  longer active ended before \<open>p\<close>, and no two overlapping intervals share a register.
\<close>

definition scan_inv :: "interval list \<Rightarrow> nat \<Rightarrow> scan_state \<Rightarrow> bool" where
  "scan_inv dn p s \<longleftrightarrow> alloc s 0 = Some 0 \<and> dom (alloc s) = insert 0 (vreg_of ` set dn)
     \<and> set (active s) \<subseteq> set dn \<and> sorted (map iend (active s)) \<and> distinct (active s)
     \<and> mset (free s) + mset (map (phys (alloc s)) (active s)) = pool
     \<and> (\<forall>a \<in> set dn. istart a \<le> p \<and> (a \<notin> set (active s) \<longrightarrow> iend a < p))
     \<and> (\<forall>a \<in> set dn. phys (alloc s) a \<in># pool)
     \<and> (\<forall>a \<in> set dn. \<forall>b \<in> set dn. a \<noteq> b \<longrightarrow> overlap a b \<longrightarrow> phys (alloc s) a \<noteq> phys (alloc s) b)"

lemma scan_inv_init: "scan_inv [] 0 init_state"
  by (simp add: scan_inv_def init_state_def pool_def)

lemma pool_distinct: "distinct (map of_nat [FIRST_PHYS..<Suc LAST_PHYS] :: u8 list)"
proof -
  have "m = n" if "m < 255" "n < 255" "(of_nat m :: u8) = of_nat n" for m n
  proof -
    have "unat (of_nat m :: u8) = unat (of_nat n :: u8)" using that(3) by simp
    then show ?thesis using that(1,2) by (simp add: unat_of_nat)
  qed
  then show ?thesis by (auto simp: distinct_map inj_on_def FIRST_PHYS_def LAST_PHYS_def)
qed

lemma pool_split:
  assumes "add_mset x A + mset xs = pool"
  shows "x \<in># pool" and "x \<notin> set xs"
proof -
  show "x \<in># pool" unfolding assms [symmetric] by simp
  have "count pool x \<le> 1" using pool_distinct by (simp add: pool_def distinct_count_atmost_1)
  then have "count (mset xs) x = 0" unfolding assms [symmetric] by simp
  then show "x \<notin> set xs" by (simp add: count_eq_zero_iff)
qed

lemma still_active:
  assumes "scan_inv dn p s" and "a \<in> set dn" and "p \<le> q" and "q \<le> iend a"
  shows "a \<in> set (dropWhile (\<lambda>a. iend a < q) (active s))"
proof -
  have "a \<in> set (active s)" using assms by (fastforce simp: scan_inv_def)
  then have "a \<in> set (takeWhile (\<lambda>a. iend a < q) (active s)) \<union> set (dropWhile (\<lambda>a. iend a < q) (active s))"
    by (metis set_append takeWhile_dropWhile_id)
  then show ?thesis using assms(4) by (auto dest: set_takeWhileD)
qed

lemma dropped_ended:
  assumes "scan_inv dn p s" and "a \<in> set dn" and "p \<le> q" and "a \<notin> set (dropWhile (\<lambda>a. iend a < q) (active s))"
  shows "iend a < q"
  using still_active [OF assms(1-3)] assms(4) by (meson not_le)

text \<open>One step of the scan, given that its interval is new and starts no earlier.\<close>

lemma place_expire:
  assumes "scan_inv dn p s"
  obtains fr where "expire (alloc s) q (active s) (free s) = Some (fr, dropWhile (\<lambda>a. iend a < q) (active s))"
    and "mset fr + mset (map (phys (alloc s)) (dropWhile (\<lambda>a. iend a < q) (active s))) = pool"
proof -
  have "vreg_of a \<in> dom (alloc s)" if "a \<in> set (active s)" for a
    using assms that by (auto simp: scan_inv_def)
  then have "\<forall>a \<in> set (active s). alloc s (vreg_of a) \<noteq> None" by blast
  from expire_spec [OF this, of q "free s"] assms show thesis by (auto simp: scan_inv_def intro: that)
qed

lemma place_inv:
  assumes inv: "scan_inv dn p s" and v: "vreg_of iv \<noteq> 0" "vreg_of iv \<notin> vreg_of ` set dn"
    and p: "p \<le> istart iv" and pl: "place iv s = Some s'"
  shows "scan_inv (iv # dn) (istart iv) s'"
proof -
  let ?act = "dropWhile (\<lambda>a. iend a < istart iv) (active s)"
  obtain fr where ex: "expire (alloc s) (istart iv) (active s) (free s) = Some (fr, ?act)"
    and fr: "mset fr + mset (map (phys (alloc s)) ?act) = pool" using place_expire [OF inv] .
  obtain ph fr' where ph: "fr = ph # fr'" and s': "s' = \<lparr>alloc = (alloc s)(vreg_of iv \<mapsto> ph), free = fr',
      active = insert_at (partition_point (\<lambda>a. iend a \<le> iend iv) ?act) iv ?act\<rparr>"
    using pl v(1) ex by (auto simp: place_def split: list.splits)
  have new: "ph \<in># pool" "ph \<notin> set (map (phys (alloc s)) ?act)"
    using pool_split [of ph "mset fr'" "map (phys (alloc s)) ?act"] fr ph by simp_all
  have old: "phys (alloc s') a = phys (alloc s) a" if "a \<in> set dn" for a
  proof -
    have "vreg_of a \<noteq> vreg_of iv" using v(2) that by (metis image_eqI)
    then show ?thesis by (simp add: s' phys_def)
  qed
  have self: "phys (alloc s') iv = ph" by (simp add: s' phys_def)
  have sub: "set ?act \<subseteq> set dn" using inv by (auto simp: scan_inv_def dest: set_dropWhileD)
  then have phs: "map (phys (alloc s')) ?act = map (phys (alloc s)) ?act" using old by (auto intro!: map_cong)
  have niv: "iv \<notin> set dn" using v(2) by auto
  have sorted: "sorted (map iend (active s'))"
    unfolding s' scan_state.simps using inv
    by (intro sorted_insert_at) (simp add: scan_inv_def dropWhile_eq_drop drop_map [symmetric] sorted_wrt_drop)
  have "distinct ?act" using inv by (simp add: scan_inv_def)
  then have "distinct (iv # ?act)" using sub niv by auto
  then have dist: "distinct (active s')" unfolding s' scan_state.simps
    by (subst mset_eq_imp_distinct_iff [of _ "iv # ?act"]) simp_all
  have "mset (active s') = add_mset iv (mset ?act)" and fs: "free s' = fr'" by (simp_all add: s')
  then have "mset (map (phys (alloc s')) (active s')) = add_mset ph (mset (map (phys (alloc s')) ?act))"
    unfolding mset_map using self by simp
  then have m: "mset (free s') + mset (map (phys (alloc s')) (active s')) = pool"
    unfolding phs fs using fr ph by simp
  have clash: "phys (alloc s) a \<noteq> ph" if "a \<in> set dn" "overlap iv a" for a
  proof -
    have "a \<in> set ?act" using still_active [OF inv that(1) p] that(2) by (simp add: overlap_def)
    then show ?thesis using new(2) by auto
  qed
  have ends: "istart a \<le> istart iv \<and> (a \<notin> set (active s') \<longrightarrow> iend a < istart iv)" if "a \<in> set (iv # dn)" for a
    using that inv p dropped_ended [OF inv _ p, of a] by (auto simp: scan_inv_def s' intro: le_trans)
  have range: "phys (alloc s') a \<in># pool" if "a \<in> set (iv # dn)" for a
    using that self new(1) old inv by (auto simp: scan_inv_def)
  have sep: "phys (alloc s') a \<noteq> phys (alloc s') b"
    if "a \<in> set (iv # dn)" "b \<in> set (iv # dn)" "a \<noteq> b" "overlap a b" for a b
    using that self old clash [of a] clash [of b] inv by (auto simp: scan_inv_def overlap_def)
  have d: "dom (alloc s') = insert 0 (vreg_of ` set (iv # dn))" "alloc s' 0 = Some 0"
    using inv v(1) by (auto simp: scan_inv_def s')
  show ?thesis unfolding scan_inv_def using d sorted dist m ends range sep sub by (auto simp: s')
qed

lemma place_all_inv:
  assumes "scan_inv dn p s" and "distinct (map vreg_of (rev dn @ ivs))" and "0 \<notin> vreg_of ` set ivs"
    and "sorted (p # map istart ivs)" and "place_all ivs s = Some s'"
  shows "\<exists>q. scan_inv (rev ivs @ dn) q s'"
  using assms
proof (induction ivs arbitrary: dn p s)
  case (Cons iv ivs)
  obtain t where t: "place iv s = Some t" "place_all ivs t = Some s'"
    using Cons.prems(5) by (cases "place iv s") auto
  have "scan_inv (iv # dn) (istart iv) t"
    using Cons.prems t(1) by (intro place_inv [OF Cons.prems(1)]) auto
  from Cons.IH [OF this _ _ _ t(2)] Cons.prems(2-4) show ?case by auto
qed auto

text \<open>
  Where the scan stops: the current interval and the intervals of every register then
  in use all contain its start.
\<close>

lemma place_None:
  assumes inv: "scan_inv dn p s" and v: "vreg_of iv \<noteq> 0" "vreg_of iv \<notin> vreg_of ` set dn"
    and p: "p \<le> istart iv" and e: "istart iv \<le> iend iv" and pl: "place iv s = None"
  shows "\<exists>A \<subseteq> set (iv # dn). card A = 255 \<and> (\<forall>a \<in> A. istart a \<le> istart iv \<and> istart iv \<le> iend a)"
proof -
  let ?act = "dropWhile (\<lambda>a. iend a < istart iv) (active s)"
  obtain fr where ex: "expire (alloc s) (istart iv) (active s) (free s) = Some (fr, ?act)"
    and fr: "mset fr + mset (map (phys (alloc s)) ?act) = pool" using place_expire [OF inv] .
  have "fr = []" using pl v(1) ex by (auto simp: place_def split: list.splits)
  then have "mset (map (phys (alloc s)) ?act) = pool" using fr by simp
  then have "size (mset (map (phys (alloc s)) ?act)) = size pool" by simp
  then have len: "length ?act = 254" by (simp add: pool_def FIRST_PHYS_def LAST_PHYS_def)
  have dist: "distinct ?act" and sub: "set ?act \<subseteq> set dn"
    using inv by (auto simp: scan_inv_def dest: set_dropWhileD)
  have srt: "sorted (map iend ?act)"
    using inv by (simp add: scan_inv_def dropWhile_eq_drop drop_map [symmetric] sorted_wrt_drop)
  have late: "istart iv \<le> iend a" if "a \<in> set ?act" for a
  proof -
    have "0 < length ?act" unfolding len by simp
    then obtain z zs where z: "?act = z # zs" by (auto simp only: length_greater_0_conv neq_Nil_conv)
    then have "\<not> iend z < istart iv" using hd_dropWhile [of "\<lambda>a. iend a < istart iv" "active s"] by simp
    then show ?thesis using srt that unfolding z by auto
  qed
  have "iv \<notin> set ?act" using sub v(2) by auto
  then have "card (insert iv (set ?act)) = 255" using distinct_card [OF dist] len by simp
  moreover have "istart a \<le> istart iv" if "a \<in> set dn" for a
  proof -
    have "istart a \<le> p" using inv that by (simp add: scan_inv_def)
    then show ?thesis using p by simp
  qed
  then have "\<forall>a \<in> insert iv (set ?act). istart a \<le> istart iv \<and> istart iv \<le> iend a"
    using late e sub by auto
  ultimately show ?thesis using sub by (intro exI [of _ "insert iv (set ?act)"]) auto
qed

lemma place_all_None:
  assumes "scan_inv dn p s" and "distinct (map vreg_of (rev dn @ ivs))" and "0 \<notin> vreg_of ` set ivs"
    and "sorted (p # map istart ivs)" and "\<forall>iv \<in> set ivs. istart iv \<le> iend iv" and "place_all ivs s = None"
  shows "\<exists>A \<subseteq> set dn \<union> set ivs. \<exists>q. card A = 255 \<and> (\<forall>a \<in> A. istart a \<le> q \<and> q \<le> iend a)"
  using assms
proof (induction ivs arbitrary: dn p s)
  case (Cons iv ivs)
  have iv: "vreg_of iv \<noteq> 0" "vreg_of iv \<notin> vreg_of ` set dn" "p \<le> istart iv" "istart iv \<le> iend iv"
    using Cons.prems by auto
  show ?case
  proof (cases "place iv s")
    case None
    from place_None [OF Cons.prems(1) iv this] obtain A where
      "A \<subseteq> set (iv # dn)" "card A = 255" "\<forall>a \<in> A. istart a \<le> istart iv \<and> istart iv \<le> iend a" by blast
    then show ?thesis by (intro exI [of _ A]) auto
  next
    case (Some t)
    have inv: "scan_inv (iv # dn) (istart iv) t" using place_inv [OF Cons.prems(1) iv(1-3) Some] .
    have "distinct (map vreg_of (rev (iv # dn) @ ivs))" "0 \<notin> vreg_of ` set ivs" "sorted (istart iv # map istart ivs)"
      "\<forall>iv \<in> set ivs. istart iv \<le> iend iv" "place_all ivs t = None"
      using Cons.prems Some by auto
    from Cons.IH [OF inv this] show ?thesis by auto
  qed
qed simp

lemma allocate_inv:
  assumes "sorts srt" and "allocate srt instrs = Some al"
  shows "\<exists>q s. alloc s = al \<and> scan_inv (rev (compute_intervals srt instrs)) q s"
proof (cases "compute_intervals srt instrs")
  case Nil
  then have "alloc init_state = al" using assms(2) by (simp add: allocate_def init_state_def)
  then show ?thesis using Nil scan_inv_init by auto
next
  case (Cons iv ivs)
  obtain s where s: "place_all (iv # ivs) init_state = Some s" "alloc s = al"
    using assms(2) Cons by (auto simp: allocate_def)
  have "intervals_ok instrs (iv # ivs)" using compute_intervals_ok [OF assms(1), of instrs] Cons by simp
  then show ?thesis using place_all_inv [OF scan_inv_init _ _ _ s(1)] s(2) Cons
    by (auto simp: intervals_ok_def)
qed

lemma pool_range: "p \<in># pool \<Longrightarrow> 1 \<le> p \<and> p \<le> 254"
proof -
  assume "p \<in># pool"
  then obtain n where "p = of_nat n" "1 \<le> n" "n \<le> 254" by (auto simp: pool_def FIRST_PHYS_def LAST_PHYS_def)
  then show ?thesis by (simp add: word_le_nat_alt unat_of_nat)
qed

lemma touched_interval:
  assumes "sorts srt" and "k < length instrs" and "v \<in> touches (instrs ! k)"
  obtains iv where "iv \<in> set (compute_intervals srt instrs)" "vreg_of iv = v" "istart iv \<le> k" "k \<le> iend iv"
  using compute_intervals_ok [OF assms(1), of instrs] assms(2,3) unfolding intervals_ok_def by blast

lemma interval_unique:
  assumes "sorts srt" and "iv \<in> set (compute_intervals srt instrs)" and "jv \<in> set (compute_intervals srt instrs)"
    and "vreg_of iv = vreg_of jv"
  shows "iv = jv"
proof -
  have "distinct (map vreg_of (compute_intervals srt instrs))"
    using compute_intervals_ok [OF assms(1)] by (simp add: intervals_ok_def)
  then show ?thesis using assms(2-4) by (simp add: distinct_map inj_on_def)
qed

lemma allocated:
  assumes "sorts srt" and "allocate srt instrs = Some al"
  shows "al 0 = Some 0" and "k < length instrs \<Longrightarrow> v \<in> touches (instrs ! k) \<Longrightarrow> al v \<noteq> None"
proof -
  obtain q s where s: "alloc s = al" "scan_inv (rev (compute_intervals srt instrs)) q s"
    using allocate_inv [OF assms] by blast
  then show "al 0 = Some 0" by (simp add: scan_inv_def)
  have "dom al = insert 0 (vreg_of ` set (compute_intervals srt instrs))" using s by (simp add: scan_inv_def)
  then show "k < length instrs \<Longrightarrow> v \<in> touches (instrs ! k) \<Longrightarrow> al v \<noteq> None"
    using touched_interval [OF assms(1)] by (metis domIff image_eqI insertCI)
qed

text \<open>
  C37. Allocation is free of interference with respect to the def and use lists of the
  instructions: when it succeeds, register 0 is register 0, every register in a list has a
  physical register between 1 and 254, and from one position where a register is listed to
  another, no instruction in between lists a different register with the same physical one.
  This holds for every order in which the hash map hands out the intervals. It is a
  statement about the lists and the order of the text. It does not cover what the lists leave
  out: the token operand of a token mint or burn, the physical register 1 that a cell call and
  an oracle read write besides their destination, and uses reached by a jump backwards.
\<close>
theorem allocation_separates:
  assumes "sorts srt" and "allocate srt instrs = Some al"
  shows "al 0 = Some 0
    \<and> (\<forall>k < length instrs. \<forall>v \<in> touches (instrs ! k). \<exists>p. al v = Some p \<and> 1 \<le> p \<and> p \<le> 254)
    \<and> (\<forall>i j k v w. i \<le> j \<longrightarrow> j \<le> k \<longrightarrow> k < length instrs \<longrightarrow> v \<in> touches (instrs ! i) \<longrightarrow> v \<in> touches (instrs ! k)
         \<longrightarrow> w \<in> touches (instrs ! j) \<longrightarrow> w \<noteq> v \<longrightarrow> al w \<noteq> al v)"
proof (intro conjI allI impI ballI)
  let ?ivs = "compute_intervals srt instrs"
  obtain q s where s: "alloc s = al" and inv: "scan_inv (rev ?ivs) q s" using allocate_inv [OF assms] by blast
  show "al 0 = Some 0" using inv s by (simp add: scan_inv_def)
  have some: "al (vreg_of iv) = Some (phys al iv)" if "iv \<in> set ?ivs" for iv
  proof -
    have "vreg_of iv \<in> dom al" using inv s that by (auto simp: scan_inv_def)
    then show ?thesis by (auto simp: phys_def)
  qed
  show "\<exists>p. al v = Some p \<and> 1 \<le> p \<and> p \<le> 254" if kv: "k < length instrs" "v \<in> touches (instrs ! k)" for k v
  proof -
    obtain iv where iv: "iv \<in> set ?ivs" "vreg_of iv = v" by (rule touched_interval [OF assms(1) kv])
    have "phys al iv \<in># pool" using inv s iv(1) by (auto simp: scan_inv_def)
    then show ?thesis using some [OF iv(1)] iv(2) pool_range by auto
  qed
  show "al w \<noteq> al v" if ijk: "i \<le> j" "j \<le> k" "k < length instrs"
    and v: "v \<in> touches (instrs ! i)" "v \<in> touches (instrs ! k)" and w: "w \<in> touches (instrs ! j)" "w \<noteq> v" for i j k v w
  proof -
    obtain a where a: "a \<in> set ?ivs" "vreg_of a = v" "istart a \<le> i" "i \<le> iend a"
      using touched_interval [OF assms(1) _ v(1)] ijk by (metis le_less_trans)
    obtain a' where a': "a' \<in> set ?ivs" "vreg_of a' = v" "istart a' \<le> k" "k \<le> iend a'"
      using touched_interval [OF assms(1) ijk(3) v(2)] .
    obtain b where b: "b \<in> set ?ivs" "vreg_of b = w" "istart b \<le> j" "j \<le> iend b"
      using touched_interval [OF assms(1) _ w(1)] ijk by (metis le_less_trans)
    have "a = a'" using interval_unique [OF assms(1) a(1) a'(1)] a(2) a'(2) by simp
    then have "overlap b a" using a a' b ijk by (simp add: overlap_def)
    moreover have "b \<noteq> a" using a(2) b(2) w(2) by auto
    ultimately have "phys al b \<noteq> phys al a" using inv s a(1) b(1) by (auto simp: scan_inv_def)
    then show ?thesis using some [OF a(1)] some [OF b(1)] a(2) b(2) by auto
  qed
qed

text \<open>
  The allocator gives up exactly when it has to: it panics if and only if more than
  254 live intervals contain a common position, so with its 254 registers no assignment
  could keep them apart.
\<close>
theorem allocation_fails_iff:
  assumes "sorts srt"
  shows "allocate srt instrs = None \<longleftrightarrow>
    (\<exists>q. 254 < card {iv \<in> set (compute_intervals srt instrs). istart iv \<le> q \<and> q \<le> iend iv})"
proof
  let ?ivs = "compute_intervals srt instrs"
  have ok: "intervals_ok instrs ?ivs" by (rule compute_intervals_ok [OF assms])
  {
    assume "allocate srt instrs = None"
    then have "place_all ?ivs init_state = None" by (auto simp: allocate_def split: list.splits)
    from place_all_None [OF scan_inv_init _ _ _ _ this] ok obtain A q where
      A: "A \<subseteq> set ?ivs" "card A = 255" "\<forall>a \<in> A. istart a \<le> q \<and> q \<le> iend a"
      by (auto simp: intervals_ok_def)
    have "card A \<le> card {iv \<in> set ?ivs. istart iv \<le> q \<and> q \<le> iend iv}"
      using A by (intro card_mono) auto
    then have "254 < card {iv \<in> set ?ivs. istart iv \<le> q \<and> q \<le> iend iv}" using A(2) by simp
    then show "\<exists>q. 254 < card {iv \<in> set ?ivs. istart iv \<le> q \<and> q \<le> iend iv}" by blast
  }
  assume "\<exists>q. 254 < card {iv \<in> set ?ivs. istart iv \<le> q \<and> q \<le> iend iv}"
  then obtain q where q: "254 < card {iv \<in> set ?ivs. istart iv \<le> q \<and> q \<le> iend iv}" by blast
  let ?A = "{iv \<in> set ?ivs. istart iv \<le> q \<and> q \<le> iend iv}"
  show "allocate srt instrs = None"
  proof (rule ccontr)
    assume "allocate srt instrs \<noteq> None"
    then obtain al where "allocate srt instrs = Some al" by blast
    from allocate_inv [OF assms this] obtain p s where inv: "scan_inv (rev ?ivs) p s" by blast
    have "phys (alloc s) a \<noteq> phys (alloc s) b" if "a \<in> ?A" "b \<in> ?A" "a \<noteq> b" for a b
      using inv that by (auto simp: scan_inv_def overlap_def)
    then have "inj_on (phys (alloc s)) ?A" by (meson inj_onI)
    moreover have "phys (alloc s) ` ?A \<subseteq> set_mset pool" using inv by (auto simp: scan_inv_def)
    ultimately have "card ?A \<le> card (set_mset pool)" by (intro card_inj_on_le) auto
    also have "\<dots> \<le> 254" using card_length [of "map of_nat [FIRST_PHYS..<Suc LAST_PHYS] :: u8 list"]
      by (simp add: pool_def FIRST_PHYS_def LAST_PHYS_def)
    finally show False using q by simp
  qed
qed

lemma sorts_sort_key: "sorts (sort_key istart)"
  by (simp add: sorts_def)

lemmas alloc_eval = allocate_def compute_intervals_def note_def_def note_use_def written_def used_def or_insert_def
  max_insert_def mk_interval_def init_state_def FIRST_PHYS_def LAST_PHYS_def upt_rec place_def Let_def
  insert_at_def partition_point_def

theorem allocation_separates_witness:
  "\<exists>al. allocate (sort_key istart) [IrGetCaller 1, IrGetValue 2, IrAdd 3 1 2] = Some al \<and> al 1 \<noteq> al 2"
proof -
  let ?p = "[IrGetCaller 1, IrGetValue 2, IrAdd 3 1 2]"
  have "\<exists>al. allocate (sort_key istart) ?p = Some al"
    by (simp add: alloc_eval)
  then obtain al where al: "allocate (sort_key istart) ?p = Some al" by blast
  have "\<forall>i j k v w. i \<le> j \<longrightarrow> j \<le> k \<longrightarrow> k < length ?p \<longrightarrow> v \<in> touches (?p ! i) \<longrightarrow> v \<in> touches (?p ! k)
      \<longrightarrow> w \<in> touches (?p ! j) \<longrightarrow> w \<noteq> v \<longrightarrow> al w \<noteq> al v"
    using allocation_separates [OF sorts_sort_key al] by blast
  from this [rule_format, of 2 2 2 2 1] have "al 1 \<noteq> al 2"
    by (simp add: touches_def used_def written_def)
  then show ?thesis using al by blast
qed

theorem allocation_fails_iff_witness:
  "allocate (sort_key istart) [IrHalt] \<noteq> None"
  using allocation_fails_iff [OF sorts_sort_key, of "[IrHalt]"]
  by (simp add: compute_intervals_def note_def_def Let_def)

text \<open>
  What the intervals do not see: a jump backwards. In this loop register 1 is set
  once before the label and checked in every round, but its interval ends at the check,
  so register 2, set later in the round, gets the same physical register and overwrites
  it for the next round.
\<close>
theorem loop_register_clobbered:
  "\<exists>al. allocate (sort_key istart)
      [IrLoadImm8 1 5, IrLabel 0, IrRequireNonZero 1, IrLoadImm8 2 0, IrJump 0] = Some al
     \<and> al 1 = Some 1 \<and> al 2 = Some 1"
  by (simp add: alloc_eval)

text \<open>
  The interval analysis loses an operand: the use list of a token mint skips its
  first operand, so the register that holds the token ends at its definition, and the
  recipient gets the same physical register.
\<close>
theorem token_operand_lost:
  "\<exists>al. allocate (sort_key istart)
      [IrLoadConst 1 tok, IrLoadConst 2 recipient, IrLoadImm8 3 amt, IrTokenMint 1 2 3] = Some al
     \<and> al 1 = al 2"
  by (simp add: alloc_eval)

end
