(* ===== verification/Codegen.thy ===== *)
theory Codegen
  imports Builder Regalloc Instructions
begin

text \<open>
  Code generation (\<^verbatim>\<open>truthlinked-sdk/src/codegen.rs\<close>): each virtual instruction becomes
  one call of the assembler with its registers resolved; a register without allocation
  is a panic, \<open>None\<close>. Below, a reference assembler in two passes, over the instruction
  set of \<^verbatim>\<open>opcode.rs\<close>, and the proof that the one-pass assembler with backpatching
  produces the same bytes.
\<close>

section \<open>Emission\<close>

definition reg1 :: "allocation \<Rightarrow> vreg \<Rightarrow> (u8 \<Rightarrow> 'a) \<Rightarrow> 'a option" where
  "reg1 al a f = (case resolve al a of Some x \<Rightarrow> Some (f x) | None \<Rightarrow> None)"

definition reg2 :: "allocation \<Rightarrow> vreg \<Rightarrow> vreg \<Rightarrow> (u8 \<Rightarrow> u8 \<Rightarrow> 'a) \<Rightarrow> 'a option" where
  "reg2 al a b f = (case resolve al a of Some x \<Rightarrow> reg1 al b (f x) | None \<Rightarrow> None)"

definition reg3 :: "allocation \<Rightarrow> vreg \<Rightarrow> vreg \<Rightarrow> vreg \<Rightarrow> (u8 \<Rightarrow> u8 \<Rightarrow> u8 \<Rightarrow> 'a) \<Rightarrow> 'a option" where
  "reg3 al a b c f = (case resolve al a of Some x \<Rightarrow> reg2 al b c (f x) | None \<Rightarrow> None)"

definition reg4 ::
    "allocation \<Rightarrow> vreg \<Rightarrow> vreg \<Rightarrow> vreg \<Rightarrow> vreg \<Rightarrow> (u8 \<Rightarrow> u8 \<Rightarrow> u8 \<Rightarrow> u8 \<Rightarrow> 'a) \<Rightarrow> 'a option" where
  "reg4 al a b c d f = (case resolve al a of Some x \<Rightarrow> reg3 al b c d (f x) | None \<Rightarrow> None)"

definition label_name :: "label \<Rightarrow> string" where
  "label_name l = nat_to_dec (unat l)"

text \<open>\<^verbatim>\<open>let mut buf = [0u8; 32]; buf[..n].copy_from_slice(&data[..n])\<close>.\<close>

definition buf32 :: "bytes \<Rightarrow> bytes" where
  "buf32 d = pad_to 32 (take 32 d)"

primrec emit_instr :: "allocation \<Rightarrow> ir \<Rightarrow> cell_builder \<Rightarrow> cell_builder option" where
  "emit_instr al (IrAdd x0 x1 x2) cb = reg3 al x0 x1 x2 (\<lambda>r0 r1 r2. cb_add r0 r1 r2 cb)"
| "emit_instr al (IrSub x0 x1 x2) cb = reg3 al x0 x1 x2 (\<lambda>r0 r1 r2. cb_sub r0 r1 r2 cb)"
| "emit_instr al (IrMul x0 x1 x2) cb = reg3 al x0 x1 x2 (\<lambda>r0 r1 r2. cb_mul r0 r1 r2 cb)"
| "emit_instr al (IrDiv x0 x1 x2) cb = reg3 al x0 x1 x2 (\<lambda>r0 r1 r2. cb_div r0 r1 r2 cb)"
| "emit_instr al (IrMod x0 x1 x2) cb = reg3 al x0 x1 x2 (\<lambda>r0 r1 r2. cb_modulo r0 r1 r2 cb)"
| "emit_instr al (IrAddSat x0 x1 x2) cb = reg3 al x0 x1 x2 (\<lambda>r0 r1 r2. cb_add_sat r0 r1 r2 cb)"
| "emit_instr al (IrSubSat x0 x1 x2) cb = reg3 al x0 x1 x2 (\<lambda>r0 r1 r2. cb_sub_sat r0 r1 r2 cb)"
| "emit_instr al (IrAnd x0 x1 x2) cb = reg3 al x0 x1 x2 (\<lambda>r0 r1 r2. cb_and r0 r1 r2 cb)"
| "emit_instr al (IrOr x0 x1 x2) cb = reg3 al x0 x1 x2 (\<lambda>r0 r1 r2. cb_or r0 r1 r2 cb)"
| "emit_instr al (IrXor x0 x1 x2) cb = reg3 al x0 x1 x2 (\<lambda>r0 r1 r2. cb_xor r0 r1 r2 cb)"
| "emit_instr al (IrNot x0 x1) cb = reg2 al x0 x1 (\<lambda>r0 r1. cb_not r0 r1 cb)"
| "emit_instr al (IrShl x0 x1 x2) cb = reg2 al x0 x1 (\<lambda>r0 r1. cb_shl r0 r1 x2 cb)"
| "emit_instr al (IrShr x0 x1 x2) cb = reg2 al x0 x1 (\<lambda>r0 r1. cb_shr r0 r1 x2 cb)"
| "emit_instr al (IrEq x0 x1 x2) cb = reg3 al x0 x1 x2 (\<lambda>r0 r1 r2. cb_eq r0 r1 r2 cb)"
| "emit_instr al (IrNe x0 x1 x2) cb = reg3 al x0 x1 x2 (\<lambda>r0 r1 r2. cb_ne r0 r1 r2 cb)"
| "emit_instr al (IrLt x0 x1 x2) cb = reg3 al x0 x1 x2 (\<lambda>r0 r1 r2. cb_lt r0 r1 r2 cb)"
| "emit_instr al (IrLte x0 x1 x2) cb = reg3 al x0 x1 x2 (\<lambda>r0 r1 r2. cb_lte r0 r1 r2 cb)"
| "emit_instr al (IrGt x0 x1 x2) cb = reg3 al x0 x1 x2 (\<lambda>r0 r1 r2. cb_gt r0 r1 r2 cb)"
| "emit_instr al (IrGte x0 x1 x2) cb = reg3 al x0 x1 x2 (\<lambda>r0 r1 r2. cb_gte r0 r1 r2 cb)"
| "emit_instr al (IrIsZero x0 x1) cb = reg2 al x0 x1 (\<lambda>r0 r1. cb_is_zero r0 r1 cb)"
| "emit_instr al (IrLabel x0) cb = Some (cb_label (label_name x0) cb)"
| "emit_instr al (IrJump x0) cb = Some (cb_jump_label (label_name x0) cb)"
| "emit_instr al (IrJumpIf x0 x1) cb = reg1 al x0 (\<lambda>r0. cb_jump_if_label r0 (label_name x1) cb)"
| "emit_instr al (IrJumpIfNot x0 x1) cb = reg1 al x0 (\<lambda>r0. cb_jump_if_not_label r0 (label_name x1) cb)"
| "emit_instr al (IrCall x0) cb = Some (cb_call_label (label_name x0) cb)"
| "emit_instr al IrReturn cb = Some (cb_ret cb)"
| "emit_instr al IrHalt cb = Some (cb_halt cb)"
| "emit_instr al (IrTrap x0) cb = Some (cb_trap x0 cb)"
| "emit_instr al (IrLoadConst x0 x1) cb = reg1 al x0 (\<lambda>r0. cb_load_bytes32 r0 (buf32 x1) cb)"
| "emit_instr al (IrLoadConstIndex x0 x1) cb = reg1 al x0 (\<lambda>r0. (let (idx, cb) = add_const x1 cb in cb_load_imm64 r0 (ucast idx) cb))"
| "emit_instr al (IrLoadImm8 x0 x1) cb = reg1 al x0 (\<lambda>r0. cb_load_imm8 r0 x1 cb)"
| "emit_instr al (IrLoadImm64 x0 x1) cb = reg1 al x0 (\<lambda>r0. cb_load_imm64 r0 x1 cb)"
| "emit_instr al (IrMov x0 x1) cb = reg2 al x0 x1 (\<lambda>r0 r1. cb_mov r0 r1 cb)"
| "emit_instr al (IrSLoad x0 x1) cb = reg2 al x0 x1 (\<lambda>r0 r1. cb_sload r0 r1 cb)"
| "emit_instr al (IrSStore x0 x1) cb = reg2 al x0 x1 (\<lambda>r0 r1. cb_sstore r0 r1 cb)"
| "emit_instr al (IrSDelete x0) cb = reg1 al x0 (\<lambda>r0. cb_sdelete r0 cb)"
| "emit_instr al (IrGetCaller x0) cb = reg1 al x0 (\<lambda>r0. cb_get_caller r0 cb)"
| "emit_instr al (IrGetOwner x0) cb = reg1 al x0 (\<lambda>r0. cb_get_owner r0 cb)"
| "emit_instr al (IrGetCellId x0) cb = reg1 al x0 (\<lambda>r0. cb_get_cell_id r0 cb)"
| "emit_instr al (IrGetHeight x0) cb = reg1 al x0 (\<lambda>r0. cb_get_height r0 cb)"
| "emit_instr al (IrGetTimestamp x0) cb = reg1 al x0 (\<lambda>r0. cb_get_timestamp r0 cb)"
| "emit_instr al (IrGetValue x0) cb = reg1 al x0 (\<lambda>r0. cb_get_value r0 cb)"
| "emit_instr al (IrGetCalldataLen x0) cb = reg1 al x0 (\<lambda>r0. cb_get_calldata_len r0 cb)"
| "emit_instr al (IrGetCalldata x0 x1) cb = reg2 al x0 x1 (\<lambda>r0 r1. cb_get_calldata r0 r1 cb)"
| "emit_instr al (IrSetReturn x0 x1) cb = reg2 al x0 x1 (\<lambda>r0 r1. cb_set_return r0 r1 cb)"
| "emit_instr al (IrSetReturnReg x0 x1) cb = reg2 al x0 x1 (\<lambda>r0 r1. cb_set_return_reg r0 r1 cb)"
| "emit_instr al (IrEmitLog x0 x1) cb = reg2 al x0 x1 (\<lambda>r0 r1. cb_emit_log r0 r1 cb)"
| "emit_instr al (IrEmitLogReg x0 x1 x2) cb = reg3 al x0 x1 x2 (\<lambda>r0 r1 r2. cb_emit_log_reg r0 r1 r2 cb)"
| "emit_instr al (IrCallCell x0 x1 x2 x3) cb = reg4 al x0 x1 x2 x3 (\<lambda>r0 r1 r2 r3. cb_call_cell r0 r1 r2 r3 cb)"
| "emit_instr al IrBufReset cb = Some (cb_buf_reset cb)"
| "emit_instr al (IrBufWriteConst x0) cb = Some ((let (idx, cb) = add_const x0 cb in cb_buf_write_const idx cb))"
| "emit_instr al (IrBufWriteReg x0) cb = reg1 al x0 (\<lambda>r0. cb_buf_write_reg r0 cb)"
| "emit_instr al (IrBufCallCell x0 x1) cb = reg2 al x0 x1 (\<lambda>r0 r1. cb_buf_call_cell r0 r1 cb)"
| "emit_instr al IrBufSetReturn cb = Some (cb_buf_set_return cb)"
| "emit_instr al (IrHash32 x0 x1) cb = reg2 al x0 x1 (\<lambda>r0 r1. cb_hash32 r0 r1 cb)"
| "emit_instr al (IrHash32Const x0 x1) cb = reg1 al x0 (\<lambda>r0. (let (idx, cb) = add_const (buf32 x1) cb in cb_hash32_const r0 idx cb))"
| "emit_instr al IrRequireOwner cb = Some (cb_require_owner cb)"
| "emit_instr al (IrRequireCaller x0) cb = reg1 al x0 (\<lambda>r0. cb_require_caller r0 cb)"
| "emit_instr al (IrRequireEq x0 x1) cb = reg2 al x0 x1 (\<lambda>r0 r1. cb_require_eq r0 r1 cb)"
| "emit_instr al (IrRequireNe x0 x1) cb = reg2 al x0 x1 (\<lambda>r0 r1. cb_require_ne r0 r1 cb)"
| "emit_instr al (IrRequireLt x0 x1) cb = reg2 al x0 x1 (\<lambda>r0 r1. cb_require_lt r0 r1 cb)"
| "emit_instr al (IrRequireNonZero x0) cb = reg1 al x0 (\<lambda>r0. cb_require_non_zero r0 cb)"
| "emit_instr al (IrRequireGas x0) cb = Some (cb_require_gas x0 cb)"
| "emit_instr al (IrTokenBalance x0 x1 x2) cb = reg3 al x0 x1 x2 (\<lambda>r0 r1 r2. cb_token_balance r0 r1 r2 cb)"
| "emit_instr al (IrTokenTransfer x0 x1 x2 x3) cb = reg4 al x0 x1 x2 x3 (\<lambda>r0 r1 r2 r3. cb_token_transfer r0 r1 r2 r3 cb)"
| "emit_instr al (IrTokenMint x0 x1 x2) cb = reg3 al x0 x1 x2 (\<lambda>r0 r1 r2. cb_token_mint r0 r1 r2 cb)"
| "emit_instr al (IrTokenBurn x0 x1 x2) cb = reg3 al x0 x1 x2 (\<lambda>r0 r1 r2. cb_token_burn r0 r1 r2 cb)"
| "emit_instr al (IrTokenFreeze x0 x1) cb = reg2 al x0 x1 (\<lambda>r0 r1. cb_token_freeze r0 r1 cb)"
| "emit_instr al (IrTokenThaw x0 x1) cb = reg2 al x0 x1 (\<lambda>r0 r1. cb_token_thaw r0 r1 cb)"
| "emit_instr al (IrAccordRequest x0 x1 x2 x3) cb = reg4 al x0 x1 x2 x3 (\<lambda>r0 r1 r2 r3. cb_accord_request r0 r1 r2 r3 cb)"
| "emit_instr al (IrAccordRead x0 x1) cb = reg2 al x0 x1 (\<lambda>r0 r1. cb_accord_read r0 r1 cb)"

primrec emit_all :: "allocation \<Rightarrow> ir list \<Rightarrow> cell_builder \<Rightarrow> cell_builder option" where
  "emit_all al [] cb = Some cb"
| "emit_all al (i # is) cb = Option.bind (emit_instr al i cb) (emit_all al is)"

definition emit :: "ir list \<Rightarrow> allocation \<Rightarrow> bytes option" where
  "emit instrs al = Option.bind (emit_all al instrs cb_new) build"

section \<open>The reference assembler\<close>

text \<open>The bytes of an instruction: its tag, then its operands in order.\<close>

primrec op_bytes :: "op \<Rightarrow> bytes" where
  "op_bytes (OpAdd x0 x1 x2) = [tag_ADD, x0, x1, x2]"
| "op_bytes (OpSub x0 x1 x2) = [tag_SUB, x0, x1, x2]"
| "op_bytes (OpMul x0 x1 x2) = [tag_MUL, x0, x1, x2]"
| "op_bytes (OpDiv x0 x1 x2) = [tag_DIV, x0, x1, x2]"
| "op_bytes (OpMod x0 x1 x2) = [tag_MOD, x0, x1, x2]"
| "op_bytes (OpAddSat x0 x1 x2) = [tag_ADD_SAT, x0, x1, x2]"
| "op_bytes (OpSubSat x0 x1 x2) = [tag_SUB_SAT, x0, x1, x2]"
| "op_bytes (OpAnd x0 x1 x2) = [tag_AND, x0, x1, x2]"
| "op_bytes (OpOr x0 x1 x2) = [tag_OR, x0, x1, x2]"
| "op_bytes (OpXor x0 x1 x2) = [tag_XOR, x0, x1, x2]"
| "op_bytes (OpNot x0 x1) = [tag_NOT, x0, x1]"
| "op_bytes (OpShl x0 x1 x2) = [tag_SHL, x0, x1, x2]"
| "op_bytes (OpShr x0 x1 x2) = [tag_SHR, x0, x1, x2]"
| "op_bytes (OpEq x0 x1 x2) = [tag_EQ, x0, x1, x2]"
| "op_bytes (OpNe x0 x1 x2) = [tag_NE, x0, x1, x2]"
| "op_bytes (OpLt x0 x1 x2) = [tag_LT, x0, x1, x2]"
| "op_bytes (OpLte x0 x1 x2) = [tag_LTE, x0, x1, x2]"
| "op_bytes (OpGt x0 x1 x2) = [tag_GT, x0, x1, x2]"
| "op_bytes (OpGte x0 x1 x2) = [tag_GTE, x0, x1, x2]"
| "op_bytes (OpIsZero x0 x1) = [tag_IS_ZERO, x0, x1]"
| "op_bytes (OpJump x0) = [tag_JUMP] @ to_le_bytes 4 x0"
| "op_bytes (OpJumpIf x0 x1) = [tag_JUMP_IF, x0] @ to_le_bytes 4 x1"
| "op_bytes (OpJumpIfNot x0 x1) = [tag_JUMP_IF_NOT, x0] @ to_le_bytes 4 x1"
| "op_bytes (OpCall x0) = [tag_CALL] @ to_le_bytes 4 x0"
| "op_bytes OpReturn = [tag_RETURN]"
| "op_bytes OpHalt = [tag_HALT]"
| "op_bytes (OpTrap x0) = [tag_TRAP] @ to_le_bytes 2 x0"
| "op_bytes (OpLoadConst x0 x1) = [tag_LOAD_CONST, x0] @ to_le_bytes 2 x1"
| "op_bytes (OpLoadImm8 x0 x1) = [tag_LOAD_IMM8, x0, x1]"
| "op_bytes (OpLoadImm64 x0 x1) = [tag_LOAD_IMM64, x0] @ to_le_bytes 8 x1"
| "op_bytes (OpMove x0 x1) = [tag_MOVE, x0, x1]"
| "op_bytes (OpSwap x0 x1) = [tag_SWAP, x0, x1]"
| "op_bytes (OpSLoad x0 x1) = [tag_SLOAD, x0, x1]"
| "op_bytes (OpSStore x0 x1) = [tag_SSTORE, x0, x1]"
| "op_bytes (OpSDelete x0) = [tag_SDELETE, x0]"
| "op_bytes (OpGetCaller x0) = [tag_GET_CALLER, x0]"
| "op_bytes (OpGetOwner x0) = [tag_GET_OWNER, x0]"
| "op_bytes (OpGetCellId x0) = [tag_GET_CELL_ID, x0]"
| "op_bytes (OpGetHeight x0) = [tag_GET_HEIGHT, x0]"
| "op_bytes (OpGetTimestamp x0) = [tag_GET_TIMESTAMP, x0]"
| "op_bytes (OpGetValue x0) = [tag_GET_VALUE, x0]"
| "op_bytes (OpGetCalldataLen x0) = [tag_GET_CALLDATA_LEN, x0]"
| "op_bytes (OpGetCalldata x0 x1) = [tag_GET_CALLDATA, x0, x1]"
| "op_bytes (OpSetReturn x0 x1) = [tag_SET_RETURN, x0, x1]"
| "op_bytes (OpSetReturnReg x0 x1) = [tag_SET_RETURN_REG, x0, x1]"
| "op_bytes (OpEmitLog x0 x1) = [tag_EMIT_LOG, x0, x1]"
| "op_bytes (OpEmitLogReg x0 x1 x2) = [tag_EMIT_LOG_REG, x0, x1, x2]"
| "op_bytes (OpCallCell x0 x1 x2 x3) = [tag_CALL_CELL, x0, x1, x2, x3]"
| "op_bytes OpBufReset = [tag_BUF_RESET]"
| "op_bytes (OpBufWriteConst x0) = [tag_BUF_WRITE_CONST] @ to_le_bytes 2 x0"
| "op_bytes (OpBufWriteReg x0) = [tag_BUF_WRITE_REG, x0]"
| "op_bytes (OpBufCallCell x0 x1) = [tag_BUF_CALL_CELL, x0, x1]"
| "op_bytes OpBufSetReturn = [tag_BUF_SET_RETURN]"
| "op_bytes (OpHash32 x0 x1) = [tag_HASH32, x0, x1]"
| "op_bytes (OpHash32Const x0 x1) = [tag_HASH32_CONST, x0] @ to_le_bytes 2 x1"
| "op_bytes OpRequireOwner = [tag_REQUIRE_OWNER]"
| "op_bytes (OpRequireCaller x0) = [tag_REQUIRE_CALLER, x0]"
| "op_bytes (OpRequireEq x0 x1) = [tag_REQUIRE_EQ, x0, x1]"
| "op_bytes (OpRequireNe x0 x1) = [tag_REQUIRE_NE, x0, x1]"
| "op_bytes (OpRequireLt x0 x1) = [tag_REQUIRE_LT, x0, x1]"
| "op_bytes (OpRequireNonZero x0) = [tag_REQUIRE_NON_ZERO, x0]"
| "op_bytes (OpRequireGas x0) = [tag_REQUIRE_GAS] @ to_le_bytes 8 x0"
| "op_bytes (OpTokenBalance x0 x1 x2) = [tag_TOKEN_BALANCE, x0, x1, x2]"
| "op_bytes (OpTokenTransfer x0 x1 x2 x3) = [tag_TOKEN_TRANSFER, x0, x1, x2, x3]"
| "op_bytes (OpTokenMint x0 x1 x2) = [tag_TOKEN_MINT, x0, x1, x2]"
| "op_bytes (OpTokenBurn x0 x1 x2) = [tag_TOKEN_BURN, x0, x1, x2]"
| "op_bytes (OpTokenFreeze x0 x1) = [tag_TOKEN_FREEZE, x0, x1]"
| "op_bytes (OpTokenThaw x0 x1) = [tag_TOKEN_THAW, x0, x1]"
| "op_bytes (OpAccordRequest x0 x1 x2 x3) = [tag_ACCORD_REQUEST, x0, x1, x2, x3]"
| "op_bytes (OpAccordRead x0 x1) = [tag_ACCORD_READ, x0, x1]"

text \<open>
  The instruction a virtual one stands for, with its registers renamed by \<open>r\<close>, its labels
  replaced by the addresses \<open>tgt\<close>, and \<open>k\<close> as the index of its constant.
\<close>

primrec lower :: "(vreg \<Rightarrow> u8) \<Rightarrow> (label \<Rightarrow> u32) \<Rightarrow> u16 \<Rightarrow> ir \<Rightarrow> op list" where
  "lower r tgt k (IrAdd x0 x1 x2) = [OpAdd (r x0) (r x1) (r x2)]"
| "lower r tgt k (IrSub x0 x1 x2) = [OpSub (r x0) (r x1) (r x2)]"
| "lower r tgt k (IrMul x0 x1 x2) = [OpMul (r x0) (r x1) (r x2)]"
| "lower r tgt k (IrDiv x0 x1 x2) = [OpDiv (r x0) (r x1) (r x2)]"
| "lower r tgt k (IrMod x0 x1 x2) = [OpMod (r x0) (r x1) (r x2)]"
| "lower r tgt k (IrAddSat x0 x1 x2) = [OpAddSat (r x0) (r x1) (r x2)]"
| "lower r tgt k (IrSubSat x0 x1 x2) = [OpSubSat (r x0) (r x1) (r x2)]"
| "lower r tgt k (IrAnd x0 x1 x2) = [OpAnd (r x0) (r x1) (r x2)]"
| "lower r tgt k (IrOr x0 x1 x2) = [OpOr (r x0) (r x1) (r x2)]"
| "lower r tgt k (IrXor x0 x1 x2) = [OpXor (r x0) (r x1) (r x2)]"
| "lower r tgt k (IrNot x0 x1) = [OpNot (r x0) (r x1)]"
| "lower r tgt k (IrShl x0 x1 x2) = [OpShl (r x0) (r x1) x2]"
| "lower r tgt k (IrShr x0 x1 x2) = [OpShr (r x0) (r x1) x2]"
| "lower r tgt k (IrEq x0 x1 x2) = [OpEq (r x0) (r x1) (r x2)]"
| "lower r tgt k (IrNe x0 x1 x2) = [OpNe (r x0) (r x1) (r x2)]"
| "lower r tgt k (IrLt x0 x1 x2) = [OpLt (r x0) (r x1) (r x2)]"
| "lower r tgt k (IrLte x0 x1 x2) = [OpLte (r x0) (r x1) (r x2)]"
| "lower r tgt k (IrGt x0 x1 x2) = [OpGt (r x0) (r x1) (r x2)]"
| "lower r tgt k (IrGte x0 x1 x2) = [OpGte (r x0) (r x1) (r x2)]"
| "lower r tgt k (IrIsZero x0 x1) = [OpIsZero (r x0) (r x1)]"
| "lower r tgt k (IrLabel x0) = []"
| "lower r tgt k (IrJump x0) = [OpJump (tgt x0)]"
| "lower r tgt k (IrJumpIf x0 x1) = [OpJumpIf (r x0) (tgt x1)]"
| "lower r tgt k (IrJumpIfNot x0 x1) = [OpJumpIfNot (r x0) (tgt x1)]"
| "lower r tgt k (IrCall x0) = [OpCall (tgt x0)]"
| "lower r tgt k IrReturn = [OpReturn]"
| "lower r tgt k IrHalt = [OpHalt]"
| "lower r tgt k (IrTrap x0) = [OpTrap x0]"
| "lower r tgt k (IrLoadConst x0 x1) = [OpLoadConst (r x0) k]"
| "lower r tgt k (IrLoadConstIndex x0 x1) = [OpLoadImm64 (r x0) (ucast k)]"
| "lower r tgt k (IrLoadImm8 x0 x1) = [OpLoadImm8 (r x0) x1]"
| "lower r tgt k (IrLoadImm64 x0 x1) = [OpLoadImm64 (r x0) x1]"
| "lower r tgt k (IrMov x0 x1) = [OpMove (r x0) (r x1)]"
| "lower r tgt k (IrSLoad x0 x1) = [OpSLoad (r x0) (r x1)]"
| "lower r tgt k (IrSStore x0 x1) = [OpSStore (r x0) (r x1)]"
| "lower r tgt k (IrSDelete x0) = [OpSDelete (r x0)]"
| "lower r tgt k (IrGetCaller x0) = [OpGetCaller (r x0)]"
| "lower r tgt k (IrGetOwner x0) = [OpGetOwner (r x0)]"
| "lower r tgt k (IrGetCellId x0) = [OpGetCellId (r x0)]"
| "lower r tgt k (IrGetHeight x0) = [OpGetHeight (r x0)]"
| "lower r tgt k (IrGetTimestamp x0) = [OpGetTimestamp (r x0)]"
| "lower r tgt k (IrGetValue x0) = [OpGetValue (r x0)]"
| "lower r tgt k (IrGetCalldataLen x0) = [OpGetCalldataLen (r x0)]"
| "lower r tgt k (IrGetCalldata x0 x1) = [OpGetCalldata (r x0) (r x1)]"
| "lower r tgt k (IrSetReturn x0 x1) = [OpSetReturn (r x0) (r x1)]"
| "lower r tgt k (IrSetReturnReg x0 x1) = [OpSetReturnReg (r x0) (r x1)]"
| "lower r tgt k (IrEmitLog x0 x1) = [OpEmitLog (r x0) (r x1)]"
| "lower r tgt k (IrEmitLogReg x0 x1 x2) = [OpEmitLogReg (r x0) (r x1) (r x2)]"
| "lower r tgt k (IrCallCell x0 x1 x2 x3) = [OpCallCell (r x0) (r x1) (r x2) (r x3)]"
| "lower r tgt k IrBufReset = [OpBufReset]"
| "lower r tgt k (IrBufWriteConst x0) = [OpBufWriteConst k]"
| "lower r tgt k (IrBufWriteReg x0) = [OpBufWriteReg (r x0)]"
| "lower r tgt k (IrBufCallCell x0 x1) = [OpBufCallCell (r x0) (r x1)]"
| "lower r tgt k IrBufSetReturn = [OpBufSetReturn]"
| "lower r tgt k (IrHash32 x0 x1) = [OpHash32 (r x0) (r x1)]"
| "lower r tgt k (IrHash32Const x0 x1) = [OpHash32Const (r x0) k]"
| "lower r tgt k IrRequireOwner = [OpRequireOwner]"
| "lower r tgt k (IrRequireCaller x0) = [OpRequireCaller (r x0)]"
| "lower r tgt k (IrRequireEq x0 x1) = [OpRequireEq (r x0) (r x1)]"
| "lower r tgt k (IrRequireNe x0 x1) = [OpRequireNe (r x0) (r x1)]"
| "lower r tgt k (IrRequireLt x0 x1) = [OpRequireLt (r x0) (r x1)]"
| "lower r tgt k (IrRequireNonZero x0) = [OpRequireNonZero (r x0)]"
| "lower r tgt k (IrRequireGas x0) = [OpRequireGas x0]"
| "lower r tgt k (IrTokenBalance x0 x1 x2) = [OpTokenBalance (r x0) (r x1) (r x2)]"
| "lower r tgt k (IrTokenTransfer x0 x1 x2 x3) = [OpTokenTransfer (r x0) (r x1) (r x2) (r x3)]"
| "lower r tgt k (IrTokenMint x0 x1 x2) = [OpTokenMint (r x0) (r x1) (r x2)]"
| "lower r tgt k (IrTokenBurn x0 x1 x2) = [OpTokenBurn (r x0) (r x1) (r x2)]"
| "lower r tgt k (IrTokenFreeze x0 x1) = [OpTokenFreeze (r x0) (r x1)]"
| "lower r tgt k (IrTokenThaw x0 x1) = [OpTokenThaw (r x0) (r x1)]"
| "lower r tgt k (IrAccordRequest x0 x1 x2 x3) = [OpAccordRequest (r x0) (r x1) (r x2) (r x3)]"
| "lower r tgt k (IrAccordRead x0 x1) = [OpAccordRead (r x0) (r x1)]"

text \<open>The constants it adds to the pool, the registers it mentions, its label and its jump target.\<close>

primrec ir_consts :: "ir \<Rightarrow> bytes list" where
  "ir_consts (IrAdd x0 x1 x2) = []"
| "ir_consts (IrSub x0 x1 x2) = []"
| "ir_consts (IrMul x0 x1 x2) = []"
| "ir_consts (IrDiv x0 x1 x2) = []"
| "ir_consts (IrMod x0 x1 x2) = []"
| "ir_consts (IrAddSat x0 x1 x2) = []"
| "ir_consts (IrSubSat x0 x1 x2) = []"
| "ir_consts (IrAnd x0 x1 x2) = []"
| "ir_consts (IrOr x0 x1 x2) = []"
| "ir_consts (IrXor x0 x1 x2) = []"
| "ir_consts (IrNot x0 x1) = []"
| "ir_consts (IrShl x0 x1 x2) = []"
| "ir_consts (IrShr x0 x1 x2) = []"
| "ir_consts (IrEq x0 x1 x2) = []"
| "ir_consts (IrNe x0 x1 x2) = []"
| "ir_consts (IrLt x0 x1 x2) = []"
| "ir_consts (IrLte x0 x1 x2) = []"
| "ir_consts (IrGt x0 x1 x2) = []"
| "ir_consts (IrGte x0 x1 x2) = []"
| "ir_consts (IrIsZero x0 x1) = []"
| "ir_consts (IrLabel x0) = []"
| "ir_consts (IrJump x0) = []"
| "ir_consts (IrJumpIf x0 x1) = []"
| "ir_consts (IrJumpIfNot x0 x1) = []"
| "ir_consts (IrCall x0) = []"
| "ir_consts IrReturn = []"
| "ir_consts IrHalt = []"
| "ir_consts (IrTrap x0) = []"
| "ir_consts (IrLoadConst x0 x1) = [buf32 x1]"
| "ir_consts (IrLoadConstIndex x0 x1) = [x1]"
| "ir_consts (IrLoadImm8 x0 x1) = []"
| "ir_consts (IrLoadImm64 x0 x1) = []"
| "ir_consts (IrMov x0 x1) = []"
| "ir_consts (IrSLoad x0 x1) = []"
| "ir_consts (IrSStore x0 x1) = []"
| "ir_consts (IrSDelete x0) = []"
| "ir_consts (IrGetCaller x0) = []"
| "ir_consts (IrGetOwner x0) = []"
| "ir_consts (IrGetCellId x0) = []"
| "ir_consts (IrGetHeight x0) = []"
| "ir_consts (IrGetTimestamp x0) = []"
| "ir_consts (IrGetValue x0) = []"
| "ir_consts (IrGetCalldataLen x0) = []"
| "ir_consts (IrGetCalldata x0 x1) = []"
| "ir_consts (IrSetReturn x0 x1) = []"
| "ir_consts (IrSetReturnReg x0 x1) = []"
| "ir_consts (IrEmitLog x0 x1) = []"
| "ir_consts (IrEmitLogReg x0 x1 x2) = []"
| "ir_consts (IrCallCell x0 x1 x2 x3) = []"
| "ir_consts IrBufReset = []"
| "ir_consts (IrBufWriteConst x0) = [x0]"
| "ir_consts (IrBufWriteReg x0) = []"
| "ir_consts (IrBufCallCell x0 x1) = []"
| "ir_consts IrBufSetReturn = []"
| "ir_consts (IrHash32 x0 x1) = []"
| "ir_consts (IrHash32Const x0 x1) = [buf32 x1]"
| "ir_consts IrRequireOwner = []"
| "ir_consts (IrRequireCaller x0) = []"
| "ir_consts (IrRequireEq x0 x1) = []"
| "ir_consts (IrRequireNe x0 x1) = []"
| "ir_consts (IrRequireLt x0 x1) = []"
| "ir_consts (IrRequireNonZero x0) = []"
| "ir_consts (IrRequireGas x0) = []"
| "ir_consts (IrTokenBalance x0 x1 x2) = []"
| "ir_consts (IrTokenTransfer x0 x1 x2 x3) = []"
| "ir_consts (IrTokenMint x0 x1 x2) = []"
| "ir_consts (IrTokenBurn x0 x1 x2) = []"
| "ir_consts (IrTokenFreeze x0 x1) = []"
| "ir_consts (IrTokenThaw x0 x1) = []"
| "ir_consts (IrAccordRequest x0 x1 x2 x3) = []"
| "ir_consts (IrAccordRead x0 x1) = []"

primrec operands :: "ir \<Rightarrow> vreg list" where
  "operands (IrAdd x0 x1 x2) = [x0, x1, x2]"
| "operands (IrSub x0 x1 x2) = [x0, x1, x2]"
| "operands (IrMul x0 x1 x2) = [x0, x1, x2]"
| "operands (IrDiv x0 x1 x2) = [x0, x1, x2]"
| "operands (IrMod x0 x1 x2) = [x0, x1, x2]"
| "operands (IrAddSat x0 x1 x2) = [x0, x1, x2]"
| "operands (IrSubSat x0 x1 x2) = [x0, x1, x2]"
| "operands (IrAnd x0 x1 x2) = [x0, x1, x2]"
| "operands (IrOr x0 x1 x2) = [x0, x1, x2]"
| "operands (IrXor x0 x1 x2) = [x0, x1, x2]"
| "operands (IrNot x0 x1) = [x0, x1]"
| "operands (IrShl x0 x1 x2) = [x0, x1]"
| "operands (IrShr x0 x1 x2) = [x0, x1]"
| "operands (IrEq x0 x1 x2) = [x0, x1, x2]"
| "operands (IrNe x0 x1 x2) = [x0, x1, x2]"
| "operands (IrLt x0 x1 x2) = [x0, x1, x2]"
| "operands (IrLte x0 x1 x2) = [x0, x1, x2]"
| "operands (IrGt x0 x1 x2) = [x0, x1, x2]"
| "operands (IrGte x0 x1 x2) = [x0, x1, x2]"
| "operands (IrIsZero x0 x1) = [x0, x1]"
| "operands (IrLabel x0) = []"
| "operands (IrJump x0) = []"
| "operands (IrJumpIf x0 x1) = [x0]"
| "operands (IrJumpIfNot x0 x1) = [x0]"
| "operands (IrCall x0) = []"
| "operands IrReturn = []"
| "operands IrHalt = []"
| "operands (IrTrap x0) = []"
| "operands (IrLoadConst x0 x1) = [x0]"
| "operands (IrLoadConstIndex x0 x1) = [x0]"
| "operands (IrLoadImm8 x0 x1) = [x0]"
| "operands (IrLoadImm64 x0 x1) = [x0]"
| "operands (IrMov x0 x1) = [x0, x1]"
| "operands (IrSLoad x0 x1) = [x0, x1]"
| "operands (IrSStore x0 x1) = [x0, x1]"
| "operands (IrSDelete x0) = [x0]"
| "operands (IrGetCaller x0) = [x0]"
| "operands (IrGetOwner x0) = [x0]"
| "operands (IrGetCellId x0) = [x0]"
| "operands (IrGetHeight x0) = [x0]"
| "operands (IrGetTimestamp x0) = [x0]"
| "operands (IrGetValue x0) = [x0]"
| "operands (IrGetCalldataLen x0) = [x0]"
| "operands (IrGetCalldata x0 x1) = [x0, x1]"
| "operands (IrSetReturn x0 x1) = [x0, x1]"
| "operands (IrSetReturnReg x0 x1) = [x0, x1]"
| "operands (IrEmitLog x0 x1) = [x0, x1]"
| "operands (IrEmitLogReg x0 x1 x2) = [x0, x1, x2]"
| "operands (IrCallCell x0 x1 x2 x3) = [x0, x1, x2, x3]"
| "operands IrBufReset = []"
| "operands (IrBufWriteConst x0) = []"
| "operands (IrBufWriteReg x0) = [x0]"
| "operands (IrBufCallCell x0 x1) = [x0, x1]"
| "operands IrBufSetReturn = []"
| "operands (IrHash32 x0 x1) = [x0, x1]"
| "operands (IrHash32Const x0 x1) = [x0]"
| "operands IrRequireOwner = []"
| "operands (IrRequireCaller x0) = [x0]"
| "operands (IrRequireEq x0 x1) = [x0, x1]"
| "operands (IrRequireNe x0 x1) = [x0, x1]"
| "operands (IrRequireLt x0 x1) = [x0, x1]"
| "operands (IrRequireNonZero x0) = [x0]"
| "operands (IrRequireGas x0) = []"
| "operands (IrTokenBalance x0 x1 x2) = [x0, x1, x2]"
| "operands (IrTokenTransfer x0 x1 x2 x3) = [x0, x1, x2, x3]"
| "operands (IrTokenMint x0 x1 x2) = [x0, x1, x2]"
| "operands (IrTokenBurn x0 x1 x2) = [x0, x1, x2]"
| "operands (IrTokenFreeze x0 x1) = [x0, x1]"
| "operands (IrTokenThaw x0 x1) = [x0, x1]"
| "operands (IrAccordRequest x0 x1 x2 x3) = [x0, x1, x2, x3]"
| "operands (IrAccordRead x0 x1) = [x0, x1]"

primrec label_of :: "ir \<Rightarrow> label option" where
  "label_of (IrAdd x0 x1 x2) = None"
| "label_of (IrSub x0 x1 x2) = None"
| "label_of (IrMul x0 x1 x2) = None"
| "label_of (IrDiv x0 x1 x2) = None"
| "label_of (IrMod x0 x1 x2) = None"
| "label_of (IrAddSat x0 x1 x2) = None"
| "label_of (IrSubSat x0 x1 x2) = None"
| "label_of (IrAnd x0 x1 x2) = None"
| "label_of (IrOr x0 x1 x2) = None"
| "label_of (IrXor x0 x1 x2) = None"
| "label_of (IrNot x0 x1) = None"
| "label_of (IrShl x0 x1 x2) = None"
| "label_of (IrShr x0 x1 x2) = None"
| "label_of (IrEq x0 x1 x2) = None"
| "label_of (IrNe x0 x1 x2) = None"
| "label_of (IrLt x0 x1 x2) = None"
| "label_of (IrLte x0 x1 x2) = None"
| "label_of (IrGt x0 x1 x2) = None"
| "label_of (IrGte x0 x1 x2) = None"
| "label_of (IrIsZero x0 x1) = None"
| "label_of (IrLabel x0) = Some x0"
| "label_of (IrJump x0) = None"
| "label_of (IrJumpIf x0 x1) = None"
| "label_of (IrJumpIfNot x0 x1) = None"
| "label_of (IrCall x0) = None"
| "label_of IrReturn = None"
| "label_of IrHalt = None"
| "label_of (IrTrap x0) = None"
| "label_of (IrLoadConst x0 x1) = None"
| "label_of (IrLoadConstIndex x0 x1) = None"
| "label_of (IrLoadImm8 x0 x1) = None"
| "label_of (IrLoadImm64 x0 x1) = None"
| "label_of (IrMov x0 x1) = None"
| "label_of (IrSLoad x0 x1) = None"
| "label_of (IrSStore x0 x1) = None"
| "label_of (IrSDelete x0) = None"
| "label_of (IrGetCaller x0) = None"
| "label_of (IrGetOwner x0) = None"
| "label_of (IrGetCellId x0) = None"
| "label_of (IrGetHeight x0) = None"
| "label_of (IrGetTimestamp x0) = None"
| "label_of (IrGetValue x0) = None"
| "label_of (IrGetCalldataLen x0) = None"
| "label_of (IrGetCalldata x0 x1) = None"
| "label_of (IrSetReturn x0 x1) = None"
| "label_of (IrSetReturnReg x0 x1) = None"
| "label_of (IrEmitLog x0 x1) = None"
| "label_of (IrEmitLogReg x0 x1 x2) = None"
| "label_of (IrCallCell x0 x1 x2 x3) = None"
| "label_of IrBufReset = None"
| "label_of (IrBufWriteConst x0) = None"
| "label_of (IrBufWriteReg x0) = None"
| "label_of (IrBufCallCell x0 x1) = None"
| "label_of IrBufSetReturn = None"
| "label_of (IrHash32 x0 x1) = None"
| "label_of (IrHash32Const x0 x1) = None"
| "label_of IrRequireOwner = None"
| "label_of (IrRequireCaller x0) = None"
| "label_of (IrRequireEq x0 x1) = None"
| "label_of (IrRequireNe x0 x1) = None"
| "label_of (IrRequireLt x0 x1) = None"
| "label_of (IrRequireNonZero x0) = None"
| "label_of (IrRequireGas x0) = None"
| "label_of (IrTokenBalance x0 x1 x2) = None"
| "label_of (IrTokenTransfer x0 x1 x2 x3) = None"
| "label_of (IrTokenMint x0 x1 x2) = None"
| "label_of (IrTokenBurn x0 x1 x2) = None"
| "label_of (IrTokenFreeze x0 x1) = None"
| "label_of (IrTokenThaw x0 x1) = None"
| "label_of (IrAccordRequest x0 x1 x2 x3) = None"
| "label_of (IrAccordRead x0 x1) = None"

primrec jump_of :: "ir \<Rightarrow> (nat \<times> label) option" where
  "jump_of (IrAdd x0 x1 x2) = None"
| "jump_of (IrSub x0 x1 x2) = None"
| "jump_of (IrMul x0 x1 x2) = None"
| "jump_of (IrDiv x0 x1 x2) = None"
| "jump_of (IrMod x0 x1 x2) = None"
| "jump_of (IrAddSat x0 x1 x2) = None"
| "jump_of (IrSubSat x0 x1 x2) = None"
| "jump_of (IrAnd x0 x1 x2) = None"
| "jump_of (IrOr x0 x1 x2) = None"
| "jump_of (IrXor x0 x1 x2) = None"
| "jump_of (IrNot x0 x1) = None"
| "jump_of (IrShl x0 x1 x2) = None"
| "jump_of (IrShr x0 x1 x2) = None"
| "jump_of (IrEq x0 x1 x2) = None"
| "jump_of (IrNe x0 x1 x2) = None"
| "jump_of (IrLt x0 x1 x2) = None"
| "jump_of (IrLte x0 x1 x2) = None"
| "jump_of (IrGt x0 x1 x2) = None"
| "jump_of (IrGte x0 x1 x2) = None"
| "jump_of (IrIsZero x0 x1) = None"
| "jump_of (IrLabel x0) = None"
| "jump_of (IrJump x0) = Some (1, x0)"
| "jump_of (IrJumpIf x0 x1) = Some (2, x1)"
| "jump_of (IrJumpIfNot x0 x1) = Some (2, x1)"
| "jump_of (IrCall x0) = Some (1, x0)"
| "jump_of IrReturn = None"
| "jump_of IrHalt = None"
| "jump_of (IrTrap x0) = None"
| "jump_of (IrLoadConst x0 x1) = None"
| "jump_of (IrLoadConstIndex x0 x1) = None"
| "jump_of (IrLoadImm8 x0 x1) = None"
| "jump_of (IrLoadImm64 x0 x1) = None"
| "jump_of (IrMov x0 x1) = None"
| "jump_of (IrSLoad x0 x1) = None"
| "jump_of (IrSStore x0 x1) = None"
| "jump_of (IrSDelete x0) = None"
| "jump_of (IrGetCaller x0) = None"
| "jump_of (IrGetOwner x0) = None"
| "jump_of (IrGetCellId x0) = None"
| "jump_of (IrGetHeight x0) = None"
| "jump_of (IrGetTimestamp x0) = None"
| "jump_of (IrGetValue x0) = None"
| "jump_of (IrGetCalldataLen x0) = None"
| "jump_of (IrGetCalldata x0 x1) = None"
| "jump_of (IrSetReturn x0 x1) = None"
| "jump_of (IrSetReturnReg x0 x1) = None"
| "jump_of (IrEmitLog x0 x1) = None"
| "jump_of (IrEmitLogReg x0 x1 x2) = None"
| "jump_of (IrCallCell x0 x1 x2 x3) = None"
| "jump_of IrBufReset = None"
| "jump_of (IrBufWriteConst x0) = None"
| "jump_of (IrBufWriteReg x0) = None"
| "jump_of (IrBufCallCell x0 x1) = None"
| "jump_of IrBufSetReturn = None"
| "jump_of (IrHash32 x0 x1) = None"
| "jump_of (IrHash32Const x0 x1) = None"
| "jump_of IrRequireOwner = None"
| "jump_of (IrRequireCaller x0) = None"
| "jump_of (IrRequireEq x0 x1) = None"
| "jump_of (IrRequireNe x0 x1) = None"
| "jump_of (IrRequireLt x0 x1) = None"
| "jump_of (IrRequireNonZero x0) = None"
| "jump_of (IrRequireGas x0) = None"
| "jump_of (IrTokenBalance x0 x1 x2) = None"
| "jump_of (IrTokenTransfer x0 x1 x2 x3) = None"
| "jump_of (IrTokenMint x0 x1 x2) = None"
| "jump_of (IrTokenBurn x0 x1 x2) = None"
| "jump_of (IrTokenFreeze x0 x1) = None"
| "jump_of (IrTokenThaw x0 x1) = None"
| "jump_of (IrAccordRequest x0 x1 x2 x3) = None"
| "jump_of (IrAccordRead x0 x1) = None"

text \<open>The first pass: the size of each instruction and the address of each label (a later one wins).\<close>

definition code_of :: "op list \<Rightarrow> bytes" where
  "code_of ops = concat (map op_bytes ops)"

definition ir_size :: "ir \<Rightarrow> nat" where
  "ir_size i = length (code_of (lower (\<lambda>_. 0) (\<lambda>_. 0) 0 i))"

primrec addresses :: "nat \<Rightarrow> ir list \<Rightarrow> label \<rightharpoonup> u32" where
  "addresses pos [] = Map.empty"
| "addresses pos (i # is) =
    (case label_of i of Some l \<Rightarrow> [l \<mapsto> of_nat pos] | None \<Rightarrow> Map.empty) ++ addresses (pos + ir_size i) is"

text \<open>The second pass: the instructions with everything resolved.\<close>

primrec ops_of :: "(vreg \<Rightarrow> u8) \<Rightarrow> (label \<Rightarrow> u32) \<Rightarrow> nat \<Rightarrow> ir list \<Rightarrow> op list" where
  "ops_of r tgt k [] = []"
| "ops_of r tgt k (i # is) = lower r tgt (of_nat k) i @ ops_of r tgt (k + length (ir_consts i)) is"

definition assembled :: "ir list \<Rightarrow> allocation \<Rightarrow> cell_bytecode" where
  "assembled instrs al = \<lparr>const_pool = concat (map ir_consts instrs),
     code = code_of (ops_of (\<lambda>v. the (al v)) (\<lambda>l. the (addresses 0 instrs l)) 0 instrs)\<rparr>"

definition well_formed :: "ir list \<Rightarrow> allocation \<Rightarrow> bool" where
  "well_formed instrs al \<longleftrightarrow> (\<forall>i \<in> set instrs. \<forall>v \<in> set (operands i). al v \<noteq> None)
     \<and> (\<forall>i \<in> set instrs. \<forall>off l. jump_of i = Some (off, l) \<longrightarrow> addresses 0 instrs l \<noteq> None)"

section \<open>One instruction\<close>

lemma code_of_simps [simp]:
  "code_of [] = []" "code_of (x # xs) = op_bytes x @ code_of xs" "code_of (xs @ ys) = code_of xs @ code_of ys"
  by (simp_all add: code_of_def)

definition pendings :: "nat \<Rightarrow> ir \<Rightarrow> pending_jump list" where
  "pendings pos i = (case jump_of i of
     Some (off, l) \<Rightarrow> [\<lparr>patch_offset = pos + off, pj_label = label_name l\<rparr>] | None \<Rightarrow> [])"

definition label_map :: "nat \<Rightarrow> ir \<Rightarrow> string \<rightharpoonup> u32" where
  "label_map pos i = (case label_of i of Some l \<Rightarrow> [label_name l \<mapsto> of_nat pos] | None \<Rightarrow> Map.empty)"

definition after :: "allocation \<Rightarrow> ir \<Rightarrow> cell_builder \<Rightarrow> cell_builder" where
  "after al i cb = \<lparr>
     cb_code = cb_code cb @ code_of (lower (\<lambda>v. the (al v)) (\<lambda>_. 0) (of_nat (length (cb_pool cb))) i),
     cb_pool = cb_pool cb @ ir_consts i,
     cb_labels = cb_labels cb ++ label_map (length (cb_code cb)) i,
     cb_pending = cb_pending cb @ pendings (length (cb_code cb)) i\<rparr>"

lemma reg_simps:
  "reg1 al a f = (if al a = None then None else Some (f (the (al a))))"
  "reg2 al a b g = (if al a = None \<or> al b = None then None else Some (g (the (al a)) (the (al b))))"
  "reg3 al a b c h = (if al a = None \<or> al b = None \<or> al c = None then None
     else Some (h (the (al a)) (the (al b)) (the (al c))))"
  "reg4 al a b c d k = (if al a = None \<or> al b = None \<or> al c = None \<or> al d = None then None
     else Some (k (the (al a)) (the (al b)) (the (al c)) (the (al d))))"
  by (auto simp: reg1_def reg2_def reg3_def reg4_def resolve_def split: option.splits)

lemma emit_bytes_twice: "emit_bytes ys (emit_bytes xs cb) = emit_bytes (xs @ ys) cb"
  by (simp add: emit_bytes_def)

lemma emit_bytes_eq: "emit_bytes bs cb = \<lparr>cb_code = cb_code cb @ bs, cb_pool = cb_pool cb,
    cb_labels = cb_labels cb, cb_pending = cb_pending cb\<rparr>"
  by (simp add: emit_bytes_def)

lemma jump_pending_eq: "jump_pending t c l cb = \<lparr>
    cb_code = cb_code cb @ t # (case c of Some c \<Rightarrow> [c] | None \<Rightarrow> []) @ to_le_bytes 4 (0 :: u32),
    cb_pool = cb_pool cb, cb_labels = cb_labels cb,
    cb_pending = cb_pending cb @ [\<lparr>patch_offset = length (cb_code cb) + (case c of Some _ \<Rightarrow> 2 | None \<Rightarrow> 1),
      pj_label = l\<rparr>]\<rparr>"
  by (rule cell_builder.equality) simp_all

lemma emit_instr_spec:
  "emit_instr al i cb = (if \<forall>v \<in> set (operands i). al v \<noteq> None then Some (after al i cb) else None)"
  by (induction i) (simp_all add: reg_simps builder emit_bytes_twice emit_bytes_eq jump_pending_eq
      cb_label_def cb_offset_def add_const_def after_def pendings_def label_map_def)

lemma lower_no_jump: "jump_of i = None \<Longrightarrow> lower r f k i = lower r g k i"
  by (induction i) simp_all

lemma lower_jump: "jump_of i = Some (off, l) \<Longrightarrow> f l = g l \<Longrightarrow> lower r f k i = lower r g k i"
  by (induction i) simp_all

lemma length_lower: "length (code_of (lower r f k i)) = ir_size i"
  by (induction i) (simp_all add: ir_size_def)

lemma patch_lower:
  assumes "jump_of i = Some (off, l)"
  shows "off + 4 = ir_size i"
    and "overwrite (code_of (lower r (\<lambda>_. 0) k i)) off (to_le_bytes 4 t) = code_of (lower r (\<lambda>_. t) k i)"
  using assms by (induction i) (auto simp: ir_size_def overwrite_def)

section \<open>The whole program\<close>

primrec all_pendings :: "nat \<Rightarrow> ir list \<Rightarrow> pending_jump list" where
  "all_pendings pos [] = []"
| "all_pendings pos (i # is) = pendings pos i @ all_pendings (pos + ir_size i) is"

primrec all_labels :: "nat \<Rightarrow> ir list \<Rightarrow> string \<rightharpoonup> u32" where
  "all_labels pos [] = Map.empty"
| "all_labels pos (i # is) = label_map pos i ++ all_labels (pos + ir_size i) is"

lemma emit_all_spec:
  "emit_all al is cb = (if \<forall>i \<in> set is. \<forall>v \<in> set (operands i). al v \<noteq> None
    then Some \<lparr>cb_code = cb_code cb @ code_of (ops_of (\<lambda>v. the (al v)) (\<lambda>_. 0) (length (cb_pool cb)) is),
      cb_pool = cb_pool cb @ concat (map ir_consts is),
      cb_labels = cb_labels cb ++ all_labels (length (cb_code cb)) is,
      cb_pending = cb_pending cb @ all_pendings (length (cb_code cb)) is\<rparr> else None)"
proof (induction "is" arbitrary: cb)
  case (Cons i "is")
  have "length (cb_code (after al i cb)) = length (cb_code cb) + ir_size i"
    "length (cb_pool (after al i cb)) = length (cb_pool cb) + length (ir_consts i)"
    by (simp_all add: after_def length_lower)
  then show ?case using Cons.IH [of "after al i cb"] by (simp add: emit_instr_spec after_def length_lower)
qed simp

lemma overwrite_middle:
  assumes "off + length src \<le> length b"
  shows "overwrite (a @ b @ c) (length a + off) src = a @ overwrite b off src @ c"
  using assms by (simp add: overwrite_def)

text \<open>Backpatching fills in the addresses, one instruction after the other.\<close>

lemma patch_program:
  assumes "\<forall>i \<in> set is. \<forall>off l. jump_of i = Some (off, l) \<longrightarrow> L (label_name l) \<noteq> None"
  shows "patch_all L (all_pendings (length c0) is) (c0 @ code_of (ops_of r (\<lambda>_. 0) k is))
    = Some (c0 @ code_of (ops_of r (\<lambda>l. the (L (label_name l))) k is))"
  using assms
proof (induction "is" arbitrary: c0 k)
  case (Cons i "is")
  let ?tgt = "\<lambda>l. the (L (label_name l))"
  let ?b = "code_of (lower r ?tgt (of_nat k) i)"
  let ?rest = "code_of (ops_of r (\<lambda>_. 0) (k + length (ir_consts i)) is)"
  have "length (c0 @ ?b) = length c0 + ir_size i" by (simp add: length_lower)
  then have ih: "patch_all L (all_pendings (length c0 + ir_size i) is) (c0 @ ?b @ ?rest)
      = Some (c0 @ ?b @ code_of (ops_of r ?tgt (k + length (ir_consts i)) is))"
    using Cons.IH [of "c0 @ ?b"] Cons.prems by simp
  show ?case
  proof (cases "jump_of i")
    case None
    then show ?thesis using ih lower_no_jump [OF None, of r "\<lambda>_. 0" _ ?tgt] by (simp add: pendings_def)
  next
    case (Some x)
    then obtain off l where j: "jump_of i = Some (off, l)" by (cases x) auto
    then obtain t where t: "L (label_name l) = Some t" using Cons.prems by fastforce
    have "overwrite (c0 @ code_of (lower r (\<lambda>_. 0) (of_nat k) i) @ ?rest) (length c0 + off) (to_le_bytes 4 t)
        = c0 @ overwrite (code_of (lower r (\<lambda>_. 0) (of_nat k) i)) off (to_le_bytes 4 t) @ ?rest"
      using patch_lower(1) [OF j] by (intro overwrite_middle) (simp add: length_lower)
    also have "\<dots> = c0 @ ?b @ ?rest"
      using patch_lower(2) [OF j, of r "of_nat k" t] lower_jump [OF j, of "\<lambda>_. t" ?tgt] t by simp
    finally show ?thesis using ih j t by (simp add: pendings_def)
  qed
qed simp

lemma patch_undefined:
  assumes "j \<in> set js" and "L (pj_label j) = None"
  shows "patch_all L js cd = None"
  using assms by (induction js arbitrary: cd) (auto split: option.split)

lemma pendings_in:
  assumes "i \<in> set is" and "jump_of i = Some (off, l)"
  shows "\<exists>j \<in> set (all_pendings pos is). pj_label j = label_name l"
  using assms by (induction "is" arbitrary: pos) (auto simp: pendings_def, fastforce)

text \<open>Labels are named by their decimal digits, which determine them.\<close>

lemma nat_to_dec_small: "n < 10 \<Longrightarrow> nat_to_dec n = [char_of (48 + n)]"
  by (subst nat_to_dec.simps) simp

lemma nat_to_dec_big: "\<not> n < 10 \<Longrightarrow> nat_to_dec n = nat_to_dec (n div 10) @ [char_of (48 + n mod 10)]"
  by (subst nat_to_dec.simps) simp

lemma nat_to_dec_nonempty: "nat_to_dec n \<noteq> []"
  by (cases "n < 10") (simp_all add: nat_to_dec_small nat_to_dec_big)

lemma digit_inj:
  assumes "char_of (48 + a) = char_of (48 + b)" and "a < 10" and "b < (10 :: nat)"
  shows "a = b"
proof -
  have "(of_char (char_of (48 + a)) :: nat) = of_char (char_of (48 + b))" using assms(1) by simp
  then show ?thesis using assms(2,3) by simp
qed

lemma nat_to_dec_inj: "nat_to_dec m = nat_to_dec n \<Longrightarrow> m = n"
proof (induction m arbitrary: n rule: less_induct)
  case (less m)
  consider (both) "m < 10" "n < 10" | (mixed) "(m < 10) \<noteq> (n < 10)" | (neither) "\<not> m < 10" "\<not> n < 10" by blast
  then show ?case
  proof cases
    case both
    then show ?thesis using less.prems by (intro digit_inj) (simp_all add: nat_to_dec_small)
  next
    case mixed
    then have False using less.prems nat_to_dec_nonempty [of "m div 10"] nat_to_dec_nonempty [of "n div 10"]
      by (cases "m < 10"; cases "n < 10") (simp_all add: nat_to_dec_small nat_to_dec_big append_eq_Cons_conv Cons_eq_append_conv)
    then show ?thesis ..
  next
    case neither
    have "nat_to_dec (m div 10) = nat_to_dec (n div 10)" and d: "char_of (48 + m mod 10) = char_of (48 + n mod 10)"
      using less.prems nat_to_dec_big [OF neither(1)] nat_to_dec_big [OF neither(2)] by simp_all
    then have "m div 10 = n div 10" using neither(1) by (intro less.IH) simp_all
    moreover have "m mod 10 = n mod 10" using d by (intro digit_inj) simp_all
    ultimately show ?thesis by (metis div_mult_mod_eq)
  qed
qed

lemma label_name_inj [simp]: "label_name a = label_name b \<longleftrightarrow> a = b"
  by (auto simp: label_name_def word_unat_eq_iff dest: nat_to_dec_inj)

lemma all_labels_addresses: "all_labels pos is (label_name l) = addresses pos is l"
  by (induction "is" arbitrary: pos) (auto simp: label_map_def map_add_def split: option.splits)

lemma emit_spec:
  "emit instrs al = (if well_formed instrs al then Some (encode (assembled instrs al)) else None)"
proof (cases "\<forall>i \<in> set instrs. \<forall>v \<in> set (operands i). al v \<noteq> None")
  case True
  let ?r = "\<lambda>v. the (al v)"
  let ?L = "all_labels 0 instrs"
  have e: "emit instrs al = map_option (\<lambda>cd. encode \<lparr>const_pool = concat (map ir_consts instrs), code = cd\<rparr>)
      (patch_all ?L (all_pendings 0 instrs) (code_of (ops_of ?r (\<lambda>_. 0) 0 instrs)))"
    using True by (simp add: emit_def emit_all_spec cb_new_def build_def)
  show ?thesis
  proof (cases "\<forall>i \<in> set instrs. \<forall>off l. jump_of i = Some (off, l) \<longrightarrow> addresses 0 instrs l \<noteq> None")
    case defined: True
    then have "patch_all ?L (all_pendings 0 instrs) (code_of (ops_of ?r (\<lambda>_. 0) 0 instrs))
        = Some (code_of (ops_of ?r (\<lambda>l. the (addresses 0 instrs l)) 0 instrs))"
      using patch_program [of instrs ?L "[]" ?r 0] by (simp add: all_labels_addresses)
    then show ?thesis using e True defined by (simp add: well_formed_def assembled_def)
  next
    case False
    then obtain i off l where "i \<in> set instrs" "jump_of i = Some (off, l)" "addresses 0 instrs l = None" by auto
    then have "patch_all ?L (all_pendings 0 instrs) (code_of (ops_of ?r (\<lambda>_. 0) 0 instrs)) = None"
      using pendings_in [of i instrs off l 0] by (auto simp: all_labels_addresses intro: patch_undefined)
    then show ?thesis using e False by (auto simp: well_formed_def)
  qed
next
  case False
  then have "emit_all al instrs cb_new = None" "\<not> well_formed instrs al"
    unfolding emit_all_spec well_formed_def by (simp_all only: if_False simp_thms)
  then show ?thesis by (simp add: emit_def)
qed

lemma length_ops: "length (code_of (ops_of r tgt k is)) = sum_list (map ir_size is)"
  by (induction "is" arbitrary: k) (simp_all add: length_lower)

lemma addresses_append: "addresses p (xs @ ys) = addresses p xs ++ addresses (p + sum_list (map ir_size xs)) ys"
  by (induction xs arbitrary: p) (simp_all add: add.assoc)

lemma addresses_dom: "dom (addresses p is) = set (List.map_filter label_of is)"
  by (induction "is" arbitrary: p) (auto simp: List.map_filter_simps split: option.split)

lemma addresses_None: "l \<notin> set (List.map_filter label_of ys) \<Longrightarrow> addresses p ys l = None"
  using addresses_dom [of p ys] by blast

lemma addresses_defined: "j \<in> set is \<Longrightarrow> label_of j = Some l \<Longrightarrow> addresses p is l \<noteq> None"
proof -
  assume "j \<in> set is" "label_of j = Some l"
  then have "l \<in> dom (addresses p is)" unfolding addresses_dom by (force simp: List.map_filter_def)
  then show ?thesis by auto
qed


text \<open>The two instructions whose first operand the interval analysis does not report.\<close>

primrec mints_or_burns :: "ir \<Rightarrow> bool" where
  "mints_or_burns (IrAdd x0 x1 x2) = False"
| "mints_or_burns (IrSub x0 x1 x2) = False"
| "mints_or_burns (IrMul x0 x1 x2) = False"
| "mints_or_burns (IrDiv x0 x1 x2) = False"
| "mints_or_burns (IrMod x0 x1 x2) = False"
| "mints_or_burns (IrAddSat x0 x1 x2) = False"
| "mints_or_burns (IrSubSat x0 x1 x2) = False"
| "mints_or_burns (IrAnd x0 x1 x2) = False"
| "mints_or_burns (IrOr x0 x1 x2) = False"
| "mints_or_burns (IrXor x0 x1 x2) = False"
| "mints_or_burns (IrNot x0 x1) = False"
| "mints_or_burns (IrShl x0 x1 x2) = False"
| "mints_or_burns (IrShr x0 x1 x2) = False"
| "mints_or_burns (IrEq x0 x1 x2) = False"
| "mints_or_burns (IrNe x0 x1 x2) = False"
| "mints_or_burns (IrLt x0 x1 x2) = False"
| "mints_or_burns (IrLte x0 x1 x2) = False"
| "mints_or_burns (IrGt x0 x1 x2) = False"
| "mints_or_burns (IrGte x0 x1 x2) = False"
| "mints_or_burns (IrIsZero x0 x1) = False"
| "mints_or_burns (IrLabel x0) = False"
| "mints_or_burns (IrJump x0) = False"
| "mints_or_burns (IrJumpIf x0 x1) = False"
| "mints_or_burns (IrJumpIfNot x0 x1) = False"
| "mints_or_burns (IrCall x0) = False"
| "mints_or_burns IrReturn = False"
| "mints_or_burns IrHalt = False"
| "mints_or_burns (IrTrap x0) = False"
| "mints_or_burns (IrLoadConst x0 x1) = False"
| "mints_or_burns (IrLoadConstIndex x0 x1) = False"
| "mints_or_burns (IrLoadImm8 x0 x1) = False"
| "mints_or_burns (IrLoadImm64 x0 x1) = False"
| "mints_or_burns (IrMov x0 x1) = False"
| "mints_or_burns (IrSLoad x0 x1) = False"
| "mints_or_burns (IrSStore x0 x1) = False"
| "mints_or_burns (IrSDelete x0) = False"
| "mints_or_burns (IrGetCaller x0) = False"
| "mints_or_burns (IrGetOwner x0) = False"
| "mints_or_burns (IrGetCellId x0) = False"
| "mints_or_burns (IrGetHeight x0) = False"
| "mints_or_burns (IrGetTimestamp x0) = False"
| "mints_or_burns (IrGetValue x0) = False"
| "mints_or_burns (IrGetCalldataLen x0) = False"
| "mints_or_burns (IrGetCalldata x0 x1) = False"
| "mints_or_burns (IrSetReturn x0 x1) = False"
| "mints_or_burns (IrSetReturnReg x0 x1) = False"
| "mints_or_burns (IrEmitLog x0 x1) = False"
| "mints_or_burns (IrEmitLogReg x0 x1 x2) = False"
| "mints_or_burns (IrCallCell x0 x1 x2 x3) = False"
| "mints_or_burns IrBufReset = False"
| "mints_or_burns (IrBufWriteConst x0) = False"
| "mints_or_burns (IrBufWriteReg x0) = False"
| "mints_or_burns (IrBufCallCell x0 x1) = False"
| "mints_or_burns IrBufSetReturn = False"
| "mints_or_burns (IrHash32 x0 x1) = False"
| "mints_or_burns (IrHash32Const x0 x1) = False"
| "mints_or_burns IrRequireOwner = False"
| "mints_or_burns (IrRequireCaller x0) = False"
| "mints_or_burns (IrRequireEq x0 x1) = False"
| "mints_or_burns (IrRequireNe x0 x1) = False"
| "mints_or_burns (IrRequireLt x0 x1) = False"
| "mints_or_burns (IrRequireNonZero x0) = False"
| "mints_or_burns (IrRequireGas x0) = False"
| "mints_or_burns (IrTokenBalance x0 x1 x2) = False"
| "mints_or_burns (IrTokenTransfer x0 x1 x2 x3) = False"
| "mints_or_burns (IrTokenMint x0 x1 x2) = True"
| "mints_or_burns (IrTokenBurn x0 x1 x2) = True"
| "mints_or_burns (IrTokenFreeze x0 x1) = False"
| "mints_or_burns (IrTokenThaw x0 x1) = False"
| "mints_or_burns (IrAccordRequest x0 x1 x2 x3) = False"
| "mints_or_burns (IrAccordRead x0 x1) = False"


lemma operands_touched: "mints_or_burns i \<or> set (operands i) \<subseteq> insert 0 (touches i)"
  by (induction i) (auto simp: touches_def written_def used_def)

text \<open>
  C35. The assembler with backpatching is a two-pass assembler: it succeeds exactly when
  every register mentioned is allocated and every label jumped to is defined, and then
  its output is the encoded cell whose code is, instruction by instruction, the tag and
  operands with registers renamed and labels replaced by the byte address of the
  instruction after them, and whose pool holds the constants in order.
\<close>
theorem emit_assembles:
  "emit instrs al = (if well_formed instrs al then Some (encode (assembled instrs al)) else None)"
  by (rule emit_spec)

text \<open>
  What the assembler produces is what the machine loads: the decoder reads the
  emitted bytes back as the assembled cell whenever that cell is within the limits.
\<close>
theorem emitted_cell_loads:
  assumes "emit instrs al = Some raw" and "within_limits (assembled instrs al)"
  shows "decode raw = Inr (assembled instrs al)"
  using assms emit_spec [of instrs al] decode_complete [of "assembled instrs al" raw "[]"]
  by (auto split: if_splits)

text \<open>
  A label stands for the address of the code that follows it: jumping to a label
  that is not redefined later goes to the byte after all instructions before the label.
\<close>
lemma label_address:
  assumes "l \<notin> set (List.map_filter label_of ys)"
  shows "addresses 0 (xs @ IrLabel l # ys) l = Some (of_nat (length (code_of (ops_of r tgt 0 xs))))"
  using addresses_append [of 0 xs "IrLabel l # ys"] addresses_None [OF assms] length_ops
  by (simp add: map_add_def)

text \<open>
  The back end returns for every program it should accept: if the allocator finds
  registers, every label jumped to is defined, and no token is minted or burnt, code
  generation does not panic.
\<close>
theorem backend_total:
  assumes "sorts srt" and "allocate srt instrs = Some al"
    and "\<forall>i \<in> set instrs. \<forall>off l. jump_of i = Some (off, l) \<longrightarrow> (\<exists>j \<in> set instrs. label_of j = Some l)"
    and "\<forall>i \<in> set instrs. \<not> mints_or_burns i"
  shows "\<exists>raw. emit instrs al = Some raw"
proof -
  have "al v \<noteq> None" if "i \<in> set instrs" "v \<in> set (operands i)" for i v
  proof -
    obtain k where k: "k < length instrs" "instrs ! k = i" using \<open>i \<in> set instrs\<close> by (auto simp: in_set_conv_nth)
    have "v = 0 \<or> v \<in> touches (instrs ! k)" using operands_touched [of i] that assms(4) k(2) by auto
    then show ?thesis using allocated [OF assms(1,2)] k(1) by auto
  qed
  moreover have "addresses 0 instrs l \<noteq> None" if "i \<in> set instrs" "jump_of i = Some (off, l)" for i off l
    using assms(3) that addresses_defined by blast
  ultimately show ?thesis unfolding emit_spec by (simp add: well_formed_def)
qed

definition demo_ir :: "ir list" where
  "demo_ir = [IrLoadImm8 1 5, IrJumpIf 1 7, IrTrap 9, IrLabel 7, IrHalt]"

definition demo_alloc :: allocation where
  "demo_alloc = [0 \<mapsto> 0, 1 \<mapsto> 1]"

lemma demo_ir_well_formed: "well_formed demo_ir demo_alloc"
  by (simp add: well_formed_def demo_ir_def demo_alloc_def ir_size_def)

lemma demo_ir_limits: "within_limits (assembled demo_ir demo_alloc)"
  by (simp add: within_limits_def assembled_def demo_ir_def limit_defs)

theorem emitted_cell_loads_witness:
  "\<exists>raw. emit demo_ir demo_alloc = Some raw \<and> decode raw = Inr (assembled demo_ir demo_alloc)"
proof -
  obtain raw where "emit demo_ir demo_alloc = Some raw" using demo_ir_well_formed by (simp add: emit_spec)
  then show ?thesis using emitted_cell_loads [OF _ demo_ir_limits] by blast
qed

theorem backend_total_witness:
  "\<exists>al raw. allocate (sort_key istart) demo_ir = Some al \<and> emit demo_ir al = Some raw"
proof -
  have "\<exists>al. allocate (sort_key istart) demo_ir = Some al" by (simp add: demo_ir_def alloc_eval)
  then obtain al where al: "allocate (sort_key istart) demo_ir = Some al" by blast
  have "\<exists>raw. emit demo_ir al = Some raw"
    by (rule backend_total [OF sorts_sort_key al]) (simp_all add: demo_ir_def)
  then show ?thesis using al by blast
qed

end
