(* ===== verification/Machine_Code.thy ===== *)
theory Machine_Code
  imports Codegen VM
begin

text \<open>
  The assembler and the machine agree. The two programs describe the instruction set
  independently (\<^verbatim>\<open>builder.rs\<close> writes bytes, \<^verbatim>\<open>vm.rs\<close> reads them, \<^verbatim>\<open>gas.rs\<close> has a table
  of costs): here the operand sizes and costs of all instructions are compared, and it
  is shown that the machine never leaves the instruction boundaries of assembled code.
\<close>

section \<open>Operand sizes and costs\<close>

definition layout :: "(u8 \<times> nat \<times> nat) list" where
  "layout = [
     (tag_ADD, 3, 3),
     (tag_SUB, 3, 3),
     (tag_MUL, 3, 5),
     (tag_DIV, 3, 8),
     (tag_MOD, 3, 8),
     (tag_ADD_SAT, 3, 3),
     (tag_SUB_SAT, 3, 3),
     (tag_AND, 3, 2),
     (tag_OR, 3, 2),
     (tag_XOR, 3, 2),
     (tag_NOT, 2, 2),
     (tag_SHL, 3, 2),
     (tag_SHR, 3, 2),
     (tag_EQ, 3, 2),
     (tag_NE, 3, 2),
     (tag_LT, 3, 2),
     (tag_LTE, 3, 2),
     (tag_GT, 3, 2),
     (tag_GTE, 3, 2),
     (tag_IS_ZERO, 2, 2),
     (tag_JUMP, 4, 2),
     (tag_JUMP_IF, 5, 2),
     (tag_JUMP_IF_NOT, 5, 2),
     (tag_CALL, 4, 5),
     (tag_RETURN, 0, 5),
     (tag_HALT, 0, 1),
     (tag_TRAP, 2, 1),
     (tag_LOAD_CONST, 3, 1),
     (tag_LOAD_IMM8, 2, 1),
     (tag_LOAD_IMM64, 9, 1),
     (tag_MOVE, 2, 1),
     (tag_SWAP, 2, 1),
     (tag_SLOAD, 2, 200),
     (tag_SSTORE, 2, 500),
     (tag_SDELETE, 1, 300),
     (tag_GET_CALLER, 1, 3),
     (tag_GET_OWNER, 1, 3),
     (tag_GET_CELL_ID, 1, 3),
     (tag_GET_HEIGHT, 1, 3),
     (tag_GET_TIMESTAMP, 1, 3),
     (tag_GET_VALUE, 1, 3),
     (tag_GET_CALLDATA_LEN, 1, 3),
     (tag_GET_CALLDATA, 2, 3),
     (tag_SET_RETURN, 2, 10),
     (tag_SET_RETURN_REG, 2, 10),
     (tag_EMIT_LOG, 2, 100),
     (tag_EMIT_LOG_REG, 3, 100),
     (tag_CALL_CELL, 4, 1000),
     (tag_BUF_RESET, 0, 1),
     (tag_BUF_WRITE_CONST, 2, 2),
     (tag_BUF_WRITE_REG, 1, 2),
     (tag_BUF_CALL_CELL, 2, 1000),
     (tag_BUF_SET_RETURN, 0, 10),
     (tag_HASH32, 2, 50),
     (tag_HASH32_CONST, 3, 50),
     (tag_REQUIRE_OWNER, 0, 2),
     (tag_REQUIRE_CALLER, 1, 2),
     (tag_REQUIRE_EQ, 2, 2),
     (tag_REQUIRE_NE, 2, 2),
     (tag_REQUIRE_LT, 2, 2),
     (tag_REQUIRE_NON_ZERO, 1, 2),
     (tag_REQUIRE_GAS, 8, 2),
     (tag_TOKEN_BALANCE, 3, 200),
     (tag_TOKEN_TRANSFER, 4, 500),
     (tag_TOKEN_MINT, 3, 500),
     (tag_TOKEN_BURN, 3, 500),
     (tag_TOKEN_FREEZE, 2, 300),
     (tag_TOKEN_THAW, 2, 300),
     (tag_ACCORD_REQUEST, 4, 10000),
     (tag_ACCORD_READ, 2, 500)]"

definition branch_tags :: "u8 list" where
  "branch_tags = [tag_JUMP, tag_JUMP_IF, tag_JUMP_IF_NOT, tag_CALL, tag_RETURN]"

text \<open>The address an instruction may transfer control to.\<close>

primrec op_target :: "op \<Rightarrow> u32 option" where
  "op_target (OpAdd x0 x1 x2) = None"
| "op_target (OpSub x0 x1 x2) = None"
| "op_target (OpMul x0 x1 x2) = None"
| "op_target (OpDiv x0 x1 x2) = None"
| "op_target (OpMod x0 x1 x2) = None"
| "op_target (OpAddSat x0 x1 x2) = None"
| "op_target (OpSubSat x0 x1 x2) = None"
| "op_target (OpAnd x0 x1 x2) = None"
| "op_target (OpOr x0 x1 x2) = None"
| "op_target (OpXor x0 x1 x2) = None"
| "op_target (OpNot x0 x1) = None"
| "op_target (OpShl x0 x1 x2) = None"
| "op_target (OpShr x0 x1 x2) = None"
| "op_target (OpEq x0 x1 x2) = None"
| "op_target (OpNe x0 x1 x2) = None"
| "op_target (OpLt x0 x1 x2) = None"
| "op_target (OpLte x0 x1 x2) = None"
| "op_target (OpGt x0 x1 x2) = None"
| "op_target (OpGte x0 x1 x2) = None"
| "op_target (OpIsZero x0 x1) = None"
| "op_target (OpJump x0) = Some x0"
| "op_target (OpJumpIf x0 x1) = Some x1"
| "op_target (OpJumpIfNot x0 x1) = Some x1"
| "op_target (OpCall x0) = Some x0"
| "op_target OpReturn = None"
| "op_target OpHalt = None"
| "op_target (OpTrap x0) = None"
| "op_target (OpLoadConst x0 x1) = None"
| "op_target (OpLoadImm8 x0 x1) = None"
| "op_target (OpLoadImm64 x0 x1) = None"
| "op_target (OpMove x0 x1) = None"
| "op_target (OpSwap x0 x1) = None"
| "op_target (OpSLoad x0 x1) = None"
| "op_target (OpSStore x0 x1) = None"
| "op_target (OpSDelete x0) = None"
| "op_target (OpGetCaller x0) = None"
| "op_target (OpGetOwner x0) = None"
| "op_target (OpGetCellId x0) = None"
| "op_target (OpGetHeight x0) = None"
| "op_target (OpGetTimestamp x0) = None"
| "op_target (OpGetValue x0) = None"
| "op_target (OpGetCalldataLen x0) = None"
| "op_target (OpGetCalldata x0 x1) = None"
| "op_target (OpSetReturn x0 x1) = None"
| "op_target (OpSetReturnReg x0 x1) = None"
| "op_target (OpEmitLog x0 x1) = None"
| "op_target (OpEmitLogReg x0 x1 x2) = None"
| "op_target (OpCallCell x0 x1 x2 x3) = None"
| "op_target OpBufReset = None"
| "op_target (OpBufWriteConst x0) = None"
| "op_target (OpBufWriteReg x0) = None"
| "op_target (OpBufCallCell x0 x1) = None"
| "op_target OpBufSetReturn = None"
| "op_target (OpHash32 x0 x1) = None"
| "op_target (OpHash32Const x0 x1) = None"
| "op_target OpRequireOwner = None"
| "op_target (OpRequireCaller x0) = None"
| "op_target (OpRequireEq x0 x1) = None"
| "op_target (OpRequireNe x0 x1) = None"
| "op_target (OpRequireLt x0 x1) = None"
| "op_target (OpRequireNonZero x0) = None"
| "op_target (OpRequireGas x0) = None"
| "op_target (OpTokenBalance x0 x1 x2) = None"
| "op_target (OpTokenTransfer x0 x1 x2 x3) = None"
| "op_target (OpTokenMint x0 x1 x2) = None"
| "op_target (OpTokenBurn x0 x1 x2) = None"
| "op_target (OpTokenFreeze x0 x1) = None"
| "op_target (OpTokenThaw x0 x1) = None"
| "op_target (OpAccordRequest x0 x1 x2 x3) = None"
| "op_target (OpAccordRead x0 x1) = None"

lemma layout_op: "map_of layout (op_tag i) = Some (length (op_bytes i) - 1, op_cost i)"
  by (induction i) (simp_all add: layout_def)

lemma op_bytes_tag: "\<exists>rest. op_bytes i = op_tag i # rest"
  by (induction i) simp_all

text \<open>
  \<open>follows\<close>: an instruction that continues has paid the cost, and unless it transfers
  control it is past its operands with the call stack unchanged.
\<close>

definition follows :: "u8 \<Rightarrow> nat \<Rightarrow> nat \<Rightarrow> 'h frame \<Rightarrow> 'h outcome \<Rightarrow> bool" where
  "follows t n c s0 = ends (\<lambda>s. remaining (gas s) + c \<le> remaining (gas s0) \<and> (t \<notin> set branch_tags \<longrightarrow>
     pc s = pc s0 + n \<and> call_stack s = call_stack s0 \<and> call_depth s = call_depth s0)) (\<lambda>_. True) True"

lemma do_call_follows [vc]:
  assumes "remaining (gas s) + c \<le> remaining (gas s0)"
    and "t \<notin> set branch_tags \<longrightarrow> pc s = pc s0 + n \<and> call_stack s = call_stack s0 \<and> call_depth s = call_depth s0"
  shows "ends (\<lambda>s. remaining (gas s) + c \<le> remaining (gas s0) \<and> (t \<notin> set branch_tags \<longrightarrow>
     pc s = pc s0 + n \<and> call_stack s = call_stack s0 \<and> call_depth s = call_depth s0)) (\<lambda>_. True) True
     (do_call H cid cd v s)"
  using assms by (auto simp: do_call_def charge_def charge_raw_def Let_def split: option.split prod.split sum.split)

lemma handlers_follow:
  "list_all2 (\<lambda>(t, h) (t', n, c). t = t' \<and> (\<forall>s. follows t n c s (h s))) (handlers H cell) layout"
  unfolding handlers_def layout_def list_all2_Cons list_all2_Nil prod.case follows_def handler_defs Let_def
  by (intro conjI allI TrueI refl vc) (simp_all add: branch_tags_def)

lemma list_all2_lookup:
  assumes "list_all2 (\<lambda>(t, h) (t', x). t = t' \<and> P t h x) hs xs" and "map_of xs t = Some x"
  shows "\<exists>h. map_of hs t = Some h \<and> P t h x"
  using assms by (induction rule: list_all2_induct) (auto split: if_splits)

lemma step_follows:
  assumes "code cell ! pc s = op_tag i"
  shows "\<exists>h. map_of (handlers H cell) (op_tag i) = Some h
    \<and> (\<forall>s. follows (op_tag i) (length (op_bytes i) - 1) (op_cost i) s (h s))"
proof -
  have "list_all2 (\<lambda>(t, h) (t', x). t = t' \<and> (case x of (n, c) \<Rightarrow> \<forall>s. follows t n c s (h s))) (handlers H cell) layout"
    using handlers_follow by (rule list_all2_mono) auto
  from list_all2_lookup [OF this layout_op [of i]] show ?thesis by auto
qed

lemma step_follows_frame:
  assumes "code cell ! pc s = op_tag i" and "step H cell s = Continue s'"
  shows "remaining (gas s') + op_cost i \<le> remaining (gas s)
    \<and> (op_tag i \<notin> set branch_tags \<longrightarrow> pc s' = pc s + length (op_bytes i)
         \<and> call_stack s' = call_stack s \<and> call_depth s' = call_depth s)"
proof -
  obtain h where h: "map_of (handlers H cell) (op_tag i) = Some h"
    and f: "follows (op_tag i) (length (op_bytes i) - 1) (op_cost i) (s\<lparr>pc := pc s + 1\<rparr>) (h (s\<lparr>pc := pc s + 1\<rparr>))"
    using step_follows [OF assms(1)] by blast
  have "h (s\<lparr>pc := pc s + 1\<rparr>) = Continue s'" using assms h by (simp add: step_def dispatch_def)
  moreover have "0 < length (op_bytes i)" using op_bytes_tag [of i] by auto
  ultimately show ?thesis using f by (auto simp: follows_def)
qed

text \<open>
  Gas table and machine agree: an instruction that continues has paid at least what
  the static table of \<^verbatim>\<open>gas.rs\<close> asks for it, and unless it is a jump, a call or a return
  the machine stands right behind its encoding with the call stack unchanged.
\<close>
theorem step_cost_and_length:
  assumes "code cell ! pc s = op_tag i" and "step H cell s = Continue s'"
  shows "remaining (gas s') + op_cost i \<le> remaining (gas s)
    \<and> (op_tag i \<notin> set branch_tags \<longrightarrow> pc s' = pc s + length (op_bytes i)
         \<and> call_stack s' = call_stack s \<and> call_depth s' = call_depth s)"
  using step_follows_frame [OF assms] .

section \<open>Transfers of control\<close>

lemma slice_prefix: "drop p cd = xs @ ys \<Longrightarrow> slice cd p (length xs) = xs"
  by (simp add: slice_def)

lemma at_code:
  assumes "drop p cd = t # xs @ rest"
  shows "cd ! p = t" and "slice cd (Suc p) (length xs) = xs" and "p < length cd"
    and "drop (Suc p) cd = xs @ rest"
proof -
  show "cd ! p = t" using assms by (rule nth_via_drop)
  show d: "drop (Suc p) cd = xs @ rest" using drop_past [of p cd "[t]" "xs @ rest"] assms by simp
  then show "slice cd (Suc p) (length xs) = xs" by (simp add: slice_def)
  show "p < length cd" using assms by (metis drop_all list.distinct(1) not_le)
qed

lemma step_jump:
  assumes "drop (pc s) (code cell) = op_bytes (OpJump t) @ rest" and "step H cell s = Continue s'"
  shows "pc s' = unat t \<and> call_stack s' = call_stack s \<and> call_depth s' = call_depth s"
proof -
  note c = at_code [of "pc s" "code cell" tag_JUMP "to_le_bytes 4 t" rest]
  have "code cell ! pc s = tag_JUMP" "slice (code cell) (Suc (pc s)) 4 = to_le_bytes 4 t" using c assms(1) by simp_all
  then show ?thesis using assms(2)
    by (auto simp: step_def dispatch_def handlers_def exec_jump_def jump_to_def charge_def charge_raw_def read32_def
        bail_if_def from_to_le_bytes split: if_splits)
qed

lemma step_jump_if:
  fixes t :: u32
  assumes "drop (pc s) (code cell) = t0 # c # to_le_bytes 4 t @ rest" and "t0 \<in> {tag_JUMP_IF, tag_JUMP_IF_NOT}"
    and "step H cell s = Continue s'"
  shows "(pc s' = pc s + 6 \<or> pc s' = unat t) \<and> call_stack s' = call_stack s \<and> call_depth s' = call_depth s"
proof -
  have a: "drop (pc s) (code cell) = t0 # [c] @ to_le_bytes 4 t @ rest" using assms(1) by simp
  note c = at_code [OF a]
  have "drop (Suc (pc s)) (code cell) = c # to_le_bytes 4 t @ rest" using c(4) by simp
  note c' = at_code [OF this]
  have "slice (code cell) (Suc (Suc (pc s))) 4 = to_le_bytes 4 t" using c'(2) by simp
  with c(1) c'(1) assms(2,3) show ?thesis
    by (auto simp: step_def dispatch_def handlers_def exec_jump_if_def exec_jump_if_not_def jump_to_def charge_def
        charge_raw_def read8_def read32_def bail_if_def from_to_le_bytes split: if_splits)
qed

lemma step_call:
  assumes "drop (pc s) (code cell) = op_bytes (OpCall t) @ rest" and "step H cell s = Continue s'"
  shows "pc s' = unat t \<and> call_depth s' = call_depth s + 1
    \<and> call_stack s' = (call_stack s)[call_depth s := pc s + 5] \<and> call_depth s < length (call_stack s)"
proof -
  note c = at_code [of "pc s" "code cell" tag_CALL "to_le_bytes 4 t" rest]
  have "code cell ! pc s = tag_CALL" "slice (code cell) (Suc (pc s)) 4 = to_le_bytes 4 t" using c assms(1) by simp_all
  then show ?thesis using assms(2)
    by (auto simp: step_def dispatch_def handlers_def exec_call_def charge_def charge_raw_def read32_def
        bail_if_def from_to_le_bytes add.commute [of 5] split: if_splits)
qed

lemma step_return:
  assumes "code cell ! pc s = tag_RETURN" and "step H cell s = Continue s'"
  shows "call_depth s = Suc (call_depth s') \<and> pc s' = call_stack s ! call_depth s' \<and> call_stack s' = call_stack s"
  using assms by (auto simp: step_def dispatch_def handlers_def exec_return_def charge_def charge_raw_def
      bail_if_def Let_def split: if_splits)

text \<open>All instructions together: where control goes, and what is on the call stack.\<close>

lemma branch_cases: "op_tag i \<in> set branch_tags \<Longrightarrow> (\<exists>t. i = OpJump t) \<or> (\<exists>r t. i = OpJumpIf r t)
    \<or> (\<exists>r t. i = OpJumpIfNot r t) \<or> (\<exists>t. i = OpCall t) \<or> i = OpReturn"
  by (induction i) (simp_all add: branch_tags_def)

lemma step_moves:
  assumes c: "drop (pc s) (code cell) = op_bytes i @ rest" and st: "step H cell s = Continue s'"
  shows "(pc s' = pc s + length (op_bytes i) \<or> map_option unat (op_target i) = Some (pc s')
      \<or> (call_depth s' < call_depth s \<and> pc s' = call_stack s ! call_depth s'))
    \<and> (\<forall>d < call_depth s'. call_stack s' ! d = pc s + length (op_bytes i)
         \<or> (d < call_depth s \<and> call_stack s' ! d = call_stack s ! d))"
proof (cases "op_tag i \<in> set branch_tags")
  case False
  obtain bs where "op_bytes i = op_tag i # bs" using op_bytes_tag by blast
  then have "code cell ! pc s = op_tag i" using c by (simp add: nth_via_drop)
  then show ?thesis using step_follows_frame [OF _ st] False by auto
next
  case True
  consider (jump) t where "i = OpJump t" | (jif) r t where "i = OpJumpIf r t" | (jifn) r t where "i = OpJumpIfNot r t"
    | (call) t where "i = OpCall t" | (ret) "i = OpReturn"
    using branch_cases [OF True] by blast
  then show ?thesis
  proof cases
    case jump
    then show ?thesis using step_jump [of s cell t rest H s'] c st by simp
  next
    case jif
    then show ?thesis using step_jump_if [of s cell tag_JUMP_IF r t rest H s'] c st by auto
  next
    case jifn
    then show ?thesis using step_jump_if [of s cell tag_JUMP_IF_NOT r t rest H s'] c st by auto
  next
    case call
    then show ?thesis using step_call [of s cell t rest H s'] c st by (auto simp: nth_list_update less_Suc_eq)
  next
    case ret
    then have "code cell ! pc s = tag_RETURN" using c by (simp add: nth_via_drop)
    then show ?thesis using step_return [OF _ st] ret by auto
  qed
qed

section \<open>Instruction boundaries\<close>

definition boundary :: "op list \<Rightarrow> nat \<Rightarrow> bool" where
  "boundary ops p \<longleftrightarrow> (\<exists>k \<le> length ops. p = length (code_of (take k ops)))"

lemma boundary_0: "boundary ops 0"
  by (auto simp: boundary_def intro: exI [of _ 0])

lemma boundary_append: "boundary (xs @ ys) (length (code_of xs))"
  by (auto simp: boundary_def intro: exI [of _ "length xs"])

text \<open>At a boundary before the end stands an instruction, and behind it is the next boundary.\<close>

lemma boundary_next:
  assumes "boundary ops p" and "p < length (code_of ops)"
  obtains i rest where "i \<in> set ops" and "drop p (code_of ops) = op_bytes i @ rest"
    and "boundary ops (p + length (op_bytes i))"
proof -
  obtain k where k: "k \<le> length ops" "p = length (code_of (take k ops))" using assms(1) by (auto simp: boundary_def)
  then have lt: "k < length ops" using assms(2) by (cases "k = length ops") auto
  have "code_of ops = code_of (take k ops @ ops ! k # drop (Suc k) ops)" by (simp only: id_take_nth_drop [OF lt, symmetric])
  then have "drop p (code_of ops) = op_bytes (ops ! k) @ code_of (drop (Suc k) ops)" using k(2) by simp
  moreover have "boundary ops (p + length (op_bytes (ops ! k)))"
    unfolding boundary_def using k(2) lt by (intro exI [of _ "Suc k"]) (simp add: take_Suc_conv_app_nth)
  moreover have "ops ! k \<in> set ops" using lt by simp
  ultimately show ?thesis using that by blast
qed

lemma ops_of_append:
  "ops_of r tgt k (xs @ ys) = ops_of r tgt k xs @ ops_of r tgt (k + length (concat (map ir_consts xs))) ys"
  by (induction xs arbitrary: k) (simp_all add: add.assoc)

lemma addresses_position:
  assumes "addresses p is l = Some a"
  shows "\<exists>xs ys. is = xs @ ys \<and> a = of_nat (p + sum_list (map ir_size xs))"
  using assms
proof (induction "is" arbitrary: p)
  case (Cons i "is")
  then consider "addresses (p + ir_size i) is l = Some a" | "a = of_nat p"
    by (auto simp: map_add_def split: option.splits if_splits)
  then show ?case
  proof cases
    case 1
    then obtain xs ys where "is = xs @ ys" "a = of_nat (p + ir_size i + sum_list (map ir_size xs))" using Cons.IH by blast
    then show ?thesis by (intro exI [of _ "i # xs"] exI [of _ ys]) (simp add: add.assoc)
  next
    case 2
    then show ?thesis by (intro exI [of _ "[]"] exI [of _ "i # is"]) simp
  qed
qed simp

lemma lower_target: "x \<in> set (lower r tgt k i) \<Longrightarrow> op_target x = Some t \<Longrightarrow> \<exists>off l. jump_of i = Some (off, l) \<and> t = tgt l"
  by (induction i) auto

lemma ops_of_target:
  assumes "x \<in> set (ops_of r tgt k is)" and "op_target x = Some t"
  shows "\<exists>i \<in> set is. \<exists>off l. jump_of i = Some (off, l) \<and> t = tgt l"
  using assms
proof (induction "is" arbitrary: k)
  case (Cons i "is")
  then consider "x \<in> set (lower r tgt (of_nat k) i)" | "x \<in> set (ops_of r tgt (k + length (ir_consts i)) is)" by auto
  then show ?case using Cons.IH Cons.prems(2) lower_target [of x r tgt "of_nat k" i t] by cases auto
qed simp

definition code_ops :: "ir list \<Rightarrow> allocation \<Rightarrow> op list" where
  "code_ops instrs al = ops_of (\<lambda>v. the (al v)) (\<lambda>l. the (addresses 0 instrs l)) 0 instrs"

lemma code_assembled: "code (assembled instrs al) = code_of (code_ops instrs al)"
  by (simp add: assembled_def code_ops_def)

lemma target_boundary:
  assumes "well_formed instrs al" and "length (code_of (code_ops instrs al)) < 2 ^ LENGTH(32)"
    and "x \<in> set (code_ops instrs al)" and "op_target x = Some t"
  shows "boundary (code_ops instrs al) (unat t)"
proof -
  obtain i off l where i: "i \<in> set instrs" "jump_of i = Some (off, l)" and t: "t = the (addresses 0 instrs l)"
    using ops_of_target [OF assms(3) [unfolded code_ops_def] assms(4)] by blast
  then have "addresses 0 instrs l \<noteq> None" using assms(1) by (auto simp: well_formed_def)
  then have "addresses 0 instrs l = Some t" using t by auto
  then obtain xs ys where xy: "instrs = xs @ ys" and tn: "t = of_nat (sum_list (map ir_size xs))"
    using addresses_position [of 0 instrs l t] by (simp only: add_0) blast
  let ?c = "\<lambda>k. ops_of (\<lambda>v. the (al v)) (\<lambda>l. the (addresses 0 instrs l)) k"
  obtain k where split: "code_ops instrs al = ?c 0 xs @ ?c k ys" unfolding code_ops_def xy ops_of_append by blast
  have len: "length (code_of (?c 0 xs)) = sum_list (map ir_size xs)" by (rule length_ops)
  have "length (code_of (?c 0 xs)) \<le> length (code_of (code_ops instrs al))" unfolding split code_of_simps length_append by (rule le_add1)
  then have "sum_list (map ir_size xs) < 2 ^ LENGTH(32)" using assms(2) unfolding len by (rule le_less_trans)
  then have "unat t = length (code_of (?c 0 xs))" unfolding tn len unat_of_nat by (rule mod_less)
  then show ?thesis unfolding split using boundary_append by metis
qed

text \<open>The invariant: the program counter and every pending return address are boundaries.\<close>

definition aligned :: "op list \<Rightarrow> 'h frame \<Rightarrow> bool" where
  "aligned ops s \<longleftrightarrow> boundary ops (pc s) \<and> (\<forall>d < call_depth s. boundary ops (call_stack s ! d))"

inductive steps :: "'h host_ops \<Rightarrow> cell_bytecode \<Rightarrow> 'h frame \<Rightarrow> 'h frame \<Rightarrow> bool"
  for H cell s where
  steps_refl: "steps H cell s s"
| steps_step: "steps H cell s s1 \<Longrightarrow> pc s1 < length (code cell) \<Longrightarrow> step H cell s1 = Continue s2
    \<Longrightarrow> steps H cell s s2"

lemma aligned_step:
  assumes "aligned ops s" and "code cell = code_of ops" and "pc s < length (code cell)"
    and "step H cell s = Continue s'"
    and targets: "\<And>x t. x \<in> set ops \<Longrightarrow> op_target x = Some t \<Longrightarrow> boundary ops (unat t)"
  shows "aligned ops s'"
proof -
  have b: "boundary ops (pc s)" and st: "\<And>d. d < call_depth s \<Longrightarrow> boundary ops (call_stack s ! d)"
    using assms(1) by (simp_all add: aligned_def)
  obtain i rest where i: "i \<in> set ops" "drop (pc s) (code cell) = op_bytes i @ rest"
    and nxt: "boundary ops (pc s + length (op_bytes i))"
    using boundary_next [OF b] assms(2,3) by metis
  have m: "pc s' = pc s + length (op_bytes i) \<or> map_option unat (op_target i) = Some (pc s')
      \<or> (call_depth s' < call_depth s \<and> pc s' = call_stack s ! call_depth s')"
    and d: "\<forall>d < call_depth s'. call_stack s' ! d = pc s + length (op_bytes i)
         \<or> (d < call_depth s \<and> call_stack s' ! d = call_stack s ! d)"
    using step_moves [OF i(2) assms(4)] by blast+
  have "boundary ops (pc s')" using m nxt st targets [OF i(1)] by auto
  moreover have "boundary ops (call_stack s' ! k)" if "k < call_depth s'" for k using d nxt st that by metis
  ultimately show ?thesis by (simp add: aligned_def)
qed

text \<open>
  C36. Machine code integrity: running an emitted cell, whatever the host does and
  whatever jumps, calls and returns it takes, the program counter is always at the start
  of an instruction the assembler wrote (or at the end of the code); operands are never
  executed as opcodes.
\<close>
theorem machine_stays_aligned:
  assumes "emit instrs al = Some raw" and "within_limits (assembled instrs al)" and "decode raw = Inr cell"
    and "call_depth v = 0" and "steps H cell (enter v) s"
  shows "boundary (code_ops instrs al) (pc s)"
proof -
  let ?ops = "code_ops instrs al"
  have wf: "well_formed instrs al" using assms(1) by (simp add: emit_spec split: if_splits)
  have "cell = assembled instrs al"
    using assms(1-3) decode_complete [of "assembled instrs al" raw "[]"] wf by (simp add: emit_spec)
  then have c: "code cell = code_of ?ops" using code_assembled by simp
  then have len: "length (code_of ?ops) < 2 ^ LENGTH(32)"
    using assms(2) by (simp add: within_limits_def code_assembled limit_defs)
  have "aligned ?ops s" using assms(5)
  proof (induction rule: steps.induct)
    case steps_refl
    show ?case using assms(4) by (simp add: aligned_def enter_def vm.defs boundary_0)
  next
    case (steps_step s1 s2)
    show ?case
      by (rule aligned_step [OF steps_step.IH c steps_step.hyps(2,3)]) (rule target_boundary [OF wf len])
  qed
  then show ?thesis by (simp add: aligned_def)
qed

section \<open>A run of an emitted cell\<close>

definition demo_machine :: "nat \<Rightarrow> unit frame" where
  "demo_machine g = enter (vm_new () g 0)"

lemmas demo_run_defs = demo_machine_def enter_def vm_new_def vm.defs step_def dispatch_def handlers_def
  exec_load_imm8_def exec_jump_if_def jump_to_def charge_def charge_raw_def gas_new_def read8_def read32_def
  bail_if_def

theorem step_cost_and_length_witness:
  "\<forall>H. \<exists>s'. step H \<lparr>const_pool = [], code = op_bytes (OpLoadImm8 1 5)\<rparr> (demo_machine 10) = Continue s'
     \<and> remaining (gas s') + op_cost (OpLoadImm8 1 5) \<le> remaining (gas (demo_machine 10))
     \<and> pc s' = pc (demo_machine 10) + 3"
proof
  fix H
  let ?cell = "\<lparr>const_pool = [], code = op_bytes (OpLoadImm8 1 5)\<rparr>"
  obtain s' where s': "step H ?cell (demo_machine 10) = Continue s'" by (simp add: demo_run_defs)
  have "code ?cell ! pc (demo_machine 10) = op_tag (OpLoadImm8 1 5)" by (simp add: demo_run_defs)
  from step_cost_and_length [OF this s'] show "\<exists>s'. step H ?cell (demo_machine 10) = Continue s'
     \<and> remaining (gas s') + op_cost (OpLoadImm8 1 5) \<le> remaining (gas (demo_machine 10))
     \<and> pc s' = pc (demo_machine 10) + 3"
    using s' by (simp add: branch_tags_def)
qed

lemma demo_run:
  "\<exists>s. steps H (assembled demo_ir demo_alloc) (demo_machine 100) s \<and> pc s = 12"
proof -
  let ?cell = "assembled demo_ir demo_alloc"
  have four: "(4 :: nat) = Suc (Suc (Suc (Suc 0)))" and two: "(2 :: nat) = Suc (Suc 0)" by simp_all
  have le: "to_le_bytes 4 (12 :: u32) = [12, 0, 0, 0]" "to_le_bytes 2 (9 :: u16) = [9, 0]"
    unfolding to_le_bytes_def four two le_digits.simps by simp_all
  have c: "code ?cell = [tag_LOAD_IMM8, 1, 5, tag_JUMP_IF, 1, 12, 0, 0, 0, tag_TRAP, 9, 0, tag_HALT]"
    by (simp add: assembled_def demo_ir_def demo_alloc_def ir_size_def le)
  have "\<exists>s1. step H ?cell (demo_machine 100) = Continue s1 \<and> pc s1 = 3 \<and> 2 \<le> remaining (gas s1)
      \<and> reg_at s1 1 = pad_to 32 [5]"
    by (simp add: c demo_run_defs set_reg_def reg_at_def)
  then obtain s1 where s1: "step H ?cell (demo_machine 100) = Continue s1" "pc s1 = 3" "2 \<le> remaining (gas s1)"
      "reg_at s1 1 = pad_to 32 [5]" by blast
  have "hd (pad_to 32 [5]) \<noteq> hd (zeros 32)" by (simp add: pad_to_def zeros_def)
  then have "\<not> is_zero (pad_to 32 [5])" by (auto simp: is_zero_def)
  with s1 have "\<exists>s2. step H ?cell s1 = Continue s2 \<and> pc s2 = 12"
    by (simp add: c demo_run_defs slice_def from_to_le_bytes le [symmetric] reg_at_def)
  then obtain s2 where s2: "step H ?cell s1 = Continue s2" "pc s2 = 12" by blast
  have "steps H ?cell (demo_machine 100) s1"
    by (rule steps_step [OF steps_refl _ s1(1)]) (simp add: c demo_machine_def enter_def vm.defs)
  then have "steps H ?cell (demo_machine 100) s2"
    by (rule steps_step [OF _ _ s2(1)]) (simp add: c s1)
  then show ?thesis using s2(2) by blast
qed

theorem machine_stays_aligned_witness:
  "\<forall>H. \<exists>s. steps H (assembled demo_ir demo_alloc) (demo_machine 100) s \<and> pc s = 12
     \<and> boundary (code_ops demo_ir demo_alloc) 12"
proof
  fix H
  obtain s where s: "steps H (assembled demo_ir demo_alloc) (enter (vm_new () 100 0)) s" "pc s = 12"
    using demo_run [of H] by (auto simp: demo_machine_def)
  have e: "emit demo_ir demo_alloc = Some (encode (assembled demo_ir demo_alloc))"
    using demo_ir_well_formed by (simp add: emit_spec)
  have d: "decode (encode (assembled demo_ir demo_alloc)) = Inr (assembled demo_ir demo_alloc)"
    using decode_complete [OF demo_ir_limits, of _ "[]"] by simp
  have "call_depth (vm_new () 100 0) = 0" by (simp add: vm_new_def)
  from machine_stays_aligned [OF e demo_ir_limits d this s(1)]
  show "\<exists>s. steps H (assembled demo_ir demo_alloc) (demo_machine 100) s \<and> pc s = 12
     \<and> boundary (code_ops demo_ir demo_alloc) 12"
    using s by (auto simp: demo_machine_def)
qed

end
