(* ===== verification/Params.thy ===== *)
theory Params
  imports Oracle
begin

text \<open>
  Governance parameters (\<^verbatim>\<open>truthlinked-governance/src/params.rs\<close>): their keys, the ranges
  and pins that restrict a change, the values of the genesis block, and the lookups, where
  \<^const>\<open>None\<close> is the panic of a missing parameter. The constants are written out where the
  source names them; the hash function and the system authority are arguments.
\<close>

section \<open>Keys and encodings\<close>

definition PARAM_DOMAIN :: bytes where
  "PARAM_DOMAIN = str_bytes ''truthlinked.param.v1''"

definition param_key :: "hash_fn \<Rightarrow> string \<Rightarrow> bytes" where
  "param_key sha name = digest sha (PARAM_DOMAIN @ str_bytes name)"

definition enc_u64 :: "u64 \<Rightarrow> bytes" where
  "enc_u64 v = overwrite (zeros 32) 0 (to_le_bytes 8 v)"

definition enc_u128 :: "u128 \<Rightarrow> bytes" where
  "enc_u128 v = overwrite (zeros 32) 0 (to_le_bytes 16 v)"

definition dec_u64 :: "bytes \<Rightarrow> u64" where
  "dec_u64 v = from_le_bytes (take 8 v)"

definition dec_u128 :: "bytes \<Rightarrow> u128" where
  "dec_u128 v = from_le_bytes (take 16 v)"

section \<open>Specifications\<close>

datatype param_kind = KindU64 | KindU128

record param_spec =
  ps_name :: string
  ps_kind :: param_kind
  ps_min_u64 :: u64
  ps_max_u64 :: u64
  ps_min_u128 :: u128
  ps_max_u128 :: u128

definition spec_u64 :: "string \<Rightarrow> u64 \<Rightarrow> u64 \<Rightarrow> param_spec" where
  "spec_u64 name lo hi = \<lparr>ps_name = name, ps_kind = KindU64, ps_min_u64 = lo, ps_max_u64 = hi, ps_min_u128 = 0, ps_max_u128 = 0\<rparr>"

definition spec_u128 :: "string \<Rightarrow> u128 \<Rightarrow> u128 \<Rightarrow> param_spec" where
  "spec_u128 name lo hi = \<lparr>ps_name = name, ps_kind = KindU128, ps_min_u64 = 0, ps_max_u64 = 0, ps_min_u128 = lo, ps_max_u128 = hi\<rparr>"

definition PARAM_SPECS :: "param_spec list" where
  "PARAM_SPECS = [
   spec_u64 ''gas.transfer'' 1 18446744073709551615,
   spec_u64 ''gas.claim'' 1 18446744073709551615,
   spec_u64 ''gas.rotate_key'' 1 18446744073709551615,
   spec_u64 ''gas.register_validator'' 1 18446744073709551615,
   spec_u64 ''gas.stake'' 1 18446744073709551615,
   spec_u64 ''gas.unstake'' 1 18446744073709551615,
   spec_u64 ''gas.withdraw'' 1 18446744073709551615,
   spec_u64 ''gas.unjail'' 1 18446744073709551615,
   spec_u64 ''gas.mint_nft'' 1 18446744073709551615,
   spec_u64 ''gas.transfer_nft'' 1 18446744073709551615,
   spec_u64 ''gas.burn_nft'' 1 18446744073709551615,
   spec_u64 ''gas.approve_nft'' 1 18446744073709551615,
   spec_u64 ''gas.deploy_cell'' 1 18446744073709551615,
   spec_u64 ''gas.deploy_token'' 1 18446744073709551615,
   spec_u64 ''gas.upgrade_cell'' 1 18446744073709551615,
   spec_u64 ''gas.token_transfer'' 1 18446744073709551615,
   spec_u64 ''gas.token_mint'' 1 18446744073709551615,
   spec_u64 ''gas.token_burn'' 1 18446744073709551615,
   spec_u64 ''gas.oracle_read'' 1 18446744073709551615,
   spec_u64 ''gas.oracle_queue'' 1 18446744073709551615,
   spec_u64 ''gas.price'' 1 1000000,
   spec_u64 ''gas.distribution_interval'' 1296000 38880000,
   spec_u128 ''emission.year1_tlkd'' 1000000000000000 100000000000000000,
   spec_u64 ''emission.decay_bps_per_year'' 500 5000,
   spec_u64 ''emission.epoch_blocks'' 43200 4320000,
   spec_u64 ''consensus.batch_interval_ms'' 50 2000,
   spec_u64 ''consensus.max_batch_size'' 1000 100000,
   spec_u64 ''consensus.committee_size'' 5 200,
   spec_u64 ''consensus.epoch_duration_ms'' 10000 3600000,
   spec_u64 ''consensus.finalization_lag'' 1 100,
   spec_u64 ''consensus.finalization_timeout_secs'' 1 120,
   spec_u64 ''sync.threshold'' 1 10000,
   spec_u64 ''sync.max_batch_range'' 10 10000,
   spec_u64 ''sync.peer_ttl_secs'' 5 600,
   spec_u64 ''sync.snapshot_threshold'' 100 100000,
   spec_u64 ''staking.slash_percentage'' 5 50,
   spec_u64 ''staking.oracle_lie_slash_percentage'' 30 50,
   spec_u64 ''staking.oracle_silence_slash_percentage'' 2 50,
   spec_u64 ''staking.downtime_slash_percentage'' 1 50,
   spec_u64 ''staking.censorship_slash_percentage'' 1 50,
   spec_u64 ''streaming.optimal_batch_size'' 100 100000,
   spec_u64 ''streaming.max_wait_ms'' 10 10000,
   spec_u64 ''streaming.max_sync_buffer_size'' 10 10000,
   spec_u64 ''streaming.max_batch_cache'' 10 10000,
   spec_u64 ''streaming.max_pending_headers'' 10 10000,
   spec_u64 ''streaming.max_seen_txs'' 1000 10000000,
   spec_u64 ''streaming.pending_batch_timeout_ms'' 1000 600000,
   spec_u64 ''limits.max_gas_per_tx'' 10000 10000000,
   spec_u64 ''limits.max_gas_per_batch'' 100000 100000000,
   spec_u64 ''limits.max_calldata_size'' 1024 262144,
   spec_u64 ''limits.max_call_chain_calls'' 1 64,
   spec_u64 ''limits.max_call_chain_total_calldata'' 1024 262144,
   spec_u64 ''limits.max_batch_transfer_recipients'' 1 64,
   spec_u64 ''limits.nonce_lookahead'' 0 1000000,
   spec_u64 ''limits.max_return_data_size'' 1024 262144,
   spec_u64 ''limits.max_call_depth'' 1 30,
   spec_u64 ''limits.max_log_data_size'' 1024 65536,
   spec_u64 ''limits.max_logs_per_tx'' 1 100,
   spec_u64 ''limits.max_log_topics'' 1 8,
   spec_u64 ''limits.max_cell_bytecode_size'' 1024 1000000,
   spec_u64 ''limits.max_cell_storage_bytes'' 1024 10000000,
   spec_u128 ''storage.rent_lifetime_fee'' 1000000000 340282366920938463463374607431768211455,
   spec_u64 ''storage.rent_grace_period_blocks'' 1 18446744073709551615,
   spec_u64 ''fees.min_tx_fee'' 1 18446744073709551615,
   spec_u64 ''fees.tx_byte'' 0 1000000,
   spec_u64 ''mempool.max_bytes'' 1048576 1073741824,
   spec_u64 ''airdrop.cooldown_secs'' 3600 604800,
   spec_u128 ''airdrop.max_amount'' 1000000000 100000000000000,
   spec_u128 ''name.registration_fee'' 100000000 1000000000000,
   spec_u128 ''name.renewal_fee'' 100000000 1000000000000,
   spec_u64 ''name.expiration_blocks'' 10000 200000000,
   spec_u64 ''name.voting_period'' 10000 10000000,
   spec_u64 ''name.approval_threshold'' 51 100,
   spec_u64 ''token.authority_approval_threshold'' 51 100,
   spec_u64 ''cu.per_tlkd'' 1000 1000000000,
   spec_u64 ''oracle.commit_quorum_percent'' 33 90,
   spec_u64 ''oracle.reveal_quorum_percent'' 33 90,
   spec_u64 ''oracle.request_timeout_blocks'' 10 1000000,
   spec_u64 ''oracle.cache_expiry_blocks'' 100 1000000,
   spec_u64 ''oracle.max_response_bytes'' 1024 1000000,
   spec_u64 ''oracle.max_http_body_bytes'' 256 131072,
   spec_u64 ''oracle.max_http_url_bytes'' 32 2048,
   spec_u64 ''oracle.max_http_method_bytes'' 4 16,
   spec_u64 ''oracle.http_timeout_ms'' 100 60000,
   spec_u64 ''oracle.malicious_slash_bps'' 100 10000,
   spec_u128 ''oracle.min_url_proposal_bond'' 1000000000 1000000000000,
   spec_u128 ''oracle.min_raw_url_proposal_bond'' 5000000000 10000000000000,
   spec_u64 ''oracle.max_url_voting_period_blocks'' 10000 10000000,
   spec_u64 ''oracle.max_schema_keys'' 1 64,
   spec_u64 ''oracle.max_schema_key_bytes'' 8 64,
   spec_u64 ''oracle.max_schema_voting_period_blocks'' 10000 1000000,
   spec_u64 ''oracle.max_token_authority_voting_period_blocks'' 10000 10000000,
   spec_u64 ''oracle.private_max_depth'' 1 10,
   spec_u64 ''oracle.public_max_depth'' 1 64,
   spec_u64 ''network.ingress.max_connections'' 1 100000,
   spec_u64 ''network.ingress.max_message_bytes'' 1024 16777216,
   spec_u64 ''network.ingress.max_messages_per_second'' 1 100000,
   spec_u64 ''network.ack.max_connections'' 1 100000,
   spec_u64 ''network.ack.max_message_bytes'' 1024 16777216,
   spec_u64 ''network.ack.max_messages_per_second'' 1 100000,
   spec_u64 ''network.ack.max_pending_batches'' 1 100000,
   spec_u64 ''network.ack.max_batch_age_secs'' 1 3600,
   spec_u64 ''network.discovery.max_peers'' 1 100000,
   spec_u64 ''network.discovery.peer_ttl_secs'' 10 86400,
   spec_u64 ''network.attestation.max_pending'' 1 100000,
   spec_u64 ''network.transport.chunk_size'' 1024 1048576,
   spec_u64 ''network.transport.handshake_timeout_secs'' 1 120]"

definition PINNED_PARAMS :: "string list" where
  "PINNED_PARAMS = [
   ''gas.transfer'',
   ''gas.claim'',
   ''gas.rotate_key'',
   ''gas.register_validator'',
   ''gas.stake'',
   ''gas.unstake'',
   ''gas.withdraw'',
   ''gas.unjail'',
   ''gas.mint_nft'',
   ''gas.transfer_nft'',
   ''gas.burn_nft'',
   ''gas.approve_nft'',
   ''gas.deploy_cell'',
   ''gas.deploy_token'',
   ''gas.upgrade_cell'',
   ''gas.token_transfer'',
   ''gas.token_mint'',
   ''gas.token_burn'',
   ''gas.oracle_read'',
   ''gas.oracle_queue'',
   ''gas.price'',
   ''gas.distribution_interval'',
   ''emission.year1_tlkd'',
   ''emission.decay_bps_per_year'',
   ''emission.epoch_blocks'',
   ''consensus.batch_interval_ms'',
   ''consensus.max_batch_size'',
   ''consensus.committee_size'',
   ''consensus.epoch_duration_ms'',
   ''consensus.finalization_lag'',
   ''consensus.finalization_timeout_secs'',
   ''sync.threshold'',
   ''sync.max_batch_range'',
   ''sync.peer_ttl_secs'',
   ''sync.snapshot_threshold'',
   ''staking.slash_percentage'',
   ''staking.oracle_lie_slash_percentage'',
   ''staking.oracle_silence_slash_percentage'',
   ''staking.downtime_slash_percentage'',
   ''staking.censorship_slash_percentage'',
   ''streaming.optimal_batch_size'',
   ''streaming.max_wait_ms'',
   ''streaming.max_sync_buffer_size'',
   ''streaming.max_batch_cache'',
   ''streaming.max_pending_headers'',
   ''streaming.max_seen_txs'',
   ''streaming.pending_batch_timeout_ms'',
   ''limits.max_gas_per_tx'',
   ''limits.max_gas_per_batch'',
   ''limits.max_calldata_size'',
   ''limits.max_call_chain_total_calldata'',
   ''limits.max_return_data_size'',
   ''limits.max_call_depth'',
   ''limits.max_log_data_size'',
   ''limits.max_logs_per_tx'',
   ''limits.max_log_topics'',
   ''limits.max_cell_bytecode_size'',
   ''limits.max_cell_storage_bytes'',
   ''limits.max_batch_transfer_recipients'',
   ''limits.nonce_lookahead'',
   ''limits.max_call_chain_calls'',
   ''storage.rent_lifetime_fee'',
   ''storage.rent_grace_period_blocks'',
   ''fees.min_tx_fee'',
   ''fees.tx_byte'',
   ''mempool.max_bytes'',
   ''airdrop.cooldown_secs'',
   ''airdrop.max_amount'',
   ''name.registration_fee'',
   ''name.renewal_fee'',
   ''name.expiration_blocks'',
   ''name.voting_period'',
   ''name.approval_threshold'',
   ''token.authority_approval_threshold'',
   ''cu.per_tlkd'',
   ''oracle.commit_quorum_percent'',
   ''oracle.reveal_quorum_percent'',
   ''oracle.request_timeout_blocks'',
   ''oracle.cache_expiry_blocks'',
   ''oracle.max_response_bytes'',
   ''oracle.max_http_body_bytes'',
   ''oracle.max_http_url_bytes'',
   ''oracle.max_http_method_bytes'',
   ''oracle.http_timeout_ms'',
   ''oracle.malicious_slash_bps'',
   ''oracle.min_url_proposal_bond'',
   ''oracle.min_raw_url_proposal_bond'',
   ''oracle.max_url_voting_period_blocks'',
   ''oracle.max_schema_keys'',
   ''oracle.max_schema_key_bytes'',
   ''oracle.max_schema_voting_period_blocks'',
   ''oracle.max_token_authority_voting_period_blocks'',
   ''oracle.private_max_depth'',
   ''oracle.public_max_depth'']"

definition genesis_values :: "bytes \<Rightarrow> (string \<times> bytes) list" where
  "genesis_values sys_authority = [
   (''gas.transfer'', enc_u64 1000),
   (''gas.claim'', enc_u64 2000),
   (''gas.rotate_key'', enc_u64 1000),
   (''gas.register_validator'', enc_u64 10000),
   (''gas.stake'', enc_u64 5000),
   (''gas.unstake'', enc_u64 5000),
   (''gas.withdraw'', enc_u64 5000),
   (''gas.unjail'', enc_u64 10000),
   (''gas.mint_nft'', enc_u64 50000),
   (''gas.transfer_nft'', enc_u64 10000),
   (''gas.burn_nft'', enc_u64 5000),
   (''gas.approve_nft'', enc_u64 5000),
   (''gas.deploy_cell'', enc_u64 1000000),
   (''gas.deploy_token'', enc_u64 500000),
   (''gas.upgrade_cell'', enc_u64 500000),
   (''gas.token_transfer'', enc_u64 5000),
   (''gas.token_mint'', enc_u64 10000),
   (''gas.token_burn'', enc_u64 5000),
   (''gas.oracle_read'', enc_u64 1000),
   (''gas.oracle_queue'', enc_u64 5000),
   (''gas.price'', enc_u64 1),
   (''gas.distribution_interval'', enc_u64 1296000),
   (''emission.year1_tlkd'', enc_u128 25000000000000000),
   (''emission.decay_bps_per_year'', enc_u64 2000),
   (''emission.epoch_blocks'', enc_u64 432000),
   (''consensus.batch_interval_ms'', enc_u64 200),
   (''consensus.max_batch_size'', enc_u64 30000),
   (''consensus.committee_size'', enc_u64 20),
   (''consensus.epoch_duration_ms'', enc_u64 60000),
   (''consensus.finalization_lag'', enc_u64 2),
   (''consensus.finalization_timeout_secs'', enc_u64 10),
   (''sync.threshold'', enc_u64 8),
   (''sync.max_batch_range'', enc_u64 1000),
   (''sync.peer_ttl_secs'', enc_u64 30),
   (''sync.snapshot_threshold'', enc_u64 1000),
   (''staking.slash_percentage'', enc_u64 5),
   (''staking.oracle_lie_slash_percentage'', enc_u64 30),
   (''staking.oracle_silence_slash_percentage'', enc_u64 2),
   (''staking.downtime_slash_percentage'', enc_u64 1),
   (''staking.censorship_slash_percentage'', enc_u64 1),
   (''streaming.optimal_batch_size'', enc_u64 10000),
   (''streaming.max_wait_ms'', enc_u64 300),
   (''streaming.max_sync_buffer_size'', enc_u64 100),
   (''streaming.max_batch_cache'', enc_u64 256),
   (''streaming.max_pending_headers'', enc_u64 256),
   (''streaming.max_seen_txs'', enc_u64 1000000),
   (''streaming.pending_batch_timeout_ms'', enc_u64 5000),
   (''network.ingress.max_connections'', enc_u64 1024),
   (''network.ingress.max_message_bytes'', enc_u64 1048576),
   (''network.ingress.max_messages_per_second'', enc_u64 200),
   (''network.ack.max_connections'', enc_u64 512),
   (''network.ack.max_message_bytes'', enc_u64 262144),
   (''network.ack.max_messages_per_second'', enc_u64 200),
   (''network.ack.max_pending_batches'', enc_u64 4096),
   (''network.ack.max_batch_age_secs'', enc_u64 300),
   (''network.discovery.max_peers'', enc_u64 2048),
   (''network.discovery.peer_ttl_secs'', enc_u64 600),
   (''network.attestation.max_pending'', enc_u64 4096),
   (''network.transport.chunk_size'', enc_u64 4096),
   (''network.transport.handshake_timeout_secs'', enc_u64 10),
   (''limits.max_gas_per_tx'', enc_u64 10000000),
   (''limits.max_gas_per_batch'', enc_u64 100000000),
   (''limits.max_calldata_size'', enc_u64 262144),
   (''limits.max_call_chain_calls'', enc_u64 64),
   (''limits.max_call_chain_total_calldata'', enc_u64 262144),
   (''limits.max_batch_transfer_recipients'', enc_u64 64),
   (''limits.nonce_lookahead'', enc_u64 64),
   (''limits.max_return_data_size'', enc_u64 262144),
   (''limits.max_call_depth'', enc_u64 30),
   (''limits.max_log_data_size'', enc_u64 65536),
   (''limits.max_logs_per_tx'', enc_u64 100),
   (''limits.max_log_topics'', enc_u64 8),
   (''limits.max_cell_bytecode_size'', enc_u64 1000000),
   (''limits.max_cell_storage_bytes'', enc_u64 10000000),
   (''storage.rent_lifetime_fee'', enc_u128 1000000000),
   (''storage.rent_grace_period_blocks'', enc_u64 2592000),
   (''fees.min_tx_fee'', enc_u64 100),
   (''fees.tx_byte'', enc_u64 1),
   (''mempool.max_bytes'', enc_u64 67108864),
   (''airdrop.cooldown_secs'', enc_u64 259200),
   (''airdrop.max_amount'', enc_u128 15000000000000),
   (''name.registration_fee'', enc_u128 10000000000),
   (''name.renewal_fee'', enc_u128 1000000000),
   (''name.expiration_blocks'', enc_u64 12960000),
   (''name.voting_period'', enc_u64 432000),
   (''name.approval_threshold'', enc_u64 67),
   (''token.authority_approval_threshold'', enc_u64 67),
   (''cu.per_tlkd'', enc_u64 1000000),
   (''oracle.commit_quorum_percent'', enc_u64 51),
   (''oracle.reveal_quorum_percent'', enc_u64 67),
   (''oracle.request_timeout_blocks'', enc_u64 120),
   (''oracle.cache_expiry_blocks'', enc_u64 7200),
   (''oracle.max_response_bytes'', enc_u64 1000000),
   (''oracle.max_http_body_bytes'', enc_u64 131072),
   (''oracle.max_http_url_bytes'', enc_u64 2048),
   (''oracle.max_http_method_bytes'', enc_u64 16),
   (''oracle.http_timeout_ms'', enc_u64 5000),
   (''oracle.malicious_slash_bps'', enc_u64 7000),
   (''oracle.min_url_proposal_bond'', enc_u128 1000000000),
   (''oracle.min_raw_url_proposal_bond'', enc_u128 5000000000),
   (''oracle.max_url_voting_period_blocks'', enc_u64 100000),
   (''oracle.max_schema_keys'', enc_u64 64),
   (''oracle.max_schema_key_bytes'', enc_u64 64),
   (''oracle.max_schema_voting_period_blocks'', enc_u64 1000000),
   (''oracle.max_token_authority_voting_period_blocks'', enc_u64 100000),
   (''oracle.private_max_depth'', enc_u64 2),
   (''oracle.public_max_depth'', enc_u64 30),
   (''agent.private_balance.max_fee'', enc_u128 1000000000000),
   (''agent.private_balance.fee_authority'', sys_authority)]"

section \<open>Operations\<close>

definition insert_genesis_params :: "hash_fn \<Rightarrow> bytes \<Rightarrow> (bytes \<rightharpoonup> bytes) \<Rightarrow> (bytes \<rightharpoonup> bytes)" where
  "insert_genesis_params sha auth m = fold (\<lambda>(n, v) m. m(param_key sha n \<mapsto> v)) (genesis_values auth) m"

definition cache_update :: "bytes \<Rightarrow> bytes \<Rightarrow> (bytes \<rightharpoonup> bytes) \<Rightarrow> (bytes \<rightharpoonup> bytes)" where
  "cache_update key v cache = cache(key \<mapsto> v)"

definition require_param :: "hash_fn \<Rightarrow> (bytes \<rightharpoonup> bytes) \<Rightarrow> string \<Rightarrow> bytes option" where
  "require_param sha cache name = (case cache (param_key sha name) of
     Some v \<Rightarrow> Some v
   | None \<Rightarrow> if name = ''fees.tx_byte'' then Some (enc_u64 1)
       else if name = ''mempool.max_bytes'' then Some (enc_u64 67108864)
       else None)"

definition get_u64 :: "hash_fn \<Rightarrow> (bytes \<rightharpoonup> bytes) \<Rightarrow> string \<Rightarrow> u64 option" where
  "get_u64 sha cache name = map_option dec_u64 (require_param sha cache name)"

definition get_u128 :: "hash_fn \<Rightarrow> (bytes \<rightharpoonup> bytes) \<Rightarrow> string \<Rightarrow> u128 option" where
  "get_u128 sha cache name = map_option dec_u128 (require_param sha cache name)"

definition is_known_param_key :: "hash_fn \<Rightarrow> bytes \<Rightarrow> bool" where
  "is_known_param_key sha key = list_ex (\<lambda>s. param_key sha (ps_name s) = key) PARAM_SPECS"

definition in_range :: "param_spec \<Rightarrow> bytes \<Rightarrow> bool" where
  "in_range s v = (case ps_kind s of
     KindU64 \<Rightarrow> ps_min_u64 s \<le> dec_u64 v \<and> dec_u64 v \<le> ps_max_u64 s
   | KindU128 \<Rightarrow> ps_min_u128 s \<le> dec_u128 v \<and> dec_u128 v \<le> ps_max_u128 s)"

definition validate_param_value :: "hash_fn \<Rightarrow> bytes \<Rightarrow> bytes \<Rightarrow> string + unit" where
  "validate_param_value sha key v =
    (if list_ex (\<lambda>n. param_key sha n = key) PINNED_PARAMS
     then Inl ''Governance parameter is pinned and cannot be changed''
     else case find (\<lambda>s. param_key sha (ps_name s) = key) PARAM_SPECS of
       None \<Rightarrow> Inl ''Unknown governance parameter key''
     | Some s \<Rightarrow>
        if \<not> in_range s v then Inl ''Governance parameter value out of range''
        else let v64 = dec_u64 v in
          if key = param_key sha ''limits.max_gas_per_tx'' \<and> v64 > 10000000
          then Inl ''max_gas_per_tx exceeds hard cap''
          else if key = param_key sha ''limits.max_calldata_size'' \<and> v64 > 262144
          then Inl ''max_calldata_size exceeds hard cap''
          else if key = param_key sha ''limits.max_call_chain_total_calldata'' \<and> v64 > 262144
          then Inl ''max_call_chain_total_calldata exceeds hard cap''
          else if key = param_key sha ''cu.per_tlkd'' \<and> v64 > 1000000000
          then Inl ''cu_per_tlkd exceeds hard cap''
          else Inr ())"

section \<open>The tables\<close>

lemma dec_enc_u64 [simp]: "dec_u64 (enc_u64 v) = v"
  by (simp add: dec_u64_def enc_u64_def overwrite_def from_to_le_bytes)

lemma dec_enc_u128 [simp]: "dec_u128 (enc_u128 v) = v"
  by (simp add: dec_u128_def enc_u128_def overwrite_def from_to_le_bytes)

text \<open>
  The names are compared through a small polynomial hash that separates them: a numeral per
  name in place of a comparison of all pairs of strings.
\<close>

definition name_hash :: "string \<Rightarrow> int" where
  "name_hash s = foldl (\<lambda>a c. (a * 31 + of_char c) mod 881) 0 s"

lemma genesis_hashes: "map (name_hash \<circ> fst) (genesis_values auth) =
  [236, 535, 861, 699, 370, 294, 386, 458, 215, 483, 479, 851, 396, 324, 75, 283, 806, 153, 
   471, 374, 389, 512, 722, 689, 748, 648, 353, 315, 662, 595, 621, 349, 335, 657, 777, 
   836, 43, 148, 122, 807, 551, 709, 561, 384, 91, 507, 531, 49, 790, 376, 36, 631, 300, 
   415, 606, 552, 271, 419, 226, 69, 3, 66, 55, 381, 772, 501, 247, 94, 860, 446, 762, 481, 
   872, 157, 855, 311, 652, 524, 340, 378, 617, 345, 46, 61, 435, 192, 117, 711, 327, 743, 
   521, 37, 625, 581, 697, 466, 678, 138, 131, 237, 332, 150, 504, 728, 275, 331, 371, 144, 
   322]"
  by (simp add: genesis_values_def name_hash_def)

lemma distinct_map_comp: "distinct (map (f \<circ> g) xs) \<Longrightarrow> distinct (map g xs)"
  by (induction xs) auto

lemma hashes_distinct: "distinct (map (name_hash \<circ> fst) (genesis_values auth))"
  unfolding genesis_hashes by code_simp

lemma names_distinct: "distinct (map fst (genesis_values auth))"
  using hashes_distinct by (rule distinct_map_comp)

text \<open>The specifications come in the order of the genesis values but for one block.\<close>

definition genesis_reordered :: "bytes \<Rightarrow> (string \<times> bytes) list" where
  "genesis_reordered auth = (let g = genesis_values auth
     in take 47 g @ take 47 (drop 60 g) @ take 13 (drop 47 g))"

lemma genesis_by_position:
  "list_all2 (\<lambda>s p. fst p = ps_name s \<and> in_range s (snd p)) PARAM_SPECS (genesis_reordered auth)"
  by (simp add: PARAM_SPECS_def genesis_reordered_def genesis_values_def in_range_def spec_u64_def spec_u128_def)

lemma set_genesis_reordered: "set (genesis_reordered auth) \<subseteq> set (genesis_values auth)"
  by (auto simp: genesis_reordered_def Let_def dest: in_set_takeD in_set_dropD)

lemma list_all2_in_set1: "list_all2 P xs ys \<Longrightarrow> x \<in> set xs \<Longrightarrow> \<exists>y \<in> set ys. P x y"
  by (induction rule: list_all2_induct) auto

lemma genesis_lookup:
  assumes "s \<in> set PARAM_SPECS"
  obtains v where "map_of (genesis_values auth) (ps_name s) = Some v" and "in_range s v"
proof -
  obtain p where p: "p \<in> set (genesis_reordered auth)" "fst p = ps_name s" "in_range s (snd p)"
    using list_all2_in_set1 [OF genesis_by_position assms] by blast
  then have "(ps_name s, snd p) \<in> set (genesis_values auth)"
    using set_genesis_reordered [of auth] by (metis prod.collapse subsetD)
  then show thesis
    using that p(3) map_of_is_SomeI [OF names_distinct] by blast
qed

text \<open>The pinned names are those of the table without the \<^verbatim>\<open>network.\<close> prefix.\<close>

definition is_network :: "string \<Rightarrow> bool" where
  "is_network name = (take 8 name = ''network.'')"

lemma pinned_reordered:
  "map ps_name (filter (\<lambda>s. \<not> is_network (ps_name s)) PARAM_SPECS)
   = take 50 PINNED_PARAMS @ take 1 (drop 60 PINNED_PARAMS) @ take 1 (drop 50 PINNED_PARAMS)
     @ take 2 (drop 58 PINNED_PARAMS) @ take 7 (drop 51 PINNED_PARAMS) @ drop 61 PINNED_PARAMS"
  by (simp add: PARAM_SPECS_def PINNED_PARAMS_def is_network_def spec_u64_def spec_u128_def)

lemma pinned_unless_network:
  assumes "s \<in> set PARAM_SPECS"
  shows "is_network (ps_name s) \<or> ps_name s \<in> set PINNED_PARAMS"
proof (rule disjCI)
  assume "ps_name s \<notin> set PINNED_PARAMS"
  then have "ps_name s \<notin> set (map ps_name (filter (\<lambda>s. \<not> is_network (ps_name s)) PARAM_SPECS))"
    unfolding pinned_reordered by (auto dest: in_set_takeD in_set_dropD)
  then show "is_network (ps_name s)"
    using assms by auto
qed

lemma pinned_not_network: "n \<in> set PINNED_PARAMS \<Longrightarrow> \<not> is_network n"
proof -
  have "list_all (\<lambda>n. \<not> is_network n) PINNED_PARAMS"
    by (simp add: PINNED_PARAMS_def is_network_def)
  then show "n \<in> set PINNED_PARAMS \<Longrightarrow> \<not> is_network n"
    by (simp add: list_all_iff)
qed

lemma capped_pinned:
  "''limits.max_gas_per_tx'' \<in> set PINNED_PARAMS" "''limits.max_calldata_size'' \<in> set PINNED_PARAMS"
  "''limits.max_call_chain_total_calldata'' \<in> set PINNED_PARAMS" "''cu.per_tlkd'' \<in> set PINNED_PARAMS"
  by (simp_all add: PINNED_PARAMS_def)

lemma spec_names: "map ps_name PARAM_SPECS = map fst (genesis_reordered auth)"
  using genesis_by_position [of auth] by (induction rule: list_all2_induct) auto

lemma spec_name: "s \<in> set PARAM_SPECS \<Longrightarrow> ps_name s \<in> fst ` set (genesis_values auth)"
  using spec_names [of auth] set_genesis_reordered [of auth] by (metis imageI image_mono list.set_map subsetD)

lemma pinned_split: "PINNED_PARAMS = take 50 PINNED_PARAMS @ take 1 (drop 50 PINNED_PARAMS)
     @ take 7 (drop 51 PINNED_PARAMS) @ take 2 (drop 58 PINNED_PARAMS) @ take 1 (drop 60 PINNED_PARAMS)
     @ drop 61 PINNED_PARAMS"
  by (simp add: PINNED_PARAMS_def)

lemma pinned_spec:
  assumes "n \<in> set PINNED_PARAMS"
  shows "\<exists>s \<in> set PARAM_SPECS. ps_name s = n"
proof -
  have "n \<in> set (map ps_name (filter (\<lambda>s. \<not> is_network (ps_name s)) PARAM_SPECS))"
    using assms unfolding pinned_reordered by (subst (asm) pinned_split) auto
  then show ?thesis
    by auto
qed

lemma pinned_names: "set PINNED_PARAMS \<subseteq> fst ` set (genesis_values auth)"
  using pinned_spec spec_name by blast

lemma take_drop_split: "take m xs @ take n (drop m xs) @ drop (m + n) xs = xs"
  by (metis append_take_drop_id drop_drop add.commute)

lemma specs_distinct: "distinct (map ps_name PARAM_SPECS)"
proof -
  define g where "g = genesis_values []"
  have "take 47 g @ take 13 (drop 47 g) @ drop 60 g = g"
    using take_drop_split [of 47 g 13] by simp
  then have "distinct (map fst (take 47 g @ take 13 (drop 47 g) @ drop 60 g))"
    using names_distinct [of "[]"] by (simp only: g_def)
  then have "distinct (map fst (take 47 g @ take 47 (drop 60 g) @ take 13 (drop 47 g)))"
    by (auto simp: take_map [symmetric] drop_map [symmetric] dest: in_set_takeD)
  then show ?thesis
    unfolding spec_names [of "[]"] genesis_reordered_def Let_def g_def .
qed

lemma find_spec:
  assumes "inj_on (param_key sha) (fst ` set (genesis_values auth))" and "s \<in> set PARAM_SPECS"
  shows "find (\<lambda>t. param_key sha (ps_name t) = param_key sha (ps_name s)) PARAM_SPECS = Some s"
proof -
  have eq: "t = s" if "t \<in> set PARAM_SPECS" "param_key sha (ps_name t) = param_key sha (ps_name s)" for t
    using that assms specs_distinct spec_name [of _ auth] by (auto simp: distinct_map dest: inj_onD)
  obtain t where t: "find (\<lambda>t. param_key sha (ps_name t) = param_key sha (ps_name s)) PARAM_SPECS = Some t"
    using assms(2) by (cases "find (\<lambda>t. param_key sha (ps_name t) = param_key sha (ps_name s)) PARAM_SPECS")
      (auto simp: find_None_iff)
  then have "t = s"
    using eq by (auto simp: find_Some_iff)
  with t show ?thesis
    by simp
qed

text \<open>Writing an association list of distinct keys into a map.\<close>

lemma fold_upd_other: "k \<notin> f ` fst ` set xs \<Longrightarrow> fold (\<lambda>(n, v) m. m(f n \<mapsto> v)) xs m k = m k"
  by (induction xs arbitrary: m) (auto simp: image_iff)

lemma fold_upd_lookup:
  assumes "inj_on f (fst ` set xs)" and "distinct (map fst xs)" and "map_of xs n = Some v"
  shows "fold (\<lambda>(n, v) m. m(f n \<mapsto> v)) xs m (f n) = Some v"
  using assms
proof (induction xs arbitrary: m)
  case (Cons x xs)
  have *: "f n \<notin> f ` fst ` set xs" if "fst x = n"
    using Cons.prems that by (auto simp: inj_on_def)
  show ?case
  proof (cases "fst x = n")
    case True
    then show ?thesis
      using Cons.prems fold_upd_other [OF * [OF True]] by (cases x) (simp del: fun_upd_apply, simp)
  next
    case False
    then show ?thesis
      using Cons by (cases x) (simp del: fun_upd_apply, simp)
  qed
qed simp

section \<open>Properties\<close>

text \<open>
  C20. After the genesis parameters are written, under a hash function that does not make two
  parameter names collide, every specified parameter is present (its lookup does not panic) and
  its value lies in its specified range.
\<close>

theorem genesis_params_complete:
  assumes "inj_on (param_key sha) (fst ` set (genesis_values auth))" and "s \<in> set PARAM_SPECS"
  shows "\<exists>v. require_param sha (insert_genesis_params sha auth cache) (ps_name s) = Some v \<and> in_range s v"
proof -
  obtain v where v: "map_of (genesis_values auth) (ps_name s) = Some v" "in_range s v"
    using genesis_lookup [OF assms(2)] .
  then show ?thesis
    using fold_upd_lookup [OF assms(1) names_distinct v(1), of cache]
    by (simp add: require_param_def insert_genesis_params_def)
qed

text \<open>The demonstration hash of a name: the polynomial hash above, after the domain prefix.\<close>

definition demo_name_sha :: hash_fn where
  "demo_name_sha bs = L4 (of_int (foldl (\<lambda>a c. (a * 31 + uint c) mod 881) 0 (drop 20 bs))) 0 0 0"

lemma uint_of_char [simp]: "uint (of_char c :: 8 word) = of_char c"
proof -
  have "take_bit 8 (of_char c :: nat) = of_char c"
    using nat_of_char_less_256 [of c] by (simp add: take_bit_nat_eq_self_iff)
  then have "uint (of_nat (of_char c) :: 8 word) = of_nat (of_char c)"
    by (simp only: unsigned_of_nat len_num1 len_bit0 numeral_code) simp
  then show ?thesis
    by (simp only: of_nat_of_char)
qed

lemma demo_name_key: "param_key demo_name_sha n = to32 (L4 (of_int (name_hash n)) 0 0 0)"
  by (simp add: param_key_def digest_def demo_name_sha_def PARAM_DOMAIN_def str_bytes_def name_hash_def foldl_map)

lemma name_hash_bounds: "0 \<le> name_hash n \<and> name_hash n < 881"
  by (induction n rule: rev_induct) (simp_all add: name_hash_def)

lemma demo_name_key_eq: "param_key demo_name_sha m = param_key demo_name_sha n \<longleftrightarrow> name_hash m = name_hash n"
proof -
  have "to32 a = to32 b \<longleftrightarrow> a = b" for a b
    by (metis u256_to32)
  then show ?thesis
    using name_hash_bounds [of m] name_hash_bounds [of n]
    by (simp del: to32.simps add: demo_name_key word_of_int_eq_iff take_bit_int_eq_self)
qed

lemma demo_name_inj: "inj_on (param_key demo_name_sha) (fst ` set (genesis_values auth))"
  using hashes_distinct [of auth] by (auto simp: inj_on_def demo_name_key_eq distinct_map)

theorem genesis_params_complete_witness:
  "\<exists>v. require_param demo_name_sha (insert_genesis_params demo_name_sha (zeros 32) Map.empty) ''cu.per_tlkd'' = Some v
     \<and> in_range (spec_u64 ''cu.per_tlkd'' 1000 1000000000) v"
  using genesis_params_complete [OF demo_name_inj, where s = "spec_u64 ''cu.per_tlkd'' 1000 1000000000" and cache = Map.empty]
  by (simp add: PARAM_SPECS_def spec_u64_def)

text \<open>
  Validation accepts a change of a parameter of the table exactly when the parameter is one of
  the \<^verbatim>\<open>network.\<close> group and the value lies in its range: every other parameter is pinned.
\<close>

theorem validate_exact:
  assumes "inj_on (param_key sha) (fst ` set (genesis_values []))" and "s \<in> set PARAM_SPECS"
  shows "validate_param_value sha (param_key sha (ps_name s)) v = Inr () \<longleftrightarrow> is_network (ps_name s) \<and> in_range s v"
proof (cases "is_network (ps_name s)")
  case True
  then have free: "\<not> list_ex (\<lambda>n. param_key sha n = param_key sha (ps_name s)) PINNED_PARAMS"
    using inj_onD [OF assms(1) _ subsetD [OF pinned_names] spec_name [OF assms(2)]] pinned_not_network
    by (auto simp: list_ex_iff)
  moreover have "find (\<lambda>t. param_key sha (ps_name t) = param_key sha (ps_name s)) PARAM_SPECS = Some s"
    using find_spec [OF assms] .
  moreover have "param_key sha (ps_name s) \<noteq> param_key sha n" if "n \<in> set PINNED_PARAMS" for n
    using free that by (auto simp: list_ex_iff)
  ultimately show ?thesis
    using True capped_pinned by (simp add: validate_param_value_def Let_def)
next
  case False
  then show ?thesis
    using pinned_unless_network [OF assms(2)] by (auto simp: validate_param_value_def list_ex_iff)
qed

theorem validate_exact_witness:
  "validate_param_value demo_name_sha (param_key demo_name_sha ''network.discovery.max_peers'') (enc_u64 7) = Inr ()"
  using validate_exact [OF demo_name_inj, where s = "spec_u64 ''network.discovery.max_peers'' 1 100000" and v = "enc_u64 7"]
  by (simp add: PARAM_SPECS_def spec_u64_def is_network_def in_range_def)

end
