(* ===== verification/Ledger_State.thy ===== *)
theory Ledger_State
  imports Axiom_Host Params
begin

text \<open>
  The chain state \<^verbatim>\<open>State\<close> of \<^verbatim>\<open>truthlinked-state/src/pq_execution.rs\<close>, the effects of a
  transaction (\<^verbatim>\<open>StateDiff\<close>, with the records of \<^verbatim>\<open>truthlinked-runtime/src/types.rs\<close>), and the
  first steps of \<^verbatim>\<open>State::apply_diff\<close>: balances, nonces, replay protection, staking. Every step returns its result together with the
  state it leaves behind, because the code mutates the state in place and stops at the
  first error without undoing anything. Plain \<^verbatim>\<open>+\<close> and \<^verbatim>\<open>*\<close> on machine integers wrap, as in
  the release profile. The process-wide mirrors of governance parameters, oracle results,
  URL proposals and visibilities are not part of this state, nor are
  \<^verbatim>\<open>gas_breakdown\<close> of a diff and \<^verbatim>\<open>chain_age_years\<close> of the state, which \<^verbatim>\<open>apply_diff\<close> never reads.
\<close>

section \<open>Records\<close>

record account_record =
  pubkey_bytes :: bytes
  acct_balance :: u128
  compute_escrow :: u128
  acct_nonce :: u64
  acct_nfts :: "bytes list"

record nft_record =
  nft_nft_id :: bytes
  nft_owner :: bytes
  nft_name :: bytes
  nft_metadata_uri :: bytes
  nft_minted_at :: u64
  nft_collection :: "bytes option"
  nft_royalty_bps :: u16
  nft_royalty_recipient :: "bytes option"
  nft_approved :: "bytes option"

record name_registration =
  nreg_name :: bytes
  nreg_owner :: bytes
  nreg_target :: bytes
  nreg_registered_at :: u64
  nreg_expires_at :: u64
  nreg_is_cell :: bool

record token_authority_proposal =
  tap_token_cell :: bytes
  tap_proposer :: bytes
  tap_voters :: "bytes list"
  tap_votes_for_stake :: u64
  tap_created_at :: u64
  tap_voting_ends_at :: u64
  tap_set_mint_authority :: bool
  tap_new_mint_authority :: "bytes option"
  tap_set_freeze_authority :: bool
  tap_new_freeze_authority :: "bytes option"

record schema_proposal =
  scp_schema_id :: bytes
  scp_keys :: "bytes list"
  scp_proposer :: bytes
  scp_voters :: "bytes list"
  scp_votes_for_stake :: u64
  scp_votes_against_stake :: u64
  scp_created_at :: u64
  scp_voting_ends_at :: u64
  scp_approved :: bool
  scp_rejected :: bool

record schema_entry =
  sce_schema_id :: bytes
  sce_keys :: "bytes list"
  sce_created_at :: u64
  sce_approved :: bool

datatype delta_op = DeltaAdd u128 | DeltaMax u128 | DeltaOr bool | DeltaAppend bytes

datatype cell_update =
    CuDeploy bytes cell_account
  | CuStorageChange bytes "(bytes \<times> bytes option) list"
  | CuBalanceChange bytes u128
  | CuRemove bytes
  | CuUpgrade bytes bytes "bytes list" "bytes list" "bytes list" "storage_key_spec list" "bytes list" u64
  | CuTransferOwnership bytes bytes
  | CuAcceptOwnership bytes bytes
  | CuMakeImmutable bytes bytes

datatype oracle_update =
    QueueRequest oracle_request
  | AddCommit bytes bytes bytes
  | AddReveal bytes bytes bytes u16
  | FinalizeResult oracle_result
  | AddUrlProposal url_proposal
  | VoteUrlProposal bytes bytes u64 u64
  | SlashUrlProposer bytes
  | AddSchemaProposal schema_proposal
  | VoteSchemaProposal bytes bytes u64 u64
  | SetVisibility bytes cell_visibility

record state_diff =
  account_updates :: "(bytes, account_record) omap"
  staking_updates :: "staking_update list"
  nft_updates :: "(bytes, nft_record option) omap"
  cell_updates :: "cell_update list"
  gas_fee :: u128
  name_fee :: u128
  cu_fee :: u128
  treasury_fee :: u128
  compute_fee_tlkd :: u128
  tx_hash :: bytes
  tx_hashes :: "bytes list"
  pending_name_proposals :: "(bytes \<times> pending_name_registration \<times> bytes \<times> bool) list"
  name_votes :: "(bytes \<times> bytes \<times> u64) list"
  pending_token_authority_proposals :: "(bytes \<times> token_authority_proposal) list"
  token_authority_votes :: "(bytes \<times> bytes \<times> u64) list"
  name_renewals :: "(bytes \<times> u64) list"
  name_transfers :: "(bytes \<times> bytes) list"
  native_transfers :: "(bytes \<times> u128) list"
  native_debits :: "(bytes \<times> u128) list"
  compute_escrow_credits :: "(bytes \<times> u128) list"
  compute_escrow_debits :: "(bytes \<times> u128) list"
  token_credits :: "(bytes \<times> bytes \<times> u128) list"
  token_balance_updates :: "((bytes \<times> bytes) \<times> u128) list"
  staking_rewards :: "(bytes \<times> u128) list"
  cell_credits :: "(bytes \<times> u128) list"
  cell_debits :: "(bytes \<times> u128) list"
  storage_deltas :: "(bytes \<times> (bytes \<times> delta_op) list) list"
  diff_airdrop_claims :: "(bytes \<times> u64) list"
  minted_amount :: u128
  frozen_account_updates :: "((bytes \<times> bytes) \<times> bool) list"
  oracle_updates :: "oracle_update list"
  param_updates :: "(bytes \<times> bytes) list"
  nonce_updates :: "(bytes \<times> u64) list"
  gas_fee_spent :: u128
  name_fee_spent :: u128
  compute_fee_spent :: u128
  treasury_fee_spent :: u128
  fee_burned :: u128
  is_system :: bool

definition diff_default :: state_diff where
  "diff_default = \<lparr>account_updates = [], staking_updates = [], nft_updates = [], cell_updates = [],
     gas_fee = 0, name_fee = 0, cu_fee = 0, treasury_fee = 0, compute_fee_tlkd = 0, tx_hash = zeros 32, tx_hashes = [],
     pending_name_proposals = [], name_votes = [], pending_token_authority_proposals = [], token_authority_votes = [],
     name_renewals = [], name_transfers = [], native_transfers = [], native_debits = [],
     compute_escrow_credits = [], compute_escrow_debits = [], token_credits = [],
     token_balance_updates = [], staking_rewards = [], cell_credits = [], cell_debits = [],
     storage_deltas = [], diff_airdrop_claims = [], minted_amount = 0, frozen_account_updates = [],
     oracle_updates = [], param_updates = [], nonce_updates = [], gas_fee_spent = 0, name_fee_spent = 0,
     compute_fee_spent = 0, treasury_fee_spent = 0, fee_burned = 0, is_system = False\<rparr>"

record ledger =
  accounts :: "(bytes, account_record) omap"
  staking :: staking_state
  nfts :: "(bytes, nft_record) omap"
  cells :: cell_state
  accumulated_gas_fees :: u128
  accumulated_name_fees :: u128
  accumulated_compute_fees :: u128
  accumulated_treasury_fees :: u128
  executed_tx_hashes :: "bytes list"
  params :: "bytes \<rightharpoonup> bytes"
  name_registry :: "(bytes, name_registration) omap"
  pending_names :: "(bytes, pending_name_registration) omap"
  token_authority_proposals :: "(bytes, token_authority_proposal) omap"
  airdrop_claims :: "(bytes, u64) omap"
  total_minted :: u128
  foundation_mint_authority :: "bytes option"
  pending_oracle_requests :: "(bytes, oracle_request) omap"
  oracle_pending :: "(bytes, oracle_tally) omap"
  oracle_results :: "(bytes, oracle_result) omap"
  url_proposals :: "(bytes, url_proposal) omap"
  schema_proposals :: "(bytes, schema_proposal) omap"
  schema_registry :: "(bytes, schema_entry) omap"
  visibility_of :: "(bytes, cell_visibility) omap"
  accumulated_epoch_fees :: u128
  last_emission_epoch :: u64

text \<open>
  What the state code takes from outside, besides the hash functions and parameters of
  \<^typ>\<open>axiom_env\<close>: 128-bit parameters, hex, signatures, and the hash map order and number
  formats the oracle tally depends on.
\<close>

record ledger_env = axiom_env +
  env_gp128 :: "string \<Rightarrow> u128"
  env_hex :: "bytes \<Rightarrow> string"
  env_sigs :: sig_scheme
  env_tally_order :: "tally_map \<Rightarrow> tally_map"
  env_parse_price :: "bytes \<Rightarrow> u64 option"
  env_price_json :: "u64 \<Rightarrow> nat \<Rightarrow> bytes option"

definition account_id_from_pubkey :: "('z) ledger_env_scheme \<Rightarrow> bytes \<Rightarrow> bytes" where
  "account_id_from_pubkey E pk = digest (env_sha256 E) (str_bytes ''truthlinked-account-id-v1'' @ pk)"

definition sys_id :: "('z) ledger_env_scheme \<Rightarrow> string \<Rightarrow> bytes" where
  "sys_id E label = digest (env_sha256 E) (str_bytes label)"

definition treasury_id :: "('z) ledger_env_scheme \<Rightarrow> bytes" where
  "treasury_id E = sys_id E ''truthlinked-treasury-v1''"

definition state_genesis :: "('z) ledger_env_scheme \<Rightarrow> bytes \<Rightarrow> ledger" where
  "state_genesis E auth = \<lparr>accounts = [], staking = staking_new\<lparr>treasury_account_id := Some (treasury_id E)\<rparr>, nfts = [],
     cells = cell_state_new, accumulated_gas_fees = 0, accumulated_name_fees = 0, accumulated_compute_fees = 0,
     accumulated_treasury_fees = 0, executed_tx_hashes = [],
     params = insert_genesis_params (env_sha256 E) auth Map.empty, name_registry = [],
     pending_names = [], token_authority_proposals = [], airdrop_claims = [], total_minted = 0,
     foundation_mint_authority = None, pending_oracle_requests = [], oracle_pending = [], oracle_results = [],
     url_proposals = [], schema_proposals = [], schema_registry = [], visibility_of = [],
     accumulated_epoch_fees = 0, last_emission_epoch = 0\<rparr>"

section \<open>Steps in sequence\<close>

type_synonym step_result = "(string + unit) \<times> ledger"

definition then_step :: "(ledger \<Rightarrow> step_result) \<Rightarrow> (ledger \<Rightarrow> step_result) \<Rightarrow> ledger \<Rightarrow> step_result" where
  "then_step f g l = (case f l of (Inl e, l') \<Rightarrow> (Inl e, l') | (Inr _, l') \<Rightarrow> g l')"

primrec each :: "('a \<Rightarrow> ledger \<Rightarrow> step_result) \<Rightarrow> 'a list \<Rightarrow> ledger \<Rightarrow> step_result" where
  "each f [] l = (Inr (), l)"
| "each f (x # xs) l = then_step (f x) (each f xs) l"

primrec steps_in_order :: "(ledger \<Rightarrow> step_result) list \<Rightarrow> ledger \<Rightarrow> step_result" where
  "steps_in_order [] l = (Inr (), l)"
| "steps_in_order (f # fs) l = then_step f (steps_in_order fs) l"

definition always :: "(ledger \<Rightarrow> ledger) \<Rightarrow> ledger \<Rightarrow> step_result" where
  "always f l = (Inr (), f l)"

section \<open>Native balances\<close>

definition blank_account :: account_record where
  "blank_account = \<lparr>pubkey_bytes = [], acct_balance = 0, compute_escrow = 0, acct_nonce = 0, acct_nfts = []\<rparr>"

definition set_account :: "bytes \<Rightarrow> account_record \<Rightarrow> ledger \<Rightarrow> ledger" where
  "set_account i a l = l\<lparr>accounts := om_put i a (accounts l)\<rparr>"

definition account_or :: "account_record \<Rightarrow> bytes \<Rightarrow> ledger \<Rightarrow> account_record" where
  "account_or d i l = (case om_get (accounts l) i of Some a \<Rightarrow> a | None \<Rightarrow> d)"

definition credit_native :: "bytes \<times> u128 \<Rightarrow> ledger \<Rightarrow> step_result" where
  "credit_native = (\<lambda>(i, amt) l. let a = account_or blank_account i l; l = set_account i a l in
     case checked_add (acct_balance a) amt of
       None \<Rightarrow> (Inl ''Recipient balance overflow'', l)
     | Some b \<Rightarrow> (Inr (), set_account i (a\<lparr>acct_balance := b\<rparr>) l))"

definition debit_native :: "bytes \<times> u128 \<Rightarrow> ledger \<Rightarrow> step_result" where
  "debit_native = (\<lambda>(i, amt) l. case om_get (accounts l) i of
       None \<Rightarrow> (Inl ''Sender account not found'', l)
     | Some a \<Rightarrow> (case checked_sub (acct_balance a) amt of
          None \<Rightarrow> (Inl ''Sender balance underflow'', l)
        | Some b \<Rightarrow> (Inr (), set_account i (a\<lparr>acct_balance := b\<rparr>) l)))"

definition credit_escrow :: "bytes \<times> u128 \<Rightarrow> ledger \<Rightarrow> step_result" where
  "credit_escrow = (\<lambda>(i, amt) l. let a = account_or blank_account i l; l = set_account i a l in
     case checked_add (compute_escrow a) amt of
       None \<Rightarrow> (Inl ''Recipient escrow overflow'', l)
     | Some b \<Rightarrow> (Inr (), set_account i (a\<lparr>compute_escrow := b\<rparr>) l))"

definition debit_escrow :: "bytes \<times> u128 \<Rightarrow> ledger \<Rightarrow> step_result" where
  "debit_escrow = (\<lambda>(i, amt) l. case om_get (accounts l) i of
       None \<Rightarrow> (Inl ''Sender account not found'', l)
     | Some a \<Rightarrow> (case checked_sub (compute_escrow a) amt of
          None \<Rightarrow> (Inl ''Sender escrow underflow'', l)
        | Some b \<Rightarrow> (Inr (), set_account i (a\<lparr>compute_escrow := b\<rparr>) l)))"

definition update_account :: "bytes \<times> account_record \<Rightarrow> ledger \<Rightarrow> ledger" where
  "update_account = (\<lambda>(i, r) l. case om_get (accounts l) i of
       Some a \<Rightarrow> set_account i (a\<lparr>pubkey_bytes := (if pubkey_bytes a = [] then pubkey_bytes r else pubkey_bytes a),
         acct_nfts := acct_nfts r\<rparr>) l
     | None \<Rightarrow> set_account i r l)"

definition update_nonce :: "bytes \<times> u64 \<Rightarrow> ledger \<Rightarrow> ledger" where
  "update_nonce = (\<lambda>(i, n) l. case om_get (accounts l) i of
       Some a \<Rightarrow> if n > acct_nonce a then set_account i (a\<lparr>acct_nonce := n\<rparr>) l else l
     | None \<Rightarrow> l)"

section \<open>Replay protection and fee accumulators\<close>

definition MAX_EXECUTED_TX_HASHES :: nat where
  "MAX_EXECUTED_TX_HASHES = 100000"

definition KEEP_EXECUTED_TX_HASHES :: nat where
  "KEEP_EXECUTED_TX_HASHES = 80000"

definition record_hash :: "bytes \<Rightarrow> bytes list \<Rightarrow> bytes list" where
  "record_hash h hs = (let hs = List.insert h hs in
     if length hs > MAX_EXECUTED_TX_HASHES then take KEEP_EXECUTED_TX_HASHES (rev (sort hs)) else hs)"

definition record_tx :: "state_diff \<Rightarrow> ledger \<Rightarrow> ledger" where
  "record_tx d l = (if is_system d then l
     else l\<lparr>executed_tx_hashes := record_hash (tx_hash d) (executed_tx_hashes l),
            accumulated_gas_fees := accumulated_gas_fees l + gas_fee d,
            accumulated_compute_fees := accumulated_compute_fees l + compute_fee_tlkd d,
            accumulated_treasury_fees := accumulated_treasury_fees l + treasury_fee d,
            accumulated_epoch_fees := saturating_add (saturating_add (saturating_add
              (accumulated_epoch_fees l) (gas_fee d)) (compute_fee_tlkd d)) (treasury_fee d)\<rparr>)"

section \<open>Staking, parameters and NFTs\<close>

definition of_staking :: "(string + 'a) \<times> staking_state \<Rightarrow> ledger \<Rightarrow> step_result" where
  "of_staking r l = (case r of (Inl e, st) \<Rightarrow> (Inl e, l\<lparr>staking := st\<rparr>) | (Inr _, st) \<Rightarrow> (Inr (), l\<lparr>staking := st\<rparr>))"

fun apply_staking_update :: "('z) ledger_env_scheme \<Rightarrow> staking_update \<Rightarrow> ledger \<Rightarrow> step_result" where
  "apply_staking_update E (UpStake pk amt) l = of_staking (stake pk amt (staking l)) l"
| "apply_staking_update E (UpUnstake pk amt) l = of_staking (unstake pk amt (staking l)) l"
| "apply_staking_update E (UpWithdraw pk) l = (case withdraw pk (staking l) of
     (Inl e, st) \<Rightarrow> (Inl e, l\<lparr>staking := st\<rparr>)
   | (Inr w, st) \<Rightarrow> let l = l\<lparr>staking := st\<rparr>; i = account_id_from_pubkey E pk in
      (case om_get (accounts l) i of
         None \<Rightarrow> (Inl ''Account not found for withdrawal'', l)
       | Some a \<Rightarrow> (case checked_add (acct_balance a) (ucast w) of
            None \<Rightarrow> (Inl ''Balance overflow'', l)
          | Some b \<Rightarrow> (Inr (), set_account i (a\<lparr>acct_balance := b\<rparr>) l))))"
| "apply_staking_update E (UpSlash pk reason amt red) l =
     of_staking (apply_slash_outcome (env_sigs E) pk reason \<lparr>out_amount = amt, redistribution = red\<rparr> None (staking l)) l"
| "apply_staking_update E (UpUnjail pk) l = of_staking (unjail pk (staking l)) l"

definition update_param :: "bytes \<times> bytes \<Rightarrow> ledger \<Rightarrow> ledger" where
  "update_param = (\<lambda>(k, v) l. l\<lparr>params := (params l)(k \<mapsto> v)\<rparr>)"

definition update_nft :: "bytes \<times> nft_record option \<Rightarrow> ledger \<Rightarrow> ledger" where
  "update_nft = (\<lambda>(i, n) l. case n of
     Some n \<Rightarrow> l\<lparr>nfts := om_put i n (nfts l)\<rparr> | None \<Rightarrow> l\<lparr>nfts := om_del i (nfts l)\<rparr>)"

end
