(* ===== verification/Ledger.thy ===== *)
theory Ledger
  imports Ledger_State
begin

text \<open>
  The rest of \<^verbatim>\<open>State::apply_diff\<close>: cells, tokens, rewards, storage deltas, fee
  distribution, names, token authorities and the oracle, and the whole application in the
  order of the source.
\<close>

section \<open>Cells\<close>

definition on_cells :: "(cell_state \<Rightarrow> cell_state) \<Rightarrow> ledger \<Rightarrow> ledger" where
  "on_cells f l = l\<lparr>cells := f (cells l)\<rparr>"

definition cell_at :: "ledger \<Rightarrow> bytes \<Rightarrow> cell_account option" where
  "cell_at l c = om_get (cst_cells (cells l)) c"

definition with_cell :: "string \<Rightarrow> bytes \<Rightarrow> (cell_account \<Rightarrow> string + cell_account) \<Rightarrow> ledger \<Rightarrow> step_result" where
  "with_cell missing cid f l = (case cell_at l cid of
     None \<Rightarrow> (Inl missing, l)
   | Some c \<Rightarrow> (case f c of Inl e \<Rightarrow> (Inl e, l) | Inr c' \<Rightarrow> (Inr (), on_cells (set_cell cid c') l)))"

definition apply_storage_diff :: "(bytes \<times> bytes option) list \<Rightarrow> (bytes \<rightharpoonup> bytes) \<Rightarrow> (bytes \<rightharpoonup> bytes)" where
  "apply_storage_diff d m = fold (\<lambda>(k, v) m. m(k := v)) d m"

definition of_cell_state :: "string + cell_state \<Rightarrow> ledger \<Rightarrow> step_result" where
  "of_cell_state r l = (case r of Inl e \<Rightarrow> (Inl e, l) | Inr cs \<Rightarrow> (Inr (), l\<lparr>cells := cs\<rparr>))"

fun apply_cell_update :: "('z) ledger_env_scheme \<Rightarrow> cell_update \<Rightarrow> ledger \<Rightarrow> step_result" where
  "apply_cell_update E (CuDeploy cid c) l = (Inr (), on_cells (set_cell cid c) l)"
| "apply_cell_update E (CuStorageChange cid d) l =
     with_cell ''Cell not found for storage update'' cid
       (\<lambda>c. Inr (c\<lparr>acc_storage := apply_storage_diff d (acc_storage c)\<rparr>)) l"
| "apply_cell_update E (CuBalanceChange cid b) l =
     with_cell ''Cell not found for balance update'' cid (\<lambda>c. Inr (c\<lparr>acc_balance := b\<rparr>)) l"
| "apply_cell_update E (CuRemove cid) l = (Inr (), if cell_at l cid = None then l
     else on_cells (\<lambda>cs. \<lparr>cst_cells = om_del cid (cst_cells cs),
       cst_token_balances = filter (\<lambda>e. fst (fst e) \<noteq> cid) (cst_token_balances cs),
       cst_frozen_accounts = filter (\<lambda>e. fst (fst e) \<noteq> cid) (cst_frozen_accounts cs)\<rparr>) l)"
| "apply_cell_update E (CuUpgrade cid raw reads writes comm specs schemas ts) l =
     with_cell ''Cell not found for upgrade'' cid (\<lambda>c. Inr (c\<lparr>acc_bytecode := raw,
       acc_declared_reads := reads, acc_declared_writes := writes, acc_commutative_keys := comm,
       acc_storage_key_specs := specs, acc_oracle_schema_ids := schemas,
       acc_manifest_hash := compute_manifest_hash (digest (env_blake3 E)) raw reads writes comm schemas,
       acc_manifest_version := saturating_add (acc_manifest_version c) 1, acc_upgraded_at := Some ts\<rparr>)) l"
| "apply_cell_update E (CuTransferOwnership cid new) l =
     with_cell ''Cell not found for ownership transfer'' cid (\<lambda>c. Inr (c\<lparr>acc_pending_owner := Some new\<rparr>)) l"
| "apply_cell_update E (CuAcceptOwnership cid who) l = of_cell_state (accept_ownership cid who (cells l)) l"
| "apply_cell_update E (CuMakeImmutable cid who) l = of_cell_state (make_immutable cid who (cells l)) l"

section \<open>Tokens, rewards and cell balances\<close>

definition set_token_balance :: "bytes \<times> bytes \<Rightarrow> u128 \<Rightarrow> ledger \<Rightarrow> ledger" where
  "set_token_balance k b = on_cells (\<lambda>cs. cs\<lparr>cst_token_balances := om_put k b (cst_token_balances cs)\<rparr>)"

definition credit_token :: "bytes \<times> bytes \<times> u128 \<Rightarrow> ledger \<Rightarrow> step_result" where
  "credit_token = (\<lambda>(tok, a, amt) l. if cell_at l tok = None then (Inr (), l)
     else case checked_add (balance_in (cells l) tok a) amt of
       None \<Rightarrow> (Inl ''Token balance overflow'', l)
     | Some b \<Rightarrow> (Inr (), set_token_balance (tok, a) b l))"

definition update_token_balance :: "(bytes \<times> bytes) \<times> u128 \<Rightarrow> ledger \<Rightarrow> ledger" where
  "update_token_balance = (\<lambda>((tok, a), b) l. if cell_at l tok = None then l else set_token_balance (tok, a) b l)"

definition pay_staking_reward :: "('z) ledger_env_scheme \<Rightarrow> bytes \<times> u128 \<Rightarrow> ledger \<Rightarrow> step_result" where
  "pay_staking_reward E = (\<lambda>(i, reward) l.
     case find (\<lambda>e. account_id_from_pubkey E (fst e) = i) (validators (staking l)) of
       None \<Rightarrow> (Inr (), l)
     | Some (pk, v) \<Rightarrow> (case checked_add (active_stake v) (ucast reward) of
          None \<Rightarrow> (Inl ''Staking reward overflow'', l)
        | Some st \<Rightarrow> (Inr (), l\<lparr>staking := set_validator pk (v\<lparr>active_stake := st\<rparr>) (staking l)\<rparr>)))"

definition credit_cell :: "bytes \<times> u128 \<Rightarrow> ledger \<Rightarrow> step_result" where
  "credit_cell = (\<lambda>(cid, amt) l. if cell_at l cid = None then (Inr (), l)
     else with_cell [] cid (\<lambda>c. case checked_add (acc_balance c) amt of
       None \<Rightarrow> Inl ''Cell balance overflow'' | Some b \<Rightarrow> Inr (c\<lparr>acc_balance := b\<rparr>)) l)"

definition debit_cell :: "bytes \<times> u128 \<Rightarrow> ledger \<Rightarrow> step_result" where
  "debit_cell = (\<lambda>(cid, amt). with_cell ''Cell not found for debit'' cid (\<lambda>c.
     case checked_sub (acc_balance c) amt of
       None \<Rightarrow> Inl ''Cell balance underflow'' | Some b \<Rightarrow> Inr (c\<lparr>acc_balance := b\<rparr>)))"

section \<open>Storage deltas\<close>

text \<open>\<^verbatim>\<open>i128::saturating_add\<close>, the values as two's complement words.\<close>

definition saturating_add_i128 :: "u128 \<Rightarrow> u128 \<Rightarrow> u128" where
  "saturating_add_i128 a b = (let v = sint a + sint b in
     if v > 2 ^ 127 - 1 then word_of_int (2 ^ 127 - 1)
     else if v < - (2 ^ 127) then word_of_int (- (2 ^ 127)) else word_of_int v)"

fun delta_compose :: "delta_op \<Rightarrow> delta_op \<Rightarrow> string + delta_op" where
  "delta_compose (DeltaAdd a) (DeltaAdd b) = Inr (DeltaAdd (a + b))"
| "delta_compose (DeltaMax a) (DeltaMax b) = Inr (DeltaMax (max a b))"
| "delta_compose (DeltaOr a) (DeltaOr b) = Inr (DeltaOr (a \<or> b))"
| "delta_compose (DeltaAppend a) (DeltaAppend b) = Inr (DeltaAppend (a @ b))"
| "delta_compose _ _ = Inl ''Cannot compose different delta types''"

definition base128 :: "bytes \<Rightarrow> u128" where
  "base128 base = (if length base \<ge> 16 then from_le_bytes (take 16 base) else 0)"

fun delta_apply :: "delta_op \<Rightarrow> bytes \<Rightarrow> bytes" where
  "delta_apply (DeltaAdd d) base = to_le_bytes 16 (saturating_add_i128 (base128 base) d)"
| "delta_apply (DeltaMax v) base = to_le_bytes 16 (max (base128 base) v)"
| "delta_apply (DeltaOr v) base = [if (base \<noteq> [] \<and> hd base \<noteq> 0) \<or> v then 1 else 0]"
| "delta_apply (DeltaAppend d) base = base @ d"

definition apply_delta :: "bytes \<times> delta_op \<Rightarrow> (bytes \<rightharpoonup> bytes) \<Rightarrow> (bytes \<rightharpoonup> bytes)" where
  "apply_delta = (\<lambda>(k, op) m.
     let cur = (case m k of Some v \<Rightarrow> v | None \<Rightarrow> zeros 32) in
     m(k \<mapsto> pad_to 32 (take 32 (delta_apply op cur))))"

definition apply_storage_deltas :: "bytes \<times> (bytes \<times> delta_op) list \<Rightarrow> ledger \<Rightarrow> ledger" where
  "apply_storage_deltas = (\<lambda>(cid, ds) l. case cell_at l cid of
     None \<Rightarrow> l
   | Some c \<Rightarrow> on_cells (set_cell cid (c\<lparr>acc_storage := fold apply_delta ds (acc_storage c)\<rparr>)) l)"

section \<open>Fees\<close>

definition collect_name_fee :: "('z) ledger_env_scheme \<Rightarrow> state_diff \<Rightarrow> ledger \<Rightarrow> ledger" where
  "collect_name_fee E d l = (if name_fee d > 0 then
     (case cell_at l (treasury_id E) of
        Some c \<Rightarrow> on_cells (set_cell (treasury_id E) (c\<lparr>acc_balance := saturating_add (acc_balance c) (name_fee d)\<rparr>)) l
      | None \<Rightarrow> l\<lparr>accumulated_name_fees := saturating_add (accumulated_name_fees l) (name_fee d)\<rparr>)
     else l)"

definition spend_gas_fees :: "state_diff \<Rightarrow> ledger \<Rightarrow> step_result" where
  "spend_gas_fees d l = (if gas_fee_spent d > 0 then
     (if gas_fee_spent d > accumulated_gas_fees l then (Inl ''Gas fee distribution exceeds accumulated fees'', l)
      else (Inr (), l\<lparr>accumulated_gas_fees := saturating_sub (accumulated_gas_fees l) (gas_fee_spent d)\<rparr>))
     else (Inr (), l))"

definition spend_name_fees :: "state_diff \<Rightarrow> ledger \<Rightarrow> step_result" where
  "spend_name_fees d l = (if name_fee_spent d > 0 then
     (if name_fee_spent d > accumulated_name_fees l then (Inl ''Name fee distribution exceeds accumulated fees'', l)
      else (Inr (), l\<lparr>accumulated_name_fees := saturating_sub (accumulated_name_fees l) (name_fee_spent d)\<rparr>))
     else (Inr (), l))"

definition spend_compute_fees :: "state_diff \<Rightarrow> ledger \<Rightarrow> step_result" where
  "spend_compute_fees d l = (if compute_fee_spent d > 0 then
     (if compute_fee_spent d > accumulated_compute_fees l
      then (Inl ''Compute fee distribution exceeds accumulated fees'', l)
      else (Inr (), l\<lparr>accumulated_compute_fees := saturating_sub (accumulated_compute_fees l) (compute_fee_spent d)\<rparr>))
     else (Inr (), l))"

definition spend_treasury_fees :: "state_diff \<Rightarrow> ledger \<Rightarrow> step_result" where
  "spend_treasury_fees d l = (if treasury_fee_spent d > 0 then
     (if treasury_fee_spent d > accumulated_treasury_fees l
      then (Inl ''Treasury fee distribution exceeds accumulated fees'', l)
      else (Inr (), l\<lparr>accumulated_treasury_fees := saturating_sub (accumulated_treasury_fees l) (treasury_fee_spent d)\<rparr>))
     else (Inr (), l))"

section \<open>Names and token authorities\<close>

definition register_name :: "('z) ledger_env_scheme \<Rightarrow> bytes \<times> pending_name_registration \<times> bytes \<times> bool \<Rightarrow> ledger \<Rightarrow> ledger" where
  "register_name E = (\<lambda>(name, p, _, _) l. if om_get (name_registry l) name \<noteq> None then l
     else l\<lparr>name_registry := om_put name \<lparr>nreg_name = reg_name p, nreg_owner = reg_owner p,
       nreg_target = reg_cell_id p, nreg_registered_at = reg_proposed_at p,
       nreg_expires_at = reg_proposed_at p + env_gp E ''name.expiration_blocks'',
       nreg_is_cell = reg_is_cell p\<rparr> (name_registry l)\<rparr>)"

definition renew_name :: "('z) ledger_env_scheme \<Rightarrow> bytes \<times> u64 \<Rightarrow> ledger \<Rightarrow> ledger" where
  "renew_name E = (\<lambda>(name, ts) l. case om_get (name_registry l) name of
     None \<Rightarrow> l
   | Some r \<Rightarrow> l\<lparr>name_registry := om_put name
       (r\<lparr>nreg_expires_at := ts + env_gp E ''name.expiration_blocks''\<rparr>) (name_registry l)\<rparr>)"

definition transfer_name :: "bytes \<times> bytes \<Rightarrow> ledger \<Rightarrow> ledger" where
  "transfer_name = (\<lambda>(name, new) l. case om_get (name_registry l) name of
     None \<Rightarrow> l
   | Some r \<Rightarrow> l\<lparr>name_registry := om_put name
       (r\<lparr>nreg_owner := new, nreg_is_cell := cell_at l new \<noteq> None\<rparr>) (name_registry l)\<rparr>)"

definition add_authority_proposal :: "bytes \<times> token_authority_proposal \<Rightarrow> ledger \<Rightarrow> ledger" where
  "add_authority_proposal = (\<lambda>(tok, p) l.
     l\<lparr>token_authority_proposals := om_put tok p (token_authority_proposals l)\<rparr>)"

text \<open>An approved proposal rewrites the authorities of the token.\<close>

definition grant_authority :: "bytes \<Rightarrow> token_authority_proposal \<Rightarrow> ledger \<Rightarrow> ledger" where
  "grant_authority tok p l = (case cell_at l tok of
     None \<Rightarrow> l
   | Some c \<Rightarrow> if \<not> acc_is_token c then l else (case acc_token_config c of
        None \<Rightarrow> l
      | Some cfg \<Rightarrow> on_cells (set_cell tok (c\<lparr>acc_token_config := Some (cfg\<lparr>
          tc_mint_authority := (if tap_set_mint_authority p then tap_new_mint_authority p else tc_mint_authority cfg),
          tc_freeze_authority := (if tap_set_freeze_authority p then tap_new_freeze_authority p
            else tc_freeze_authority cfg)\<rparr>)\<rparr>)) l))"

definition vote_authority :: "('z) ledger_env_scheme \<Rightarrow> u64 \<Rightarrow> bytes \<times> bytes \<times> u64 \<Rightarrow> bytes list \<times> ledger \<Rightarrow> bytes list \<times> ledger" where
  "vote_authority E tot = (\<lambda>(tok, pk, stk) (granted, l).
     case om_get (token_authority_proposals l) tok of
       None \<Rightarrow> (granted, l)
     | Some p \<Rightarrow>
        if tok \<in> set granted then (granted, l)
        else if pk \<in> set (tap_voters p) then (granted, l)
        else
          let p = p\<lparr>tap_voters := pk # tap_voters p, tap_votes_for_stake := saturating_add (tap_votes_for_stake p) stk\<rparr>;
              l = l\<lparr>token_authority_proposals := om_put tok p (token_authority_proposals l)\<rparr>
          in if tot = 0 then (granted, l)
             else if (tap_votes_for_stake p * 100) div tot \<ge> env_gp E ''token.authority_approval_threshold''
             then (granted @ [tok], grant_authority tok p l)
             else (granted, l))"

definition active_total :: "staking_state \<Rightarrow> u64" where
  "active_total st = sum_list (map (\<lambda>e. active_stake (snd e))
     (filter (\<lambda>e. is_active (current_height st) (snd e)) (validators st)))"

definition vote_authorities :: "('z) ledger_env_scheme \<Rightarrow> (bytes \<times> bytes \<times> u64) list \<Rightarrow> ledger \<Rightarrow> ledger" where
  "vote_authorities E votes l = (let (granted, l) = fold (vote_authority E (active_total (staking l))) votes ([], l) in
     l\<lparr>token_authority_proposals := fold om_del granted (token_authority_proposals l)\<rparr>)"

definition record_claim :: "bytes \<times> u64 \<Rightarrow> ledger \<Rightarrow> ledger" where
  "record_claim = (\<lambda>(i, ts) l. l\<lparr>airdrop_claims := om_put i ts (airdrop_claims l)\<rparr>)"

definition count_minted :: "state_diff \<Rightarrow> ledger \<Rightarrow> ledger" where
  "count_minted d l = (if minted_amount d > 0 then l\<lparr>total_minted := saturating_add (total_minted l) (minted_amount d)\<rparr> else l)"

definition update_frozen :: "(bytes \<times> bytes) \<times> bool \<Rightarrow> ledger \<Rightarrow> ledger" where
  "update_frozen = (\<lambda>(k, frozen). on_cells (\<lambda>cs. cs\<lparr>cst_frozen_accounts :=
     (if frozen then om_put k True (cst_frozen_accounts cs) else om_del k (cst_frozen_accounts cs))\<rparr>))"

section \<open>The oracle\<close>

text \<open>Insertion into a hash map that is the list of its entries.\<close>

primrec entry_put :: "'k \<Rightarrow> 'v \<Rightarrow> ('k \<times> 'v) list \<Rightarrow> ('k \<times> 'v) list" where
  "entry_put k v [] = [(k, v)]"
| "entry_put k v (e # m) = (if fst e = k then (k, v) # m else e # entry_put k v m)"

definition url_slash_recipients :: "('z) ledger_env_scheme \<Rightarrow> bytes \<Rightarrow> ledger \<Rightarrow> bytes list" where
  "url_slash_recipients E excluded l = sort (map fst (filter (\<lambda>(pk, v).
     account_id_from_pubkey E pk \<noteq> excluded \<and> is_active (current_height (staking l)) v) (validators (staking l))))"

primrec pay_slash_shares :: "('z) ledger_env_scheme \<Rightarrow> u128 \<Rightarrow> bytes list \<Rightarrow> u128 \<Rightarrow> ledger \<Rightarrow> ledger" where
  "pay_slash_shares E share [] dust l = l"
| "pay_slash_shares E share (pk # pks) dust l =
    (let payout = (if dust > 0 then saturating_add share 1 else share);
         dust = (if dust > 0 then dust - 1 else dust);
         i = account_id_from_pubkey E pk;
         a = account_or (blank_account\<lparr>pubkey_bytes := pk\<rparr>) i l
     in pay_slash_shares E share pks dust
          (if payout = 0 then l
           else set_account i (a\<lparr>acct_balance := saturating_add (acct_balance a) payout\<rparr>) l))"

definition distribute_url_slash_equally :: "('z) ledger_env_scheme \<Rightarrow> u128 \<Rightarrow> bytes \<Rightarrow> ledger \<Rightarrow> ledger" where
  "distribute_url_slash_equally E tot excluded l =
    (if tot = 0 then l
     else let rs = url_slash_recipients E excluded l in
       if rs = [] then l
       else let n = of_nat (length rs) in pay_slash_shares E (tot div n) rs (tot mod n) l)"

definition slash_url_proposer_bond :: "('z) ledger_env_scheme \<Rightarrow> bytes \<Rightarrow> ledger \<Rightarrow> step_result" where
  "slash_url_proposer_bond E pat l = (case om_get (url_proposals l) pat of
     None \<Rightarrow> (Inl (''No proposal for URL pattern '' @ map (\<lambda>b. char_of (unat b)) (39 # pat @ [39])), l)
   | Some p \<Rightarrow>
      if slashed p then (Inr (), l)
      else
        let l = l\<lparr>url_proposals := om_put pat (p\<lparr>slashed := True, approved := False, rejected := True,
               bond_amount := 0\<rparr>) (url_proposals l)\<rparr>;
            slash_amt = (bond_amount p * ucast (env_gp E ''oracle.malicious_slash_bps'')) div 10000;
            returned = saturating_sub (bond_amount p) slash_amt;
            l = (case om_get (accounts l) (proposer p) of
                   Some a \<Rightarrow> set_account (proposer p) (a\<lparr>acct_balance := saturating_add (acct_balance a) returned\<rparr>) l
                 | None \<Rightarrow> l)
        in (Inr (), distribute_url_slash_equally E slash_amt (proposer p) l))"

definition finalize_oracle_request_if_ready :: "('z) ledger_env_scheme \<Rightarrow> bytes \<Rightarrow> ledger \<Rightarrow> bool \<times> ledger" where
  "finalize_oracle_request_if_ready E rid l = (case om_get (pending_oracle_requests l) rid of
     None \<Rightarrow> (False, l)
   | Some req \<Rightarrow>
     (case Option.bind (om_get (oracle_pending l) rid) (\<lambda>t. try_finalize_with_format (env_gp E) (env_blake3 E)
          (env_tally_order E) (env_parse_price E) (env_price_json E) t (staking l) (req_format req)) of
        None \<Rightarrow> (False, l)
      | Some (body, status, agreeing, tot) \<Rightarrow>
         let h = current_height (staking l);
             r = \<lparr>ores_id = rid, ores_url = req_url req, ores_method = req_method req, response_body = body,
                  response_status = status, body_hash = digest (env_blake3 E) body, finalized_at = h,
                  res_expires_at = h + env_gp E ''oracle.cache_expiry_blocks'', quorum_stake_num = agreeing,
                  quorum_stake_den = tot, ores_cell = requesting_cell req\<rparr>
         in (True, l\<lparr>pending_oracle_requests := om_del rid (pending_oracle_requests l),
                      oracle_pending := om_del rid (oracle_pending l),
                      oracle_results := om_put rid r (oracle_results l)\<rparr>)))"

definition all_stake :: "staking_state \<Rightarrow> u64" where
  "all_stake st = sum_list (map (\<lambda>e. active_stake (snd e)) (validators st))"

definition saturating_mul :: "'a::len word \<Rightarrow> 'a word \<Rightarrow> 'a word" where
  "saturating_mul a b = (if unat a * unat b < 2 ^ LENGTH('a) then a * b else - 1)"

definition add_commit :: "('z) ledger_env_scheme \<Rightarrow> bytes \<Rightarrow> bytes \<Rightarrow> bytes \<Rightarrow> ledger \<Rightarrow> ledger" where
  "add_commit E rid pk ch l =
    (let t = (case om_get (oracle_pending l) rid of Some t \<Rightarrow> t
              | None \<Rightarrow> \<lparr>tally_id = rid, commits = [], reveals = [], committed_stake = 0,
                  tally_total_stake = all_stake (staking l), commit_phase_closed = False\<rparr>);
         was_new = map_of (commits t) pk = None;
         t = t\<lparr>commits := entry_put pk ch (commits t)\<rparr>;
         stk = (case om_get (validators (staking l)) pk of Some v \<Rightarrow> active_stake v | None \<Rightarrow> 0);
         t = (if was_new then t\<lparr>committed_stake := saturating_add (committed_stake t) stk\<rparr> else t);
         t = (if commit_quorum_reached (env_gp E) t then t\<lparr>commit_phase_closed := True\<rparr> else t)
     in l\<lparr>oracle_pending := om_put rid t (oracle_pending l)\<rparr>)"

definition add_reveal :: "('z) ledger_env_scheme \<Rightarrow> bytes \<Rightarrow> bytes \<Rightarrow> bytes \<Rightarrow> u16 \<Rightarrow> ledger \<Rightarrow> ledger" where
  "add_reveal E rid pk body status l =
    (let l = (case om_get (oracle_pending l) rid of
                Some t \<Rightarrow> l\<lparr>oracle_pending := om_put rid (if map_of (reveals t) pk = None
                    then t\<lparr>reveals := entry_put pk (body, status) (reveals t)\<rparr> else t) (oracle_pending l)\<rparr>
              | None \<Rightarrow> l)
     in snd (finalize_oracle_request_if_ready E rid l))"

definition vote_url :: "('z) ledger_env_scheme \<Rightarrow> bytes \<Rightarrow> bytes \<Rightarrow> u64 \<Rightarrow> u64 \<Rightarrow> ledger \<Rightarrow> step_result" where
  "vote_url E pat pk for_delta against_delta l = (case om_get (url_proposals l) pat of
     None \<Rightarrow> (Inr (), l)
   | Some p \<Rightarrow>
      if approved p \<or> rejected p \<or> slashed p then (Inr (), l)
      else if pk \<in> set (voters p) then (Inr (), l)
      else
        let p = p\<lparr>voters := pk # voters p, votes_for_stake := saturating_add (votes_for_stake p) for_delta,
              votes_against_stake := saturating_add (votes_against_stake p) against_delta\<rparr>;
            tot = all_stake (staking l); threshold = saturating_mul tot 2;
            yes = tot > 0 \<and> saturating_mul (votes_for_stake p) 3 \<ge> threshold;
            no = tot > 0 \<and> \<not> yes \<and> saturating_mul (votes_against_stake p) 3 \<ge> threshold;
            p = (if yes then p\<lparr>approved := True, rejected := False\<rparr>
                 else if no then p\<lparr>rejected := True, approved := False\<rparr> else p);
            l = l\<lparr>url_proposals := om_put pat p (url_proposals l)\<rparr>
        in if no then slash_url_proposer_bond E pat l else (Inr (), l))"

definition vote_schema :: "bytes \<Rightarrow> bytes \<Rightarrow> u64 \<Rightarrow> u64 \<Rightarrow> ledger \<Rightarrow> ledger" where
  "vote_schema sid pk for_delta against_delta l = (case om_get (schema_proposals l) sid of
     None \<Rightarrow> l
   | Some p \<Rightarrow>
      if scp_approved p \<or> scp_rejected p then l
      else if pk \<in> set (scp_voters p) then l
      else
        let p = p\<lparr>scp_voters := pk # scp_voters p,
              scp_votes_for_stake := saturating_add (scp_votes_for_stake p) for_delta,
              scp_votes_against_stake := saturating_add (scp_votes_against_stake p) against_delta\<rparr>;
            tot = all_stake (staking l); threshold = saturating_mul tot 2;
            yes = tot > 0 \<and> saturating_mul (scp_votes_for_stake p) 3 \<ge> threshold;
            no = tot > 0 \<and> \<not> yes \<and> saturating_mul (scp_votes_against_stake p) 3 \<ge> threshold;
            p = (if yes then p\<lparr>scp_approved := True, scp_rejected := False\<rparr>
                 else if no then p\<lparr>scp_rejected := True, scp_approved := False\<rparr> else p);
            l = l\<lparr>schema_proposals := om_put sid p (schema_proposals l)\<rparr>
        in if yes then l\<lparr>schema_registry := om_put (scp_schema_id p) \<lparr>sce_schema_id = scp_schema_id p,
             sce_keys = scp_keys p, sce_created_at = scp_created_at p, sce_approved = True\<rparr> (schema_registry l)\<rparr>
           else l)"

fun apply_oracle_update :: "('z) ledger_env_scheme \<Rightarrow> oracle_update \<Rightarrow> ledger \<Rightarrow> step_result" where
  "apply_oracle_update E (QueueRequest req) l =
     (Inr (), l\<lparr>pending_oracle_requests := om_put (req_id req) req (pending_oracle_requests l)\<rparr>)"
| "apply_oracle_update E (AddCommit rid pk ch) l = (Inr (), add_commit E rid pk ch l)"
| "apply_oracle_update E (AddReveal rid pk body status) l = (Inr (), add_reveal E rid pk body status l)"
| "apply_oracle_update E (FinalizeResult r) l =
     (Inr (), l\<lparr>pending_oracle_requests := om_del (ores_id r) (pending_oracle_requests l),
        oracle_pending := om_del (ores_id r) (oracle_pending l),
        oracle_results := om_put (ores_id r) r (oracle_results l)\<rparr>)"
| "apply_oracle_update E (AddUrlProposal p) l =
     (Inr (), if om_get (url_proposals l) (url_pattern p) \<noteq> None then l
        else l\<lparr>url_proposals := om_put (url_pattern p) p (url_proposals l)\<rparr>)"
| "apply_oracle_update E (VoteUrlProposal pat pk f a) l = vote_url E pat pk f a l"
| "apply_oracle_update E (SlashUrlProposer pat) l = slash_url_proposer_bond E pat l"
| "apply_oracle_update E (AddSchemaProposal p) l =
     (Inr (), if om_get (schema_proposals l) (scp_schema_id p) \<noteq> None then l
        else l\<lparr>schema_proposals := om_put (scp_schema_id p) p (schema_proposals l)\<rparr>)"
| "apply_oracle_update E (VoteSchemaProposal sid pk f a) l = (Inr (), vote_schema sid pk f a l)"
| "apply_oracle_update E (SetVisibility cid v) l = (Inr (), l\<lparr>visibility_of := om_put cid v (visibility_of l)\<rparr>)"

section \<open>The whole diff\<close>

definition apply_diff :: "('z) ledger_env_scheme \<Rightarrow> state_diff \<Rightarrow> ledger \<Rightarrow> step_result" where
  "apply_diff E d = steps_in_order
    [always (record_tx d),
     each credit_native (native_transfers d),
     each debit_native (native_debits d),
     each credit_escrow (compute_escrow_credits d),
     each debit_escrow (compute_escrow_debits d),
     always (fold update_account (account_updates d)),
     always (fold update_nonce (nonce_updates d)),
     each (apply_staking_update E) (staking_updates d),
     always (fold update_param (param_updates d)),
     always (fold update_nft (nft_updates d)),
     each (apply_cell_update E) (cell_updates d),
     each credit_token (token_credits d),
     always (fold update_token_balance (token_balance_updates d)),
     each (pay_staking_reward E) (staking_rewards d),
     each credit_cell (cell_credits d),
     each debit_cell (cell_debits d),
     always (fold apply_storage_deltas (storage_deltas d)),
     always (collect_name_fee E d),
     spend_gas_fees d, spend_name_fees d, spend_compute_fees d, spend_treasury_fees d,
     always (fold (register_name E) (pending_name_proposals d)),
     always (fold add_authority_proposal (pending_token_authority_proposals d)),
     always (vote_authorities E (token_authority_votes d)),
     always (fold (renew_name E) (name_renewals d)),
     always (fold transfer_name (name_transfers d)),
     always (fold record_claim (diff_airdrop_claims d)),
     always (count_minted d),
     always (fold update_frozen (frozen_account_updates d)),
     each (apply_oracle_update E) (oracle_updates d)]"

definition apply_diffs_batch :: "('z) ledger_env_scheme \<Rightarrow> state_diff list \<Rightarrow> ledger \<Rightarrow> step_result" where
  "apply_diffs_batch E ds = each (apply_diff E) ds"

end
