(* ===== verification/Transactions.thy ===== *)
theory Transactions
  imports Ledger
begin

text \<open>
  From a transaction to its effects: \<^verbatim>\<open>State::compute_transaction_diff\<close> with the checks
  every transaction passes (replay, genesis, expiry, nonce, signature), the fee rules, and
  the handlers of transfers, names, claims, keys, compute escrow, wrapping, NFTs, tokens,
  ownership, visibility, URL governance and the oracle. The intents of the agent layer and of
  private balances are one constructor whose handler and fee are arguments. Serialisation (\<^verbatim>\<open>postcard\<close>), the signature scheme, hashing and the
  process-wide height, genesis hash and network flag are arguments too.
\<close>

section \<open>Transactions\<close>

record batch_transfer_entry =
  bte_recipient :: bytes
  bte_recipient_pubkey :: "bytes option"
  bte_amount :: u128

record name_transfer_entry =
  nte_name :: bytes
  nte_amount :: u128

record cell_call =
  cc_cell_id :: bytes
  cc_calldata :: bytes
  cc_value :: u128
  cc_use_result_from :: "nat option"

text \<open>The intents that deploy, call, upgrade, close and govern cells.\<close>

datatype cell_intent =
    DeployCell bytes bytes u128 "bytes list" "bytes list" "bytes list" "storage_key_spec list" "bytes list"
  | DeployToken bytes bytes bytes u8 u128 u16 "bytes option" bool
  | CallCell bytes bytes u128 u64
  | CallCellChain "cell_call list" u64
  | UpgradeCell bytes bytes "bytes list" "bytes list" "bytes list" "storage_key_spec list" "bytes list"
  | CloseCell bytes
  | ProposeCellUpgrade bytes bytes "bytes list" "bytes list" "bytes list" "storage_key_spec list" "bytes list" u64
  | ProposeCellOwnershipTransfer bytes bytes u64
  | ProposeCellMakeImmutable bytes u64
  | VoteCellProposal bytes bool
  | ExecuteCellProposal bytes

datatype 'o intent =
    Transfer bytes "bytes option" u128
  | TransferToName bytes u128
  | BatchTransfer "batch_transfer_entry list"
  | BatchTransferToName "name_transfer_entry list"
  | Claim bytes "bytes option" u128
  | RotateKey bytes
  | DepositCompute u128
  | WithdrawCompute u128
  | WrapTLKD u128
  | UnwrapTLKD u128
  | StakeIntent u128
  | UnstakeIntent u128
  | WithdrawStake
  | UnjailIntent
  | MintNFT bytes bytes bytes "bytes option" u16 "bytes option"
  | TransferNFT bytes bytes "bytes option" "u128 option"
  | BurnNFT bytes
  | ApproveNFT bytes "bytes option"
  | TransferOwnershipIntent bytes bytes
  | AcceptOwnershipIntent bytes
  | MakeImmutableIntent bytes
  | TokenTransfer bytes bytes u128
  | TokenMint bytes bytes u128
  | TokenBurn bytes u128
  | TokenFreeze bytes bytes
  | TokenThaw bytes bytes
  | ProposeTokenAuthority bytes bool bytes bool bytes u64
  | VoteTokenAuthority bytes bool
  | CallSystem bytes bytes
  | ProposeUrl bytes u128 u64
  | VoteUrl bytes bool
  | ReportMaliciousUrl bytes bytes
  | SetCellVisibility bytes u8
  | SubmitOracleCommit bytes bytes
  | SubmitOracleReveal bytes bytes u16
  | CellIntent cell_intent
  | OtherIntent 'o

record 'o transaction =
  tx_sender :: bytes
  tx_intent :: "'o intent"
  tx_signature :: bytes
  tx_nonce :: u64
  tx_timestamp :: u64
  tx_genesis_fingerprint :: bytes
  tx_expiration_height :: u64

record 'o tx_env = ledger_env +
  env_ser_tx :: "'o transaction \<Rightarrow> string + bytes"
  env_ser_intent :: "'o intent \<Rightarrow> bytes option"
  env_genesis :: bytes
  env_height :: "u64 option"
  env_testnet :: bool
  env_pubkey_ok :: "bytes \<Rightarrow> bool"
  env_verify :: "bytes \<Rightarrow> bytes \<Rightarrow> bytes \<Rightarrow> bytes \<Rightarrow> bool"
  env_other :: "ledger \<Rightarrow> 'o transaction \<Rightarrow> 'o \<Rightarrow> account_record \<Rightarrow> state_diff \<Rightarrow> string + state_diff"
  env_other_fee :: "'o \<Rightarrow> u64"

definition gas_of :: "'o tx_env \<Rightarrow> string \<Rightarrow> u128" where
  "gas_of E p = ucast (env_gp E p)"

definition cells_env_of :: "'o tx_env \<Rightarrow> cells_env" where
  "cells_env_of E = \<lparr>ce_gp = env_gp E, ce_gp128 = env_gp128 E, ce_blake3 = digest (env_blake3 E), ce_hex = env_hex E\<rparr>"

definition debit_of :: "bytes \<Rightarrow> u128 \<Rightarrow> state_diff \<Rightarrow> state_diff" where
  "debit_of i amt d = d\<lparr>native_debits := native_debits d @ [(i, amt)]\<rparr>"

definition credit_of :: "bytes \<Rightarrow> u128 \<Rightarrow> state_diff \<Rightarrow> state_diff" where
  "credit_of i amt d = d\<lparr>native_transfers := native_transfers d @ [(i, amt)]\<rparr>"

definition put_account :: "bytes \<Rightarrow> account_record \<Rightarrow> state_diff \<Rightarrow> state_diff" where
  "put_account i a d = d\<lparr>account_updates := om_put i a (account_updates d)\<rparr>"

section \<open>Transfers\<close>

text \<open>A recipient is an account with a key, or comes with the key its identifier is derived from.\<close>

definition check_recipient :: "'o tx_env \<Rightarrow> ledger \<Rightarrow> string \<Rightarrow> bytes \<Rightarrow> bytes \<Rightarrow> string + unit" where
  "check_recipient E l at_idx i pk =
    (if pk = [] then
       (case om_get (accounts l) i of
          None \<Rightarrow> Inl (''Recipient account not found'' @ at_idx @ ''; pubkey required'')
        | Some a \<Rightarrow> if pubkey_bytes a = []
            then Inl (''Recipient account missing pubkey'' @ at_idx @ ''; pubkey required'') else Inr ())
     else if account_id_from_pubkey E pk \<noteq> i
     then Inl (''Recipient pubkey does not match recipient AccountId'' @ at_idx) else Inr ())"

definition open_account :: "ledger \<Rightarrow> bytes \<Rightarrow> bytes \<Rightarrow> state_diff \<Rightarrow> state_diff" where
  "open_account l i pk d = (if om_get (accounts l) i = None
     then put_account i (blank_account\<lparr>pubkey_bytes := pk\<rparr>) d else d)"

definition compute_transfer_diff ::
    "'o tx_env \<Rightarrow> ledger \<Rightarrow> bytes \<Rightarrow> bytes \<Rightarrow> bytes \<Rightarrow> u128 \<Rightarrow> account_record \<Rightarrow> state_diff \<Rightarrow> string + state_diff" where
  "compute_transfer_diff E l sender recipient pk amt sa d =
    (if amt = 0 then Inl ''Transfer amount must be > 0''
     else case checked_add amt (gas_of E ''gas.transfer'') of
       None \<Rightarrow> Inl ''Amount overflow''
     | Some total_cost \<Rightarrow>
        if acct_balance sa < total_cost then Inl ''Insufficient balance for transfer + gas''
        else case check_recipient E l [] recipient pk of
          Inl e \<Rightarrow> Inl e
        | Inr _ \<Rightarrow> Inr ((credit_of recipient amt (open_account l recipient pk (debit_of sender total_cost d)))
            \<lparr>gas_fee := gas_of E ''gas.transfer''\<rparr>))"

primrec check_batch :: "'o tx_env \<Rightarrow> ledger \<Rightarrow> nat \<Rightarrow> batch_transfer_entry list \<Rightarrow> u128 \<Rightarrow> string + u128" where
  "check_batch E l n [] tot = Inr tot"
| "check_batch E l n (t # ts) tot =
    (if bte_amount t = 0 then Inl (''BatchTransfer amount at index '' @ nat_to_dec n @ '' must be > 0'')
     else case check_recipient E l ('' at index '' @ nat_to_dec n) (bte_recipient t)
            (case bte_recipient_pubkey t of Some pk \<Rightarrow> pk | None \<Rightarrow> []) of
       Inl e \<Rightarrow> Inl e
     | Inr _ \<Rightarrow> (case checked_add tot (bte_amount t) of
          None \<Rightarrow> Inl ''BatchTransfer amount overflow''
        | Some tot \<Rightarrow> check_batch E l (Suc n) ts tot))"

definition checked_mul :: "'a::len word \<Rightarrow> 'a word \<Rightarrow> 'a word option" where
  "checked_mul a b = (if unat a * unat b < 2 ^ LENGTH('a) then Some (a * b) else None)"

definition batch_entry :: "ledger \<Rightarrow> batch_transfer_entry \<Rightarrow> state_diff \<Rightarrow> state_diff" where
  "batch_entry l t d = credit_of (bte_recipient t) (bte_amount t)
     (open_account l (bte_recipient t) (case bte_recipient_pubkey t of Some pk \<Rightarrow> pk | None \<Rightarrow> []) d)"

definition compute_batch_transfer_diff ::
    "'o tx_env \<Rightarrow> ledger \<Rightarrow> bytes \<Rightarrow> batch_transfer_entry list \<Rightarrow> account_record \<Rightarrow> state_diff \<Rightarrow> string + state_diff" where
  "compute_batch_transfer_diff E l sender ts sa d =
    (if ts = [] then Inl ''BatchTransfer must include at least one recipient''
     else if length ts > unat (env_gp E ''limits.max_batch_transfer_recipients'')
     then Inl (''BatchTransfer too large: '' @ nat_to_dec (length ts) @ '' recipients (max: ''
       @ nat_to_dec (unat (env_gp E ''limits.max_batch_transfer_recipients'')) @ '')'')
     else case check_batch E l 0 ts 0 of
       Inl e \<Rightarrow> Inl e
     | Inr total_amount \<Rightarrow>
       (case checked_mul (gas_of E ''gas.transfer'') (of_nat (length ts)) of
          None \<Rightarrow> Inl ''BatchTransfer gas overflow''
        | Some gas_total \<Rightarrow> (case checked_add total_amount gas_total of
            None \<Rightarrow> Inl ''BatchTransfer total overflow''
          | Some total_cost \<Rightarrow>
             if acct_balance sa < total_cost then Inl ''Insufficient balance for batch transfer + gas''
             else Inr ((fold (batch_entry l) ts (debit_of sender total_cost d))\<lparr>gas_fee := gas_total\<rparr>))))"

definition resolve_name_to_account :: "ledger \<Rightarrow> bytes \<Rightarrow> u64 \<Rightarrow> string + bytes" where
  "resolve_name_to_account l name h = (case om_get (name_registry l) name of
     None \<Rightarrow> Inl ''Name not found''
   | Some r \<Rightarrow> if h \<ge> nreg_expires_at r then Inl ''Name expired'' else Inr (nreg_target r))"

primrec resolve_batch :: "ledger \<Rightarrow> name_transfer_entry list \<Rightarrow> string + batch_transfer_entry list" where
  "resolve_batch l [] = Inr []"
| "resolve_batch l (e # es) = (case resolve_name_to_account l (nte_name e) (current_height (staking l)) of
     Inl m \<Rightarrow> Inl m
   | Inr i \<Rightarrow> (case resolve_batch l es of
        Inl m \<Rightarrow> Inl m
      | Inr rs \<Rightarrow> Inr (\<lparr>bte_recipient = i, bte_recipient_pubkey = None, bte_amount = nte_amount e\<rparr> # rs)))"

section \<open>Claims, keys, compute escrow and wrapping\<close>

definition ONE_TLKD :: u128 where
  "ONE_TLKD = 1000000000"

definition MAX_TESTNET_MINT :: u128 where
  "MAX_TESTNET_MINT = 100000000 * ONE_TLKD"

definition MAX_AIRDROP_AMOUNT :: u128 where
  "MAX_AIRDROP_AMOUNT = 15000 * ONE_TLKD"

definition cooldown_message :: "u64 \<Rightarrow> string" where
  "cooldown_message rest_secs = ''Airdrop cooldown active. Try again in '' @ nat_to_dec (unat (rest_secs div 3600))
     @ ''h '' @ nat_to_dec (unat (rest_secs mod 3600 div 60)) @ ''m''"

definition compute_claim_diff ::
    "'o tx_env \<Rightarrow> ledger \<Rightarrow> bytes \<Rightarrow> bytes \<Rightarrow> bytes \<Rightarrow> u128 \<Rightarrow> u64 \<Rightarrow> state_diff \<Rightarrow> string + state_diff" where
  "compute_claim_diff E l sender recipient pk amt ts d =
    (if \<not> env_testnet E then Inl ''Airdrop is only available on testnet''
     else if foundation_mint_authority l \<noteq> Some sender then Inl ''Airdrop requires foundation mint authority''
     else case check_recipient E l [] recipient pk of
       Inl e \<Rightarrow> Inl e
     | Inr _ \<Rightarrow> (case checked_add (total_minted l) amt of
         None \<Rightarrow> Inl ''Mint overflow''
       | Some tot \<Rightarrow>
          if tot > MAX_TESTNET_MINT then Inl ''Airdrop would exceed testnet mint cap of 100M TLKD''
          else let max_amt = max (env_gp128 E ''airdrop.max_amount'') MAX_AIRDROP_AMOUNT in
            if amt > max_amt
            then Inl (''Airdrop amount exceeds maximum of '' @ nat_to_dec (unat (max_amt div ONE_TLKD))
              @ '' TLKD (requested: '' @ nat_to_dec (unat (amt div ONE_TLKD)) @ '' TLKD)'')
            else
              let since = (case om_get (airdrop_claims l) recipient of
                    Some prev \<Rightarrow> Some (saturating_sub ts prev) | None \<Rightarrow> None);
                  cooldown = env_gp E ''airdrop.cooldown_secs''
              in if (case since of Some t \<Rightarrow> t < cooldown | None \<Rightarrow> False)
                 then Inl (cooldown_message (cooldown - the since))
                 else
                   let finish = (\<lambda>a. Inr ((put_account recipient a d)\<lparr>
                         diff_airdrop_claims := diff_airdrop_claims d @ [(recipient, ts)],
                         minted_amount := amt, gas_fee := 0\<rparr>))
                   in (case om_get (accounts l) recipient of
                        Some a \<Rightarrow> (case checked_add (acct_balance a) amt of
                           None \<Rightarrow> Inl ''Balance overflow''
                         | Some b \<Rightarrow>
                            if pubkey_bytes a = [] \<and> pk = []
                            then Inl ''Recipient account missing pubkey; pubkey required''
                            else finish (a\<lparr>acct_balance := b,
                              pubkey_bytes := (if pubkey_bytes a = [] then pk else pubkey_bytes a)\<rparr>))
                      | None \<Rightarrow>
                          if pk = [] then Inl ''Recipient account not found; pubkey required''
                          else finish (blank_account\<lparr>pubkey_bytes := pk, acct_balance := amt\<rparr>))))"

definition compute_rotate_key_diff ::
    "'o tx_env \<Rightarrow> bytes \<Rightarrow> bytes \<Rightarrow> account_record \<Rightarrow> state_diff \<Rightarrow> string + state_diff" where
  "compute_rotate_key_diff E sender pk sa d =
    (if length pk \<noteq> 1952 then Inl ''Invalid new public key length''
     else if \<not> env_pubkey_ok E pk then Inl ''Invalid ML-DSA-65 public key''
     else
       let n = (case om_get (account_updates d) sender of Some prev \<Rightarrow> acct_nonce prev | None \<Rightarrow> acct_nonce sa)
       in Inr ((put_account sender (sa\<lparr>pubkey_bytes := pk, acct_nonce := n\<rparr>) d)
            \<lparr>cu_fee := gas_of E ''gas.rotate_key''\<rparr>))"

definition compute_deposit_compute_diff ::
    "bytes \<Rightarrow> u128 \<Rightarrow> account_record \<Rightarrow> state_diff \<Rightarrow> string + state_diff" where
  "compute_deposit_compute_diff sender amt sa d =
    (if amt = 0 then Inl ''Deposit amount must be > 0''
     else if acct_balance sa < amt then Inl ''Insufficient balance for compute escrow deposit''
     else Inr ((debit_of sender amt d)\<lparr>compute_escrow_credits := compute_escrow_credits d @ [(sender, amt)]\<rparr>))"

definition compute_withdraw_compute_diff ::
    "bytes \<Rightarrow> u128 \<Rightarrow> account_record \<Rightarrow> state_diff \<Rightarrow> string + state_diff" where
  "compute_withdraw_compute_diff sender amt sa d =
    (if amt = 0 then Inl ''Withdraw amount must be > 0''
     else if compute_escrow sa < amt then Inl ''Insufficient compute escrow balance''
     else Inr ((credit_of sender amt d)\<lparr>compute_escrow_debits := compute_escrow_debits d @ [(sender, amt)]\<rparr>))"

definition wtrth_id :: "'o tx_env \<Rightarrow> bytes" where
  "wtrth_id E = sys_id E ''truthlinked-wtrth-v1''"

definition compute_wrap_trth_diff ::
    "'o tx_env \<Rightarrow> bytes \<Rightarrow> u128 \<Rightarrow> account_record \<Rightarrow> state_diff \<Rightarrow> string + state_diff" where
  "compute_wrap_trth_diff E sender amt sa d =
    (if amt = 0 then Inl ''Wrap amount must be > 0''
     else if acct_balance sa < amt then Inl ''Insufficient TLKD balance to wrap''
     else Inr ((debit_of sender amt d)\<lparr>token_credits := token_credits d @ [(wtrth_id E, sender, amt)]\<rparr>))"

definition compute_unwrap_trth_diff ::
    "'o tx_env \<Rightarrow> ledger \<Rightarrow> bytes \<Rightarrow> u128 \<Rightarrow> state_diff \<Rightarrow> string + state_diff" where
  "compute_unwrap_trth_diff E l sender amt d =
    (if amt = 0 then Inl ''Unwrap amount must be > 0''
     else let b = balance_in (cells l) (wtrth_id E) sender in
       if b < amt then Inl ''Insufficient wTLKD balance''
       else Inr ((credit_of sender amt d)\<lparr>token_balance_updates :=
         token_balance_updates d @ [((wtrth_id E, sender), b - amt)]\<rparr>))"

section \<open>NFTs\<close>

definition uri_scheme_ok :: "bytes \<Rightarrow> bool" where
  "uri_scheme_ok u \<longleftrightarrow> starts_with u (str_bytes ''ipfs://'') \<or> starts_with u (str_bytes ''ar://'')
     \<or> starts_with u (str_bytes ''https://'')"

definition compute_mint_nft_diff :: "'o tx_env \<Rightarrow> ledger \<Rightarrow> bytes \<Rightarrow> bytes \<Rightarrow> bytes \<Rightarrow> bytes \<Rightarrow> bytes option
    \<Rightarrow> u16 \<Rightarrow> bytes option \<Rightarrow> u64 \<Rightarrow> state_diff \<Rightarrow> string + state_diff" where
  "compute_mint_nft_diff E l sender nid name uri coll bps rr ts d =
    (if name = [] then Inl ''NFT name cannot be empty''
     else if length name > 64 then Inl ''NFT name too long (max 64 chars)''
     else if length uri > 512 then Inl ''Metadata URI too long (max 512 chars)''
     else if \<not> uri_scheme_ok uri then Inl ''Invalid metadata URI scheme (must be ipfs://, ar://, or https://)''
     else if bps > 10000 then Inl ''Royalty exceeds 100% (max 10000 bps)''
     else if om_get (nfts l) nid \<noteq> None then Inl ''NFT already exists''
     else case om_get (accounts l) sender of
       None \<Rightarrow> Inl ''Sender not found''
     | Some a \<Rightarrow> let d = put_account sender (a\<lparr>acct_nfts := acct_nfts a @ [nid]\<rparr>) d in
         Inr (d\<lparr>nft_updates := om_put nid (Some \<lparr>nft_nft_id = nid, nft_owner = sender, nft_name = name,
             nft_metadata_uri = uri, nft_minted_at = ts, nft_collection = coll, nft_royalty_bps = bps,
             nft_royalty_recipient = rr, nft_approved = None\<rparr>) (nft_updates d),
           cu_fee := gas_of E ''gas.mint_nft''\<rparr>))"

definition pay_royalty :: "ledger \<Rightarrow> nft_record \<Rightarrow> bytes \<Rightarrow> u128 option \<Rightarrow> account_record \<Rightarrow> state_diff
    \<Rightarrow> string + state_diff" where
  "pay_royalty l n sender price sa d =
    (case (price, nft_royalty_recipient n) of
       (Some price, Some rr) \<Rightarrow>
         if nft_royalty_bps n > 0 \<and> rr \<noteq> sender then
           (case checked_mul price (ucast (nft_royalty_bps n)) of
              None \<Rightarrow> Inl ''Royalty calculation overflow''
            | Some x \<Rightarrow> let royalty = x div 10000 in
               (case checked_sub (acct_balance sa) royalty of
                  None \<Rightarrow> Inl ''Insufficient balance for royalty''
                | Some b \<Rightarrow>
                   let nc = (case om_get (account_updates d) sender of Some prev \<Rightarrow> acct_nonce prev | None \<Rightarrow> acct_nonce sa);
                       d = put_account sender (sa\<lparr>acct_balance := b, acct_nonce := nc\<rparr>) d
                   in (case om_get (accounts l) rr of
                         None \<Rightarrow> Inl ''Royalty recipient not found''
                       | Some ra \<Rightarrow> (case checked_add (acct_balance ra) royalty of
                            None \<Rightarrow> Inl ''Royalty recipient balance overflow''
                          | Some rb \<Rightarrow> Inr (put_account rr (ra\<lparr>acct_balance := rb\<rparr>) d)))))
         else Inr d
     | _ \<Rightarrow> Inr d)"

definition drop_nft :: "bytes \<Rightarrow> account_record \<Rightarrow> account_record" where
  "drop_nft nid a = a\<lparr>acct_nfts := filter (\<lambda>i. i \<noteq> nid) (acct_nfts a)\<rparr>"

definition push_nft :: "bytes \<Rightarrow> account_record \<Rightarrow> account_record" where
  "push_nft nid a = a\<lparr>acct_nfts := acct_nfts a @ [nid]\<rparr>"

definition take_from_owner :: "ledger \<Rightarrow> bytes \<Rightarrow> bytes \<Rightarrow> state_diff \<Rightarrow> string + state_diff" where
  "take_from_owner l nid own d = (case om_get (account_updates d) own of
     Some a \<Rightarrow> Inr (put_account own (drop_nft nid a) d)
   | None \<Rightarrow> (case om_get (accounts l) own of
        None \<Rightarrow> Inl ''Owner not found'' | Some a \<Rightarrow> Inr (put_account own (drop_nft nid a) d)))"

definition give_to_recipient :: "ledger \<Rightarrow> bytes \<Rightarrow> bytes \<Rightarrow> bytes \<Rightarrow> state_diff \<Rightarrow> string + state_diff" where
  "give_to_recipient l nid i pk d = (case om_get (account_updates d) i of
     Some a \<Rightarrow> Inr (put_account i (push_nft nid a) d)
   | None \<Rightarrow> (case om_get (accounts l) i of
        None \<Rightarrow> if pk = [] then Inl ''Recipient account not found; pubkey required''
          else Inr (put_account i (push_nft nid (blank_account\<lparr>pubkey_bytes := pk\<rparr>)) d)
      | Some a \<Rightarrow> if pubkey_bytes a = [] \<and> pk = [] then Inl ''Recipient account missing pubkey; pubkey required''
          else Inr (put_account i (push_nft nid
            (a\<lparr>pubkey_bytes := (if pubkey_bytes a = [] then pk else pubkey_bytes a)\<rparr>)) d)))"

definition compute_transfer_nft_diff :: "'o tx_env \<Rightarrow> ledger \<Rightarrow> bytes \<Rightarrow> bytes \<Rightarrow> bytes \<Rightarrow> bytes \<Rightarrow> u128 option
    \<Rightarrow> account_record \<Rightarrow> state_diff \<Rightarrow> string + state_diff" where
  "compute_transfer_nft_diff E l sender nid recipient pk price sa d = (case om_get (nfts l) nid of
     None \<Rightarrow> Inl ''NFT not found''
   | Some n \<Rightarrow>
      if nft_owner n \<noteq> sender \<and> nft_approved n \<noteq> Some sender then Inl ''Not owner or approved operator''
      else case pay_royalty l n sender price sa d of
        Inl e \<Rightarrow> Inl e
      | Inr d \<Rightarrow> (case take_from_owner l nid (nft_owner n) d of
          Inl e \<Rightarrow> Inl e
        | Inr d \<Rightarrow> (case give_to_recipient l nid recipient pk d of
            Inl e \<Rightarrow> Inl e
          | Inr d \<Rightarrow> Inr (d\<lparr>nft_updates := om_put nid (Some (n\<lparr>nft_owner := recipient, nft_approved := None\<rparr>))
              (nft_updates d), cu_fee := gas_of E ''gas.transfer_nft''\<rparr>))))"

definition compute_burn_nft_diff ::
    "'o tx_env \<Rightarrow> bytes \<Rightarrow> bytes \<Rightarrow> account_record \<Rightarrow> state_diff \<Rightarrow> string + state_diff" where
  "compute_burn_nft_diff E sender nid sa d =
    (if nid \<notin> set (acct_nfts sa) then Inl ''Sender does not own this NFT''
     else
       let nc = (case om_get (account_updates d) sender of Some prev \<Rightarrow> acct_nonce prev | None \<Rightarrow> acct_nonce sa);
           d = put_account sender ((drop_nft nid sa)\<lparr>acct_nonce := nc\<rparr>) d
       in Inr (d\<lparr>nft_updates := om_put nid None (nft_updates d), cu_fee := gas_of E ''gas.burn_nft''\<rparr>))"

definition compute_approve_nft_diff ::
    "'o tx_env \<Rightarrow> ledger \<Rightarrow> bytes \<Rightarrow> bytes option \<Rightarrow> account_record \<Rightarrow> state_diff \<Rightarrow> string + state_diff" where
  "compute_approve_nft_diff E l nid who sa d =
    (if nid \<notin> set (acct_nfts sa) then Inl ''Sender does not own this NFT''
     else case om_get (nfts l) nid of
       None \<Rightarrow> Inl ''NFT not found''
     | Some n \<Rightarrow> Inr (d\<lparr>nft_updates := om_put nid (Some (n\<lparr>nft_approved := who\<rparr>)) (nft_updates d),
         cu_fee := gas_of E ''gas.approve_nft''\<rparr>))"

section \<open>Tokens\<close>

definition token_updates :: "bytes \<Rightarrow> balances \<Rightarrow> state_diff \<Rightarrow> state_diff" where
  "token_updates tok m d = d\<lparr>token_balance_updates :=
     token_balance_updates d @ map (\<lambda>(a, b). ((tok, a), b)) m\<rparr>"

definition transfer_balances :: "ledger \<Rightarrow> cell_account \<Rightarrow> bytes \<Rightarrow> bytes \<Rightarrow> bytes \<Rightarrow> balances" where
  "transfer_balances l c tok sender recipient =
    (let b = balance_in (cells l) tok;
         m = om_put recipient (b recipient) (om_put sender (b sender) [])
     in case Option.bind (acc_token_config c) tc_transfer_fee_recipient of
          Some f \<Rightarrow> om_put f (b f) m | None \<Rightarrow> m)"

definition hook_gas_of :: "cell_account \<Rightarrow> u64" where
  "hook_gas_of c = (case acc_token_config c of Some cfg \<Rightarrow> tc_transfer_hook_gas cfg | None \<Rightarrow> 0)"

text \<open>The transfer reports no gas of its own, so its hook budget is never exceeded.\<close>

definition compute_token_transfer_diff ::
    "'o tx_env \<Rightarrow> ledger \<Rightarrow> bytes \<Rightarrow> bytes \<Rightarrow> bytes \<Rightarrow> u128 \<Rightarrow> state_diff \<Rightarrow> string + state_diff" where
  "compute_token_transfer_diff E l sender tok recipient amt d = (case cell_at l tok of
     None \<Rightarrow> Inl ''Token cell not found''
   | Some c \<Rightarrow>
      if \<not> acc_is_token c then Inl ''Not a token cell''
      else case texec_transfer c sender recipient amt (Some (cells l)) (transfer_balances l c tok sender recipient) of
        Inl e \<Rightarrow> Inl e
      | Inr m \<Rightarrow> Inr ((token_updates tok m d)\<lparr>cu_fee := gas_of E ''gas.token_transfer'' + ucast (hook_gas_of c)\<rparr>))"

definition compute_token_mint_diff ::
    "'o tx_env \<Rightarrow> ledger \<Rightarrow> bytes \<Rightarrow> bytes \<Rightarrow> bytes \<Rightarrow> u128 \<Rightarrow> state_diff \<Rightarrow> string + state_diff" where
  "compute_token_mint_diff E l sender tok recipient amt d = (case cell_at l tok of
     None \<Rightarrow> Inl ''Token cell not found''
   | Some c \<Rightarrow> (case texec_mint c sender recipient amt (om_put recipient (balance_in (cells l) tok recipient) []) of
        Inl e \<Rightarrow> Inl e
      | Inr (c', m) \<Rightarrow> let d = token_updates tok m d in
          Inr (d\<lparr>cell_updates := cell_updates d @ [CuDeploy tok c'], cu_fee := gas_of E ''gas.token_mint''\<rparr>)))"

definition compute_token_burn_diff ::
    "'o tx_env \<Rightarrow> ledger \<Rightarrow> bytes \<Rightarrow> bytes \<Rightarrow> u128 \<Rightarrow> state_diff \<Rightarrow> string + state_diff" where
  "compute_token_burn_diff E l sender tok amt d = (case cell_at l tok of
     None \<Rightarrow> Inl ''Token cell not found''
   | Some c \<Rightarrow> (case texec_burn c sender amt (om_put sender (balance_in (cells l) tok sender) []) of
        Inl e \<Rightarrow> Inl e
      | Inr (c', m) \<Rightarrow> let d = token_updates tok m d in
          Inr (d\<lparr>cell_updates := cell_updates d @ [CuDeploy tok c'], cu_fee := gas_of E ''gas.token_burn''\<rparr>)))"

definition compute_token_freeze_diff ::
    "'o tx_env \<Rightarrow> ledger \<Rightarrow> bytes \<Rightarrow> bytes \<Rightarrow> bytes \<Rightarrow> state_diff \<Rightarrow> string + state_diff" where
  "compute_token_freeze_diff E l sender tok account d = (case cell_at l tok of
     None \<Rightarrow> Inl ''Token cell not found''
   | Some c \<Rightarrow> (case texec_freeze c sender account of
        Inl e \<Rightarrow> Inl e
      | Inr _ \<Rightarrow> Inr (d\<lparr>frozen_account_updates := frozen_account_updates d @ [((tok, account), True)],
          cu_fee := gas_of E ''gas.token_transfer''\<rparr>)))"

definition compute_token_thaw_diff ::
    "'o tx_env \<Rightarrow> ledger \<Rightarrow> bytes \<Rightarrow> bytes \<Rightarrow> bytes \<Rightarrow> state_diff \<Rightarrow> string + state_diff" where
  "compute_token_thaw_diff E l sender tok account d = (case cell_at l tok of
     None \<Rightarrow> Inl ''Token cell not found''
   | Some c \<Rightarrow> (case texec_thaw c sender account of
        Inl e \<Rightarrow> Inl e
      | Inr _ \<Rightarrow> Inr (d\<lparr>frozen_account_updates := frozen_account_updates d @ [((tok, account), False)],
          cu_fee := gas_of E ''gas.token_transfer''\<rparr>)))"

section \<open>Ownership and visibility\<close>

definition system_authority_id :: "'o tx_env \<Rightarrow> bytes" where
  "system_authority_id E = digest (env_sha256 E) (str_bytes ''truthlinked-system-authority-v1'')"

definition compute_transfer_ownership_diff ::
    "'o tx_env \<Rightarrow> ledger \<Rightarrow> bytes \<Rightarrow> bytes \<Rightarrow> bytes \<Rightarrow> state_diff \<Rightarrow> string + state_diff" where
  "compute_transfer_ownership_diff E l sender cid new d = (case cell_at l cid of
     None \<Rightarrow> Inl ''Cell not found''
   | Some c \<Rightarrow>
      if acc_owner c = system_authority_id E then Inl ''System-owned cell: use governance proposal''
      else if acc_owner c \<noteq> sender then Inl ''Not cell owner''
      else if acc_is_immutable c then Inl ''Cell is immutable''
      else Inr (d\<lparr>cell_updates := cell_updates d @ [CuTransferOwnership cid new],
        cu_fee := gas_of E ''gas.transfer''\<rparr>))"

definition compute_make_immutable_diff ::
    "'o tx_env \<Rightarrow> ledger \<Rightarrow> bytes \<Rightarrow> bytes \<Rightarrow> state_diff \<Rightarrow> string + state_diff" where
  "compute_make_immutable_diff E l sender cid d = (case cell_at l cid of
     None \<Rightarrow> Inl ''Cell not found''
   | Some c \<Rightarrow>
      if acc_owner c = system_authority_id E then Inl ''System-owned cell: use governance proposal''
      else if acc_owner c \<noteq> sender then Inl ''Not cell owner''
      else Inr (d\<lparr>cell_updates := cell_updates d @ [CuMakeImmutable cid sender],
        cu_fee := gas_of E ''gas.transfer''\<rparr>))"

definition compute_set_cell_visibility_diff ::
    "'o tx_env \<Rightarrow> ledger \<Rightarrow> bytes \<Rightarrow> bytes \<Rightarrow> u8 \<Rightarrow> state_diff \<Rightarrow> string + state_diff" where
  "compute_set_cell_visibility_diff E l sender cid vis d = (case cell_at l cid of
     None \<Rightarrow> Inl ''Cell not found''
   | Some c \<Rightarrow>
      if acc_owner c \<noteq> sender then Inl ''Only cell owner can set visibility''
      else if vis \<noteq> 0 \<and> vis \<noteq> 1 then Inl ''visibility must be 0 (Private) or 1 (Public)''
      else if vis = 1 \<and> \<not> list_ex (\<lambda>(_, p). proposer p = sender \<and> approved p \<and> \<not> slashed p) (url_proposals l)
      then Inl ''Public visibility requires at least one approved bonded URL proposal by owner''
      else Inr (d\<lparr>oracle_updates := oracle_updates d @ [SetVisibility cid (if vis = 0 then Private else Public)],
        cu_fee := gas_of E ''gas.transfer''\<rparr>))"

end
