(* ===== verification/System_Cells.thy ===== *)
theory System_Cells
  imports Ledger Params
begin

text \<open>
  The native handlers of the system cells (\<^verbatim>\<open>truthlinked-state/src/system_cells.rs\<close>): staking
  and time locks, parameter governance, treasury spending and the name registry. A handler
  reads its calldata, the storage of its cell and the chain state, and returns an
  \<^typ>\<open>execution_result\<close> whose effects the caller applies. Storage values are arrays of 32 bytes.
\<close>

section \<open>Calldata and storage slots\<close>

unbundle bit_operations_syntax

definition PUBKEY_LEN :: nat where
  "PUBKEY_LEN = 1952"

definition sel :: "string \<Rightarrow> bytes" where
  "sel name = to_le_bytes 4 (foldl (\<lambda>h b. (h XOR ucast b) * 0x01000193) (0x811c9dc5 :: u32) (str_bytes name))"

definition read_sel :: "bytes \<Rightarrow> bytes option" where
  "read_sel cd = (if length cd < 4 then None else Some (take 4 cd))"

definition sel_or_default :: "bytes \<Rightarrow> bytes" where
  "sel_or_default cd = (case read_sel cd of Some s \<Rightarrow> s | None \<Rightarrow> zeros 4)"

definition read32 :: "bytes \<Rightarrow> nat \<Rightarrow> bytes option" where
  "read32 cd off = (if length cd < off + 32 then None else Some (take 32 (drop off cd)))"

definition read_u64 :: "bytes \<Rightarrow> nat \<Rightarrow> u64 option" where
  "read_u64 cd off = (if length cd < off + 8 then None else Some (from_le_bytes (take 8 (drop off cd))))"

definition read_u128 :: "bytes \<Rightarrow> nat \<Rightarrow> u128 option" where
  "read_u128 cd off = (if length cd < off + 16 then None else Some (from_le_bytes (take 16 (drop off cd))))"

definition storage_key :: "('z) ledger_env_scheme \<Rightarrow> bytes \<Rightarrow> bytes \<Rightarrow> bytes" where
  "storage_key E namespace k = digest (env_sha256 E) (namespace @ k)"

definition derive_slot :: "('z) ledger_env_scheme \<Rightarrow> bytes \<Rightarrow> bytes list \<Rightarrow> bytes" where
  "derive_slot E namespace parts =
     digest (env_sha256 E) (str_bytes ''trth:sdk:slot:v1'' @ [0] @ namespace @ concat (map (\<lambda>p. 255 # p) parts))"

definition staking_exists_slot :: "('z) ledger_env_scheme \<Rightarrow> bytes \<Rightarrow> bytes" where
  "staking_exists_slot E who = derive_slot E (sys_id E ''truthlinked.staking.positions'') [str_bytes ''map:exists'', who]"

definition staking_value_slot :: "('z) ledger_env_scheme \<Rightarrow> bytes \<Rightarrow> bytes" where
  "staking_value_slot E who = derive_slot E (sys_id E ''truthlinked.staking.positions'') [str_bytes ''map:value'', who]"

definition staking_holders_len_slot :: "('z) ledger_env_scheme \<Rightarrow> bytes" where
  "staking_holders_len_slot E = derive_slot E (sys_id E ''truthlinked.staking.holders'') [str_bytes ''vec:len'']"

definition staking_holders_elem_slot :: "('z) ledger_env_scheme \<Rightarrow> u64 \<Rightarrow> bytes" where
  "staking_holders_elem_slot E i =
     derive_slot E (sys_id E ''truthlinked.staking.holders'') [str_bytes ''vec:elem'', to_le_bytes 8 i]"

definition pack_staking_position :: "u128 \<Rightarrow> u64 \<Rightarrow> bytes" where
  "pack_staking_position amt lock_end = to_le_bytes 16 amt @ zeros 8 @ to_le_bytes 8 lock_end"

definition unpack_staking_position :: "bytes \<Rightarrow> u128 \<times> u64" where
  "unpack_staking_position raw = (from_le_bytes (take 16 raw), from_le_bytes (take 8 (drop 24 raw)))"

type_synonym cell_storage = "bytes \<rightharpoonup> bytes"

definition read_slot_u64 :: "cell_storage \<Rightarrow> bytes \<Rightarrow> u64" where
  "read_slot_u64 st k = (case st k of Some v \<Rightarrow> from_le_bytes (take 8 v) | None \<Rightarrow> 0)"

definition read_slot_u128 :: "cell_storage \<Rightarrow> bytes \<Rightarrow> u128" where
  "read_slot_u128 st k = (case st k of Some v \<Rightarrow> from_le_bytes (take 16 v) | None \<Rightarrow> 0)"

definition pack_u64 :: "u64 \<Rightarrow> bytes" where
  "pack_u64 v = to_le_bytes 8 v @ zeros 24"

definition pack_u128 :: "u128 \<Rightarrow> bytes" where
  "pack_u128 v = to_le_bytes 16 v @ zeros 16"

text \<open>A flag is the first byte of its slot, 0 when the slot is empty.\<close>

definition slot_flag :: "cell_storage \<Rightarrow> bytes \<Rightarrow> 8 word" where
  "slot_flag st k = (case st k of Some v \<Rightarrow> hd v | None \<Rightarrow> 0)"

definition pack_flag :: "bool \<Rightarrow> bytes" where
  "pack_flag b = (if b then 1 else 0) # zeros 31"

definition sys_ok :: "nat \<Rightarrow> execution_result" where
  "sys_ok g = default_result\<lparr>er_success := True, er_gas_used := g\<rparr>"

definition sys_err :: "string \<Rightarrow> nat \<Rightarrow> execution_result" where
  "sys_err msg g = default_result\<lparr>er_error := Some msg, er_gas_used := g\<rparr>"

text \<open>The \<^verbatim>\<open>let Some(x) = ... else\<close> of a field of the calldata.\<close>

definition need :: "nat \<Rightarrow> 'a option \<Rightarrow> ('a \<Rightarrow> execution_result) \<Rightarrow> execution_result" where
  "need g o_arg f = (case o_arg of None \<Rightarrow> sys_err ''bad calldata'' g | Some x \<Rightarrow> f x)"

section \<open>The staking cell\<close>

definition delegate_slot :: "('z) ledger_env_scheme \<Rightarrow> bytes \<Rightarrow> bytes \<Rightarrow> bytes" where
  "delegate_slot E who delegate =
     storage_key E (sys_id E ''truthlinked.staking.delegates'') (digest (env_sha256 E) (who @ delegate))"

definition staking_op :: "bytes \<Rightarrow> bytes \<Rightarrow> bytes \<Rightarrow> nat \<Rightarrow> nat \<Rightarrow> execution_result" where
  "staking_op s pk cd off g =
    (if s = sel ''stake'' then need g (read_u64 cd off) (\<lambda>amt.
       if amt = 0 then sys_err ''zero amount'' g else (sys_ok 500)\<lparr>er_staking_updates := [UpStake pk amt]\<rparr>)
     else if s = sel ''unstake'' then need g (read_u64 cd off) (\<lambda>amt.
       if amt = 0 then sys_err ''zero amount'' g else (sys_ok 500)\<lparr>er_staking_updates := [UpUnstake pk amt]\<rparr>)
     else if s = sel ''withdraw'' then (sys_ok 500)\<lparr>er_staking_updates := [UpWithdraw pk]\<rparr>
     else if s = sel ''unjail'' then (sys_ok 500)\<lparr>er_staking_updates := [UpUnjail pk]\<rparr>
     else sys_ok 500)"

definition staking_delegation :: "('z) ledger_env_scheme \<Rightarrow> bytes \<Rightarrow> bytes \<Rightarrow> bytes \<Rightarrow> nat \<Rightarrow> execution_result" where
  "staking_delegation E s cd who g = need g (read32 cd 4) (\<lambda>delegate.
     (sys_ok 100)\<lparr>er_storage_diff := [(delegate_slot E who delegate, Some (pack_flag (s = sel ''delegate_add'')))]\<rparr>)"

definition lock_position :: "('z) ledger_env_scheme \<Rightarrow> cell_storage \<Rightarrow> bytes \<Rightarrow> bool \<times> u128 \<times> u64" where
  "lock_position E st who = (slot_flag st (staking_exists_slot E who) = 1,
     (case st (staking_value_slot E who) of Some v \<Rightarrow> unpack_staking_position v | None \<Rightarrow> (0, 0)))"

definition staking_lock :: "('z) ledger_env_scheme \<Rightarrow> bytes \<Rightarrow> bytes \<Rightarrow> bytes \<Rightarrow> cell_storage \<Rightarrow> u64 \<Rightarrow> u128 \<Rightarrow> nat \<Rightarrow> execution_result" where
  "staking_lock E s cd who st ht val g = need g (read32 cd 4) (\<lambda>own.
     if who \<noteq> own then sys_err ''unauthorized'' g
     else let (present, cur_amt, cur_end) = lock_position E st own in
       if s = sel ''lock'' then need g (read_u64 cd 36) (\<lambda>lock_blocks.
         if val = 0 \<or> lock_blocks = 0 then sys_err ''zero lock'' g
         else let lock_end = max cur_end (saturating_add ht lock_blocks);
                  amt = saturating_add cur_amt val;
                  len = read_slot_u64 st (staking_holders_len_slot E)
           in (sys_ok 500)\<lparr>er_storage_diff :=
             [(staking_exists_slot E own, Some (pack_flag True)),
              (staking_value_slot E own, Some (pack_staking_position amt lock_end))]
             @ (if present then []
                else [(staking_holders_elem_slot E len, Some own),
                      (staking_holders_len_slot E, Some (pack_u64 (saturating_add len 1)))])\<rparr>)
       else if \<not> present then sys_err ''no staking lock'' g
       else if s = sel ''extend'' then need g (read_u64 cd 36) (\<lambda>lock_blocks.
         if lock_blocks = 0 then sys_err ''zero extension'' g
         else (sys_ok 500)\<lparr>er_storage_diff := [(staking_value_slot E own,
           Some (pack_staking_position cur_amt (max cur_end (saturating_add ht lock_blocks))))]\<rparr>)
       else if ht < cur_end then sys_err ''staking lock has not matured'' g
       else (sys_ok 500)\<lparr>
         er_storage_diff := [(staking_exists_slot E own, None), (staking_value_slot E own, None)],
         er_native_credits := [(own, cur_amt)],
         er_cell_debits := [(sys_id E ''truthlinked-staking-v1'', cur_amt)]\<rparr>)"

definition staking_cell :: "('z) ledger_env_scheme \<Rightarrow> bytes \<Rightarrow> bytes \<Rightarrow> cell_storage \<Rightarrow> u64 \<Rightarrow> u128 \<Rightarrow> nat \<Rightarrow> execution_result" where
  "staking_cell E cd who st ht val g =
    (let s = sel_or_default cd in
     if s = sel ''delegate_add'' \<or> s = sel ''delegate_remove'' then staking_delegation E s cd who g
     else if s = sel ''lock'' \<or> s = sel ''extend'' \<or> s = sel ''unlock'' then staking_lock E s cd who st ht val g
     else if s = sel ''stake'' \<or> s = sel ''unstake'' \<or> s = sel ''withdraw'' \<or> s = sel ''unjail'' then
       (if length cd < 4 + PUBKEY_LEN then sys_err ''bad calldata'' g
        else let pk = take PUBKEY_LEN (drop 4 cd) in
          if account_id_from_pubkey E pk \<noteq> who then sys_err ''unauthorized'' g
          else staking_op s pk cd (4 + PUBKEY_LEN) g)
     else if s = sel ''stake_for'' \<or> s = sel ''unstake_for'' \<or> s = sel ''withdraw_for'' \<or> s = sel ''unjail_for'' then
       (if length cd < 4 + 32 + PUBKEY_LEN then sys_err ''bad calldata'' g
        else let own = take 32 (drop 4 cd); pk = take PUBKEY_LEN (drop 36 cd) in
          if account_id_from_pubkey E pk \<noteq> own then sys_err ''pubkey mismatch'' g
          else if who \<noteq> own \<and> slot_flag st (delegate_slot E own who) \<noteq> 1 then sys_err ''unauthorized'' g
          else staking_op (if s = sel ''stake_for'' then sel ''stake''
              else if s = sel ''unstake_for'' then sel ''unstake''
              else if s = sel ''withdraw_for'' then sel ''withdraw'' else sel ''unjail'')
            pk cd (36 + PUBKEY_LEN) g)
     else sys_err ''unknown selector'' g)"

section \<open>The governance cell\<close>

definition gov_key :: "('z) ledger_env_scheme \<Rightarrow> string \<Rightarrow> bytes \<Rightarrow> bytes" where
  "gov_key E sub k = storage_key E (sys_id E (''truthlinked.gov.'' @ sub)) k"

definition total_stake_of :: "bytes \<Rightarrow> ledger \<Rightarrow> u64" where
  "total_stake_of pk l = (case om_get (validators (staking l)) pk of Some v \<Rightarrow> total_stake v | None \<Rightarrow> 0)"

text \<open>Two thirds of the votes, which must be at least a third of the active stake.\<close>

definition quorum_met :: "u64 \<Rightarrow> u64 \<Rightarrow> u64 \<Rightarrow> bool" where
  "quorum_met votes_for votes_against tot =
     (saturating_mul (saturating_add votes_for votes_against) 3 \<ge> saturating_mul tot 1)"

definition approval_met :: "u64 \<Rightarrow> u64 \<Rightarrow> bool" where
  "approval_met votes_for votes_against =
     (saturating_mul votes_for 3 \<ge> saturating_mul (saturating_add votes_for votes_against) 2)"

definition gov_propose :: "('z) ledger_env_scheme \<Rightarrow> bytes \<Rightarrow> bytes \<Rightarrow> cell_storage \<Rightarrow> u64 \<Rightarrow> ledger \<Rightarrow> nat \<Rightarrow> execution_result" where
  "gov_propose E cd who st ht l g = need g (read32 cd 4) (\<lambda>k.
     if \<not> is_known_param_key (env_sha256 E) k then sys_err ''unknown param key'' g
     else need g (read32 cd 36) (\<lambda>v. need g (read_u64 cd 68) (\<lambda>voting_period. need g (read_u64 cd 76) (\<lambda>timelock.
       if voting_period = 0 then sys_err ''zero voting period'' g
       else if length cd < 84 + PUBKEY_LEN then sys_err ''bad calldata'' g
       else let pk = take PUBKEY_LEN (drop 84 cd) in
         if account_id_from_pubkey E pk \<noteq> who then sys_err ''unauthorized'' g
         else if total_stake_of pk l = 0 then sys_err ''zero stake'' g
         else if slot_flag st (gov_key E ''proposal.exists'' k) = 1
             \<and> slot_flag st (gov_key E ''proposal.executed'' k) = 0 then sys_err ''proposal exists'' g
         else let nonce = saturating_add (read_slot_u64 st (gov_key E ''proposal.nonce'' k)) 1;
                  voting_ends = saturating_add ht voting_period
           in (sys_ok 500)\<lparr>er_storage_diff :=
             [(gov_key E ''proposal.exists'' k, Some (pack_flag True)),
              (gov_key E ''proposal.nonce'' k, Some (pack_u64 nonce)),
              (gov_key E ''proposal.value'' k, Some v),
              (gov_key E ''proposal.proposer'' k, Some who),
              (gov_key E ''proposal.created'' k, Some (pack_u64 ht)),
              (gov_key E ''proposal.voting_ends'' k, Some (pack_u64 voting_ends)),
              (gov_key E ''proposal.timelock'' k, Some (pack_u64 timelock)),
              (gov_key E ''proposal.votes_for'' k, Some (zeros 32)),
              (gov_key E ''proposal.votes_against'' k, Some (zeros 32)),
              (gov_key E ''proposal.executed'' k, Some (zeros 32))]\<rparr>))))"

definition gov_vote_slot :: "('z) ledger_env_scheme \<Rightarrow> bytes \<Rightarrow> u64 \<Rightarrow> bytes \<Rightarrow> bytes" where
  "gov_vote_slot E k nonce pk =
     digest (env_sha256 E) (str_bytes ''truthlinked.gov.vote.v1'' @ k @ to_le_bytes 8 nonce @ pk)"

definition gov_vote :: "('z) ledger_env_scheme \<Rightarrow> bytes \<Rightarrow> bytes \<Rightarrow> cell_storage \<Rightarrow> u64 \<Rightarrow> ledger \<Rightarrow> nat \<Rightarrow> execution_result" where
  "gov_vote E cd who st ht l g = need g (read32 cd 4) (\<lambda>k. need g (read_u64 cd 36) (\<lambda>approve.
     if length cd < 44 + PUBKEY_LEN then sys_err ''bad calldata'' g
     else let pk = take PUBKEY_LEN (drop 44 cd) in
       if account_id_from_pubkey E pk \<noteq> who then sys_err ''unauthorized'' g
       else if total_stake_of pk l = 0 then sys_err ''zero stake'' g
       else if slot_flag st (gov_key E ''proposal.exists'' k) \<noteq> 1 then sys_err ''no proposal'' g
       else if slot_flag st (gov_key E ''proposal.executed'' k) = 1 then sys_err ''voting closed'' g
       else if ht > read_slot_u64 st (gov_key E ''proposal.voting_ends'' k) then sys_err ''voting closed'' g
       else let vkey = gov_vote_slot E k (read_slot_u64 st (gov_key E ''proposal.nonce'' k)) pk in
         if slot_flag st vkey = 1 then sys_err ''already voted'' g
         else let side = gov_key E (if approve \<noteq> 0 then ''proposal.votes_for'' else ''proposal.votes_against'') k
           in (sys_ok 200)\<lparr>er_storage_diff := [(vkey, Some (pack_flag True)),
                (side, Some (pack_u64 (saturating_add (read_slot_u64 st side) (total_stake_of pk l))))]\<rparr>))"

definition gov_execute :: "('z) ledger_env_scheme \<Rightarrow> bytes \<Rightarrow> cell_storage \<Rightarrow> u64 \<Rightarrow> ledger \<Rightarrow> nat \<Rightarrow> execution_result" where
  "gov_execute E cd st ht l g = need g (read32 cd 4) (\<lambda>k.
     if \<not> is_known_param_key (env_sha256 E) k then sys_err ''unknown param key'' g
     else if slot_flag st (gov_key E ''proposal.exists'' k) \<noteq> 1 then sys_err ''no proposal'' g
     else if slot_flag st (gov_key E ''proposal.executed'' k) = 1 then sys_err ''already executed'' g
     else if ht \<le> read_slot_u64 st (gov_key E ''proposal.voting_ends'' k) then sys_err ''voting open'' g
     else if ht < saturating_add (read_slot_u64 st (gov_key E ''proposal.created'' k))
         (read_slot_u64 st (gov_key E ''proposal.timelock'' k)) then sys_err ''timelock'' g
     else if active_total (staking l) = 0 then sys_err ''zero stake'' g
     else let votes_for = read_slot_u64 st (gov_key E ''proposal.votes_for'' k);
              votes_against = read_slot_u64 st (gov_key E ''proposal.votes_against'' k) in
       if \<not> quorum_met votes_for votes_against (active_total (staking l)) then sys_err ''quorum not met'' g
       else if \<not> approval_met votes_for votes_against then sys_err ''approval not met'' g
       else if votes_for \<le> votes_against then sys_err ''approval not met'' g
       else let v = (case st (gov_key E ''proposal.value'' k) of Some v \<Rightarrow> v | None \<Rightarrow> zeros 32)
         in (sys_ok 1000)\<lparr>er_storage_diff := [(gov_key E ''proposal.executed'' k, Some (pack_flag True)),
              (gov_key E ''params'' k, Some v)],
            er_param_updates := [(k, v)]\<rparr>)"

definition governance_cell :: "('z) ledger_env_scheme \<Rightarrow> bytes \<Rightarrow> bytes \<Rightarrow> cell_storage \<Rightarrow> u64 \<Rightarrow> ledger \<Rightarrow> nat \<Rightarrow> execution_result" where
  "governance_cell E cd who st ht l g =
    (let s = sel_or_default cd in
     if s = sel ''get_param'' then need g (read32 cd 4) (\<lambda>k.
       (sys_ok 50)\<lparr>er_return_data := (case params l k of Some v \<Rightarrow> v | None \<Rightarrow> zeros 32)\<rparr>)
     else if s = sel ''propose_param'' then gov_propose E cd who st ht l g
     else if s = sel ''vote_param'' then gov_vote E cd who st ht l g
     else if s = sel ''execute_param'' then gov_execute E cd st ht l g
     else sys_err ''unknown selector'' g)"

section \<open>The treasury cell\<close>

definition treas_key :: "('z) ledger_env_scheme \<Rightarrow> string \<Rightarrow> bytes \<Rightarrow> bytes" where
  "treas_key E sub k = storage_key E (sys_id E (''truthlinked.treasury.'' @ sub)) k"

definition VOTING_PERIOD :: u64 where
  "VOTING_PERIOD = 432000"

definition treasury_propose :: "('z) ledger_env_scheme \<Rightarrow> bytes \<Rightarrow> cell_storage \<Rightarrow> u64 \<Rightarrow> nat \<Rightarrow> execution_result" where
  "treasury_propose E cd st ht g =
    (if length cd < 92 then sys_err ''bad calldata'' g
     else need g (read32 cd 4) (\<lambda>pid. need g (read32 cd 36) (\<lambda>recipient.
       need g (read_u128 cd 68) (\<lambda>amt. need g (read_u64 cd 84) (\<lambda>timelock.
       if amt = 0 then sys_err ''zero amount'' g
       else if slot_flag st (treas_key E ''proposal.exists'' pid) = 1 then sys_err ''proposal exists'' g
       else (sys_ok 500)\<lparr>er_storage_diff :=
         [(treas_key E ''proposal.exists'' pid, Some (pack_flag True)),
          (treas_key E ''proposal.recipient'' pid, Some recipient),
          (treas_key E ''proposal.amount'' pid, Some (pack_u128 amt)),
          (treas_key E ''proposal.created'' pid, Some (pack_u64 ht)),
          (treas_key E ''proposal.timelock'' pid, Some (pack_u64 timelock)),
          (treas_key E ''proposal.votes_for'' pid, Some (zeros 32)),
          (treas_key E ''proposal.votes_against'' pid, Some (zeros 32)),
          (treas_key E ''proposal.executed'' pid, Some (zeros 32))]\<rparr>)))))"

text \<open>The active stake of the validator whose account calls (the first one of the map).\<close>

definition caller_stake :: "('z) ledger_env_scheme \<Rightarrow> bytes \<Rightarrow> ledger \<Rightarrow> u64" where
  "caller_stake E who l = (case find (\<lambda>(pk, v). is_active (current_height (staking l)) v
       \<and> account_id_from_pubkey E pk = who) (validators (staking l)) of
     Some (_, v) \<Rightarrow> active_stake v | None \<Rightarrow> 0)"

definition treasury_vote :: "('z) ledger_env_scheme \<Rightarrow> bytes \<Rightarrow> bytes \<Rightarrow> cell_storage \<Rightarrow> u64 \<Rightarrow> ledger \<Rightarrow> nat \<Rightarrow> execution_result" where
  "treasury_vote E cd who st ht l g =
    (if length cd < 37 then sys_err ''bad calldata'' g
     else need g (read32 cd 4) (\<lambda>pid.
       if slot_flag st (treas_key E ''proposal.exists'' pid) \<noteq> 1 then sys_err ''no proposal'' g
       else if ht > saturating_add (read_slot_u64 st (treas_key E ''proposal.created'' pid)) VOTING_PERIOD
       then sys_err ''voting closed'' g
       else let vkey = digest (env_sha256 E) (pid @ who) in
         if slot_flag st vkey = 1 then sys_err ''already voted'' g
         else if caller_stake E who l = 0 then sys_err ''zero stake'' g
         else let side = treas_key E (if cd ! 36 \<noteq> 0 then ''proposal.votes_for'' else ''proposal.votes_against'') pid
           in (sys_ok 200)\<lparr>er_storage_diff := [(vkey, Some (pack_flag True)),
                (side, Some (pack_u64 (saturating_add (read_slot_u64 st side) (caller_stake E who l))))]\<rparr>))"

definition treasury_execute :: "('z) ledger_env_scheme \<Rightarrow> bytes \<Rightarrow> cell_storage \<Rightarrow> u64 \<Rightarrow> ledger \<Rightarrow> nat \<Rightarrow> execution_result" where
  "treasury_execute E cd st ht l g =
    (if length cd < 36 then sys_err ''bad calldata'' g
     else need g (read32 cd 4) (\<lambda>pid.
       if slot_flag st (treas_key E ''proposal.exists'' pid) \<noteq> 1 then sys_err ''no proposal'' g
       else if slot_flag st (treas_key E ''proposal.executed'' pid) = 1 then sys_err ''already executed'' g
       else let created = read_slot_u64 st (treas_key E ''proposal.created'' pid) in
         if ht \<le> saturating_add created VOTING_PERIOD then sys_err ''voting open'' g
         else if ht < saturating_add created (read_slot_u64 st (treas_key E ''proposal.timelock'' pid))
         then sys_err ''timelock'' g
         else if active_total (staking l) = 0 then sys_err ''zero stake'' g
         else let votes_for = read_slot_u64 st (treas_key E ''proposal.votes_for'' pid);
                  votes_against = read_slot_u64 st (treas_key E ''proposal.votes_against'' pid) in
           if \<not> quorum_met votes_for votes_against (active_total (staking l)) then sys_err ''quorum not met'' g
           else if \<not> approval_met votes_for votes_against then sys_err ''approval not met'' g
           else let recipient = (case st (treas_key E ''proposal.recipient'' pid) of Some r \<Rightarrow> r | None \<Rightarrow> zeros 32);
                    amt = read_slot_u128 st (treas_key E ''proposal.amount'' pid) in
             if amt = 0 then sys_err ''zero amount'' g
             else (sys_ok 1000)\<lparr>er_storage_diff := [(treas_key E ''proposal.executed'' pid, Some (pack_flag True))],
               er_native_credits := [(recipient, amt)], er_cell_debits := [(treasury_id E, amt)]\<rparr>))"

definition treasury_cell :: "('z) ledger_env_scheme \<Rightarrow> bytes \<Rightarrow> bytes \<Rightarrow> cell_storage \<Rightarrow> u64 \<Rightarrow> ledger \<Rightarrow> nat \<Rightarrow> execution_result" where
  "treasury_cell E cd who st ht l g =
    (let s = sel_or_default cd in
     if s = sel ''propose_spend'' then treasury_propose E cd st ht g
     else if s = sel ''vote_spend'' then treasury_vote E cd who st ht l g
     else if s = sel ''execute_spend'' then treasury_execute E cd st ht l g
     else sys_err ''unknown selector'' g)"

section \<open>The name registry cell\<close>

definition read_name :: "bytes \<Rightarrow> nat \<Rightarrow> (bytes \<times> nat) option" where
  "read_name cd off =
    (if off \<ge> length cd then None
     else let end_off = off + 1 + unat (cd ! off) in
       if length cd < end_off then None
       else let name = take (unat (cd ! off)) (drop (off + 1) cd) in
         if utf8_valid name then Some (name, end_off) else None)"

definition propose_name :: "bytes \<Rightarrow> bytes \<Rightarrow> ledger \<Rightarrow> u64 \<Rightarrow> nat \<Rightarrow> execution_result" where
  "propose_name cd who l ht g = need g (read_name cd 4) (\<lambda>(name, off).
     need g (read32 cd off) (\<lambda>target. need g (read32 cd (off + 32)) (\<lambda>own.
       if om_get (name_registry l) name \<noteq> None \<or> om_get (pending_names l) name \<noteq> None
       then sys_err ''name already registered or pending'' g
       else (sys_ok 300)\<lparr>er_name_proposals := [(name, \<lparr>reg_name = name, reg_cell_id = target, reg_owner = own,
         reg_is_cell = False, reg_proposer = who, reg_votes = [], reg_total_stake_voted = 0, reg_proposed_at = ht\<rparr>,
         who, False)]\<rparr>)))"

definition vote_name :: "('z) ledger_env_scheme \<Rightarrow> bytes \<Rightarrow> bytes \<Rightarrow> ledger \<Rightarrow> nat \<Rightarrow> execution_result" where
  "vote_name E cd who l g = need g (read_name cd 4) (\<lambda>(name, off).
     if length cd \<le> off then sys_err ''bad calldata'' g
     else (sys_ok 100)\<lparr>er_name_votes := [(name, who, if cd ! off \<noteq> 0 then caller_stake E who l else 0)]\<rparr>)"

definition renew_name_call :: "bytes \<Rightarrow> u64 \<Rightarrow> nat \<Rightarrow> execution_result" where
  "renew_name_call cd ht g = need g (read_name cd 4) (\<lambda>(name, _).
     (sys_ok 100)\<lparr>er_name_renewals := [(name, ht)]\<rparr>)"

definition transfer_name_call :: "bytes \<Rightarrow> bytes \<Rightarrow> ledger \<Rightarrow> nat \<Rightarrow> execution_result" where
  "transfer_name_call cd who l g = need g (read_name cd 4) (\<lambda>(name, off). need g (read32 cd off) (\<lambda>new.
     case om_get (name_registry l) name of
       None \<Rightarrow> sys_err ''name not found'' g
     | Some r \<Rightarrow> if nreg_owner r \<noteq> who then sys_err ''unauthorized'' g
         else (sys_ok 100)\<lparr>er_name_transfers := [(name, new)]\<rparr>))"

definition name_registry_cell :: "('z) ledger_env_scheme \<Rightarrow> bytes \<Rightarrow> bytes \<Rightarrow> u64 \<Rightarrow> ledger \<Rightarrow> nat \<Rightarrow> execution_result" where
  "name_registry_cell E cd who ht l g =
    (let s = sel_or_default cd in
     if s = sel ''propose_name'' then propose_name cd who l ht g
     else if s = sel ''vote_name'' then vote_name E cd who l g
     else if s = sel ''renew_name'' then renew_name_call cd ht g
     else if s = sel ''transfer_name'' then transfer_name_call cd who l g
     else sys_err ''unknown selector'' g)"

section \<open>Dispatch\<close>

definition dispatch :: "('z) ledger_env_scheme \<Rightarrow> bytes \<Rightarrow> bytes \<Rightarrow> bytes \<Rightarrow> cell_storage \<Rightarrow> u64 \<Rightarrow> u128 \<Rightarrow> nat \<Rightarrow> ledger \<Rightarrow> execution_result" where
  "dispatch E cid cd who st ht val g l =
    (if cid = sys_id E ''truthlinked-staking-v1'' then staking_cell E cd who st ht val g
     else if cid = sys_id E ''truthlinked-governance-v1'' then governance_cell E cd who st ht l g
     else if cid = treasury_id E then treasury_cell E cd who st ht l g
     else if cid = sys_id E ''truthlinked-name-registry-v1'' then name_registry_cell E cd who ht l g
     else sys_err ''Unknown system cell'' g)"

section \<open>Selectors\<close>

lemma le_digits_numeral [simp]:
  "le_digits (numeral n) v = word_of_nat (v mod 256) # le_digits (pred_numeral n) (v div 256)"
  by (simp only: numeral_eq_Suc [of n] le_digits.simps)

lemma sel_values [simp]:
  "sel ''delegate_add'' = [74, 116, 127, 247]"
  "sel ''delegate_remove'' = [179, 16, 50, 195]"
  "sel ''lock'' = [66, 120, 13, 239]"
  "sel ''extend'' = [73, 121, 125, 170]"
  "sel ''unlock'' = [85, 31, 102, 86]"
  "sel ''stake'' = [233, 107, 60, 120]"
  "sel ''unstake'' = [232, 58, 230, 28]"
  "sel ''withdraw'' = [151, 245, 174, 105]"
  "sel ''unjail'' = [150, 45, 150, 179]"
  "sel ''stake_for'' = [17, 123, 25, 205]"
  "sel ''unstake_for'' = [160, 183, 205, 16]"
  "sel ''withdraw_for'' = [103, 32, 238, 30]"
  "sel ''unjail_for'' = [206, 40, 40, 79]"
  "sel ''get_param'' = [9, 28, 19, 78]"
  "sel ''propose_param'' = [31, 112, 192, 201]"
  "sel ''vote_param'' = [255, 230, 157, 141]"
  "sel ''execute_param'' = [178, 125, 21, 142]"
  "sel ''propose_spend'' = [10, 165, 204, 120]"
  "sel ''vote_spend'' = [234, 85, 30, 247]"
  "sel ''execute_spend'' = [51, 217, 124, 189]"
  "sel ''propose_name'' = [125, 45, 123, 37]"
  "sel ''vote_name'' = [221, 15, 32, 99]"
  "sel ''renew_name'' = [232, 60, 58, 122]"
  "sel ''transfer_name'' = [0, 24, 219, 132]"
  by (simp_all add: sel_def str_bytes_def to_le_bytes_def)

end
