(* ===== verification/Cell_Intents.thy ===== *)
theory Cell_Intents
  imports Transactions System_Cells
begin

text \<open>
  The handlers of the intents that deploy, call, upgrade, close and govern cells
  (\<^verbatim>\<open>pq_execution.rs\<close>), with the call chains of \<^verbatim>\<open>ComposabilityEngine\<close>
  (\<^verbatim>\<open>truthlinked-state/src/cells.rs\<close>). The code compares the cell tables before and after a call
  key by key; here the storage keys compared are those the calls wrote, since all others are
  the same. \<^const>\<open>None\<close> of \<^const>\<open>execute_axiom\<close>, a panic, does not occur for well-formed cells
  and is an error here.
\<close>

section \<open>Common parts\<close>

definition chain_state_of :: "ledger \<Rightarrow> chain_state" where
  "chain_state_of l = \<lparr>cs_staking = staking l, cs_visibility = om_get (visibility_of l),
     cs_url_proposals = map snd (url_proposals l), cs_pending_requests = map snd (pending_oracle_requests l),
     cs_oracle_results = om_get (oracle_results l)\<rparr>"

text \<open>The balance of the sender is reduced in its whole-record update, at the nonce recorded so far.\<close>

definition lower_balance :: "bytes \<Rightarrow> account_record \<Rightarrow> u128 \<Rightarrow> state_diff \<Rightarrow> state_diff" where
  "lower_balance sender sa b d = put_account sender (sa\<lparr>acct_balance := b,
     acct_nonce := (case om_get (account_updates d) sender of Some prev \<Rightarrow> acct_nonce prev | None \<Rightarrow> acct_nonce sa)\<rparr>) d"

definition pay_value :: "bytes \<Rightarrow> account_record \<Rightarrow> u128 \<Rightarrow> state_diff \<Rightarrow> string + state_diff" where
  "pay_value sender sa val d =
    (if val > 0 then (case checked_sub (acct_balance sa) val of
       None \<Rightarrow> Inl ''Sender balance underflow'' | Some b \<Rightarrow> Inr (lower_balance sender sa b d))
     else Inr d)"

definition take_effects :: "execution_result \<Rightarrow> state_diff \<Rightarrow> state_diff" where
  "take_effects r d = d\<lparr>param_updates := param_updates d @ er_param_updates r,
     native_transfers := native_transfers d @ er_native_credits r,
     cell_debits := cell_debits d @ er_cell_debits r,
     staking_updates := staking_updates d @ er_staking_updates r,
     pending_name_proposals := pending_name_proposals d @ er_name_proposals r,
     name_votes := name_votes d @ er_name_votes r, name_renewals := name_renewals d @ er_name_renewals r,
     name_transfers := name_transfers d @ er_name_transfers r\<rparr>"

definition take_oracle :: "execution_result \<Rightarrow> state_diff \<Rightarrow> state_diff" where
  "take_oracle r d = d\<lparr>oracle_updates := oracle_updates d @ map QueueRequest (er_oracle_updates r)\<rparr>"

section \<open>Deployment\<close>

definition deployed_cell :: "'o tx_env \<Rightarrow> bytes \<Rightarrow> bytes \<Rightarrow> bytes \<Rightarrow> u128 \<Rightarrow> u64
    \<Rightarrow> bytes list \<Rightarrow> bytes list \<Rightarrow> bytes list \<Rightarrow> storage_key_spec list \<Rightarrow> bytes list \<Rightarrow> cell_account" where
  "deployed_cell E cid own raw ibal ts reads writes comm specs schemas =
     (fresh_cell (cells_env_of E) cid own ibal ts)\<lparr>acc_bytecode := raw,
       acc_declared_reads := reads, acc_declared_writes := writes, acc_commutative_keys := comm,
       acc_storage_key_specs := specs, acc_oracle_schema_ids := schemas,
       acc_manifest_hash := compute_manifest_hash (digest (env_blake3 E)) raw reads writes comm schemas\<rparr>"

definition compute_deploy_cell_diff :: "'o tx_env \<Rightarrow> ledger \<Rightarrow> bytes \<Rightarrow> bytes \<Rightarrow> bytes \<Rightarrow> u128 \<Rightarrow> u64
    \<Rightarrow> bytes list \<Rightarrow> bytes list \<Rightarrow> bytes list \<Rightarrow> storage_key_spec list \<Rightarrow> bytes list \<Rightarrow> account_record \<Rightarrow> state_diff
    \<Rightarrow> string + state_diff" where
  "compute_deploy_cell_diff E l sender cid raw ibal ts reads writes comm specs schemas sa d =
    (if cell_at l cid \<noteq> None then Inl ''Cell already exists''
     else case bytecode_ok (cells_env_of E) raw of
       Inl e \<Rightarrow> Inl e
     | Inr _ \<Rightarrow>
        if length raw < 4 \<or> take 4 raw \<noteq> str_bytes ''AXIO''
        then Inl ''Invalid bytecode: must be Axiom bytecode (magic: AXIO)''
        else let required = saturating_add ibal (env_gp128 E ''storage.rent_lifetime_fee'') in
          if acct_balance sa < required then Inl ''Insufficient balance''
          else (case verify_manifest_against_bytecode (env_hex E) raw reads writes specs of
            Inl e \<Rightarrow> Inl e
          | Inr _ \<Rightarrow>
             let d = d\<lparr>cell_updates := cell_updates d
                   @ [CuDeploy cid (deployed_cell E cid sender raw ibal ts reads writes comm specs schemas)]\<rparr>
             in Inr ((lower_balance sender sa (saturating_sub (acct_balance sa) required) d)
                  \<lparr>cu_fee := gas_of E ''gas.deploy_cell''\<rparr>)))"

definition compute_deploy_token_diff :: "'o tx_env \<Rightarrow> ledger \<Rightarrow> bytes \<Rightarrow> bytes \<Rightarrow> bytes \<Rightarrow> bytes \<Rightarrow> u8 \<Rightarrow> u128
    \<Rightarrow> u16 \<Rightarrow> bytes option \<Rightarrow> bool \<Rightarrow> u64 \<Rightarrow> account_record \<Rightarrow> state_diff \<Rightarrow> string + state_diff" where
  "compute_deploy_token_diff E l sender cid name symbol dec tot fee_bps fee_to fixed ts sa d =
    (if cell_at l cid \<noteq> None then Inl ''Cell already exists''
     else let rent = env_gp128 E ''storage.rent_lifetime_fee'' in
       if acct_balance sa < rent then Inl ''Insufficient balance''
       else
         let cfg = \<lparr>tc_name = name, tc_symbol = symbol, tc_decimals = dec, tc_total_supply = tot,
               tc_mint_authority = Some sender, tc_freeze_authority = Some sender, tc_transfer_fee_bps = fee_bps,
               tc_transfer_fee_recipient = fee_to, tc_transfer_hook = None, tc_transfer_hook_gas = 0,
               tc_max_supply = None, tc_non_transferable = fixed, tc_metadata_uri = None, tc_permanent_delegate = None\<rparr>;
             c = (fresh_cell (cells_env_of E) cid (system_authority_id E) 0 ts)\<lparr>acc_is_token := True,
               acc_token_config := Some cfg\<rparr>;
             d = d\<lparr>cell_updates := cell_updates d @ [CuDeploy cid c],
               token_credits := token_credits d @ (if tot > 0 then [(cid, sender, tot)] else [])\<rparr>
         in Inr ((lower_balance sender sa (saturating_sub (acct_balance sa) rent) d)
              \<lparr>cu_fee := gas_of E ''gas.deploy_token''\<rparr>))"

section \<open>Calls\<close>

definition mcp_key :: "bytes \<Rightarrow> bytes" where
  "mcp_key pre = pad_to 32 (take 32 pre)"

definition tool_entry :: "u64 \<Rightarrow> bytes" where
  "tool_entry i = overwrite (mcp_key (str_bytes ''mcp:tool:'')) 16 (to_le_bytes 8 i)"

definition mcp_registry :: "'o tx_env \<Rightarrow> bytes" where
  "mcp_registry E = digest (env_blake3 E) (str_bytes ''truthlinked:mcp:registry:v1'')"

definition is_mcp_tool_cell :: "'o tx_env \<Rightarrow> ledger \<Rightarrow> bytes \<Rightarrow> bool" where
  "is_mcp_tool_cell E l cid = (case cell_at l (mcp_registry E) of
     None \<Rightarrow> False
   | Some reg \<Rightarrow> list_ex (\<lambda>i. acc_storage reg (tool_entry (of_nat i)) = Some cid)
       [0..<unat (read_slot_u64 (acc_storage reg) (mcp_key (str_bytes ''mcp:tool_count'')))])"

text \<open>What changed between two cell tables, for the storage keys that were written.\<close>

definition storage_changes :: "bytes list \<Rightarrow> cell_storage \<Rightarrow> cell_storage \<Rightarrow> (bytes \<times> bytes option) list" where
  "storage_changes touched before after =
     map (\<lambda>k. (k, after k)) (filter (\<lambda>k. before k \<noteq> after k) (remdups touched))"

definition cell_changes :: "bytes list \<Rightarrow> cell_state \<Rightarrow> cell_state \<Rightarrow> cell_update list" where
  "cell_changes touched before after = concat (map (\<lambda>(cid, a). case om_get (cst_cells before) cid of
      None \<Rightarrow> []
    | Some b \<Rightarrow>
       (let sd = storage_changes touched (acc_storage b) (acc_storage a) in
          if sd = [] then [] else [CuStorageChange cid sd])
       @ (if acc_balance b \<noteq> acc_balance a then [CuBalanceChange cid (acc_balance a)] else [])
       @ (if acc_is_token b \<and> acc_token_config b \<noteq> acc_token_config a then [CuDeploy cid a] else []))
    (cst_cells after))"

definition token_changes :: "cell_state \<Rightarrow> cell_state \<Rightarrow> ((bytes \<times> bytes) \<times> u128) list" where
  "token_changes before after =
     filter (\<lambda>(k, b). b \<noteq> balance_in before (fst k) (snd k)) (cst_token_balances after)
     @ map (\<lambda>e. (fst e, 0)) (filter (\<lambda>e. om_get (cst_token_balances after) (fst e) = None) (cst_token_balances before))"

definition frozen_changes :: "cell_state \<Rightarrow> cell_state \<Rightarrow> ((bytes \<times> bytes) \<times> bool) list" where
  "frozen_changes before after = filter (\<lambda>(k, f).
     f \<noteq> (case om_get (cst_frozen_accounts before) k of Some b \<Rightarrow> b | None \<Rightarrow> False)) (cst_frozen_accounts after)"

definition take_changes :: "bytes list \<Rightarrow> cell_state \<Rightarrow> cell_state \<Rightarrow> state_diff \<Rightarrow> state_diff" where
  "take_changes touched before after d = d\<lparr>cell_updates := cell_updates d @ cell_changes touched before after,
     token_balance_updates := token_balance_updates d @ token_changes before after,
     frozen_account_updates := frozen_account_updates d @ frozen_changes before after\<rparr>"

text \<open>The effects of one execution on its cell.\<close>

definition settle_cell :: "execution_result \<Rightarrow> u128 \<Rightarrow> cell_account \<Rightarrow> string + cell_account" where
  "settle_cell r val c =
    (let c = c\<lparr>acc_storage := apply_storage_diff (er_storage_diff r) (acc_storage c)\<rparr> in
     if val > 0 then (case checked_add (acc_balance c) val of
       None \<Rightarrow> Inl ''Cell balance overflow'' | Some b \<Rightarrow> Inr (c\<lparr>acc_balance := b\<rparr>))
     else Inr c)"

definition run_cell :: "'o tx_env \<Rightarrow> ledger \<Rightarrow> cell_state \<Rightarrow> cell_account \<Rightarrow> bytes \<Rightarrow> u64 \<Rightarrow> u64 \<Rightarrow> bytes \<Rightarrow> u128 \<Rightarrow> nat
    \<Rightarrow> execution_result option" where
  "run_cell E l cs c sender ht ts cd val g = execute_axiom (axiom_env.truncate E)
     \<lparr>ca_bytecode = acc_bytecode c, ca_storage = acc_storage c, ca_cell_id = acc_cell_id c, ca_owner = acc_owner c,
      ca_caller = sender, ca_height = ht, ca_timestamp = ts, ca_calldata = cd, ca_value = val, ca_gas_limit = g,
      ca_depth = 1, ca_global_state = Some (chain_state_of l),
      ca_cell_state = Some \<lparr>lk_poisoned = False, lk_state = cs\<rparr>\<rparr>"

definition error_or :: "string \<Rightarrow> execution_result \<Rightarrow> string" where
  "error_or msg r = (case er_error r of Some e \<Rightarrow> e | None \<Rightarrow> msg)"

definition call_system_cell :: "'o tx_env \<Rightarrow> ledger \<Rightarrow> bytes \<Rightarrow> bytes \<Rightarrow> cell_account \<Rightarrow> bytes \<Rightarrow> u128 \<Rightarrow> u64 \<Rightarrow> u64
    \<Rightarrow> account_record \<Rightarrow> state_diff \<Rightarrow> string + state_diff" where
  "call_system_cell E l sender cid c cd val g ht sa d =
    (let r = dispatch E cid cd sender (acc_storage c) ht val (unat g) l in
     if \<not> er_success r then Inl (error_or ''System cell failed'' r)
     else
       let d = take_effects r d;
           d = (if er_storage_diff r = [] then d
                else d\<lparr>cell_updates := cell_updates d @ [CuStorageChange cid (er_storage_diff r)]\<rparr>)
       in (case pay_value sender sa val d of
             Inl e \<Rightarrow> Inl e
           | Inr d \<Rightarrow> Inr (d\<lparr>cell_credits := cell_credits d @ (if val > 0 then [(cid, val)] else [])\<rparr>)))"

definition compute_call_cell_diff :: "'o tx_env \<Rightarrow> ledger \<Rightarrow> bytes \<Rightarrow> bytes \<Rightarrow> bytes \<Rightarrow> u128 \<Rightarrow> u64 \<Rightarrow> u64 \<Rightarrow> u64
    \<Rightarrow> account_record \<Rightarrow> state_diff \<Rightarrow> string + state_diff" where
  "compute_call_cell_diff E l sender cid cd val g ts ht sa d =
    (if g > env_gp E ''limits.max_gas_per_tx''
     then Inl (''Gas limit '' @ nat_to_dec (unat g) @ '' exceeds maximum '' @ nat_to_dec (unat (env_gp E ''limits.max_gas_per_tx'')))
     else if length cd > unat (env_gp E ''limits.max_calldata_size'')
     then Inl (''Calldata too large: '' @ nat_to_dec (length cd) @ '' bytes (max: ''
       @ nat_to_dec (unat (env_gp E ''limits.max_calldata_size'')) @ '')'')
     else case cell_at l cid of
       None \<Rightarrow> Inl ''Cell not found''
     | Some c \<Rightarrow>
        if is_mcp_tool_cell E l cid then Inl ''Direct calls to MCP tools are not permitted''
        else if acct_balance sa < val then Inl ''Insufficient balance''
        else if is_system_cell (axiom_env.truncate E) cid then call_system_cell E l sender cid c cd val g ht sa d
        else (case run_cell E l (cells l) c sender ht ts cd val (unat g) of
          None \<Rightarrow> Inl ''panic''
        | Some r \<Rightarrow>
           if \<not> er_success r then Inl (error_or ''Cell execution failed'' r)
           else (case settle_cell r val c of
             Inl e \<Rightarrow> Inl e
           | Inr c' \<Rightarrow>
              let d = take_changes (map fst (er_storage_diff r)) (cells l) (set_cell cid c' (cells l))
                    (take_oracle r (take_effects r d))
              in (case pay_value sender sa val d of
                    Inl e \<Rightarrow> Inl e | Inr d \<Rightarrow> Inr (d\<lparr>cu_fee := ucast g\<rparr>)))))"

section \<open>Call chains\<close>

record chain_run =
  ch_results :: "execution_result list"
  ch_gas :: nat
  ch_cells :: cell_state

definition chain_call :: "'o tx_env \<Rightarrow> ledger \<Rightarrow> bytes \<Rightarrow> u64 \<Rightarrow> cell_call \<Rightarrow> chain_run \<Rightarrow> string + chain_run" where
  "chain_call E l sender ht call cr =
    (if ch_gas cr = 0 then Inl ''Insufficient gas for call chain''
     else case (case cc_use_result_from call of
         None \<Rightarrow> Inr (cc_calldata call)
       | Some prev \<Rightarrow> if prev \<ge> length (ch_results cr) then Inl ''Invalid use_result_from index''
           else Inr (er_return_data (ch_results cr ! prev))) of
       Inl e \<Rightarrow> Inl e
     | Inr cd \<Rightarrow> (case om_get (cst_cells (ch_cells cr)) (cc_cell_id call) of
         None \<Rightarrow> Inl (''Cell not found in call chain at index '' @ nat_to_dec (length (ch_results cr)))
       | Some c \<Rightarrow> (case run_cell E l (ch_cells cr) c sender ht 0 cd (cc_value call) (ch_gas cr) of
           None \<Rightarrow> Inl ''panic''
         | Some r \<Rightarrow>
            if \<not> er_success r then Inl (error_or ''Call chain failed'' r)
            else if er_gas_used r > ch_gas cr then Inl ''Call chain gas limit exceeded''
            else (case settle_cell r (cc_value call) c of
              Inl e \<Rightarrow> Inl e
            | Inr c' \<Rightarrow> Inr \<lparr>ch_results = ch_results cr @ [r], ch_gas = ch_gas cr - er_gas_used r,
                ch_cells = set_cell (cc_cell_id call) c' (ch_cells cr)\<rparr>))))"

primrec execute_call_chain :: "'o tx_env \<Rightarrow> ledger \<Rightarrow> bytes \<Rightarrow> u64 \<Rightarrow> cell_call list \<Rightarrow> chain_run \<Rightarrow> string + chain_run" where
  "execute_call_chain E l sender ht [] cr = Inr cr"
| "execute_call_chain E l sender ht (c # cs) cr = (case chain_call E l sender ht c cr of
     Inl e \<Rightarrow> Inl e | Inr cr \<Rightarrow> execute_call_chain E l sender ht cs cr)"

primrec check_calldata :: "'o tx_env \<Rightarrow> cell_call list \<Rightarrow> nat \<Rightarrow> string + unit" where
  "check_calldata E [] tot = Inr ()"
| "check_calldata E (c # cs) tot =
    (let tot = tot + length (cc_calldata c) in
     if length (cc_calldata c) > unat (env_gp E ''limits.max_calldata_size'')
     then Inl (''Calldata too large in call chain: '' @ nat_to_dec (length (cc_calldata c)) @ '' bytes (max: ''
       @ nat_to_dec (unat (env_gp E ''limits.max_calldata_size'')) @ '')'')
     else if tot > unat (env_gp E ''limits.max_call_chain_total_calldata'')
     then Inl (''Call chain total calldata too large: '' @ nat_to_dec tot @ '' bytes (max: ''
       @ nat_to_dec (unat (env_gp E ''limits.max_call_chain_total_calldata'')) @ '')'')
     else check_calldata E cs tot)"

definition compute_call_chain_diff :: "'o tx_env \<Rightarrow> ledger \<Rightarrow> bytes \<Rightarrow> cell_call list \<Rightarrow> u64 \<Rightarrow> account_record \<Rightarrow> bool
    \<Rightarrow> state_diff \<Rightarrow> string + state_diff" where
  "compute_call_chain_diff E l sender calls g sa allow_mcp d =
    (if length calls > unat (env_gp E ''limits.max_call_chain_calls'')
     then Inl (''Call chain too large: '' @ nat_to_dec (length calls) @ '' calls (max: ''
       @ nat_to_dec (unat (env_gp E ''limits.max_call_chain_calls'')) @ '')'')
     else if \<not> allow_mcp \<and> list_ex (\<lambda>c. is_mcp_tool_cell E l (cc_cell_id c)) calls
     then Inl ''Direct calls to MCP tools are not permitted''
     else case check_calldata E calls 0 of
       Inl e \<Rightarrow> Inl e
     | Inr _ \<Rightarrow>
        let total_value = sum_list (map cc_value calls) in
        if acct_balance sa < total_value then Inl ''Insufficient balance for call chain''
        else (case execute_call_chain E l sender 0 calls \<lparr>ch_results = [], ch_gas = unat g, ch_cells = cells l\<rparr> of
          Inl e \<Rightarrow> Inl e
        | Inr cr \<Rightarrow>
           let d = fold (\<lambda>r d. take_oracle r (take_effects r d)) (ch_results cr) d;
               d = take_changes (concat (map (\<lambda>r. map fst (er_storage_diff r)) (ch_results cr))) (cells l) (ch_cells cr) d
           in (case pay_value sender sa total_value d of
                 Inl e \<Rightarrow> Inl e | Inr d \<Rightarrow> Inr (d\<lparr>cu_fee := ucast g\<rparr>))))"

section \<open>Upgrades, closing and the governance of system cells\<close>

definition compute_upgrade_cell_diff :: "'o tx_env \<Rightarrow> ledger \<Rightarrow> bytes \<Rightarrow> bytes \<Rightarrow> bytes \<Rightarrow> bytes list \<Rightarrow> bytes list
    \<Rightarrow> bytes list \<Rightarrow> storage_key_spec list \<Rightarrow> bytes list \<Rightarrow> u64 \<Rightarrow> state_diff \<Rightarrow> string + state_diff" where
  "compute_upgrade_cell_diff E l sender cid raw reads writes comm specs schemas ts d = (case cell_at l cid of
     None \<Rightarrow> Inl ''Cell not found''
   | Some c \<Rightarrow>
      if acc_owner c = system_authority_id E then Inl ''System-owned cell: use governance proposal''
      else if acc_owner c \<noteq> sender then Inl ''Not cell owner''
      else if acc_is_immutable c then Inl ''Cell is immutable''
      else if length raw > unat (env_gp E ''limits.max_cell_bytecode_size'') then Inl ''Bytecode too large''
      else (case manifest_ok (cells_env_of E) raw reads writes specs of
        Inl e \<Rightarrow> Inl e
      | Inr _ \<Rightarrow> Inr (d\<lparr>cell_updates := cell_updates d @ [CuUpgrade cid raw reads writes comm specs schemas ts],
          cu_fee := gas_of E ''gas.upgrade_cell''\<rparr>)))"

definition is_validator :: "ledger \<Rightarrow> account_record \<Rightarrow> bool" where
  "is_validator l sa \<longleftrightarrow> om_get (validators (staking l)) (pubkey_bytes sa) \<noteq> None"

text \<open>The proposals share their checks; only what they propose and its validation differ.\<close>

definition new_proposal :: "'o tx_env \<Rightarrow> bytes \<Rightarrow> proposal_type \<Rightarrow> u64 \<Rightarrow> governance_proposal" where
  "new_proposal E sender pt timelock = \<lparr>gpr_type = pt, gpr_proposer = sender,
     gpr_created_at_height = (case env_height E of Some h \<Rightarrow> h | None \<Rightarrow> 0), gpr_timelock_blocks = timelock,
     gpr_require_vote = True, gpr_votes_for = 0, gpr_votes_against = 0, gpr_voters = {}, gpr_executed = False\<rparr>"

definition propose_on_cell :: "'o tx_env \<Rightarrow> ledger \<Rightarrow> bytes \<Rightarrow> bytes \<Rightarrow> string \<Rightarrow> (string + unit) \<Rightarrow> proposal_type \<Rightarrow> u64
    \<Rightarrow> account_record \<Rightarrow> state_diff \<Rightarrow> string + state_diff" where
  "propose_on_cell E l sender cid refused valid pt timelock sa d =
    (if \<not> is_validator l sa then Inl refused
     else case cell_at l cid of
       None \<Rightarrow> Inl ''Cell not found''
     | Some c \<Rightarrow>
        if acc_owner c \<noteq> system_authority_id E then Inl ''Cell is not system-owned''
        else if acc_is_immutable c then Inl ''Cell is immutable''
        else if acc_governance_proposal c \<noteq> None then Inl ''Cell already has an active proposal''
        else (case valid of
          Inl e \<Rightarrow> Inl e
        | Inr _ \<Rightarrow> Inr (d\<lparr>cell_updates := cell_updates d
              @ [CuDeploy cid (c\<lparr>acc_governance_proposal := Some (new_proposal E sender pt timelock)\<rparr>)],
            cu_fee := gas_of E ''gas.transfer''\<rparr>)))"

definition upgrade_valid :: "'o tx_env \<Rightarrow> bytes \<Rightarrow> bytes list \<Rightarrow> bytes list \<Rightarrow> storage_key_spec list \<Rightarrow> string + unit" where
  "upgrade_valid E raw reads writes specs =
    (if length raw > unat (env_gp E ''limits.max_cell_bytecode_size'') then Inl ''Bytecode too large''
     else manifest_ok (cells_env_of E) raw reads writes specs)"

definition compute_propose_cell_upgrade_diff :: "'o tx_env \<Rightarrow> ledger \<Rightarrow> bytes \<Rightarrow> bytes \<Rightarrow> bytes \<Rightarrow> bytes list \<Rightarrow> bytes list
    \<Rightarrow> bytes list \<Rightarrow> storage_key_spec list \<Rightarrow> bytes list \<Rightarrow> u64 \<Rightarrow> account_record \<Rightarrow> state_diff \<Rightarrow> string + state_diff" where
  "compute_propose_cell_upgrade_diff E l sender cid raw reads writes comm specs schemas timelock sa d =
     propose_on_cell E l sender cid ''Only validators can propose upgrades'' (upgrade_valid E raw reads writes specs)
       (Upgrade raw reads writes comm specs schemas) timelock sa d"

definition compute_propose_cell_ownership_transfer_diff :: "'o tx_env \<Rightarrow> ledger \<Rightarrow> bytes \<Rightarrow> bytes \<Rightarrow> bytes \<Rightarrow> u64
    \<Rightarrow> account_record \<Rightarrow> state_diff \<Rightarrow> string + state_diff" where
  "compute_propose_cell_ownership_transfer_diff E l sender cid new timelock sa d =
     propose_on_cell E l sender cid ''Only validators can propose ownership transfer'' (Inr ())
       (OwnershipTransfer new) timelock sa d"

definition compute_propose_cell_make_immutable_diff :: "'o tx_env \<Rightarrow> ledger \<Rightarrow> bytes \<Rightarrow> bytes \<Rightarrow> u64
    \<Rightarrow> account_record \<Rightarrow> state_diff \<Rightarrow> string + state_diff" where
  "compute_propose_cell_make_immutable_diff E l sender cid timelock sa d =
     propose_on_cell E l sender cid ''Only validators can propose make-immutable'' (Inr ()) MakeImmutable timelock sa d"

definition compute_vote_cell_proposal_diff :: "'o tx_env \<Rightarrow> ledger \<Rightarrow> bytes \<Rightarrow> bytes \<Rightarrow> bool \<Rightarrow> account_record
    \<Rightarrow> state_diff \<Rightarrow> string + state_diff" where
  "compute_vote_cell_proposal_diff E l sender cid approve sa d =
    (if \<not> is_validator l sa then Inl ''Only validators can vote''
     else case cell_at l cid of
       None \<Rightarrow> Inl ''Cell not found''
     | Some c \<Rightarrow>
        if acc_owner c \<noteq> system_authority_id E then Inl ''Cell is not system-owned''
        else (case acc_governance_proposal c of
          None \<Rightarrow> Inl ''No active proposal''
        | Some p \<Rightarrow>
           if gpr_executed p then Inl ''Proposal already executed''
           else (case checked_add (gpr_created_at_height p) (gpr_timelock_blocks p) of
             None \<Rightarrow> Inl ''Timelock calculation overflow''
           | Some vote_end \<Rightarrow>
              if (case env_height E of Some h \<Rightarrow> h | None \<Rightarrow> 0) > vote_end then Inl ''Voting period closed''
              else if sender \<in> gpr_voters p then Inl ''Already voted''
              else
                let stk = (case om_get (validators (staking l)) (pubkey_bytes sa) of Some v \<Rightarrow> active_stake v | None \<Rightarrow> 0);
                    p = p\<lparr>gpr_voters := insert sender (gpr_voters p)\<rparr>;
                    p = (if approve then p\<lparr>gpr_votes_for := saturating_add (gpr_votes_for p) stk\<rparr>
                         else p\<lparr>gpr_votes_against := saturating_add (gpr_votes_against p) stk\<rparr>)
                in Inr (d\<lparr>cell_updates := cell_updates d @ [CuDeploy cid (c\<lparr>acc_governance_proposal := Some p\<rparr>)],
                     cu_fee := gas_of E ''gas.transfer''\<rparr>))))"

text \<open>What an approved proposal does to its cell, at the given height.\<close>

fun apply_proposal :: "'o tx_env \<Rightarrow> u64 \<Rightarrow> proposal_type \<Rightarrow> cell_account \<Rightarrow> string + cell_account" where
  "apply_proposal E h (OwnershipTransfer new) c = Inr (c\<lparr>acc_pending_owner := Some new\<rparr>)"
| "apply_proposal E h (Upgrade raw reads writes comm specs schemas) c =
    (case upgrade_valid E raw reads writes specs of
       Inl e \<Rightarrow> Inl e
     | Inr _ \<Rightarrow> Inr (c\<lparr>acc_manifest_version := saturating_add (acc_manifest_version c) 1, acc_bytecode := raw,
         acc_declared_reads := reads, acc_declared_writes := writes, acc_commutative_keys := comm,
         acc_storage_key_specs := specs, acc_oracle_schema_ids := schemas,
         acc_manifest_hash := compute_manifest_hash (digest (env_blake3 E)) raw reads writes comm schemas,
         acc_upgraded_at := Some h\<rparr>))"
| "apply_proposal E h MakeImmutable c = Inr (c\<lparr>acc_is_immutable := True, acc_pending_owner := None\<rparr>)"

definition compute_execute_cell_proposal_diff :: "'o tx_env \<Rightarrow> ledger \<Rightarrow> bytes \<Rightarrow> account_record \<Rightarrow> state_diff
    \<Rightarrow> string + state_diff" where
  "compute_execute_cell_proposal_diff E l cid sa d =
    (if \<not> is_validator l sa then Inl ''Only validators can execute proposals''
     else case cell_at l cid of
       None \<Rightarrow> Inl ''Cell not found''
     | Some c \<Rightarrow>
        if acc_owner c \<noteq> system_authority_id E then Inl ''Cell is not system-owned''
        else (case acc_governance_proposal c of
          None \<Rightarrow> Inl ''No active proposal''
        | Some p \<Rightarrow>
           if gpr_executed p then Inl ''Proposal already executed''
           else let h = (case env_height E of Some h \<Rightarrow> h | None \<Rightarrow> 0) in
             (case checked_add (gpr_created_at_height p) (gpr_timelock_blocks p) of
                None \<Rightarrow> Inl ''Timelock calculation overflow''
              | Some unlock_height \<Rightarrow>
                 if h < unlock_height then Inl ''Timelock not expired''
                 else (case checked_mul (sum_list (map (\<lambda>e. active_stake (snd e))
                       (filter (\<lambda>e. is_active h (snd e)) (validators (staking l))))) 67 of
                   None \<Rightarrow> Inl ''Approval threshold calculation overflow''
                 | Some t \<Rightarrow>
                    if gpr_votes_for p < t div 100 then Inl ''Insufficient votes for approval''
                    else (case apply_proposal E h (gpr_type p) c of
                      Inl e \<Rightarrow> Inl e
                    | Inr c' \<Rightarrow> Inr (d\<lparr>cell_updates := cell_updates d @ [CuDeploy cid (c'\<lparr>acc_governance_proposal := None\<rparr>)],
                        cu_fee := gas_of E ''gas.transfer''\<rparr>))))))"

definition compute_close_cell_diff :: "'o tx_env \<Rightarrow> ledger \<Rightarrow> bytes \<Rightarrow> bytes \<Rightarrow> state_diff \<Rightarrow> string + state_diff" where
  "compute_close_cell_diff E l sender cid d = (case cell_at l cid of
     None \<Rightarrow> Inl ''Cell not found''
   | Some c \<Rightarrow>
      if acc_owner c = system_authority_id E then Inl ''System-owned cell: use governance proposal''
      else if acc_owner c \<noteq> sender then Inl ''Only the cell owner can close the cell''
      else if acc_is_token c \<and> (case acc_token_config c of Some cfg \<Rightarrow> tc_total_supply cfg > 0 | None \<Rightarrow> False)
      then Inl ''Cannot close token cell with non-zero supply''
      else (case om_get (accounts l) (acc_owner c) of
        None \<Rightarrow> Inl ''Cell owner account not found''
      | Some a \<Rightarrow>
         let d = put_account (acc_owner c) (a\<lparr>acct_balance := saturating_add (saturating_add (acct_balance a) (acc_balance c))
               (acc_rent_deposit c)\<rparr>) d
         in Inr (d\<lparr>cell_updates := cell_updates d @ [CuRemove cid], cu_fee := gas_of E ''gas.transfer''\<rparr>)))"

section \<open>The cell intents together\<close>

definition run_cell_intent :: "'o tx_env \<Rightarrow> ledger \<Rightarrow> bytes \<Rightarrow> u64 \<Rightarrow> cell_intent \<Rightarrow> account_record \<Rightarrow> state_diff
    \<Rightarrow> string + state_diff" where
  "run_cell_intent E l sender ts ci sa d = (case ci of
     DeployCell cid raw ibal reads writes comm specs schemas \<Rightarrow>
       compute_deploy_cell_diff E l sender cid raw ibal ts reads writes comm specs schemas sa d
   | DeployToken cid name symbol dec tot bps fee_to fixed \<Rightarrow>
       compute_deploy_token_diff E l sender cid name symbol dec tot bps fee_to fixed ts sa d
   | CallCell cid cd val g \<Rightarrow> compute_call_cell_diff E l sender cid cd val g ts (current_height (staking l)) sa d
   | CallCellChain calls g \<Rightarrow> compute_call_chain_diff E l sender calls g sa False d
   | UpgradeCell cid raw reads writes comm specs schemas \<Rightarrow>
       compute_upgrade_cell_diff E l sender cid raw reads writes comm specs schemas ts d
   | CloseCell cid \<Rightarrow> compute_close_cell_diff E l sender cid d
   | ProposeCellUpgrade cid raw reads writes comm specs schemas timelock \<Rightarrow>
       compute_propose_cell_upgrade_diff E l sender cid raw reads writes comm specs schemas timelock sa d
   | ProposeCellOwnershipTransfer cid new timelock \<Rightarrow>
       compute_propose_cell_ownership_transfer_diff E l sender cid new timelock sa d
   | ProposeCellMakeImmutable cid timelock \<Rightarrow> compute_propose_cell_make_immutable_diff E l sender cid timelock sa d
   | VoteCellProposal cid approve \<Rightarrow> compute_vote_cell_proposal_diff E l sender cid approve sa d
   | ExecuteCellProposal cid \<Rightarrow> compute_execute_cell_proposal_diff E l cid sa d)"

definition cell_intent_fee :: "'o tx_env \<Rightarrow> cell_intent \<Rightarrow> u64" where
  "cell_intent_fee E ci = (case ci of
     DeployCell _ _ _ _ _ _ _ _ \<Rightarrow> env_gp E ''gas.deploy_cell''
   | DeployToken _ _ _ _ _ _ _ _ \<Rightarrow> env_gp E ''gas.deploy_token''
   | UpgradeCell _ _ _ _ _ _ _ \<Rightarrow> env_gp E ''gas.upgrade_cell''
   | CallCell _ _ _ g \<Rightarrow> g
   | CallCellChain _ g \<Rightarrow> g
   | _ \<Rightarrow> env_gp E ''gas.transfer'')"

end
