(* ===== verification/Execution.thy ===== *)
theory Execution
  imports Cell_Intents
begin

text \<open>
  URL governance and the oracle transactions, the dispatch of a transaction to its handler
  with all checks and fees (\<^verbatim>\<open>compute_transaction_diff_internal\<close>), admission to the pool, and
  the sequential execution of a batch (\<^verbatim>\<open>execute_sequential\<close> in \<^verbatim>\<open>parallel_executor.rs\<close>).
\<close>

section \<open>URL governance\<close>

text \<open>\<^verbatim>\<open>str::trim\<close>: the white space of Unicode, by the bytes of its encoding.\<close>

definition whitespace :: "bytes list" where
  "whitespace = [[0x09], [0x0A], [0x0B], [0x0C], [0x0D], [0x20], [0xC2, 0x85], [0xC2, 0xA0], [0xE1, 0x9A, 0x80],
     [0xE2, 0x80, 0x80], [0xE2, 0x80, 0x81], [0xE2, 0x80, 0x82], [0xE2, 0x80, 0x83], [0xE2, 0x80, 0x84],
     [0xE2, 0x80, 0x85], [0xE2, 0x80, 0x86], [0xE2, 0x80, 0x87], [0xE2, 0x80, 0x88], [0xE2, 0x80, 0x89],
     [0xE2, 0x80, 0x8A], [0xE2, 0x80, 0xA8], [0xE2, 0x80, 0xA9], [0xE2, 0x80, 0xAF], [0xE2, 0x81, 0x9F],
     [0xE3, 0x80, 0x80]]"

function strip_front :: "bytes list \<Rightarrow> bytes \<Rightarrow> bytes" where
  "strip_front ws s = (case find (\<lambda>w. w \<noteq> [] \<and> starts_with s w) ws of
     Some w \<Rightarrow> strip_front ws (drop (length w) s) | None \<Rightarrow> s)"
  by auto
termination
proof (relation "measure (length \<circ> snd)", simp)
  fix ws :: "bytes list" and s w
  assume "find (\<lambda>w. w \<noteq> [] \<and> starts_with s w) ws = Some w"
  then have "w \<noteq> []" "starts_with s w" by (auto simp: find_Some_iff)
  then have "s \<noteq> []" by (auto simp: starts_with_def)
  then show "((ws, drop (length w) s), (ws, s)) \<in> measure (length \<circ> snd)" using \<open>w \<noteq> []\<close> by simp
qed

declare strip_front.simps [simp del]

definition trim :: "bytes \<Rightarrow> bytes" where
  "trim s = rev (strip_front (map rev whitespace) (rev (strip_front whitespace s)))"

definition quoted :: "string \<Rightarrow> bytes \<Rightarrow> string" where
  "quoted msg pat = msg @ map (\<lambda>b. char_of (unat b)) (39 # pat @ [39])"

definition compute_propose_url_diff ::
    "ledger \<Rightarrow> bytes \<Rightarrow> bytes \<Rightarrow> u128 \<Rightarrow> u64 \<Rightarrow> u64 \<Rightarrow> account_record \<Rightarrow> state_diff \<Rightarrow> string + state_diff" where
  "compute_propose_url_diff l sender pat bond period ts sa d =
    (let pat = trim pat in
     if pat = [] then Inl ''url_pattern must not be empty''
     else if bond = 0 then Inl ''URL proposal bond must be greater than zero''
     else if acct_balance sa < bond then Inl ''Insufficient balance for URL proposal bond''
     else if om_get (url_proposals l) pat \<noteq> None then Inl (quoted ''URL proposal already exists for pattern '' pat)
     else let d = debit_of sender bond d in
       Inr (d\<lparr>oracle_updates := oracle_updates d @ [AddUrlProposal \<lparr>url_pattern = pat, proposer = sender,
         bond_amount = bond, voters = [], votes_for_stake = 0, votes_against_stake = 0, created_at = ts,
         voting_ends_at = saturating_add (current_height (staking l)) period, approved = False,
         rejected = False, slashed = False, response_format = Raw, prop_schema_id = None\<rparr>]\<rparr>))"

definition stake_of_key :: "ledger \<Rightarrow> bytes \<Rightarrow> u64" where
  "stake_of_key l pk = (case om_get (validators (staking l)) pk of Some v \<Rightarrow> active_stake v | None \<Rightarrow> 0)"

definition compute_vote_url_diff ::
    "ledger \<Rightarrow> bytes \<Rightarrow> bool \<Rightarrow> account_record \<Rightarrow> state_diff \<Rightarrow> string + state_diff" where
  "compute_vote_url_diff l pat approve sa d =
    (let pat = trim pat in
     if pat = [] then Inl ''url_pattern must not be empty''
     else case om_get (url_proposals l) pat of
       None \<Rightarrow> Inl (quoted ''No proposal for URL pattern '' pat)
     | Some p \<Rightarrow>
        if \<not> voting_open p (current_height (staking l)) then Inl (quoted ''Voting is closed for URL pattern '' pat)
        else let stk = stake_of_key l (pubkey_bytes sa) in
          if stk = 0 then Inl ''Only active validators can vote on URL proposals''
          else Inr (d\<lparr>oracle_updates := oracle_updates d @ [VoteUrlProposal pat (pubkey_bytes sa)
            (if approve then stk else 0) (if approve then 0 else stk)]\<rparr>))"

definition compute_report_malicious_url_diff ::
    "ledger \<Rightarrow> bytes \<Rightarrow> bytes \<Rightarrow> state_diff \<Rightarrow> string + state_diff" where
  "compute_report_malicious_url_diff l pat evidence d =
    (let pat = trim pat in
     if pat = [] then Inl ''url_pattern must not be empty''
     else if trim evidence = [] then Inl ''evidence must not be empty''
     else if om_get (url_proposals l) pat = None then Inl (quoted ''No proposal for URL pattern '' pat)
     else Inr (d\<lparr>oracle_updates := oracle_updates d @ [SlashUrlProposer pat]\<rparr>))"

section \<open>Oracle commits and reveals\<close>

definition compute_oracle_commit_diff ::
    "'o tx_env \<Rightarrow> ledger \<Rightarrow> bytes \<Rightarrow> bytes \<Rightarrow> account_record \<Rightarrow> state_diff \<Rightarrow> string + state_diff" where
  "compute_oracle_commit_diff E l rid ch sa d =
    (if om_get (validators (staking l)) (pubkey_bytes sa) = None then Inl ''Only validators can submit oracle commits''
     else if om_get (pending_oracle_requests l) rid = None then Inl ''Unknown oracle request_id''
     else if (case om_get (oracle_pending l) rid of
        Some t \<Rightarrow> map_of (commits t) (pubkey_bytes sa) \<noteq> None | None \<Rightarrow> False)
     then Inl ''Validator already committed for this request''
     else Inr (d\<lparr>oracle_updates := oracle_updates d @ [AddCommit rid (pubkey_bytes sa) ch],
       cu_fee := gas_of E ''gas.transfer''\<rparr>))"

definition height_now :: "'o tx_env \<Rightarrow> u64" where
  "height_now E = (case env_height E of Some h \<Rightarrow> h | None \<Rightarrow> 0)"

text \<open>A reveal that does not match its commit is slashed; one that does may complete the quorum.\<close>

definition slash_lie ::
    "'o tx_env \<Rightarrow> ledger \<Rightarrow> bytes \<Rightarrow> state_diff \<Rightarrow> string + state_diff" where
  "slash_lie E l pk d = (case compute_slash_outcome (env_gp E) (env_sigs E) (staking l) pk OracleLie None of
     Inl e \<Rightarrow> Inl e
   | Inr out \<Rightarrow> Inr (d\<lparr>staking_updates := staking_updates d @ [UpSlash pk OracleLie (out_amount out) (redistribution out)],
       cu_fee := gas_of E ''gas.transfer'' * 2\<rparr>))"

definition accept_reveal ::
    "'o tx_env \<Rightarrow> ledger \<Rightarrow> oracle_request \<Rightarrow> oracle_tally \<Rightarrow> bytes \<Rightarrow> bytes \<Rightarrow> bytes \<Rightarrow> u16 \<Rightarrow> state_diff \<Rightarrow> state_diff" where
  "accept_reveal E l req t rid pk body status d =
    (let d = d\<lparr>oracle_updates := oracle_updates d @ [AddReveal rid pk body status]\<rparr>;
         t = t\<lparr>reveals := entry_put pk (body, status) (reveals t)\<rparr>;
         d = (case try_finalize_with_format (env_gp E) (env_blake3 E) (env_tally_order E) (env_parse_price E)
                (env_price_json E) t (staking l) (req_format req) of
                None \<Rightarrow> d
              | Some (b, st, agreeing, tot) \<Rightarrow> d\<lparr>oracle_updates := oracle_updates d @ [FinalizeResult
                  \<lparr>ores_id = rid, ores_url = req_url req, ores_method = req_method req, response_body = b,
                   response_status = st, body_hash = digest (env_blake3 E) b, finalized_at = height_now E,
                   res_expires_at = height_now E + env_gp E ''oracle.cache_expiry_blocks'',
                   quorum_stake_num = agreeing, quorum_stake_den = tot, ores_cell = requesting_cell req\<rparr>]\<rparr>)
     in d\<lparr>cu_fee := gas_of E ''gas.transfer'' * 2\<rparr>)"

definition compute_oracle_reveal_diff ::
    "'o tx_env \<Rightarrow> ledger \<Rightarrow> bytes \<Rightarrow> bytes \<Rightarrow> u16 \<Rightarrow> account_record \<Rightarrow> state_diff \<Rightarrow> string + state_diff" where
  "compute_oracle_reveal_diff E l rid body status sa d =
    (let pk = pubkey_bytes sa in
     if om_get (validators (staking l)) pk = None then Inl ''Only validators can submit oracle reveals''
     else case om_get (pending_oracle_requests l) rid of
       None \<Rightarrow> Inl ''Unknown oracle request_id''
     | Some req \<Rightarrow> (case om_get (oracle_pending l) rid of
         None \<Rightarrow> Inl ''No commit tally for this request_id - commit phase must precede reveal''
       | Some t \<Rightarrow>
          if \<not> commit_quorum_reached (env_gp E) t then Inl ''Commit quorum not reached for this request''
          else case map_of (commits t) pk of
            None \<Rightarrow> Inl ''Validator has not committed for this request''
          | Some stored \<Rightarrow>
             if map_of (reveals t) pk \<noteq> None then Inl ''Validator already revealed for this request''
             else if length body > unat (env_gp E ''oracle.max_response_bytes'')
             then Inl (''Response body exceeds '' @ nat_to_dec (unat (env_gp E ''oracle.max_response_bytes'')) @ '' byte limit'')
             else if compute_commit_hash (env_blake3 E) pk rid body status \<noteq> stored then slash_lie E l pk d
             else Inr (accept_reveal E l req t rid pk body status d)))"

section \<open>Signatures and fees\<close>

definition signing_message :: "'o transaction \<Rightarrow> bytes \<Rightarrow> bytes" where
  "signing_message tx ib = to_le_bytes 4 (of_nat (length (tx_genesis_fingerprint tx)) :: u32) @ tx_genesis_fingerprint tx
     @ to_le_bytes 4 (of_nat (length (tx_sender tx)) :: u32) @ tx_sender tx
     @ to_le_bytes 8 (tx_nonce tx) @ to_le_bytes 8 (tx_timestamp tx) @ to_le_bytes 8 (tx_expiration_height tx)
     @ to_le_bytes 4 (of_nat (length ib) :: u32) @ ib"

definition verify_transaction_signature :: "'o tx_env \<Rightarrow> 'o transaction \<Rightarrow> account_record \<Rightarrow> string + unit" where
  "verify_transaction_signature E tx sa =
    (if length (pubkey_bytes sa) \<noteq> 1952 then Inl ''Invalid public key length''
     else if length (tx_signature tx) \<noteq> 3309 then Inl ''Invalid signature length''
     else if \<not> env_pubkey_ok E (pubkey_bytes sa) then Inl ''Invalid public key''
     else case env_ser_intent E (tx_intent tx) of
       None \<Rightarrow> Inl ''Failed to serialize intent''
     | Some ib \<Rightarrow> if \<not> env_verify E (pubkey_bytes sa) (signing_message tx ib) (tx_signature tx)
           (str_bytes ''truthlinked-transaction-v1'') then Inl ''Signature verification failed'' else Inr ())"

definition tx_byte_fee :: "'o tx_env \<Rightarrow> 'o transaction \<Rightarrow> string + u128" where
  "tx_byte_fee E tx = (case env_ser_tx E tx of
     Inl e \<Rightarrow> Inl (''Failed to compute tx byte weight: '' @ e)
   | Inr b \<Rightarrow> Inr (saturating_mul (of_nat (length b)) (gas_of E ''fees.tx_byte'')))"

definition is_claim :: "'o intent \<Rightarrow> bool" where
  "is_claim i = (case i of Claim _ _ _ \<Rightarrow> True | _ \<Rightarrow> False)"

text \<open>The intents whose handler already debits the transfer gas, and how much that is.\<close>

definition gas_already_debited :: "'o intent \<Rightarrow> bool" where
  "gas_already_debited i = (case i of Transfer _ _ _ \<Rightarrow> True | TransferToName _ _ \<Rightarrow> True
     | BatchTransfer _ \<Rightarrow> True | BatchTransferToName _ \<Rightarrow> True | _ \<Rightarrow> False)"

definition embedded_fee :: "'o tx_env \<Rightarrow> 'o intent \<Rightarrow> u128" where
  "embedded_fee E i = (case i of
     BatchTransfer ts \<Rightarrow> saturating_mul (gas_of E ''gas.transfer'') (of_nat (length ts))
   | BatchTransferToName ts \<Rightarrow> saturating_mul (gas_of E ''gas.transfer'') (of_nat (length ts))
   | _ \<Rightarrow> gas_of E ''gas.transfer'')"

definition required_trth_fee :: "'o tx_env \<Rightarrow> 'o intent \<Rightarrow> u128 \<Rightarrow> u128" where
  "required_trth_fee E i byte_fee = (case i of
     Transfer _ _ _ \<Rightarrow> gas_of E ''gas.transfer'' + byte_fee
   | TransferToName _ _ \<Rightarrow> gas_of E ''gas.transfer'' + byte_fee
   | BatchTransfer ts \<Rightarrow> saturating_add (saturating_mul (gas_of E ''gas.transfer'') (of_nat (length ts))) byte_fee
   | BatchTransferToName ts \<Rightarrow> saturating_add (saturating_mul (gas_of E ''gas.transfer'') (of_nat (length ts))) byte_fee
   | _ \<Rightarrow> 0)"

definition required_cu_fee :: "'o tx_env \<Rightarrow> 'o intent \<Rightarrow> u64" where
  "required_cu_fee E i = (case i of
     Transfer _ _ _ \<Rightarrow> 0 | TransferToName _ _ \<Rightarrow> 0 | BatchTransfer _ \<Rightarrow> 0 | BatchTransferToName _ \<Rightarrow> 0
   | Claim _ _ _ \<Rightarrow> 0
   | StakeIntent _ \<Rightarrow> env_gp E ''gas.stake'' | UnstakeIntent _ \<Rightarrow> env_gp E ''gas.unstake''
   | WithdrawStake \<Rightarrow> env_gp E ''gas.withdraw'' | UnjailIntent \<Rightarrow> env_gp E ''gas.unjail''
   | TokenTransfer _ _ _ \<Rightarrow> env_gp E ''gas.token_transfer'' | TokenMint _ _ _ \<Rightarrow> env_gp E ''gas.token_mint''
   | TokenBurn _ _ \<Rightarrow> env_gp E ''gas.token_burn'' | TokenFreeze _ _ \<Rightarrow> env_gp E ''gas.token_transfer''
   | TokenThaw _ _ \<Rightarrow> env_gp E ''gas.token_transfer'' | MintNFT _ _ _ _ _ _ \<Rightarrow> env_gp E ''gas.mint_nft''
   | TransferNFT _ _ _ _ \<Rightarrow> env_gp E ''gas.transfer_nft'' | BurnNFT _ \<Rightarrow> env_gp E ''gas.burn_nft''
   | ApproveNFT _ _ \<Rightarrow> env_gp E ''gas.approve_nft'' | RotateKey _ \<Rightarrow> env_gp E ''gas.rotate_key''
   | CellIntent ci \<Rightarrow> cell_intent_fee E ci
   | OtherIntent x \<Rightarrow> env_other_fee E x
   | _ \<Rightarrow> env_gp E ''gas.transfer'')"

section \<open>The handlers together\<close>

definition key_or_empty :: "bytes option \<Rightarrow> bytes" where
  "key_or_empty pk = (case pk of Some k \<Rightarrow> k | None \<Rightarrow> [])"

definition run_intent :: "'o tx_env \<Rightarrow> ledger \<Rightarrow> 'o transaction \<Rightarrow> account_record \<Rightarrow> state_diff \<Rightarrow> string + state_diff" where
  "run_intent E l tx sa d = (let sender = tx_sender tx; ts = tx_timestamp tx in case tx_intent tx of
     Transfer r pk amt \<Rightarrow> compute_transfer_diff E l sender r (key_or_empty pk) amt sa d
   | TransferToName name amt \<Rightarrow> (case resolve_name_to_account l name (current_height (staking l)) of
        Inl e \<Rightarrow> Inl e | Inr r \<Rightarrow> compute_transfer_diff E l sender r [] amt sa d)
   | BatchTransfer bs \<Rightarrow> compute_batch_transfer_diff E l sender bs sa d
   | BatchTransferToName es \<Rightarrow> (case resolve_batch l es of
        Inl e \<Rightarrow> Inl e | Inr bs \<Rightarrow> compute_batch_transfer_diff E l sender bs sa d)
   | Claim r pk amt \<Rightarrow> compute_claim_diff E l sender r (key_or_empty pk) amt ts d
   | RotateKey pk \<Rightarrow> compute_rotate_key_diff E sender pk sa d
   | WrapTLKD amt \<Rightarrow> compute_wrap_trth_diff E sender amt sa d
   | UnwrapTLKD amt \<Rightarrow> compute_unwrap_trth_diff E l sender amt d
   | DepositCompute amt \<Rightarrow> compute_deposit_compute_diff sender amt sa d
   | WithdrawCompute amt \<Rightarrow> compute_withdraw_compute_diff sender amt sa d
   | StakeIntent _ \<Rightarrow> Inl ''Staking intents disabled: use staking controller cell''
   | UnstakeIntent _ \<Rightarrow> Inl ''Unstake intents disabled: use staking controller cell''
   | WithdrawStake \<Rightarrow> Inl ''Withdraw intents disabled: use staking controller cell''
   | UnjailIntent \<Rightarrow> Inl ''Unjail intents disabled: use staking controller cell''
   | ProposeTokenAuthority _ _ _ _ _ _ \<Rightarrow> Inl ''Intent disabled: use the corresponding system cell''
   | VoteTokenAuthority _ _ \<Rightarrow> Inl ''Intent disabled: use the corresponding system cell''
   | CallSystem _ _ \<Rightarrow> Inl ''Intent disabled: use the corresponding system cell''
   | ProposeUrl pat bond period \<Rightarrow> compute_propose_url_diff l sender pat bond period ts sa d
   | VoteUrl pat approve \<Rightarrow> compute_vote_url_diff l pat approve sa d
   | ReportMaliciousUrl pat ev \<Rightarrow> compute_report_malicious_url_diff l pat ev d
   | MintNFT nid name uri coll bps rr \<Rightarrow> compute_mint_nft_diff E l sender nid name uri coll bps rr ts d
   | TransferNFT nid r pk price \<Rightarrow> compute_transfer_nft_diff E l sender nid r (key_or_empty pk) price sa d
   | BurnNFT nid \<Rightarrow> compute_burn_nft_diff E sender nid sa d
   | ApproveNFT nid who \<Rightarrow> compute_approve_nft_diff E l nid who sa d
   | TransferOwnershipIntent cid new \<Rightarrow> compute_transfer_ownership_diff E l sender cid new d
   | AcceptOwnershipIntent cid \<Rightarrow> Inr (d\<lparr>cell_updates := cell_updates d @ [CuAcceptOwnership cid sender],
        cu_fee := gas_of E ''gas.transfer''\<rparr>)
   | MakeImmutableIntent cid \<Rightarrow> compute_make_immutable_diff E l sender cid d
   | TokenTransfer tok r amt \<Rightarrow> compute_token_transfer_diff E l sender tok r amt d
   | TokenMint tok r amt \<Rightarrow> compute_token_mint_diff E l sender tok r amt d
   | TokenBurn tok amt \<Rightarrow> compute_token_burn_diff E l sender tok amt d
   | TokenFreeze tok a \<Rightarrow> compute_token_freeze_diff E l sender tok a d
   | TokenThaw tok a \<Rightarrow> compute_token_thaw_diff E l sender tok a d
   | SetCellVisibility cid vis \<Rightarrow> compute_set_cell_visibility_diff E l sender cid vis d
   | SubmitOracleCommit rid ch \<Rightarrow> compute_oracle_commit_diff E l rid ch sa d
   | SubmitOracleReveal rid body status \<Rightarrow> compute_oracle_reveal_diff E l rid body status sa d
   | CellIntent ci \<Rightarrow> run_cell_intent E l sender ts ci sa d
   | OtherIntent x \<Rightarrow> env_other E l tx x sa d)"

text \<open>The fee domains after the handler has run, and the check of what is left to pay.\<close>

definition settle_fees :: "u128 \<Rightarrow> u64 \<Rightarrow> u128 \<Rightarrow> state_diff \<Rightarrow> state_diff" where
  "settle_fees trth cu byte_fee d =
    (let d = (if trth > 0 then d\<lparr>cu_fee := 0, gas_fee := (if gas_fee d < trth then trth else gas_fee d)\<rparr>
              else if cu > 0 \<and> cu_fee d = 0 then d\<lparr>cu_fee := ucast cu\<rparr> else d)
     in if trth = 0 \<and> byte_fee > 0 \<and> gas_fee d < byte_fee then d\<lparr>gas_fee := byte_fee\<rparr> else d)"

definition amounts_at :: "bytes \<Rightarrow> (bytes \<times> u128) list \<Rightarrow> u128" where
  "amounts_at i xs = sum_list (map snd (filter (\<lambda>e. fst e = i) xs))"

definition charge_gas :: "'o tx_env \<Rightarrow> 'o transaction \<Rightarrow> account_record \<Rightarrow> state_diff \<Rightarrow> string + state_diff" where
  "charge_gas E tx sa d =
    (if gas_fee d > 0 then
       (if gas_already_debited (tx_intent tx) then
          (if gas_fee d > embedded_fee E (tx_intent tx) then
             (let extra = saturating_sub (gas_fee d) (embedded_fee E (tx_intent tx)) in
              case checked_add (amounts_at (tx_sender tx) (native_debits d)) extra of
                None \<Rightarrow> Inl ''Gas fee overflow''
              | Some total_debit \<Rightarrow>
                 if acct_balance sa < total_debit then Inl ''Insufficient balance for byte-weighted gas fee''
                 else Inr (debit_of (tx_sender tx) extra d))
           else Inr d)
        else
          (let sender_balance_after = (case om_get (account_updates d) (tx_sender tx) of
                 Some a \<Rightarrow> acct_balance a | None \<Rightarrow> acct_balance sa)
           in if sender_balance_after < gas_fee d then Inl ''Insufficient balance for gas fee''
              else Inr (debit_of (tx_sender tx) (gas_fee d) d)))
     else Inr d)"

definition cu_fee_to_tlkd :: "'o tx_env \<Rightarrow> u128 \<Rightarrow> string + u128" where
  "cu_fee_to_tlkd E cu =
    (let per = gas_of E ''cu.per_tlkd'' in
     if per = 0 then Inl ''cu_per_tlkd is zero''
     else case checked_mul cu ONE_TLKD of
       None \<Rightarrow> Inl ''CU fee overflow''
     | Some x \<Rightarrow> Inr (saturating_add x (per - 1) div per))"

definition charge_compute :: "'o tx_env \<Rightarrow> 'o transaction \<Rightarrow> account_record \<Rightarrow> state_diff \<Rightarrow> string + state_diff" where
  "charge_compute E tx sa d =
    (if cu_fee d > 0 then
       (case checked_add (compute_escrow sa) (amounts_at (tx_sender tx) (compute_escrow_credits d)) of
          None \<Rightarrow> Inl ''Escrow overflow''
        | Some x \<Rightarrow> (case checked_sub x (amounts_at (tx_sender tx) (compute_escrow_debits d)) of
            None \<Rightarrow> Inl ''Escrow underflow''
          | Some escrow_after \<Rightarrow> (case cu_fee_to_tlkd E (cu_fee d) of
              Inl e \<Rightarrow> Inl e
            | Inr fee \<Rightarrow> if escrow_after < fee then Inl ''Insufficient compute escrow''
                else Inr (d\<lparr>compute_escrow_debits := compute_escrow_debits d @ [(tx_sender tx, fee)],
                  compute_fee_tlkd := fee\<rparr>))))
     else Inr d)"

definition keep_sender_key :: "'o transaction \<Rightarrow> account_record \<Rightarrow> state_diff \<Rightarrow> state_diff" where
  "keep_sender_key tx sa d =
    (let a = (case om_get (account_updates d) (tx_sender tx) of Some a \<Rightarrow> a | None \<Rightarrow> sa)
     in put_account (tx_sender tx) (if pubkey_bytes a = [] \<and> pubkey_bytes sa \<noteq> []
          then a\<lparr>pubkey_bytes := pubkey_bytes sa\<rparr> else a) d)"

definition finish_diff :: "'o tx_env \<Rightarrow> 'o transaction \<Rightarrow> account_record \<Rightarrow> u128 \<Rightarrow> state_diff \<Rightarrow> string + state_diff" where
  "finish_diff E tx sa byte_fee d0 =
    (let trth = required_trth_fee E (tx_intent tx) byte_fee; cu = required_cu_fee E (tx_intent tx);
         d = settle_fees trth cu byte_fee d0
     in if trth > 0 \<and> gas_fee d < trth
        then Inl (''Insufficient TLKD fee: '' @ nat_to_dec (unat (gas_fee d)) @ '' < '' @ nat_to_dec (unat trth))
        else if cu > 0 \<and> cu_fee d < ucast cu
        then Inl (''Insufficient CU fee: '' @ nat_to_dec (unat (cu_fee d)) @ '' < '' @ nat_to_dec (unat cu))
        else case charge_gas E tx sa d of
          Inl e \<Rightarrow> Inl e
        | Inr d \<Rightarrow> (case charge_compute E tx sa d of
            Inl e \<Rightarrow> Inl e
          | Inr d \<Rightarrow> Inr (keep_sender_key tx sa d)))"

definition compute_transaction_diff :: "bool \<Rightarrow> 'o tx_env \<Rightarrow> ledger \<Rightarrow> 'o transaction \<Rightarrow> string + state_diff" where
  "compute_transaction_diff verify_sig E l tx =
    (case env_ser_tx E tx of
       Inl e \<Rightarrow> Inl (''Failed to serialize tx: '' @ e)
     | Inr b \<Rightarrow>
       let h = digest (env_blake3 E) b in
       if h \<in> set (executed_tx_hashes l) then Inl ''Transaction already executed (replay detected)''
       else if tx_genesis_fingerprint tx \<noteq> env_genesis E
       then Inl (''Invalid genesis fingerprint: expected '' @ env_hex E (env_genesis E) @ '', got ''
         @ env_hex E (tx_genesis_fingerprint tx))
       else if tx_expiration_height tx \<le> height_now E
       then Inl (''Transaction expired: height '' @ nat_to_dec (unat (tx_expiration_height tx)) @ '' <= current ''
         @ nat_to_dec (unat (height_now E)))
       else case om_get (accounts l) (tx_sender tx) of
         None \<Rightarrow> Inl ''Sender account does not exist''
       | Some sa \<Rightarrow>
          if tx_nonce tx \<noteq> saturating_add (acct_nonce sa) 1
          then Inl (''Invalid nonce: expected '' @ nat_to_dec (unat (saturating_add (acct_nonce sa) 1)) @ '', got ''
            @ nat_to_dec (unat (tx_nonce tx)))
          else case (if verify_sig then verify_transaction_signature E tx sa else Inr ()) of
            Inl e \<Rightarrow> Inl e
          | Inr _ \<Rightarrow> (case (if is_claim (tx_intent tx) then Inr 0 else tx_byte_fee E tx) of
              Inl e \<Rightarrow> Inl e
            | Inr byte_fee \<Rightarrow>
               (case run_intent E l tx sa (diff_default\<lparr>nonce_updates := [(tx_sender tx, tx_nonce tx)], tx_hash := h\<rparr>) of
                  Inl e \<Rightarrow> Inl e
                | Inr d \<Rightarrow> finish_diff E tx sa byte_fee d)))"

section \<open>Admission and sequential execution\<close>

definition validate_transaction_for_mempool :: "'o tx_env \<Rightarrow> ledger \<Rightarrow> 'o transaction \<Rightarrow> u64 \<Rightarrow> string + unit" where
  "validate_transaction_for_mempool E l tx lookahead =
    (if tx_genesis_fingerprint tx \<noteq> env_genesis E
     then Inl (''Invalid genesis fingerprint: expected '' @ env_hex E (env_genesis E) @ '', got ''
       @ env_hex E (tx_genesis_fingerprint tx))
     else if tx_expiration_height tx \<le> height_now E
     then Inl (''Transaction expired: height '' @ nat_to_dec (unat (tx_expiration_height tx)) @ '' <= current ''
       @ nat_to_dec (unat (height_now E)))
     else case om_get (accounts l) (tx_sender tx) of
       None \<Rightarrow> Inl ''Sender account does not exist''
     | Some sa \<Rightarrow>
        let min_nonce = saturating_add (acct_nonce sa) 1; max_nonce = saturating_add (acct_nonce sa) (1 + lookahead) in
        if tx_nonce tx < min_nonce \<or> tx_nonce tx > max_nonce
        then Inl (''Invalid nonce window: expected '' @ nat_to_dec (unat min_nonce) @ ''..='' @ nat_to_dec (unat max_nonce)
          @ '', got '' @ nat_to_dec (unat (tx_nonce tx)))
        else verify_transaction_signature E tx sa)"

definition diff_total_fees :: "state_diff \<Rightarrow> u128" where
  "diff_total_fees d = saturating_add (saturating_add (saturating_add (gas_fee d) (name_fee d)) (compute_fee_tlkd d))
     (treasury_fee d)"

record batch_result =
  br_state :: ledger
  br_failed :: "(nat \<times> string) list"
  br_applied :: nat
  br_total_fees :: u128

primrec run_sequential :: "'o tx_env \<Rightarrow> nat \<Rightarrow> 'o transaction list \<Rightarrow> batch_result \<Rightarrow> batch_result" where
  "run_sequential E n [] r = r"
| "run_sequential E n (tx # txs) r = run_sequential E (Suc n) txs
    (case compute_transaction_diff False E (br_state r) tx of
       Inl e \<Rightarrow> r\<lparr>br_failed := br_failed r @ [(n, e)]\<rparr>
     | Inr d \<Rightarrow> (case apply_diff E d (br_state r) of
          (Inl e, l) \<Rightarrow> r\<lparr>br_state := l, br_failed := br_failed r @ [(n, e)]\<rparr>
        | (Inr _, l) \<Rightarrow> r\<lparr>br_state := l, br_total_fees := saturating_add (br_total_fees r) (diff_total_fees d)\<rparr>))"

definition execute_sequential :: "'o tx_env \<Rightarrow> ledger \<Rightarrow> 'o transaction list \<Rightarrow> batch_result" where
  "execute_sequential E l txs =
    (let r = run_sequential E 0 txs \<lparr>br_state = l, br_failed = [], br_applied = 0, br_total_fees = 0\<rparr>
     in r\<lparr>br_applied := length txs - length (br_failed r)\<rparr>)"

end
