(* ===== verification/Scheduler.thy ===== *)
theory Scheduler
  imports Execution
begin

text \<open>
  The conflict domains of transactions and the partition of a batch
  (\<^verbatim>\<open>truthlinked-runtime/src/compiler_aware.rs\<close>): which accounts, storage keys and global
  resources a transaction may read and write, and the greedy grouping of transactions
  whose domains do not conflict. Hash sets are sets; an offset and a length whose sum
  overflows lie beyond every calldata, as they do here, where the sum is exact.
\<close>

section \<open>Conflict domains\<close>

datatype domain_key = AccountKey bytes | CellStorageKey bytes bytes | GlobalKey string | UnknownKey bytes

record conflict_domain =
  dom_reads :: "domain_key set"
  dom_writes :: "domain_key set"

definition conflicts_with :: "conflict_domain \<Rightarrow> conflict_domain \<Rightarrow> bool" where
  "conflicts_with d e \<longleftrightarrow> dom_writes d \<inter> dom_writes e \<noteq> {} \<or> dom_reads d \<inter> dom_writes e \<noteq> {}
     \<or> dom_writes d \<inter> dom_reads e \<noteq> {}"

definition join_domains :: "conflict_domain \<Rightarrow> conflict_domain \<Rightarrow> conflict_domain" where
  "join_domains d e = \<lparr>dom_reads = dom_reads d \<union> dom_reads e, dom_writes = dom_writes d \<union> dom_writes e\<rparr>"

definition no_domain :: conflict_domain where
  "no_domain = \<lparr>dom_reads = {}, dom_writes = {}\<rparr>"

definition writing :: "domain_key list \<Rightarrow> conflict_domain" where
  "writing ks = \<lparr>dom_reads = {}, dom_writes = set ks\<rparr>"

text \<open>The keys that the specifications of a cell take out of the calldata.\<close>

definition calldata_keys :: "storage_key_spec list \<Rightarrow> bytes \<Rightarrow> bytes list" where
  "calldata_keys specs cd = map (\<lambda>s. take 32 (drop (spec_offset s) cd))
     (filter (\<lambda>s. spec_len s = 32 \<and> spec_offset s + spec_len s \<le> length cd) specs)"

definition call_domain :: "bytes \<Rightarrow> bytes \<Rightarrow> cell_account option \<Rightarrow> conflict_domain" where
  "call_domain cid cd c = (case c of
     None \<Rightarrow> writing [GlobalKey ''global'']
   | Some c \<Rightarrow>
      \<lparr>dom_reads = set (map (CellStorageKey cid) (acc_declared_reads c)),
       dom_writes = set (map (CellStorageKey cid)
         (filter (\<lambda>k. k \<notin> set (acc_commutative_keys c))
           (acc_declared_writes c @ calldata_keys (acc_storage_key_specs c) cd)))\<rparr>)"

fun cell_intent_domain :: "(bytes, cell_account) omap \<Rightarrow> cell_intent \<Rightarrow> conflict_domain" where
  "cell_intent_domain cs (CallCell cid cd val g) = call_domain cid cd (om_get cs cid)"
| "cell_intent_domain cs (CallCellChain calls g) =
     fold (\<lambda>c d. join_domains d (call_domain (cc_cell_id c) (cc_calldata c) (om_get cs (cc_cell_id c)))) calls no_domain"
| "cell_intent_domain cs (CloseCell cid) = writing [CellStorageKey cid cid]"
| "cell_intent_domain cs (ProposeCellUpgrade cid raw rs ws comm specs schemas lock) = writing [CellStorageKey cid cid]"
| "cell_intent_domain cs (ProposeCellOwnershipTransfer cid new lock) = writing [CellStorageKey cid cid]"
| "cell_intent_domain cs (ProposeCellMakeImmutable cid lock) = writing [CellStorageKey cid cid]"
| "cell_intent_domain cs (VoteCellProposal cid app) = writing [CellStorageKey cid cid]"
| "cell_intent_domain cs (ExecuteCellProposal cid) = writing [CellStorageKey cid cid]"
| "cell_intent_domain cs _ = writing [GlobalKey ''global'']"

definition from_transaction :: "(bytes, cell_account) omap \<Rightarrow> 'o transaction \<Rightarrow> conflict_domain" where
  "from_transaction cs tx = (case tx_intent tx of
     Transfer r _ _ \<Rightarrow> writing [AccountKey (tx_sender tx), AccountKey r]
   | Claim r _ _ \<Rightarrow> writing [AccountKey (tx_sender tx), AccountKey r]
   | BatchTransfer ts \<Rightarrow> writing (AccountKey (tx_sender tx) # map (\<lambda>t. AccountKey (bte_recipient t)) ts)
   | TransferToName _ _ \<Rightarrow> writing [AccountKey (tx_sender tx), GlobalKey ''name_registry'']
   | BatchTransferToName _ \<Rightarrow> writing [AccountKey (tx_sender tx), GlobalKey ''name_registry'']
   | DepositCompute _ \<Rightarrow> writing [AccountKey (tx_sender tx)]
   | WithdrawCompute _ \<Rightarrow> writing [AccountKey (tx_sender tx)]
   | WrapTLKD _ \<Rightarrow> writing [AccountKey (tx_sender tx)]
   | UnwrapTLKD _ \<Rightarrow> writing [AccountKey (tx_sender tx)]
   | TokenTransfer tok _ _ \<Rightarrow> writing [CellStorageKey tok (tx_sender tx)]
   | ProposeTokenAuthority _ _ _ _ _ _ \<Rightarrow> writing [GlobalKey ''system'']
   | VoteTokenAuthority _ _ \<Rightarrow> writing [GlobalKey ''system'']
   | CallSystem _ _ \<Rightarrow> writing [GlobalKey ''system'']
   | ProposeUrl _ _ _ \<Rightarrow> writing [GlobalKey ''system'']
   | VoteUrl _ _ \<Rightarrow> writing [GlobalKey ''system'']
   | ReportMaliciousUrl _ _ \<Rightarrow> writing [GlobalKey ''system'']
   | CellIntent ci \<Rightarrow> cell_intent_domain cs ci
   | _ \<Rightarrow> writing [GlobalKey ''global''])"

section \<open>The partition\<close>

type_synonym partitions = "(nat list \<times> conflict_domain) list"

primrec place_tx :: "nat \<Rightarrow> conflict_domain \<Rightarrow> partitions \<Rightarrow> partitions" where
  "place_tx i d [] = [([i], d)]"
| "place_tx i d (p # ps) =
    (if \<not> conflicts_with d (snd p) then (fst p @ [i], join_domains (snd p) d) # ps else p # place_tx i d ps)"

definition place_all_txs :: "(bytes, cell_account) omap \<Rightarrow> 'o transaction list \<Rightarrow> partitions" where
  "place_all_txs cs txs = fold (\<lambda>(i, tx). place_tx i (from_transaction cs tx)) (enumerate 0 txs) []"

definition partition_by_compiler_domains :: "(bytes, cell_account) omap \<Rightarrow> 'o transaction list \<Rightarrow> nat list list" where
  "partition_by_compiler_domains cs txs = map fst (place_all_txs cs txs)"

section \<open>What the partition guarantees\<close>

lemma conflicts_sym: "conflicts_with d e \<longleftrightarrow> conflicts_with e d"
  by (auto simp: conflicts_with_def)

lemma conflicts_join: "conflicts_with d (join_domains e f) \<longleftrightarrow> conflicts_with d e \<or> conflicts_with d f"
  by (auto simp: conflicts_with_def join_domains_def)

text \<open>
  A group is sound for given domains when it lists increasing indices, its domain
  conflicts with whatever conflicts with a member, and no two members conflict.
\<close>

definition group_ok :: "(nat \<Rightarrow> conflict_domain) \<Rightarrow> nat list \<times> conflict_domain \<Rightarrow> bool" where
  "group_ok D p \<longleftrightarrow> (\<forall>i \<in> set (fst p). \<forall>d. conflicts_with d (D i) \<longrightarrow> conflicts_with d (snd p))
     \<and> pairwise (\<lambda>i j. \<not> conflicts_with (D i) (D j)) (set (fst p)) \<and> sorted_wrt (<) (fst p)"

lemma group_ok_place:
  assumes "\<forall>p \<in> set ps. group_ok D p" and "\<forall>p \<in> set ps. \<forall>j \<in> set (fst p). j < i"
  shows "\<forall>p \<in> set (place_tx i (D i) ps). group_ok D p"
  using assms
proof (induction ps)
  case Nil
  then show ?case by (simp add: group_ok_def)
next
  case (Cons p ps)
  have "group_ok D (fst p @ [i], join_domains (snd p) (D i))" if "\<not> conflicts_with (D i) (snd p)"
    using Cons.prems that
    by (auto simp: group_ok_def conflicts_join pairwise_insert sorted_wrt_append dest: conflicts_sym [THEN iffD1])
  then show ?case
    using Cons by (auto simp: conflicts_sym)
qed

lemma indices_place: "mset (concat (map fst (place_tx i d ps))) = add_mset i (mset (concat (map fst ps)))"
  by (induction ps) auto

lemma placed_all:
  assumes "ps = fold (\<lambda>(i, tx). place_tx i (from_transaction cs tx)) (enumerate 0 txs) []"
  shows "(\<forall>p \<in> set ps. group_ok (\<lambda>i. from_transaction cs (txs ! i)) p) \<and> mset (concat (map fst ps)) = mset [0..<length txs]"
  using assms
proof (induction txs arbitrary: ps rule: rev_induct)
  case Nil
  then show ?case by simp
next
  case (snoc tx txs)
  let ?ps = "fold (\<lambda>(i, tx). place_tx i (from_transaction cs tx)) (enumerate 0 txs) []"
  let ?D = "\<lambda>i. from_transaction cs ((txs @ [tx]) ! i)"
  have ps: "ps = place_tx (length txs) (?D (length txs)) ?ps"
    using snoc.prems by (simp add: enumerate_append_eq)
  have m: "mset (concat (map fst ?ps)) = mset [0..<length txs]"
    using snoc.IH by simp
  then have lt: "\<forall>p \<in> set ?ps. \<forall>j \<in> set (fst p). j < length txs"
    using mset_eq_setD [OF m] by auto
  have "group_ok ?D p \<longleftrightarrow> group_ok (\<lambda>i. from_transaction cs (txs ! i)) p" if "p \<in> set ?ps" for p
    using lt that by (simp add: group_ok_def pairwise_def nth_append)
  then have "\<forall>p \<in> set ps. group_ok ?D p"
    unfolding ps using snoc.IH lt by (intro group_ok_place) auto
  moreover have "mset (concat (map fst ps)) = mset [0..<length (txs @ [tx])]"
    unfolding ps indices_place m by simp
  ultimately show ?case by simp
qed

text \<open>
  C8. The partition of a batch is sound: every transaction is in exactly one group, every group
  lists its transactions in the order of the batch, and no two transactions of a group have
  conflicting domains.
\<close>

theorem partition_sound:
  "distinct (concat (partition_by_compiler_domains cs txs))
   \<and> set (concat (partition_by_compiler_domains cs txs)) = {..<length txs}
   \<and> (\<forall>g \<in> set (partition_by_compiler_domains cs txs). sorted_wrt (<) g
        \<and> pairwise (\<lambda>i j. \<not> conflicts_with (from_transaction cs (txs ! i)) (from_transaction cs (txs ! j))) (set g))"
proof -
  note p = placed_all [OF refl, of cs txs, folded place_all_txs_def]
  have "distinct (concat (map fst (place_all_txs cs txs)))"
    using p mset_eq_imp_distinct_iff [of "concat (map fst (place_all_txs cs txs))" "[0..<length txs]"] by simp
  moreover have "set (concat (map fst (place_all_txs cs txs))) = {..<length txs}"
    using mset_eq_setD [OF conjunct2 [OF p]] by auto
  moreover have "\<forall>g \<in> set (partition_by_compiler_domains cs txs). sorted_wrt (<) g
        \<and> pairwise (\<lambda>i j. \<not> conflicts_with (from_transaction cs (txs ! i)) (from_transaction cs (txs ! j))) (set g)"
    using conjunct1 [OF p] by (auto simp: partition_by_compiler_domains_def group_ok_def)
  ultimately show ?thesis
    unfolding partition_by_compiler_domains_def by simp
qed

text \<open>Two transfers between different pairs of accounts share a group, two to the same account do not.\<close>

definition plain_transfer :: "u8 \<Rightarrow> u8 \<Rightarrow> unit transaction" where
  "plain_transfer a b = \<lparr>tx_sender = [a], tx_intent = Transfer [b] None 1, tx_signature = [], tx_nonce = 1, tx_timestamp = 0,
     tx_genesis_fingerprint = [], tx_expiration_height = 9\<rparr>"

lemma plain_partition:
  "partition_by_compiler_domains [] [plain_transfer 1 2, plain_transfer 3 4, plain_transfer 5 2] = [[0, 1], [2]]"
  by (simp add: partition_by_compiler_domains_def place_all_txs_def plain_transfer_def from_transaction_def writing_def
      conflicts_with_def join_domains_def)

theorem partition_sound_witness:
  "\<not> conflicts_with (from_transaction [] (plain_transfer 1 2)) (from_transaction [] (plain_transfer 3 4))"
  using partition_sound [of "[]" "[plain_transfer 1 2, plain_transfer 3 4, plain_transfer 5 2]"]
  by (simp add: plain_partition pairwise_def)

end
