(* ===== verification/Parallel.thy ===== *)
theory Parallel
  imports Scheduler
begin

text \<open>
  The parallel executor (\<^verbatim>\<open>truthlinked-state/src/parallel_executor.rs\<close>): every transaction of a
  batch is turned into a diff against the same state, the diffs are composed by a parallel
  fold and reduce, and the composed diff is merged into the state at once. How the work is
  split among threads is an argument: a tree over the groups, whose leaves are folded and
  whose nodes are reduced. Hash maps with account identifiers as keys are sorted maps; the
  order in which they are walked can change which of two errors is reported, nothing else.
\<close>

section \<open>Compaction\<close>

primrec sum_by_account :: "string \<Rightarrow> (bytes \<times> u128) list \<Rightarrow> (bytes, u128) omap \<Rightarrow> string + (bytes, u128) omap" where
  "sum_by_account label [] m = Inr m"
| "sum_by_account label (e # es) m =
    (case checked_add (case om_get m (fst e) of Some a \<Rightarrow> a | None \<Rightarrow> 0) (snd e) of
       None \<Rightarrow> Inl (label @ '' overflow'')
     | Some a \<Rightarrow> sum_by_account label es (om_put (fst e) a m))"

definition compact_account_u128_pairs :: "string \<Rightarrow> (bytes \<times> u128) list \<Rightarrow> string + (bytes \<times> u128) list" where
  "compact_account_u128_pairs label es = (if length es \<le> 1 then Inr es else sum_by_account label es [])"

fun join_credits :: "bytes \<times> bytes \<times> u128 \<Rightarrow> (bytes \<times> bytes \<times> u128) list \<Rightarrow> string + (bytes \<times> bytes \<times> u128) list" where
  "join_credits cur [] = Inr [cur]"
| "join_credits (tok, r, amt) ((tok', r', amt') # es) =
    (if tok' = tok \<and> r' = r then (case checked_add amt amt' of
       None \<Rightarrow> Inl ''Token credit overflow during merge compaction''
     | Some s \<Rightarrow> join_credits (tok, r, s) es)
     else (case join_credits (tok', r', amt') es of Inl e \<Rightarrow> Inl e | Inr cs \<Rightarrow> Inr ((tok, r, amt) # cs)))"

definition compact_token_credit_triples :: "(bytes \<times> bytes \<times> u128) list \<Rightarrow> string + (bytes \<times> bytes \<times> u128) list" where
  "compact_token_credit_triples es = (if length es \<le> 1 then Inr es
     else case sort_key (\<lambda>(tok, r, _). (tok, r)) es of [] \<Rightarrow> Inr [] | e # es \<Rightarrow> join_credits e es)"

section \<open>Merging a diff\<close>

definition replace_account :: "bytes \<times> account_record \<Rightarrow> ledger \<Rightarrow> ledger" where
  "replace_account = (\<lambda>(i, a). set_account i a)"

definition named_account :: "bytes \<Rightarrow> account_record" where
  "named_account i = blank_account\<lparr>pubkey_bytes := i\<rparr>"

definition merge_credit_native :: "bytes \<times> u128 \<Rightarrow> ledger \<Rightarrow> step_result" where
  "merge_credit_native = (\<lambda>(i, amt) l. let a = account_or (named_account i) i l; l = set_account i a l in
     case checked_add (acct_balance a) amt of
       None \<Rightarrow> (Inl ''Recipient balance overflow'', l)
     | Some b \<Rightarrow> (Inr (), set_account i (a\<lparr>acct_balance := b\<rparr>) l))"

definition merge_credit_escrow :: "bytes \<times> u128 \<Rightarrow> ledger \<Rightarrow> step_result" where
  "merge_credit_escrow = (\<lambda>(i, amt) l. let a = account_or (named_account i) i l; l = set_account i a l in
     case checked_add (compute_escrow a) amt of
       None \<Rightarrow> (Inl ''Recipient escrow overflow'', l)
     | Some b \<Rightarrow> (Inr (), set_account i (a\<lparr>compute_escrow := b\<rparr>) l))"

definition merge_fees :: "state_diff \<Rightarrow> ledger \<Rightarrow> ledger" where
  "merge_fees d l = (if is_system d then l
     else l\<lparr>accumulated_gas_fees := accumulated_gas_fees l + gas_fee d,
            accumulated_compute_fees := accumulated_compute_fees l + compute_fee_tlkd d,
            accumulated_treasury_fees := accumulated_treasury_fees l + treasury_fee d\<rparr>)"

definition merge_hashes :: "state_diff \<Rightarrow> ledger \<Rightarrow> ledger" where
  "merge_hashes d l = (if is_system d then l
     else l\<lparr>executed_tx_hashes := fold List.insert (if tx_hashes d = [] then [tx_hash d] else tx_hashes d)
       (executed_tx_hashes l)\<rparr>)"

definition vote_pending_name :: "('z) ledger_env_scheme \<Rightarrow> bytes \<times> bytes \<times> u64 \<Rightarrow> ledger \<Rightarrow> ledger" where
  "vote_pending_name E = (\<lambda>(name, pk, stk) l. case om_get (pending_names l) name of
     None \<Rightarrow> l
   | Some p \<Rightarrow>
      if pk \<in> set (reg_votes p) then l
      else
        let p = p\<lparr>reg_votes := pk # reg_votes p, reg_total_stake_voted := saturating_add (reg_total_stake_voted p) stk\<rparr>;
            tot = active_total (staking l)
        in if tot > 0 \<and> (reg_total_stake_voted p * 100) div tot \<ge> env_gp E ''name.approval_threshold''
           then l\<lparr>name_registry := om_put name \<lparr>nreg_name = reg_name p, nreg_owner = reg_owner p,
                    nreg_target = reg_cell_id p, nreg_registered_at = reg_proposed_at p,
                    nreg_expires_at = reg_proposed_at p + env_gp E ''name.expiration_blocks'',
                    nreg_is_cell = reg_is_cell p\<rparr> (name_registry l),
                  pending_names := om_del name (pending_names l)\<rparr>
           else l\<lparr>pending_names := om_put name p (pending_names l)\<rparr>)"

definition merge_steps :: "('z) ledger_env_scheme \<Rightarrow> state_diff \<Rightarrow> (ledger \<Rightarrow> step_result) list" where
  "merge_steps E d =
    [always (fold replace_account (account_updates d)),
     always (fold update_nonce (nonce_updates d)),
     each (apply_staking_update E) (staking_updates d),
     always (fold update_nft (nft_updates d)),
     each (apply_cell_update E) (cell_updates d),
     each merge_credit_native (native_transfers d),
     each debit_native (native_debits d),
     each merge_credit_escrow (compute_escrow_credits d),
     each debit_escrow (compute_escrow_debits d),
     each credit_token (token_credits d),
     always (fold update_token_balance (token_balance_updates d)),
     each (pay_staking_reward E) (staking_rewards d),
     each credit_cell (cell_credits d),
     each debit_cell (cell_debits d),
     always (fold apply_storage_deltas (storage_deltas d)),
     always (merge_fees d),
     always (collect_name_fee E d),
     spend_gas_fees d, spend_name_fees d, spend_compute_fees d, spend_treasury_fees d,
     always (merge_hashes d),
     always (fold (register_name E) (pending_name_proposals d)),
     always (fold add_authority_proposal (pending_token_authority_proposals d)),
     always (fold (vote_pending_name E) (name_votes d)),
     always (vote_authorities E (token_authority_votes d)),
     always (fold (renew_name E) (name_renewals d)),
     always (fold transfer_name (name_transfers d)),
     always (fold record_claim (diff_airdrop_claims d)),
     always (fold update_frozen (frozen_account_updates d)),
     each (apply_oracle_update E) (oracle_updates d)]"

definition merge_diff_inplace :: "('z) ledger_env_scheme \<Rightarrow> state_diff \<Rightarrow> ledger \<Rightarrow> step_result" where
  "merge_diff_inplace E d = steps_in_order (merge_steps E d)"

section \<open>Composing diffs\<close>

text \<open>Insertion of the entries of a map until one of them was already there.\<close>

primrec insert_fresh :: "('k::linorder \<times> 'v) list \<Rightarrow> ('k, 'v) omap \<Rightarrow> bool \<times> ('k, 'v) omap" where
  "insert_fresh [] m = (True, m)"
| "insert_fresh (e # es) m = (let m' = om_put (fst e) (snd e) m in
     if om_get m (fst e) \<noteq> None then (False, m') else insert_fresh es m')"

definition compose_deltas :: "(bytes \<times> delta_op) list \<Rightarrow> (bytes \<times> delta_op) list \<Rightarrow> (bytes \<times> delta_op) list" where
  "compose_deltas new old = fold (\<lambda>(k, op) m. case map_of m k of
     Some op' \<Rightarrow> (case delta_compose op' op of Inr c \<Rightarrow> entry_put k c m | Inl _ \<Rightarrow> m)
   | None \<Rightarrow> entry_put k op m) new old"

definition compose_storage :: "(bytes \<times> (bytes \<times> delta_op) list) list \<Rightarrow> (bytes \<times> (bytes \<times> delta_op) list) list
    \<Rightarrow> (bytes \<times> (bytes \<times> delta_op) list) list" where
  "compose_storage new old = fold (\<lambda>(cid, ds) m. entry_put cid
     (compose_deltas ds (case map_of m cid of Some old \<Rightarrow> old | None \<Rightarrow> [])) m) new old"

text \<open>The commutative lists, which fold and reduce extend first.\<close>

definition extend_commutative :: "state_diff \<Rightarrow> state_diff \<Rightarrow> state_diff" where
  "extend_commutative d c = c\<lparr>native_transfers := native_transfers c @ native_transfers d,
     native_debits := native_debits c @ native_debits d,
     compute_escrow_credits := compute_escrow_credits c @ compute_escrow_credits d,
     compute_escrow_debits := compute_escrow_debits c @ compute_escrow_debits d,
     token_credits := token_credits c @ token_credits d,
     token_balance_updates := token_balance_updates c @ token_balance_updates d,
     staking_rewards := staking_rewards c @ staking_rewards d, cell_credits := cell_credits c @ cell_credits d\<rparr>"

definition extend_cell_debits :: "state_diff \<Rightarrow> state_diff \<Rightarrow> state_diff" where
  "extend_cell_debits d c = c\<lparr>cell_debits := cell_debits c @ cell_debits d\<rparr>"

text \<open>What follows the checked maps.\<close>

definition extend_rest :: "state_diff \<Rightarrow> state_diff \<Rightarrow> state_diff" where
  "extend_rest d c = c\<lparr>staking_updates := staking_updates c @ staking_updates d,
     cell_updates := cell_updates c @ cell_updates d,
     pending_name_proposals := pending_name_proposals c @ pending_name_proposals d,
     name_votes := name_votes c @ name_votes d,
     pending_token_authority_proposals := pending_token_authority_proposals c @ pending_token_authority_proposals d,
     token_authority_votes := token_authority_votes c @ token_authority_votes d,
     name_renewals := name_renewals c @ name_renewals d, name_transfers := name_transfers c @ name_transfers d,
     frozen_account_updates := frozen_account_updates c @ frozen_account_updates d,
     oracle_updates := oracle_updates c @ oracle_updates d, nonce_updates := nonce_updates c @ nonce_updates d,
     diff_airdrop_claims := diff_airdrop_claims c @ diff_airdrop_claims d,
     gas_fee := gas_fee c + gas_fee d, name_fee := name_fee c + name_fee d,
     cu_fee := saturating_add (cu_fee c) (cu_fee d), treasury_fee := saturating_add (treasury_fee c) (treasury_fee d),
     compute_fee_tlkd := saturating_add (compute_fee_tlkd c) (compute_fee_tlkd d),
     gas_fee_spent := saturating_add (gas_fee_spent c) (gas_fee_spent d),
     name_fee_spent := saturating_add (name_fee_spent c) (name_fee_spent d),
     compute_fee_spent := saturating_add (compute_fee_spent c) (compute_fee_spent d),
     treasury_fee_spent := saturating_add (treasury_fee_spent c) (treasury_fee_spent d),
     fee_burned := saturating_add (fee_burned c) (fee_burned d), is_system := is_system c \<or> is_system d,
     storage_deltas := compose_storage (storage_deltas d) (storage_deltas c)\<rparr>"

record composed =
  co_errors :: "(nat \<times> string) list"
  co_count :: nat
  co_diff :: state_diff

definition composed_new :: composed where
  "composed_new = \<lparr>co_errors = [], co_count = 0, co_diff = diff_default\<rparr>"

definition fall_back :: "composed \<Rightarrow> composed" where
  "fall_back c = c\<lparr>co_errors := co_errors c @ [(0, ''PARTITION_FALLBACK'')]\<rparr>"

text \<open>
  The checked maps and what follows them, with \<^verbatim>\<open>post\<close> for the last part; whether the
  composition goes on is the first component.
\<close>

definition extend_checked :: "(state_diff \<Rightarrow> state_diff) \<Rightarrow> state_diff \<Rightarrow> composed \<Rightarrow> bool \<times> composed" where
  "extend_checked post d c =
    (let (ok, au) = insert_fresh (account_updates d) (account_updates (co_diff c));
         c = c\<lparr>co_diff := (co_diff c)\<lparr>account_updates := au\<rparr>\<rparr>
     in if \<not> ok then (False, fall_back c)
        else let (ok, nu) = insert_fresh (nft_updates d) (nft_updates (co_diff c));
                 c = c\<lparr>co_diff := (co_diff c)\<lparr>nft_updates := nu\<rparr>\<rparr>
             in if \<not> ok then (False, fall_back c) else (True, c\<lparr>co_diff := post (co_diff c)\<rparr>))"

definition compose_diff :: "'o tx_env \<Rightarrow> state_diff \<Rightarrow> composed \<Rightarrow> bool \<times> composed" where
  "compose_diff E d c =
    (if tx_hash d \<in> set (tx_hashes (co_diff c))
     then (True, c\<lparr>co_count := co_count c - 1,
       co_errors := co_errors c @ [(0, ''in-batch replay rejected: '' @ env_hex E (tx_hash d))]\<rparr>)
     else extend_checked (extend_rest d) d (c\<lparr>co_diff := extend_cell_debits d (extend_commutative d
       ((co_diff c)\<lparr>tx_hashes := tx_hashes (co_diff c) @ [tx_hash d]\<rparr>))\<rparr>))"

primrec compose_diffs :: "'o tx_env \<Rightarrow> state_diff list \<Rightarrow> composed \<Rightarrow> composed" where
  "compose_diffs E [] c = c"
| "compose_diffs E (d # ds) c = (case compose_diff E d c of (go, c) \<Rightarrow> if go then compose_diffs E ds c else c)"

type_synonym group_result = "state_diff list \<times> (nat \<times> string) list"

definition compose_group :: "'o tx_env \<Rightarrow> group_result \<Rightarrow> composed \<Rightarrow> composed" where
  "compose_group E g c = compose_diffs E (fst g)
     (c\<lparr>co_count := co_count c + length (fst g), co_errors := co_errors c @ snd g\<rparr>)"

definition add_hash :: "'o tx_env \<Rightarrow> bytes \<Rightarrow> composed \<Rightarrow> composed" where
  "add_hash E h c = (if h \<in> set (tx_hashes (co_diff c))
     then c\<lparr>co_errors := co_errors c @ [(0, ''in-batch replay rejected (reduce): '' @ env_hex E h)]\<rparr>
     else c\<lparr>co_diff := (co_diff c)\<lparr>tx_hashes := tx_hashes (co_diff c) @ [h]\<rparr>\<rparr>)"

definition reduce_composed :: "'o tx_env \<Rightarrow> composed \<Rightarrow> composed \<Rightarrow> composed" where
  "reduce_composed E c1 c2 =
    (let c = fold (add_hash E) (tx_hashes (co_diff c2)) (c1\<lparr>co_errors := co_errors c1 @ co_errors c2\<rparr>);
         c = c\<lparr>co_diff := extend_commutative (co_diff c2) (co_diff c)\<rparr>
     in (snd (extend_checked (extend_rest (co_diff c2) \<circ> extend_cell_debits (co_diff c2)) (co_diff c2) c))
          \<lparr>co_count := co_count c1 + co_count c2\<rparr>)"

text \<open>A split of the work: leaves are folded, nodes reduced.\<close>

datatype 'a work_split = Chunk "'a list" | Split "'a work_split" "'a work_split"

primrec split_items :: "'a work_split \<Rightarrow> 'a list" where
  "split_items (Chunk gs) = gs"
| "split_items (Split a b) = split_items a @ split_items b"

primrec compose_split :: "'o tx_env \<Rightarrow> group_result work_split \<Rightarrow> composed" where
  "compose_split E (Chunk gs) = reduce_composed E composed_new (fold (compose_group E) gs composed_new)"
| "compose_split E (Split a b) = reduce_composed E (compose_split E a) (compose_split E b)"

section \<open>The executor\<close>

definition run_group :: "'o tx_env \<Rightarrow> ledger \<Rightarrow> 'o transaction list \<Rightarrow> nat list \<Rightarrow> group_result" where
  "run_group E l txs g = (let rs = map (\<lambda>i. (i, compute_transaction_diff False E l (txs ! i))) g in
     (concat (map (\<lambda>(i, r). case r of Inr d \<Rightarrow> [d] | Inl _ \<Rightarrow> []) rs),
      concat (map (\<lambda>(i, r). case r of Inl e \<Rightarrow> [(i, e)] | Inr _ \<Rightarrow> []) rs)))"

definition bind_sum :: "string + 'a \<Rightarrow> ('a \<Rightarrow> string + 'b) \<Rightarrow> string + 'b" where
  "bind_sum r f = (case r of Inl e \<Rightarrow> Inl e | Inr x \<Rightarrow> f x)"

definition compact_diff :: "state_diff \<Rightarrow> string + state_diff" where
  "compact_diff d =
     bind_sum (compact_account_u128_pairs ''Native transfer'' (native_transfers d)) (\<lambda>xs. let d = d\<lparr>native_transfers := xs\<rparr> in
     bind_sum (compact_account_u128_pairs ''Native debit'' (native_debits d)) (\<lambda>xs. let d = d\<lparr>native_debits := xs\<rparr> in
     bind_sum (compact_account_u128_pairs ''Compute escrow credit'' (compute_escrow_credits d)) (\<lambda>xs. let d = d\<lparr>compute_escrow_credits := xs\<rparr> in
     bind_sum (compact_account_u128_pairs ''Compute escrow debit'' (compute_escrow_debits d)) (\<lambda>xs. let d = d\<lparr>compute_escrow_debits := xs\<rparr> in
     bind_sum (compact_account_u128_pairs ''Staking reward'' (staking_rewards d)) (\<lambda>xs. let d = d\<lparr>staking_rewards := xs\<rparr> in
     bind_sum (compact_account_u128_pairs ''Cell credit'' (cell_credits d)) (\<lambda>xs. let d = d\<lparr>cell_credits := xs\<rparr> in
     bind_sum (compact_token_credit_triples (token_credits d)) (\<lambda>xs. Inr (d\<lparr>token_credits := xs\<rparr>))))))))"

definition falls_back :: "composed \<Rightarrow> bool" where
  "falls_back c \<longleftrightarrow> list_ex (\<lambda>e. snd e = ''PARTITION_FALLBACK'') (co_errors c)"

definition execute_parallel :: "'o tx_env \<Rightarrow> (group_result list \<Rightarrow> group_result work_split) \<Rightarrow> ledger \<Rightarrow> 'o transaction list
    \<Rightarrow> string + batch_result" where
  "execute_parallel E sp l txs =
    (let c = compose_split E (sp (map (run_group E l txs) (partition_by_compiler_domains (cst_cells (cells l)) txs))) in
     if falls_back c then Inr (execute_sequential E l txs)
     else bind_sum (compact_diff (co_diff c)) (\<lambda>d. case merge_diff_inplace E d l of
       (Inl e, _) \<Rightarrow> Inl (''Merge failed after partial execution: '' @ e)
     | (Inr _, l') \<Rightarrow> Inr \<lparr>br_state = l', br_failed = co_errors c, br_applied = co_count c,
         br_total_fees = diff_total_fees d\<rparr>))"

definition execute_batch_parallel :: "'o tx_env \<Rightarrow> (group_result list \<Rightarrow> group_result work_split) \<Rightarrow> ledger
    \<Rightarrow> 'o transaction list \<Rightarrow> string + batch_result" where
  "execute_batch_parallel E sp l txs =
    (if txs = [] then Inr \<lparr>br_state = l, br_failed = [], br_applied = 0, br_total_fees = 0\<rparr>
     else if length txs < 8 then Inr (execute_sequential E l txs)
     else if \<not> distinct (map tx_sender txs) then Inr (execute_sequential E l txs)
     else execute_parallel E sp l txs)"

end
