(* ===== verification/Block_End.thy ===== *)
theory Block_End
  imports Parallel
begin

text \<open>
  What happens to the state at the end of a block (\<^verbatim>\<open>truthlinked-state/src/pq_execution.rs\<close>): oracle
  requests time out, collections are pruned, fees are distributed and the treasury emits
  currency; and the whole block, \<^verbatim>\<open>execute_batch_with_results\<close> of
  \<^verbatim>\<open>truthlinked-consensus/src/streaming_consensus.rs\<close>. A panic is \<^verbatim>\<open>None\<close>. The process-wide copy of
  the oracle results, which mirrors the one in the state, has no counterpart.
\<close>

section \<open>Staked holders\<close>

definition STAKED_TRTH_MAX_LOCK_BLOCKS :: u64 where
  "STAKED_TRTH_MAX_LOCK_BLOCKS = 4 * 365 * 432000"

definition staking_cell_of :: "('z) ledger_env_scheme \<Rightarrow> ledger \<Rightarrow> cell_account option" where
  "staking_cell_of E l = cell_at l (sys_id E ''truthlinked-staking-v1'')"

definition load_staking_holders :: "('z) ledger_env_scheme \<Rightarrow> ledger \<Rightarrow> bytes list" where
  "load_staking_holders E l = (case staking_cell_of E l of
     None \<Rightarrow> []
   | Some c \<Rightarrow> List.map_filter (\<lambda>i. acc_storage c (staking_holders_elem_slot E (of_nat i)))
       [0..<unat (read_slot_u64 (acc_storage c) (staking_holders_len_slot E))])"

definition staking_balance_of :: "('z) ledger_env_scheme \<Rightarrow> ledger \<Rightarrow> bytes \<Rightarrow> u64 option" where
  "staking_balance_of E l who = (case staking_cell_of E l of
     None \<Rightarrow> None
   | Some c \<Rightarrow>
      if slot_flag (acc_storage c) (staking_exists_slot E who) \<noteq> 1 then None
      else
        let (amt, lock_end) = unpack_staking_position (case acc_storage c (staking_value_slot E who) of
              Some raw \<Rightarrow> raw | None \<Rightarrow> zeros 32);
            h = current_height (staking l)
        in if h \<ge> lock_end then None
           else
             let left = min (saturating_sub lock_end h) STAKED_TRTH_MAX_LOCK_BLOCKS;
                 b = saturating_mul amt (ucast left) div ucast STAKED_TRTH_MAX_LOCK_BLOCKS
             in if b = 0 then None else Some (ucast b))"

section \<open>Gas and name fees\<close>

type_synonym gas_share = "bytes \<times> u128 \<times> u64"

definition gas_share_step :: "('z) ledger_env_scheme \<Rightarrow> ledger \<Rightarrow> u128 \<Rightarrow> u64 \<Rightarrow> bytes \<times> validator_stake
    \<Rightarrow> gas_share list \<times> u128 \<Rightarrow> gas_share list \<times> u128" where
  "gas_share_step E l fees tot = (\<lambda>(pk, v) (ups, unmatched).
     if \<not> is_active (current_height (staking l)) v \<or> active_stake v = 0 then (ups, unmatched)
     else
       let share = (fees * ucast (active_stake v)) div ucast tot; i = account_id_from_pubkey E pk in
       if share = 0 then (ups, unmatched)
       else if om_get (accounts l) i \<noteq> None then (ups @ [(i, share, active_stake v)], unmatched)
       else (ups, saturating_add unmatched share))"

text \<open>The position of the largest stake, the last one of several, as \<^verbatim>\<open>max_by_key\<close> finds it.\<close>

definition last_max :: "u64 list \<Rightarrow> nat" where
  "last_max ss = fold (\<lambda>i b. if ss ! i \<ge> ss ! b then i else b) [0..<length ss] 0"

definition spread_unmatched :: "u128 \<Rightarrow> gas_share list \<Rightarrow> gas_share list" where
  "spread_unmatched unmatched ups =
    (let stakes = map (\<lambda>(_, _, s). s) ups; tot = sum_list stakes in
     if unmatched > 0 \<and> ups \<noteq> [] \<and> tot > 0 then
       let extras = map (\<lambda>s. (unmatched * ucast s) div ucast tot) stakes;
           dust = saturating_sub unmatched (sum_list extras);
           best = last_max stakes;
           extras = (if dust > 0 then extras[best := saturating_add (extras ! best) dust] else extras)
       in map (\<lambda>((i, share, s), extra). (i, saturating_add share extra, s)) (zip ups extras)
     else ups)"

definition compute_gas_fee_distribution_diff :: "('z) ledger_env_scheme \<Rightarrow> ledger \<Rightarrow> state_diff" where
  "compute_gas_fee_distribution_diff E l =
    (let d = diff_default\<lparr>is_system := True\<rparr>; fees = accumulated_gas_fees l in
     if fees = 0 then d
     else
       let tot = active_total (staking l); d = d\<lparr>gas_fee_spent := fees\<rparr> in
       if tot = 0 then d
       else
         let (ups, unmatched) = fold (gas_share_step E l fees tot) (validators (staking l)) ([], 0);
             ups = sort_key fst (spread_unmatched unmatched ups)
         in d\<lparr>native_transfers := map (\<lambda>(i, share, _). (i, share)) ups\<rparr>)"

definition add_dust :: "nat \<Rightarrow> u128 list \<Rightarrow> u128 list" where
  "add_dust dust shares = fold (\<lambda>i sh. let j = i mod length shares in sh[j := saturating_add (sh ! j) 1]) [0..<dust] shares"

definition compute_name_fee_distribution_diff :: "('z) ledger_env_scheme \<Rightarrow> ledger \<Rightarrow> state_diff" where
  "compute_name_fee_distribution_diff E l =
    (let d = diff_default\<lparr>is_system := True\<rparr>; fees = accumulated_name_fees l in
     if fees = 0 then d
     else
       let ids = map (\<lambda>e. account_id_from_pubkey E (fst e))
             (filter (\<lambda>e. is_active (current_height (staking l)) (snd e)) (validators (staking l)));
           n = length ids; d = d\<lparr>name_fee_spent := fees\<rparr> in
       if n = 0 then d
       else
         let share = fees div of_nat n; dust = saturating_sub fees (share * of_nat n);
             shares = add_dust (unat dust) (replicate n share)
         in d\<lparr>native_transfers := filter (\<lambda>x. snd x \<noteq> 0) (zip ids shares)\<rparr>)"

section \<open>The protocol's revenue\<close>

definition split_revenue :: "u128 \<Rightarrow> u128 \<times> u128 \<times> u128" where
  "split_revenue amt =
    (let vals = saturating_mul amt 6000 div 10000; stk = saturating_mul amt 2000 div 10000
     in (vals, stk, saturating_sub (saturating_sub amt vals) stk))"

text \<open>
  The parts of a share in proportion to weights, without those that round to nothing, and
  what is left over for burning.
\<close>

definition proportional :: "u128 \<Rightarrow> u128 \<Rightarrow> (bytes \<times> u64) list \<Rightarrow> (bytes \<times> u128) list" where
  "proportional share tot ws = filter (\<lambda>x. snd x > 0) (map (\<lambda>(i, w). (i, saturating_mul share (ucast w) div tot)) ws)"

definition left_over :: "u128 \<Rightarrow> (bytes \<times> u128) list \<Rightarrow> u128" where
  "left_over share xs = saturating_sub share (fold (\<lambda>x a. saturating_add a (snd x)) xs 0)"

definition distribute_share :: "u128 \<Rightarrow> u128 \<Rightarrow> (bytes \<times> u64) list \<Rightarrow> u128 \<Rightarrow> (bytes \<times> u128) list \<times> u128" where
  "distribute_share share tot ws burn =
    (if share > 0 \<and> tot > 0
     then let xs = proportional share tot ws in (xs, saturating_add burn (left_over share xs))
     else ([], saturating_add burn share))"

definition holder_weights :: "('z) ledger_env_scheme \<Rightarrow> ledger \<Rightarrow> (bytes \<times> u64) list" where
  "holder_weights E l = List.map_filter (\<lambda>h. map_option (\<lambda>w. (h, w)) (staking_balance_of E l h)) (load_staking_holders E l)"

definition compute_treasury_distribution_diff :: "('z) ledger_env_scheme \<Rightarrow> ledger \<Rightarrow> string + state_diff" where
  "compute_treasury_distribution_diff E l =
    (let protocol = saturating_add (saturating_add (accumulated_gas_fees l) (accumulated_name_fees l)) (accumulated_compute_fees l);
         treas = accumulated_treasury_fees l in
     if saturating_add protocol treas = 0 then Inr diff_default
     else
       let (vp, sp, bp) = split_revenue protocol; (vt, st, bt) = split_revenue treas;
           vshare = saturating_add vp vt; sshare = saturating_add sp st; burn = saturating_add bp bt;
           d = diff_default\<lparr>is_system := True, gas_fee_spent := accumulated_gas_fees l, name_fee_spent := accumulated_name_fees l,
             treasury_fee_spent := accumulated_treasury_fees l, compute_fee_spent := accumulated_compute_fees l\<rparr>;
           act = map (\<lambda>(pk, s). (account_id_from_pubkey E pk, s)) (get_active_validators (staking l));
           ws = holder_weights E l;
           (rewards, burn) = distribute_share vshare (ucast (sum_list (map snd act))) act burn;
           (payments, burn) = distribute_share sshare (fold (\<lambda>x a. saturating_add a (ucast (snd x))) ws 0) ws burn;
           d = d\<lparr>staking_rewards := rewards, native_transfers := payments, fee_burned := burn\<rparr>
       in if treas > 0 then
            (case cell_at l (treasury_id E) of
               None \<Rightarrow> Inl ''Treasury cell not found''
             | Some c \<Rightarrow>
                if acc_balance c < treas then Inl ''Treasury balance insufficient for distribution''
                else Inr (d\<lparr>cell_updates := [CuBalanceChange (treasury_id E) (saturating_sub (acc_balance c) treas)]\<rparr>))
          else Inr d)"

section \<open>Emission\<close>

definition BLOCKS_PER_YEAR :: u64 where "BLOCKS_PER_YEAR = 105120000"

definition EMISSION_YEAR1_TLKD :: u128 where "EMISSION_YEAR1_TLKD = 25000000"

definition EMISSION_DECAY_BPS_PER_YEAR :: u64 where "EMISSION_DECAY_BPS_PER_YEAR = 2000"

definition EMISSION_EPOCH_BLOCKS :: u64 where "EMISSION_EPOCH_BLOCKS = 432000"

definition emission_year :: "u64 \<Rightarrow> u32" where
  "emission_year h = ucast (h div EMISSION_EPOCH_BLOCKS * EMISSION_EPOCH_BLOCKS div BLOCKS_PER_YEAR)"

definition year_emission :: "u32 \<Rightarrow> u128 option" where
  "year_emission y =
    (let base = (10000 - ucast EMISSION_DECAY_BPS_PER_YEAR) ^ unat y; denom = (10000 :: u128) ^ unat y in
     if denom = 0 then None
     else Some (saturating_mul (saturating_mul EMISSION_YEAR1_TLKD ONE_TLKD) base div denom))"

definition compute_epoch_emission :: "u64 \<Rightarrow> ledger \<Rightarrow> u128 option" where
  "compute_epoch_emission h l = (case year_emission (emission_year h) of
     None \<Rightarrow> None
   | Some y \<Rightarrow>
      let e = y div ucast (BLOCKS_PER_YEAR div EMISSION_EPOCH_BLOCKS) in
      Some (if accumulated_epoch_fees l \<ge> e then 0 else e - accumulated_epoch_fees l))"

definition pay_emission_share :: "('z) ledger_env_scheme \<Rightarrow> bytes \<Rightarrow> u128 \<Rightarrow> ledger \<Rightarrow> ledger" where
  "pay_emission_share E pk share l =
    (if share = 0 then l
     else let i = account_id_from_pubkey E pk; a = account_or (blank_account\<lparr>pubkey_bytes := pk\<rparr>) i l
          in set_account i (a\<lparr>acct_balance := saturating_add (acct_balance a) share\<rparr>) l)"

fun pay_emission :: "('z) ledger_env_scheme \<Rightarrow> u128 \<Rightarrow> u64 \<Rightarrow> (bytes \<times> u64) list \<Rightarrow> u128 \<Rightarrow> ledger \<Rightarrow> ledger" where
  "pay_emission E em tot [] allocated l = l"
| "pay_emission E em tot [(pk, s)] allocated l = pay_emission_share E pk (saturating_sub em allocated) l"
| "pay_emission E em tot ((pk, s) # e # es) allocated l =
    (let share = saturating_mul em (ucast s) div ucast tot in
     pay_emission E em tot (e # es) (saturating_add allocated share) (pay_emission_share E pk share l))"

definition pay_epoch_emission :: "('z) ledger_env_scheme \<Rightarrow> u64 \<Rightarrow> ledger \<Rightarrow> ledger option" where
  "pay_epoch_emission E h l =
    (let epoch = h div EMISSION_EPOCH_BLOCKS in
     if epoch \<le> last_emission_epoch l then Some l
     else case compute_epoch_emission h l of
       None \<Rightarrow> None
     | Some em \<Rightarrow>
        if em = 0 then Some (l\<lparr>accumulated_epoch_fees := 0, last_emission_epoch := epoch\<rparr>)
        else
          let em = min em (case cell_at l (treasury_id E) of Some c \<Rightarrow> acc_balance c | None \<Rightarrow> 0) in
          if em = 0 then Some (l\<lparr>last_emission_epoch := epoch\<rparr>)
          else
            let l = (case cell_at l (treasury_id E) of
                  Some c \<Rightarrow> on_cells (set_cell (treasury_id E) (c\<lparr>acc_balance := saturating_sub (acc_balance c) em\<rparr>)) l
                | None \<Rightarrow> l);
                act = filter (\<lambda>x. snd x > 0) (get_active_validators (staking l)); tot = sum_list (map snd act);
                l = (if tot > 0 then pay_emission E em tot act 0 l else l)
            in Some (l\<lparr>accumulated_epoch_fees := 0, last_emission_epoch := epoch\<rparr>))"

section \<open>Timeouts and pruning\<close>

definition advance_block_counters :: "ledger \<Rightarrow> ledger" where
  "advance_block_counters l = l\<lparr>staking := (staking l)\<lparr>current_height := saturating_add (current_height (staking l)) 1\<rparr>\<rparr>"

definition expire_request :: "('z) ledger_env_scheme \<Rightarrow> bytes \<Rightarrow> ledger \<Rightarrow> ledger" where
  "expire_request E rid l = (case finalize_oracle_request_if_ready E rid l of (done, l) \<Rightarrow>
     if done then l
     else
       let l = l\<lparr>pending_oracle_requests := om_del rid (pending_oracle_requests l)\<rparr> in
       case om_get (oracle_pending l) rid of
         None \<Rightarrow> l
       | Some t \<Rightarrow> l\<lparr>oracle_pending := om_del rid (oracle_pending l),
           staking := snd (slash_silent_oracle_validators (env_gp E) (env_sigs E) rid
             (sort (map fst (commits t))) (sort (map fst (reveals t))) (staking l))\<rparr>)"

definition process_oracle_timeouts :: "('z) ledger_env_scheme \<Rightarrow> u64 \<Rightarrow> ledger \<Rightarrow> ledger" where
  "process_oracle_timeouts E h l =
     fold (expire_request E) (map fst (filter (\<lambda>e. h \<ge> req_expires_at (snd e)) (pending_oracle_requests l))) l"

definition prune_expired_oracle_results :: "u64 \<Rightarrow> ledger \<Rightarrow> ledger" where
  "prune_expired_oracle_results h l = l\<lparr>oracle_results := filter (\<lambda>e. \<not> is_expired (snd e) h) (oracle_results l)\<rparr>"

text \<open>Removal of the oldest entries beyond a number, the smaller key first among equally old ones.\<close>

definition prune_oldest :: "nat \<Rightarrow> ('v \<Rightarrow> u64) \<Rightarrow> (bytes, 'v) omap \<Rightarrow> (bytes, 'v) omap" where
  "prune_oldest cap time m =
    (if length m > cap
     then fold om_del (map snd (take (length m - cap) (sort (map (\<lambda>(k, v). (time v, k)) m)))) m
     else m)"

definition prune_state_collections :: "u64 \<Rightarrow> ledger \<Rightarrow> ledger" where
  "prune_state_collections h l = l\<lparr>
     name_registry := prune_oldest 100000 nreg_registered_at (filter (\<lambda>e. \<not> h > nreg_expires_at (snd e)) (name_registry l)),
     oracle_results := prune_oldest 1000 res_expires_at (oracle_results l),
     schema_registry := prune_oldest 10000 sce_created_at (schema_registry l),
     pending_names := prune_oldest 1000 reg_proposed_at (pending_names l),
     token_authority_proposals := prune_oldest 256 tap_created_at (token_authority_proposals l),
     url_proposals := prune_oldest 256 created_at (url_proposals l),
     schema_proposals := prune_oldest 256 scp_created_at (schema_proposals l),
     airdrop_claims := prune_oldest 50000 id (airdrop_claims l)\<rparr>"

section \<open>The end of a block\<close>

definition distribute_gas_fees :: "('z) ledger_env_scheme \<Rightarrow> ledger \<Rightarrow> ledger" where
  "distribute_gas_fees E l = (if accumulated_gas_fees l > 0
     then snd (apply_diff E (compute_gas_fee_distribution_diff E l) l) else l)"

definition run_end_of_block_maintenance :: "('z) ledger_env_scheme \<Rightarrow> u64 \<Rightarrow> ledger \<Rightarrow> ledger option" where
  "run_end_of_block_maintenance E h l =
    (let l = distribute_gas_fees E (prune_state_collections h (prune_expired_oracle_results h (process_oracle_timeouts E h l)))
     in if h > 0 \<and> h mod EMISSION_EPOCH_BLOCKS = 0 then pay_epoch_emission E h l else Some l)"

definition execute_batch_with_results :: "'o tx_env \<Rightarrow> (group_result list \<Rightarrow> group_result work_split) \<Rightarrow> ledger
    \<Rightarrow> 'o transaction list \<Rightarrow> (string + batch_result) option" where
  "execute_batch_with_results E sp l txs = (case execute_batch_parallel E sp l txs of
     Inl e \<Rightarrow> Some (Inl e)
   | Inr r \<Rightarrow>
      let l = advance_block_counters (br_state r) in
      (case run_end_of_block_maintenance E (current_height (staking l)) l of
         None \<Rightarrow> None
       | Some l \<Rightarrow> Some (Inr (r\<lparr>br_state := l\<rparr>))))"

end
