(* ===== verification/Ledger_Props.thy ===== *)
theory Ledger_Props
  imports Execution
begin

text \<open>
  Properties of the chain state: how much native currency a step moves, which parts of an
  account no transaction can change, and what follows for whole transactions. The first
  locale is the contract of a step that moves an amount (the four balance loops of
  \<^verbatim>\<open>apply_diff\<close> meet it), the second the contract of a relation between states that every
  step respects, whether it succeeds or stops with an error.
\<close>

section \<open>Steps that move an amount\<close>

lemma then_step_ok:
  "then_step f g l = (Inr u, l') \<longleftrightarrow> (\<exists>l1. f l = (Inr (), l1) \<and> g l1 = (Inr u, l'))"
  by (auto simp: then_step_def split: prod.splits sum.splits)

lemma steps_in_order_append:
  "steps_in_order (fs @ gs) l = then_step (steps_in_order fs) (steps_in_order gs) l"
  by (induction fs arbitrary: l) (auto simp: then_step_def split: prod.splits sum.splits)

locale ledger_flow =
  fixes inv :: "ledger \<Rightarrow> bool" and m :: "ledger \<Rightarrow> nat"
    and move :: "'a \<Rightarrow> ledger \<Rightarrow> step_result" and inflow :: "'a \<Rightarrow> nat" and outflow :: "'a \<Rightarrow> nat"
  assumes flow: "inv l \<Longrightarrow> move x l = (Inr (), l') \<Longrightarrow> inv l' \<and> m l' + outflow x = m l + inflow x"
begin

lemma each_flow:
  "inv l \<Longrightarrow> each move xs l = (Inr (), l')
    \<Longrightarrow> inv l' \<and> m l' + sum_list (map outflow xs) = m l + sum_list (map inflow xs)"
proof (induction xs arbitrary: l)
  case Nil
  then show ?case by simp
next
  case (Cons x xs)
  from Cons.prems(2) obtain l1 where "move x l = (Inr (), l1)" "each move xs l1 = (Inr (), l')"
    by (auto simp: then_step_ok)
  with flow [OF Cons.prems(1)] Cons.IH [of l1] show ?case by fastforce
qed

end

definition accounts_ok :: "ledger \<Rightarrow> bool" where
  "accounts_ok l \<longleftrightarrow> om_inv (accounts l)"

definition account_value :: "account_record \<Rightarrow> nat" where
  "account_value a = unat (acct_balance a) + unat (compute_escrow a)"

definition native_supply :: "ledger \<Rightarrow> nat" where
  "native_supply l = om_total account_value (accounts l)"

definition balance_of :: "bytes \<Rightarrow> ledger \<Rightarrow> nat" where
  "balance_of i l = (case om_get (accounts l) i of Some a \<Rightarrow> unat (acct_balance a) | None \<Rightarrow> 0)"

lemma account_value_blank [simp]: "account_value blank_account = 0"
  by (simp add: account_value_def blank_account_def)

lemma accounts_ok_set [simp]: "accounts_ok l \<Longrightarrow> accounts_ok (set_account i a l)"
  by (simp add: accounts_ok_def set_account_def om_inv_put)

lemma get_set_account:
  "accounts_ok l \<Longrightarrow> om_get (accounts (set_account i a l)) j = (if j = i then Some a else om_get (accounts l) j)"
  by (simp add: accounts_ok_def set_account_def om_get_put)

lemma set_set_account [simp]: "set_account i a (set_account i b l) = set_account i a l"
  by (simp add: set_account_def)

lemma balance_of_set:
  "accounts_ok l \<Longrightarrow> balance_of j (set_account i a l) = (if j = i then unat (acct_balance a) else balance_of j l)"
  by (simp add: balance_of_def get_set_account)

lemma supply_put_old:
  assumes "accounts_ok l" and "om_get (accounts l) i = Some a"
  shows "native_supply (set_account i a' l) + account_value a = native_supply l + account_value a'"
  using om.total_put [of "accounts l" i a account_value a'] assms
  by (simp add: native_supply_def set_account_def accounts_ok_def)

lemma supply_put_new:
  assumes "accounts_ok l" and "om_get (accounts l) i = None"
  shows "native_supply (set_account i a l) = native_supply l + account_value a"
  using om.total_put_new [of "accounts l" i account_value a] assms
  by (simp add: native_supply_def set_account_def accounts_ok_def)

lemma supply_put_or_blank:
  assumes "accounts_ok l"
  shows "native_supply (set_account i a l) + account_value (account_or blank_account i l) = native_supply l + account_value a"
  using assms supply_put_old [of l i _ a] supply_put_new [of l i a]
  by (cases "om_get (accounts l) i") (simp_all add: account_or_def)

lemma balance_or_blank: "unat (acct_balance (account_or blank_account i l)) = balance_of i l"
  by (simp add: account_or_def balance_of_def blank_account_def split: option.split)

lemma credit_native_ok:
  assumes "credit_native (i, amt) l = (Inr (), l')"
  obtains b where "checked_add (acct_balance (account_or blank_account i l)) amt = Some b"
    and "l' = set_account i ((account_or blank_account i l)\<lparr>acct_balance := b\<rparr>) l"
  using assms by (auto simp: credit_native_def Let_def split: option.splits)

lemma credit_escrow_ok:
  assumes "credit_escrow (i, amt) l = (Inr (), l')"
  obtains b where "checked_add (compute_escrow (account_or blank_account i l)) amt = Some b"
    and "l' = set_account i ((account_or blank_account i l)\<lparr>compute_escrow := b\<rparr>) l"
  using assms by (auto simp: credit_escrow_def Let_def split: option.splits)

lemma debit_native_ok:
  assumes "debit_native (i, amt) l = (Inr (), l')"
  obtains a b where "om_get (accounts l) i = Some a" and "checked_sub (acct_balance a) amt = Some b"
    and "l' = set_account i (a\<lparr>acct_balance := b\<rparr>) l"
  using assms by (auto simp: debit_native_def split: option.splits)

lemma debit_escrow_ok:
  assumes "debit_escrow (i, amt) l = (Inr (), l')"
  obtains a b where "om_get (accounts l) i = Some a" and "checked_sub (compute_escrow a) amt = Some b"
    and "l' = set_account i (a\<lparr>compute_escrow := b\<rparr>) l"
  using assms by (auto simp: debit_escrow_def split: option.splits)

definition amount_in :: "bytes \<times> u128 \<Rightarrow> nat" where
  "amount_in e = unat (snd e)"

definition amount_at :: "bytes \<Rightarrow> bytes \<times> u128 \<Rightarrow> nat" where
  "amount_at i e = (if fst e = i then unat (snd e) else 0)"

interpretation credit_supply: ledger_flow accounts_ok native_supply credit_native amount_in "\<lambda>_. 0"
proof
  fix l l' x assume ok: "accounts_ok l" and s: "credit_native x l = (Inr (), l')"
  obtain i amt where x: "x = (i, amt)" by (cases x)
  from s obtain b where b: "checked_add (acct_balance (account_or blank_account i l)) amt = Some b"
      "l' = set_account i ((account_or blank_account i l)\<lparr>acct_balance := b\<rparr>) l"
    unfolding x by (rule credit_native_ok)
  show "accounts_ok l' \<and> native_supply l' + 0 = native_supply l + amount_in x"
    using ok b(2) checked_add_Some [OF b(1)] supply_put_or_blank [OF ok, of i "(account_or blank_account i l)\<lparr>acct_balance := b\<rparr>"]
    by (simp add: x amount_in_def account_value_def)
qed

interpretation debit_supply: ledger_flow accounts_ok native_supply debit_native "\<lambda>_. 0" amount_in
proof
  fix l l' x assume ok: "accounts_ok l" and s: "debit_native x l = (Inr (), l')"
  obtain i amt where x: "x = (i, amt)" by (cases x)
  from s obtain a b where b: "om_get (accounts l) i = Some a" "checked_sub (acct_balance a) amt = Some b"
      "l' = set_account i (a\<lparr>acct_balance := b\<rparr>) l"
    unfolding x by (rule debit_native_ok)
  show "accounts_ok l' \<and> native_supply l' + amount_in x = native_supply l + 0"
    using ok b(3) checked_sub_Some_unat [OF b(2)] supply_put_old [OF ok b(1), of "a\<lparr>acct_balance := b\<rparr>"]
    by (simp add: x amount_in_def account_value_def)
qed

interpretation credit_escrow_supply: ledger_flow accounts_ok native_supply credit_escrow amount_in "\<lambda>_. 0"
proof
  fix l l' x assume ok: "accounts_ok l" and s: "credit_escrow x l = (Inr (), l')"
  obtain i amt where x: "x = (i, amt)" by (cases x)
  from s obtain b where b: "checked_add (compute_escrow (account_or blank_account i l)) amt = Some b"
      "l' = set_account i ((account_or blank_account i l)\<lparr>compute_escrow := b\<rparr>) l"
    unfolding x by (rule credit_escrow_ok)
  show "accounts_ok l' \<and> native_supply l' + 0 = native_supply l + amount_in x"
    using ok b(2) checked_add_Some [OF b(1)] supply_put_or_blank [OF ok, of i "(account_or blank_account i l)\<lparr>compute_escrow := b\<rparr>"]
    by (simp add: x amount_in_def account_value_def)
qed

interpretation debit_escrow_supply: ledger_flow accounts_ok native_supply debit_escrow "\<lambda>_. 0" amount_in
proof
  fix l l' x assume ok: "accounts_ok l" and s: "debit_escrow x l = (Inr (), l')"
  obtain i amt where x: "x = (i, amt)" by (cases x)
  from s obtain a b where b: "om_get (accounts l) i = Some a" "checked_sub (compute_escrow a) amt = Some b"
      "l' = set_account i (a\<lparr>compute_escrow := b\<rparr>) l"
    unfolding x by (rule debit_escrow_ok)
  show "accounts_ok l' \<and> native_supply l' + amount_in x = native_supply l + 0"
    using ok b(3) checked_sub_Some_unat [OF b(2)] supply_put_old [OF ok b(1), of "a\<lparr>compute_escrow := b\<rparr>"]
    by (simp add: x amount_in_def account_value_def)
qed

interpretation credit_balance: ledger_flow accounts_ok "balance_of i" credit_native "amount_at i" "\<lambda>_. 0" for i
proof
  fix l l' x assume ok: "accounts_ok l" and s: "credit_native x l = (Inr (), l')"
  obtain j amt where x: "x = (j, amt)" by (cases x)
  from s obtain b where b: "checked_add (acct_balance (account_or blank_account j l)) amt = Some b"
      "l' = set_account j ((account_or blank_account j l)\<lparr>acct_balance := b\<rparr>) l"
    unfolding x by (rule credit_native_ok)
  show "accounts_ok l' \<and> balance_of i l' + 0 = balance_of i l + amount_at i x"
    using ok b(2) checked_add_Some [OF b(1)]
    by (simp add: x amount_at_def balance_of_set balance_or_blank)
qed

interpretation debit_balance: ledger_flow accounts_ok "balance_of i" debit_native "\<lambda>_. 0" "amount_at i" for i
proof
  fix l l' x assume ok: "accounts_ok l" and s: "debit_native x l = (Inr (), l')"
  obtain j amt where x: "x = (j, amt)" by (cases x)
  from s obtain a b where b: "om_get (accounts l) j = Some a" "checked_sub (acct_balance a) amt = Some b"
      "l' = set_account j (a\<lparr>acct_balance := b\<rparr>) l"
    unfolding x by (rule debit_native_ok)
  have "balance_of j l = unat (acct_balance a)" using b(1) by (simp add: balance_of_def)
  then show "accounts_ok l' \<and> balance_of i l' + amount_at i x = balance_of i l + 0"
    using ok b(3) checked_sub_Some_unat [OF b(2)]
    by (auto simp: x amount_at_def balance_of_set)
qed

interpretation credit_escrow_balance: ledger_flow accounts_ok "balance_of i" credit_escrow "\<lambda>_. 0" "\<lambda>_. 0" for i
proof
  fix l l' x assume ok: "accounts_ok l" and s: "credit_escrow x l = (Inr (), l')"
  obtain j amt where x: "x = (j, amt)" by (cases x)
  from s obtain b where
      "l' = set_account j ((account_or blank_account j l)\<lparr>compute_escrow := b\<rparr>) l"
    unfolding x by (rule credit_escrow_ok)
  then show "accounts_ok l' \<and> balance_of i l' + 0 = balance_of i l + 0"
    using ok by (simp add: balance_of_set balance_or_blank)
qed

interpretation debit_escrow_balance: ledger_flow accounts_ok "balance_of i" debit_escrow "\<lambda>_. 0" "\<lambda>_. 0" for i
proof
  fix l l' x assume ok: "accounts_ok l" and s: "debit_escrow x l = (Inr (), l')"
  obtain j amt where x: "x = (j, amt)" by (cases x)
  from s obtain a b where b: "om_get (accounts l) j = Some a" "l' = set_account j (a\<lparr>compute_escrow := b\<rparr>) l"
    unfolding x by (rule debit_escrow_ok)
  then show "accounts_ok l' \<and> balance_of i l' + 0 = balance_of i l + 0"
    using ok by (simp add: balance_of_set) (simp add: balance_of_def)
qed

section \<open>Relations every step respects\<close>

locale ledger_relation =
  fixes R :: "ledger \<Rightarrow> ledger \<Rightarrow> bool"
  assumes rel_refl: "R l l" and rel_trans: "R l l1 \<Longrightarrow> R l1 l2 \<Longrightarrow> R l l2"
begin

lemma rel_then: "R l (snd (f l)) \<Longrightarrow> (\<And>l. R l (snd (g l))) \<Longrightarrow> R l (snd (then_step f g l))"
  by (auto simp: then_step_def split: prod.splits sum.splits intro: rel_trans)

lemma rel_each: "(\<And>x l. x \<in> set xs \<Longrightarrow> R l (snd (f x l))) \<Longrightarrow> R l (snd (each f xs l))"
proof (induction xs arbitrary: l)
  case Nil
  then show ?case by (simp add: rel_refl)
next
  case (Cons x xs)
  then show ?case unfolding each.simps by (intro rel_then) simp_all
qed

lemma rel_steps: "(\<And>f l. f \<in> set fs \<Longrightarrow> R l (snd (f l))) \<Longrightarrow> R l (snd (steps_in_order fs l))"
proof (induction fs arbitrary: l)
  case Nil
  then show ?case by (simp add: rel_refl)
next
  case (Cons f fs)
  then show ?case unfolding steps_in_order.simps by (intro rel_then) simp_all
qed

lemma rel_always: "(\<And>l. R l (f l)) \<Longrightarrow> R l (snd (always f l))"
  by (simp add: always_def)

lemma rel_fold: "(\<And>x l. R l (f x l)) \<Longrightarrow> R l (fold f xs l)"
  by (induction xs arbitrary: l) (auto intro: rel_refl rel_trans)

end

interpretation same_accounts: ledger_relation "\<lambda>l l'. accounts l' = accounts l"
  by unfold_locales simp_all

definition grows :: "account_record \<Rightarrow> account_record \<Rightarrow> bool" where
  "grows a a' \<longleftrightarrow> acct_nonce a \<le> acct_nonce a' \<and> (pubkey_bytes a \<noteq> [] \<longrightarrow> pubkey_bytes a' = pubkey_bytes a)"

definition accounts_grow :: "ledger \<Rightarrow> ledger \<Rightarrow> bool" where
  "accounts_grow l l' \<longleftrightarrow> (accounts_ok l \<longrightarrow> accounts_ok l' \<and>
     (\<forall>i a. om_get (accounts l) i = Some a \<longrightarrow> (\<exists>a'. om_get (accounts l') i = Some a' \<and> grows a a')))"

lemma grows_trans: "grows a b \<Longrightarrow> grows b c \<Longrightarrow> grows a c"
  unfolding grows_def by fastforce

interpretation grow: ledger_relation accounts_grow
proof
  show "accounts_grow l l" for l by (auto simp: accounts_grow_def grows_def)
  show "accounts_grow l l2" if "accounts_grow l l1" "accounts_grow l1 l2" for l l1 l2
    using that unfolding accounts_grow_def by (meson grows_trans)
qed

lemma same_grow: "accounts l' = accounts l \<Longrightarrow> accounts_grow l l'"
  by (simp add: accounts_grow_def accounts_ok_def grows_def)

lemma grow_set:
  assumes "\<And>b. om_get (accounts l) i = Some b \<Longrightarrow> grows b a"
  shows "accounts_grow l (set_account i a l)"
  using assms by (auto simp: accounts_grow_def get_set_account grows_def)

lemma grow_then: "accounts_grow l l1 \<Longrightarrow> accounts_grow l1 l2 \<Longrightarrow> accounts_grow l l2"
  by (rule grow.rel_trans)

lemma account_or_Some: "om_get (accounts l) i = Some b \<Longrightarrow> account_or d i l = b"
  by (simp add: account_or_def)

lemma grow_credit_native: "accounts_grow l (snd (credit_native x l))"
  by (cases x) (auto simp: credit_native_def Let_def account_or_Some grows_def intro!: grow_set split: option.split)

lemma grow_debit_native: "accounts_grow l (snd (debit_native x l))"
  by (cases x) (auto simp: debit_native_def grows_def intro!: grow_set grow.rel_refl split: option.split)

lemma grow_credit_escrow: "accounts_grow l (snd (credit_escrow x l))"
  by (cases x) (auto simp: credit_escrow_def Let_def account_or_Some grows_def intro!: grow_set split: option.split)

lemma grow_debit_escrow: "accounts_grow l (snd (debit_escrow x l))"
  by (cases x) (auto simp: debit_escrow_def grows_def intro!: grow_set grow.rel_refl split: option.split)

lemma grow_update_account: "accounts_grow l (update_account x l)"
  by (cases x) (auto simp: update_account_def grows_def intro!: grow_set split: option.split)

lemma grow_update_nonce: "accounts_grow l (update_nonce x l)"
  by (cases x) (auto simp: update_nonce_def grows_def intro!: grow_set grow.rel_refl split: option.split)

section \<open>Steps outside the accounts\<close>

named_theorems same_accounts_rules

lemma same_record_tx [same_accounts_rules]: "accounts (record_tx d l) = accounts l"
  by (simp add: record_tx_def)

definition pays_out :: "staking_update \<Rightarrow> bool" where
  "pays_out u = (case u of UpWithdraw _ \<Rightarrow> True | _ \<Rightarrow> False)"

lemma same_of_staking: "accounts (snd (of_staking r l)) = accounts l"
  by (auto simp: of_staking_def split: prod.splits sum.splits)

lemma same_staking_update: "\<not> pays_out u \<Longrightarrow> accounts (snd (apply_staking_update E u l)) = accounts l"
  by (cases u) (simp_all add: pays_out_def same_of_staking)

lemma same_param [same_accounts_rules]: "accounts (update_param x l) = accounts l"
  by (cases x) (simp add: update_param_def)

lemma same_nft [same_accounts_rules]: "accounts (update_nft x l) = accounts l"
  by (cases x) (simp add: update_nft_def split: option.split)

lemma same_on_cells [simp]: "accounts (on_cells f l) = accounts l"
  by (simp add: on_cells_def)

lemma same_with_cell [simp]: "accounts (snd (with_cell e i f l)) = accounts l"
  by (simp add: with_cell_def split: option.split sum.split)

lemma same_of_cell_state [simp]: "accounts (snd (of_cell_state r l)) = accounts l"
  by (simp add: of_cell_state_def split: sum.split)

lemma same_cell_update [same_accounts_rules]: "accounts (snd (apply_cell_update E u l)) = accounts l"
  by (cases u) simp_all

lemma same_set_token [simp]: "accounts (set_token_balance k b l) = accounts l"
  by (simp add: set_token_balance_def)

lemma same_credit_token [same_accounts_rules]: "accounts (snd (credit_token x l)) = accounts l"
  by (cases x) (simp add: credit_token_def split: option.split)

lemma same_token_balance [same_accounts_rules]: "accounts (update_token_balance x l) = accounts l"
  by (simp add: update_token_balance_def split: prod.split)

lemma same_reward [same_accounts_rules]: "accounts (snd (pay_staking_reward E x l)) = accounts l"
  by (simp add: pay_staking_reward_def split: prod.split option.split)

lemma same_credit_cell [same_accounts_rules]: "accounts (snd (credit_cell x l)) = accounts l"
  by (simp add: credit_cell_def split: prod.split)

lemma same_debit_cell [same_accounts_rules]: "accounts (snd (debit_cell x l)) = accounts l"
  by (simp add: debit_cell_def split: prod.split)

lemma same_deltas [same_accounts_rules]: "accounts (apply_storage_deltas x l) = accounts l"
  by (simp add: apply_storage_deltas_def split: prod.split option.split)

lemma same_name_fee [same_accounts_rules]: "accounts (collect_name_fee E d l) = accounts l"
  by (simp add: collect_name_fee_def split: option.split)

lemma same_spend [same_accounts_rules]:
  "accounts (snd (spend_gas_fees d l)) = accounts l" "accounts (snd (spend_name_fees d l)) = accounts l"
  "accounts (snd (spend_compute_fees d l)) = accounts l" "accounts (snd (spend_treasury_fees d l)) = accounts l"
  by (simp_all add: spend_gas_fees_def spend_name_fees_def spend_compute_fees_def spend_treasury_fees_def)

lemma same_names [same_accounts_rules]:
  "accounts (register_name E x l) = accounts l" "accounts (renew_name E y l) = accounts l"
  "accounts (transfer_name z l) = accounts l"
  by (simp_all add: register_name_def renew_name_def transfer_name_def split: prod.split option.split)

lemma same_add_authority [same_accounts_rules]: "accounts (add_authority_proposal x l) = accounts l"
  by (simp add: add_authority_proposal_def split: prod.split)

lemma same_grant [simp]: "accounts (grant_authority tok p l) = accounts l"
  by (simp add: grant_authority_def split: option.split)

lemma same_vote_authority: "accounts (snd (vote_authority E tot v gl)) = accounts (snd gl)"
  by (simp add: vote_authority_def Let_def split: prod.split option.split)

lemma same_vote_fold: "accounts (snd (fold (vote_authority E tot) vs gl)) = accounts (snd gl)"
  by (induction vs arbitrary: gl) (simp_all add: same_vote_authority)

lemma same_vote_authorities [same_accounts_rules]: "accounts (vote_authorities E vs l) = accounts l"
  using same_vote_fold [of E "active_total (staking l)" vs "([], l)"]
  by (auto simp: vote_authorities_def split: prod.split)

lemma same_claim [same_accounts_rules]: "accounts (record_claim x l) = accounts l"
  by (simp add: record_claim_def split: prod.split)

lemma same_minted [same_accounts_rules]: "accounts (count_minted d l) = accounts l"
  by (simp add: count_minted_def)

lemma same_frozen [same_accounts_rules]: "accounts (update_frozen x l) = accounts l"
  by (simp add: update_frozen_def split: prod.split)

definition pays_bond :: "oracle_update \<Rightarrow> bool" where
  "pays_bond u = (case u of VoteUrlProposal _ _ _ _ \<Rightarrow> True | SlashUrlProposer _ \<Rightarrow> True | _ \<Rightarrow> False)"

lemma same_finalize [simp]: "accounts (snd (finalize_oracle_request_if_ready E rid l)) = accounts l"
  by (simp add: finalize_oracle_request_if_ready_def Let_def split: option.split prod.split)

lemma same_commit_reveal [simp]:
  "accounts (add_commit E rid pk ch l) = accounts l" "accounts (add_reveal E rid pk body st l) = accounts l"
  "accounts (vote_schema sid pk f a l) = accounts l"
  by (simp_all add: add_commit_def add_reveal_def vote_schema_def Let_def split: option.split)

lemma same_oracle_update: "\<not> pays_bond u \<Longrightarrow> accounts (snd (apply_oracle_update E u l)) = accounts l"
  by (cases u) (simp_all add: pays_bond_def)

section \<open>Whole diffs\<close>

definition account_steps :: "state_diff \<Rightarrow> (ledger \<Rightarrow> step_result) list" where
  "account_steps d =
    [always (record_tx d),
     each credit_native (native_transfers d),
     each debit_native (native_debits d),
     each credit_escrow (compute_escrow_credits d),
     each debit_escrow (compute_escrow_debits d),
     always (fold update_account (account_updates d)),
     always (fold update_nonce (nonce_updates d))]"

definition later_steps :: "('z) ledger_env_scheme \<Rightarrow> state_diff \<Rightarrow> (ledger \<Rightarrow> step_result) list" where
  "later_steps E d =
    [each (apply_staking_update E) (staking_updates d),
     always (fold update_param (param_updates d)),
     always (fold update_nft (nft_updates d)),
     each (apply_cell_update E) (cell_updates d),
     each credit_token (token_credits d),
     always (fold update_token_balance (token_balance_updates d)),
     each (pay_staking_reward E) (staking_rewards d),
     each credit_cell (cell_credits d),
     each debit_cell (cell_debits d),
     always (fold apply_storage_deltas (storage_deltas d)),
     always (collect_name_fee E d),
     spend_gas_fees d, spend_name_fees d, spend_compute_fees d, spend_treasury_fees d,
     always (fold (register_name E) (pending_name_proposals d)),
     always (fold add_authority_proposal (pending_token_authority_proposals d)),
     always (vote_authorities E (token_authority_votes d)),
     always (fold (renew_name E) (name_renewals d)),
     always (fold transfer_name (name_transfers d)),
     always (fold record_claim (diff_airdrop_claims d)),
     always (count_minted d),
     always (fold update_frozen (frozen_account_updates d)),
     each (apply_oracle_update E) (oracle_updates d)]"

lemma apply_diff_steps: "apply_diff E d = steps_in_order (account_steps d @ later_steps E d)"
  by (simp add: apply_diff_def account_steps_def later_steps_def)

lemma apply_diff_split:
  "apply_diff E d l = then_step (steps_in_order (account_steps d)) (steps_in_order (later_steps E d)) l"
  by (simp add: apply_diff_steps steps_in_order_append)

lemma later_steps_same:
  assumes "list_all (\<lambda>u. \<not> pays_out u) (staking_updates d)" and "list_all (\<lambda>u. \<not> pays_bond u) (oracle_updates d)"
  shows "accounts (snd (steps_in_order (later_steps E d) l)) = accounts l"
proof (rule same_accounts.rel_steps)
  fix f :: "ledger \<Rightarrow> step_result" and l assume "f \<in> set (later_steps E d)"
  then show "accounts (snd (f l)) = accounts l"
    unfolding later_steps_def set_simps
    using assms [unfolded list_all_iff]
    by (elim insertE emptyE; hypsubst;
        (intro same_accounts.rel_always same_accounts.rel_each same_accounts.rel_fold)?)
       (simp_all add: same_accounts_rules same_staking_update same_oracle_update)
qed

lemma grow_balance:
  assumes "accounts l1 = accounts l" and "om_get (accounts l) i = Some a"
  shows "accounts_grow l (set_account i (a\<lparr>acct_balance := b\<rparr>) l1)"
proof -
  have "accounts_grow l1 (set_account i (a\<lparr>acct_balance := b\<rparr>) l1)"
    using assms by (intro grow_set) (simp add: grows_def)
  then show ?thesis by (rule grow_then [OF same_grow [OF assms(1)]])
qed

lemma grow_staking_update: "accounts_grow l (snd (apply_staking_update E u l))"
proof (cases "pays_out u")
  case True
  then obtain pk where u: "u = UpWithdraw pk" by (cases u) (auto simp: pays_out_def)
  show ?thesis
    by (simp add: u Let_def grow_balance same_grow split: prod.split sum.split option.split)
next
  case False
  then show ?thesis by (intro same_grow same_staking_update)
qed

lemma grow_pay_shares: "accounts_grow l (pay_slash_shares E share pks dust l)"
proof (induction pks arbitrary: dust l)
  case Nil
  then show ?case by (simp add: grow.rel_refl)
next
  case (Cons pk pks)
  have "accounts_grow l (set_account i ((account_or c i l)\<lparr>acct_balance := b\<rparr>) l)" for i b c
    by (intro grow_set) (simp add: account_or_Some grows_def)
  then show ?case unfolding pay_slash_shares.simps Let_def
    by (intro grow_then [OF _ Cons.IH]) (simp add: grow.rel_refl)
qed

lemma grow_distribute: "accounts_grow l (distribute_url_slash_equally E tot x l)"
  by (simp add: distribute_url_slash_equally_def Let_def grow_pay_shares grow.rel_refl)

lemma grow_slash_bond: "accounts_grow l (snd (slash_url_proposer_bond E pat l))"
  by (simp add: slash_url_proposer_bond_def Let_def grow.rel_refl same_grow grow_balance
      grow_then [OF _ grow_distribute] split: option.split)

lemma grow_oracle_update: "accounts_grow l (snd (apply_oracle_update E u l))"
proof (cases "pays_bond u")
  case False
  then show ?thesis by (intro same_grow same_oracle_update)
next
  case True
  have "accounts_grow l (snd (vote_url E pat pk f a l))" for pat pk f a
    by (simp add: vote_url_def Let_def grow.rel_refl same_grow grow_then [OF same_grow grow_slash_bond]
        split: option.split)
  then show ?thesis using True by (cases u) (auto simp: pays_bond_def grow_slash_bond)
qed

lemmas grow_rules = grow_credit_native grow_debit_native grow_credit_escrow grow_debit_escrow
  grow_update_account grow_update_nonce grow_staking_update grow_oracle_update

lemma grow_step_in:
  assumes "f \<in> set (account_steps d) \<union> set (later_steps E d)"
  shows "accounts_grow l (snd (f l))"
proof -
  have "f \<in> set (account_steps d @ later_steps E d)" using assms by simp
  then show ?thesis
    unfolding account_steps_def later_steps_def append.simps set_simps
    by (elim insertE emptyE; hypsubst; (intro grow.rel_always grow.rel_each grow.rel_fold)?)
       (simp_all add: grow_rules same_grow same_accounts_rules)
qed

lemma grow_apply_diff: "accounts_grow l (snd (apply_diff E d l))"
  unfolding apply_diff_steps by (rule grow.rel_steps, rule grow_step_in) simp

lemma grow_run_sequential: "accounts_grow (br_state r) (br_state (run_sequential E n txs r))"
proof (induction txs arbitrary: n r)
  case Nil
  then show ?case by (simp add: grow.rel_refl)
next
  case (Cons tx txs)
  let ?r = "case compute_transaction_diff False E (br_state r) tx of
       Inl e \<Rightarrow> r\<lparr>br_failed := br_failed r @ [(n, e)]\<rparr>
     | Inr d \<Rightarrow> (case apply_diff E d (br_state r) of
          (Inl e, l) \<Rightarrow> r\<lparr>br_state := l, br_failed := br_failed r @ [(n, e)]\<rparr>
        | (Inr _, l) \<Rightarrow> r\<lparr>br_state := l, br_total_fees := saturating_add (br_total_fees r) (diff_total_fees d)\<rparr>)"
  have "accounts_grow (br_state r) (br_state ?r)"
    using grow_apply_diff [of "br_state r" E] by (auto simp: grow.rel_refl split: sum.split prod.split) (metis snd_conv)+
  then show ?case using grow_then Cons.IH by simp
qed

end
