(* ===== verification/Accounting.thy ===== *)
theory Accounting
  imports Ledger_Props
begin

text \<open>
  The books of the chain: what a diff does to the native supply and to each balance, which
  diffs the handlers of \<^verbatim>\<open>compute_transaction_diff\<close> produce, and the properties of whole
  transactions that follow.
\<close>

section \<open>Account updates move nothing\<close>

definition covered :: "ledger \<Rightarrow> (bytes, account_record) omap \<Rightarrow> bool" where
  "covered l us \<longleftrightarrow> (\<forall>e \<in> set us. om_get (accounts l) (fst e) \<noteq> None \<or> account_value (snd e) = 0)"

definition same_value :: "ledger \<Rightarrow> ledger \<Rightarrow> bool" where
  "same_value l l' \<longleftrightarrow> (accounts_ok l \<longrightarrow> accounts_ok l' \<and> native_supply l' = native_supply l
     \<and> (\<forall>i. balance_of i l' = balance_of i l))"

interpretation kept: ledger_relation same_value
  by unfold_locales (auto simp: same_value_def)

lemma same_accounts_value: "accounts l' = accounts l \<Longrightarrow> same_value l l'"
  by (simp add: same_value_def accounts_ok_def native_supply_def balance_of_def)

lemma same_value_set:
  assumes "om_get (accounts l) i = Some a" and "acct_balance a' = acct_balance a" and "compute_escrow a' = compute_escrow a"
  shows "same_value l (set_account i a' l)"
proof -
  have "account_value a' = account_value a" using assms by (simp add: account_value_def)
  then show ?thesis using assms supply_put_old [of l i a a']
    by (auto simp: same_value_def balance_of_set) (simp add: balance_of_def)
qed

lemma same_value_new:
  assumes "om_get (accounts l) i = None" and "account_value a = 0"
  shows "same_value l (set_account i a l)"
proof -
  have "balance_of i l = 0" "acct_balance a = 0" using assms by (simp_all add: balance_of_def account_value_def unat_eq_0)
  then show ?thesis using assms supply_put_new [of l i a]
    by (auto simp: same_value_def balance_of_set)
qed

lemma update_account_value:
  assumes "om_get (accounts l) (fst e) \<noteq> None \<or> account_value (snd e) = 0"
  shows "same_value l (update_account e l)"
  using assms by (cases e) (auto simp: update_account_def same_value_new same_value_set split: option.split)

lemma update_nonce_value: "same_value l (update_nonce e l)"
  by (cases e) (auto simp: update_nonce_def same_value_set kept.rel_refl split: option.split)

lemma covered_grow: "accounts_ok l \<Longrightarrow> accounts_grow l l' \<Longrightarrow> covered l us \<Longrightarrow> covered l' us"
  unfolding covered_def accounts_grow_def by (metis not_None_eq)

lemma fold_update_account_value:
  "accounts_ok l \<Longrightarrow> covered l us \<Longrightarrow> same_value l (fold update_account us l)"
proof (induction us arbitrary: l)
  case Nil
  then show ?case by (simp add: kept.rel_refl)
next
  case (Cons e us)
  let ?l = "update_account e l"
  have s: "same_value l ?l" using Cons.prems by (intro update_account_value) (simp add: covered_def)
  have "accounts_ok ?l" using s Cons.prems by (simp add: same_value_def)
  moreover have "covered l us" using Cons.prems(2) by (simp add: covered_def)
  then have "covered ?l us" by (rule covered_grow [OF Cons.prems(1) grow_update_account])
  ultimately show ?case using Cons.IH kept.rel_trans [OF s] by simp
qed

section \<open>What a diff moves\<close>

definition total_in :: "(bytes \<times> u128) list \<Rightarrow> nat" where
  "total_in xs = sum_list (map amount_in xs)"

definition total_at :: "bytes \<Rightarrow> (bytes \<times> u128) list \<Rightarrow> nat" where
  "total_at i xs = sum_list (map (amount_at i) xs)"

lemma total_simps [simp]:
  "total_in [] = 0" "total_in (x # xs) = amount_in x + total_in xs" "total_in (xs @ ys) = total_in xs + total_in ys"
  "total_at i [] = 0" "total_at i (x # xs) = amount_at i x + total_at i xs" "total_at i (xs @ ys) = total_at i xs + total_at i ys"
  by (simp_all add: total_in_def total_at_def)

lemma account_steps_flow:
  assumes "accounts_ok l" and "covered l (account_updates d)"
    and "steps_in_order (account_steps d) l = (Inr (), l')"
  shows "accounts_ok l'"
    and "native_supply l' + total_in (native_debits d) + total_in (compute_escrow_debits d)
      = native_supply l + total_in (native_transfers d) + total_in (compute_escrow_credits d)"
    and "balance_of i l' + total_at i (native_debits d) = balance_of i l + total_at i (native_transfers d)"
proof -
  let ?l0 = "record_tx d l"
  from assms(3) obtain l1 l2 l3 l4 where
    s: "each credit_native (native_transfers d) ?l0 = (Inr (), l1)" "each debit_native (native_debits d) l1 = (Inr (), l2)"
       "each credit_escrow (compute_escrow_credits d) l2 = (Inr (), l3)"
       "each debit_escrow (compute_escrow_debits d) l3 = (Inr (), l4)"
    and l': "l' = fold update_nonce (nonce_updates d) (fold update_account (account_updates d) l4)"
    by (auto simp: account_steps_def then_step_ok always_def)
  have v0: "same_value l ?l0" by (rule same_accounts_value [OF same_record_tx])
  then have ok: "accounts_ok ?l0" using assms(1) by (simp add: same_value_def)
  note f1 = credit_supply.each_flow [OF ok s(1)] credit_balance.each_flow [OF ok s(1), of i]
  then have ok1: "accounts_ok l1" by simp
  note f2 = debit_supply.each_flow [OF ok1 s(2)] debit_balance.each_flow [OF ok1 s(2), of i]
  then have ok2: "accounts_ok l2" by simp
  note f3 = credit_escrow_supply.each_flow [OF ok2 s(3)] credit_escrow_balance.each_flow [OF ok2 s(3), of i]
  then have ok3: "accounts_ok l3" by simp
  note f4 = debit_escrow_supply.each_flow [OF ok3 s(4)] debit_escrow_balance.each_flow [OF ok3 s(4), of i]
  then have ok4: "accounts_ok l4" by simp
  have each_grow: "accounts_grow l l'" if "each f xs l = (u, l')" and "\<And>x l. accounts_grow l (snd (f x l))"
    for f and xs :: "(bytes \<times> u128) list" and u l l'
    using that grow.rel_each [of xs f l] by simp
  have "accounts_grow l ?l0" "accounts_grow ?l0 l1" "accounts_grow l1 l2" "accounts_grow l2 l3" "accounts_grow l3 l4"
    using same_grow [OF same_record_tx] each_grow [OF s(1) grow_credit_native] each_grow [OF s(2) grow_debit_native]
      each_grow [OF s(3) grow_credit_escrow] each_grow [OF s(4) grow_debit_escrow] by simp_all
  then have "accounts_grow l l4" using grow_then by blast
  then have "covered l4 (account_updates d)" using covered_grow assms(1,2) by blast
  then have "same_value l4 l'"
    unfolding l' by (intro kept.rel_trans [OF fold_update_account_value [OF ok4] kept.rel_fold] update_nonce_value)
  then have v: "accounts_ok l'" "native_supply l' = native_supply l4" "balance_of i l' = balance_of i l4"
    using ok4 by (simp_all add: same_value_def)
  have v0': "native_supply ?l0 = native_supply l" "balance_of i ?l0 = balance_of i l"
    using v0 assms(1) by (simp_all add: same_value_def)
  show "accounts_ok l'" by (rule v(1))
  show "native_supply l' + total_in (native_debits d) + total_in (compute_escrow_debits d)
      = native_supply l + total_in (native_transfers d) + total_in (compute_escrow_credits d)"
    using f1 f2 f3 f4 v v0' by (simp add: total_in_def)
  show "balance_of i l' + total_at i (native_debits d) = balance_of i l + total_at i (native_transfers d)"
    using f1 f2 f3 f4 v v0' by (simp add: total_at_def)
qed

definition plain :: "state_diff \<Rightarrow> bool" where
  "plain d \<longleftrightarrow> list_all (\<lambda>u. \<not> pays_out u) (staking_updates d) \<and> list_all (\<lambda>u. \<not> pays_bond u) (oracle_updates d)"

lemma apply_diff_flow:
  assumes "accounts_ok l" and "covered l (account_updates d)" and "plain d" and "apply_diff E d l = (Inr (), l')"
  shows "native_supply l' + total_in (native_debits d) + total_in (compute_escrow_debits d)
      = native_supply l + total_in (native_transfers d) + total_in (compute_escrow_credits d)"
    and "balance_of i l' + total_at i (native_debits d) = balance_of i l + total_at i (native_transfers d)"
proof -
  from assms(4) obtain l1 where s: "steps_in_order (account_steps d) l = (Inr (), l1)"
      "steps_in_order (later_steps E d) l1 = (Inr (), l')"
    by (auto simp: apply_diff_split then_step_ok)
  have "accounts l' = accounts l1"
    using later_steps_same [of d E l1] assms(3) s(2) by (simp add: plain_def)
  then have v: "native_supply l' = native_supply l1" "balance_of i l' = balance_of i l1"
    by (simp_all add: native_supply_def balance_of_def)
  note f = account_steps_flow [OF assms(1,2) s(1)]
  show "native_supply l' + total_in (native_debits d) + total_in (compute_escrow_debits d)
      = native_supply l + total_in (native_transfers d) + total_in (compute_escrow_credits d)"
    using f(2) v by simp
  show "balance_of i l' + total_at i (native_debits d) = balance_of i l + total_at i (native_transfers d)"
    using f(3) [of i] v by simp
qed

section \<open>Handlers that move nothing\<close>

definition money :: "state_diff \<Rightarrow> _" where
  "money d = (native_transfers d, native_debits d, compute_escrow_credits d, compute_escrow_debits d,
     gas_fee d, compute_fee_tlkd d, nonce_updates d, is_system d)"

definition sound_diff :: "ledger \<Rightarrow> state_diff \<Rightarrow> bool" where
  "sound_diff l d \<longleftrightarrow> covered l (account_updates d) \<and> plain d"

definition quiet :: "ledger \<Rightarrow> state_diff \<Rightarrow> state_diff \<Rightarrow> bool" where
  "quiet l d d' \<longleftrightarrow> money d' = money d \<and> (sound_diff l d \<longrightarrow> sound_diff l d')"

lemmas quiet_defs = quiet_def money_def sound_diff_def plain_def

lemma quiet_trans: "quiet l d d1 \<Longrightarrow> quiet l d1 d2 \<Longrightarrow> quiet l d d2"
  by (simp add: quiet_def)

lemma set_om_put: "set (om_put k v m) \<subseteq> insert (k, v) (set m)"
  by (induction m) auto

lemma covered_put:
  assumes "covered l us" and "om_get (accounts l) i \<noteq> None \<or> account_value a = 0"
  shows "covered l (om_put i a us)"
  using assms set_om_put [of i a us] unfolding covered_def by fastforce

lemma covered_get:
  assumes "covered l us" and "om_get us i = Some a"
  shows "om_get (accounts l) i \<noteq> None \<or> account_value a = 0"
  using assms map_of_SomeD [of us i a] unfolding covered_def om_get_def by (metis fst_conv snd_conv)

lemma quiet_put:
  assumes "om_get (accounts l) i \<noteq> None \<or> account_value a = 0"
  shows "quiet l d (put_account i a d)"
  using assms by (simp add: quiet_defs put_account_def covered_put)

lemma account_value_simps [simp]:
  "account_value (a\<lparr>pubkey_bytes := k\<rparr>) = account_value a" "account_value (a\<lparr>acct_nfts := ns\<rparr>) = account_value a"
  "account_value (drop_nft i a) = account_value a" "account_value (push_nft i a) = account_value a"
  by (simp_all add: account_value_def drop_nft_def push_nft_def)

lemma rotate_key_quiet:
  "compute_rotate_key_diff E sender pk sa d = Inr d' \<Longrightarrow> om_get (accounts l) sender = Some sa \<Longrightarrow> quiet l d d'"
  by (auto simp: compute_rotate_key_diff_def Let_def quiet_defs put_account_def covered_put split: if_splits)

lemma mint_nft_quiet:
  "compute_mint_nft_diff E l sender nid name uri coll bps rr ts d = Inr d' \<Longrightarrow> quiet l d d'"
  by (auto simp: compute_mint_nft_diff_def Let_def quiet_defs put_account_def covered_put split: if_splits option.splits)

lemma pay_royalty_quiet:
  "pay_royalty l n sender price sa d = Inr d' \<Longrightarrow> om_get (accounts l) sender = Some sa \<Longrightarrow> quiet l d d'"
  by (auto simp: pay_royalty_def Let_def quiet_defs put_account_def covered_put split: if_splits option.splits)

lemma take_from_owner_quiet: "take_from_owner l nid own d = Inr d' \<Longrightarrow> quiet l d d'"
  using covered_get [of l "account_updates d" own]
  by (auto simp: take_from_owner_def quiet_defs put_account_def covered_put split: option.splits)

lemma give_to_recipient_quiet: "give_to_recipient l nid i pk d = Inr d' \<Longrightarrow> quiet l d d'"
  using covered_get [of l "account_updates d" i]
  by (auto simp: give_to_recipient_def quiet_defs put_account_def covered_put split: if_splits option.splits)

lemma transfer_nft_quiet:
  assumes "compute_transfer_nft_diff E l sender nid r pk price sa d = Inr d'" and "om_get (accounts l) sender = Some sa"
  shows "quiet l d d'"
proof -
  from assms(1) obtain n d1 d2 d3 where
    "pay_royalty l n sender price sa d = Inr d1" "take_from_owner l nid (nft_owner n) d1 = Inr d2"
    "give_to_recipient l nid r pk d2 = Inr d3"
    and d': "d' = d3\<lparr>nft_updates := om_put nid (Some (n\<lparr>nft_owner := r, nft_approved := None\<rparr>)) (nft_updates d3),
      cu_fee := gas_of E ''gas.transfer_nft''\<rparr>"
    by (auto simp: compute_transfer_nft_diff_def split: option.splits if_splits sum.splits)
  then have "quiet l d d3" using pay_royalty_quiet assms(2) take_from_owner_quiet give_to_recipient_quiet quiet_trans by metis
  then show ?thesis by (simp add: d' quiet_defs)
qed

lemma burn_nft_quiet:
  "compute_burn_nft_diff E sender nid sa d = Inr d' \<Longrightarrow> om_get (accounts l) sender = Some sa \<Longrightarrow> quiet l d d'"
  by (auto simp: compute_burn_nft_diff_def Let_def quiet_defs put_account_def covered_put split: if_splits)

lemma approve_nft_quiet: "compute_approve_nft_diff E l nid who sa d = Inr d' \<Longrightarrow> quiet l d d'"
  by (auto simp: compute_approve_nft_diff_def quiet_defs split: if_splits option.splits)

lemma token_quiet:
  "compute_token_transfer_diff E l sender tok r amt d = Inr d' \<Longrightarrow> quiet l d d'"
  "compute_token_mint_diff E l sender tok r amt d = Inr d' \<Longrightarrow> quiet l d d'"
  "compute_token_burn_diff E l sender tok amt d = Inr d' \<Longrightarrow> quiet l d d'"
  "compute_token_freeze_diff E l sender tok r d = Inr d' \<Longrightarrow> quiet l d d'"
  "compute_token_thaw_diff E l sender tok r d = Inr d' \<Longrightarrow> quiet l d d'"
  by (auto simp: compute_token_transfer_diff_def compute_token_mint_diff_def compute_token_burn_diff_def
      compute_token_freeze_diff_def compute_token_thaw_diff_def token_updates_def Let_def quiet_defs
      split: if_splits option.splits sum.splits)

lemma ownership_quiet:
  "compute_transfer_ownership_diff E l sender cid new d = Inr d' \<Longrightarrow> quiet l d d'"
  "compute_make_immutable_diff E l sender cid d = Inr d' \<Longrightarrow> quiet l d d'"
  by (auto simp: compute_transfer_ownership_diff_def compute_make_immutable_diff_def quiet_defs
      split: if_splits option.splits)

lemma visibility_quiet: "compute_set_cell_visibility_diff E l sender cid vis d = Inr d' \<Longrightarrow> quiet l d d'"
  by (auto simp: compute_set_cell_visibility_diff_def quiet_defs pays_bond_def split: if_splits option.splits)

lemma oracle_commit_quiet: "compute_oracle_commit_diff E l rid ch sa d = Inr d' \<Longrightarrow> quiet l d d'"
  by (auto simp: compute_oracle_commit_diff_def quiet_defs pays_bond_def split: if_splits option.splits)

lemma oracle_reveal_quiet: "compute_oracle_reveal_diff E l rid body status sa d = Inr d' \<Longrightarrow> quiet l d d'"
  by (auto simp: compute_oracle_reveal_diff_def Let_def slash_lie_def accept_reveal_def quiet_defs pays_bond_def pays_out_def
      split: if_splits option.splits sum.splits)

text \<open>
  The cell intents other than calls: the sender pays for a deployment only in the record update
  of its account, of which an existing account keeps its balance.
\<close>

definition calls_cells :: "cell_intent \<Rightarrow> bool" where
  "calls_cells ci = (case ci of CallCell _ _ _ _ \<Rightarrow> True | CallCellChain _ _ \<Rightarrow> True | _ \<Rightarrow> False)"

lemma lower_balance_quiet: "om_get (accounts l) sender = Some sa \<Longrightarrow> quiet l d (lower_balance sender sa b d)"
  unfolding lower_balance_def by (rule quiet_put) simp

lemma deploy_quiet:
  assumes "om_get (accounts l) sender = Some sa"
  shows "compute_deploy_cell_diff E l sender cid raw ibal ts reads writes comm specs schemas sa d = Inr d' \<Longrightarrow> quiet l d d'"
    and "compute_deploy_token_diff E l sender cid name symbol dec tot bps fee_to fixed ts sa d = Inr d' \<Longrightarrow> quiet l d d'"
  using assms
  by (auto simp: compute_deploy_cell_diff_def compute_deploy_token_diff_def Let_def quiet_defs lower_balance_def
      put_account_def covered_put split: if_splits option.splits sum.splits)

lemma close_quiet: "compute_close_cell_diff E l sender cid d = Inr d' \<Longrightarrow> quiet l d d'"
  by (auto simp: compute_close_cell_diff_def Let_def quiet_defs put_account_def covered_put split: if_splits option.splits)

lemma propose_quiet: "propose_on_cell E l sender cid refused valid pt timelock sa d = Inr d' \<Longrightarrow> quiet l d d'"
  by (auto simp: propose_on_cell_def quiet_defs split: if_splits option.splits sum.splits)

lemma cell_vote_quiet:
  "compute_vote_cell_proposal_diff E l sender cid approve sa d = Inr d' \<Longrightarrow> quiet l d d'"
  "compute_execute_cell_proposal_diff E l cid sa d = Inr d' \<Longrightarrow> quiet l d d'"
  "compute_upgrade_cell_diff E l sender cid raw reads writes comm specs schemas ts d = Inr d' \<Longrightarrow> quiet l d d'"
  by (auto simp: compute_vote_cell_proposal_diff_def compute_execute_cell_proposal_diff_def compute_upgrade_cell_diff_def
      Let_def quiet_defs split: if_splits option.splits sum.splits)

lemma cell_intent_quiet:
  assumes "run_cell_intent E l sender ts ci sa d = Inr d'" and "om_get (accounts l) sender = Some sa" and "\<not> calls_cells ci"
  shows "quiet l d d'"
  using assms
  by (cases ci) (auto simp: run_cell_intent_def calls_cells_def compute_propose_cell_upgrade_diff_def
      compute_propose_cell_ownership_transfer_diff_def compute_propose_cell_make_immutable_diff_def
      dest: deploy_quiet close_quiet propose_quiet cell_vote_quiet)

lemmas handlers_quiet = cell_intent_quiet rotate_key_quiet mint_nft_quiet transfer_nft_quiet burn_nft_quiet approve_nft_quiet token_quiet
  ownership_quiet visibility_quiet oracle_commit_quiet oracle_reveal_quiet

section \<open>Handlers that move currency\<close>

definition balanced :: "state_diff \<Rightarrow> nat \<Rightarrow> nat \<Rightarrow> nat \<Rightarrow> bool" where
  "balanced d released locked paid \<longleftrightarrow>
     total_in (native_debits d) + total_in (compute_escrow_debits d) + released
       = total_in (native_transfers d) + total_in (compute_escrow_credits d) + locked + paid"

definition start :: "state_diff \<Rightarrow> bool" where
  "start d \<longleftrightarrow> native_transfers d = [] \<and> native_debits d = [] \<and> compute_escrow_credits d = []
     \<and> compute_escrow_debits d = [] \<and> gas_fee d = 0 \<and> compute_fee_tlkd d = 0"

definition locked :: "'o intent \<Rightarrow> nat" where
  "locked i = (case i of WrapTLKD a \<Rightarrow> unat a | ProposeUrl _ b _ \<Rightarrow> unat b | _ \<Rightarrow> 0)"

definition released :: "'o intent \<Rightarrow> nat" where
  "released i = (case i of UnwrapTLKD a \<Rightarrow> unat a | _ \<Rightarrow> 0)"

definition tracked :: "'o intent \<Rightarrow> bool" where
  "tracked i = (case i of Claim _ _ _ \<Rightarrow> False | VoteUrl _ _ \<Rightarrow> False | ReportMaliciousUrl _ _ \<Rightarrow> False
     | CellIntent ci \<Rightarrow> \<not> calls_cells ci | OtherIntent _ \<Rightarrow> False | _ \<Rightarrow> True)"

definition booked :: "'o tx_env \<Rightarrow> ledger \<Rightarrow> 'o intent \<Rightarrow> state_diff \<Rightarrow> state_diff \<Rightarrow> bool" where
  "booked E l i d d' \<longleftrightarrow> sound_diff l d' \<and> balanced d' (released i) (locked i) (unat (gas_fee d'))
     \<and> gas_fee d' = (if gas_already_debited i then embedded_fee E i else 0) \<and> compute_fee_tlkd d' = 0
     \<and> nonce_updates d' = nonce_updates d"

lemmas booked_defs = booked_def balanced_def start_def locked_def released_def gas_already_debited_def embedded_fee_def
  sound_diff_def plain_def debit_of_def credit_of_def amount_in_def

lemma quiet_booked:
  assumes "quiet l d d'" and "start d" and "sound_diff l d"
    and "locked i = 0" and "released i = 0" and "\<not> gas_already_debited i"
  shows "booked E l i d d'"
  using assms by (simp add: quiet_def booked_def balanced_def start_def money_def)

lemma open_account_simps [simp]:
  "native_transfers (open_account l i pk d) = native_transfers d" "native_debits (open_account l i pk d) = native_debits d"
  "compute_escrow_credits (open_account l i pk d) = compute_escrow_credits d"
  "compute_escrow_debits (open_account l i pk d) = compute_escrow_debits d"
  "gas_fee (open_account l i pk d) = gas_fee d" "compute_fee_tlkd (open_account l i pk d) = compute_fee_tlkd d"
  "nonce_updates (open_account l i pk d) = nonce_updates d" "staking_updates (open_account l i pk d) = staking_updates d"
  "oracle_updates (open_account l i pk d) = oracle_updates d"
  by (simp_all add: open_account_def put_account_def)

lemma covered_open: "covered l (account_updates d) \<Longrightarrow> covered l (account_updates (open_account l i pk d))"
  by (auto simp: open_account_def put_account_def intro!: covered_put)

lemma transfer_shape:
  assumes "compute_transfer_diff E l sender r pk amt sa d = Inr d'"
  obtains tc where "unat tc = unat amt + unat (gas_of E ''gas.transfer'')"
    and "d' = (credit_of r amt (open_account l r pk (debit_of sender tc d)))\<lparr>gas_fee := gas_of E ''gas.transfer''\<rparr>"
  using assms by (auto simp: compute_transfer_diff_def dest: checked_add_Some split: if_splits option.splits sum.splits)

lemma transfer_booked:
  assumes "compute_transfer_diff E l sender r pk amt sa d = Inr d'" and "start d" and "sound_diff l d"
    and "i = Transfer r pk' amt \<or> i = TransferToName name amt"
  shows "booked E l i d d'"
proof -
  from assms(1) obtain tc where "unat tc = unat amt + unat (gas_of E ''gas.transfer'')"
    "d' = (credit_of r amt (open_account l r pk (debit_of sender tc d)))\<lparr>gas_fee := gas_of E ''gas.transfer''\<rparr>"
    by (rule transfer_shape)
  then show ?thesis using assms covered_open [of l "debit_of sender tc d" r pk] by (auto simp: booked_defs)
qed

lemma check_batch_total:
  "check_batch E l n ts t0 = Inr t \<Longrightarrow> unat t = unat t0 + sum_list (map (\<lambda>t. unat (bte_amount t)) ts)"
proof (induction ts arbitrary: n t0)
  case (Cons x xs)
  then obtain t1 where "checked_add t0 (bte_amount x) = Some t1" "check_batch E l (Suc n) xs t1 = Inr t"
    by (auto split: if_splits sum.splits option.splits)
  then show ?case using Cons.IH checked_add_Some [of t0 "bte_amount x" t1] by simp
qed simp

lemma batch_entries:
  "native_transfers (fold (batch_entry l) ts d) = native_transfers d @ map (\<lambda>t. (bte_recipient t, bte_amount t)) ts"
  "native_debits (fold (batch_entry l) ts d) = native_debits d"
  "compute_escrow_credits (fold (batch_entry l) ts d) = compute_escrow_credits d"
  "compute_escrow_debits (fold (batch_entry l) ts d) = compute_escrow_debits d"
  "compute_fee_tlkd (fold (batch_entry l) ts d) = compute_fee_tlkd d"
  "nonce_updates (fold (batch_entry l) ts d) = nonce_updates d"
  "staking_updates (fold (batch_entry l) ts d) = staking_updates d"
  "oracle_updates (fold (batch_entry l) ts d) = oracle_updates d"
  by (induction ts arbitrary: d) (simp_all add: batch_entry_def credit_of_def)

lemma covered_batch: "covered l (account_updates d) \<Longrightarrow> covered l (account_updates (fold (batch_entry l) ts d))"
  by (induction ts arbitrary: d) (simp_all add: batch_entry_def credit_of_def covered_open)

lemma checked_mul_Some: "checked_mul a b = Some c \<Longrightarrow> c = saturating_mul a b"
  by (auto simp: checked_mul_def saturating_mul_def split: if_splits)

lemma batch_booked:
  assumes "compute_batch_transfer_diff E l sender ts sa d = Inr d'" and "start d" and "sound_diff l d"
    and "i = BatchTransfer ts \<or> i = BatchTransferToName es \<and> length es = length ts"
  shows "booked E l i d d'"
proof -
  from assms(1) obtain ta gt tc where c: "check_batch E l 0 ts 0 = Inr ta"
      "checked_mul (gas_of E ''gas.transfer'') (of_nat (length ts)) = Some gt" "checked_add ta gt = Some tc"
    and d': "d' = (fold (batch_entry l) ts (debit_of sender tc d))\<lparr>gas_fee := gt\<rparr>"
    by (auto simp: compute_batch_transfer_diff_def split: if_splits option.splits sum.splits)
  have tot: "unat tc = sum_list (map (\<lambda>t. unat (bte_amount t)) ts) + unat gt"
    using check_batch_total [OF c(1)] checked_add_Some [OF c(3)] by simp
  have fee: "gas_already_debited i" "embedded_fee E i = gt"
    using assms(4) checked_mul_Some [OF c(2)] by (auto simp: gas_already_debited_def embedded_fee_def)
  have sums: "total_in (map (\<lambda>t. (bte_recipient t, bte_amount t)) ts) = sum_list (map (\<lambda>t. unat (bte_amount t)) ts)"
    by (simp add: total_in_def amount_in_def comp_def)
  have "covered l (account_updates d')" using covered_batch [of l "debit_of sender tc d" ts] assms(3)
    by (simp add: d' sound_diff_def debit_of_def)
  then show ?thesis using assms fee tot sums
    by (auto simp: booked_defs d' batch_entries)
qed

lemma resolve_batch_length: "resolve_batch l es = Inr bs \<Longrightarrow> length es = length bs"
  by (induction es arbitrary: bs) (auto split: sum.splits)

lemma escrow_booked:
  assumes "start d" and "sound_diff l d"
  shows "compute_deposit_compute_diff sender amt sa d = Inr d' \<Longrightarrow> booked E l (DepositCompute amt) d d'"
    and "compute_withdraw_compute_diff sender amt sa d = Inr d' \<Longrightarrow> booked E l (WithdrawCompute amt) d d'"
    and "compute_wrap_trth_diff E sender amt sa d = Inr d' \<Longrightarrow> booked E l (WrapTLKD amt) d d'"
    and "compute_unwrap_trth_diff E l sender amt d = Inr d' \<Longrightarrow> booked E l (UnwrapTLKD amt) d d'"
  using assms
  by (auto simp: booked_defs compute_deposit_compute_diff_def compute_withdraw_compute_diff_def
      compute_wrap_trth_diff_def compute_unwrap_trth_diff_def Let_def split: if_splits)

lemma propose_booked:
  assumes "start d" and "sound_diff l d" and "compute_propose_url_diff l sender pat bond period ts sa d = Inr d'"
  shows "booked E l (ProposeUrl pat bond period) d d'"
  using assms by (auto simp: booked_defs compute_propose_url_diff_def Let_def pays_bond_def split: if_splits)

lemma run_intent_booked:
  assumes "run_intent E l tx sa d = Inr d'" and "om_get (accounts l) (tx_sender tx) = Some sa"
    and "start d" and "sound_diff l d" and "tracked (tx_intent tx)"
  shows "booked E l (tx_intent tx) d d'"
proof (cases "tx_intent tx")
  case (Transfer r pk amt)
  then show ?thesis using assms by (auto simp: run_intent_def Let_def intro: transfer_booked)
next
  case (TransferToName name amt)
  then show ?thesis using assms by (auto simp: run_intent_def Let_def intro: transfer_booked split: sum.splits)
next
  case (BatchTransfer bs)
  then show ?thesis using assms by (auto simp: run_intent_def Let_def intro: batch_booked)
next
  case (BatchTransferToName es)
  then show ?thesis using assms
    by (auto simp: run_intent_def Let_def intro: batch_booked dest: resolve_batch_length split: sum.splits)
next
  case (ProposeUrl pat bond period)
  then show ?thesis using assms by (simp add: run_intent_def Let_def propose_booked)
next
  case (AcceptOwnershipIntent cid)
  then show ?thesis using assms by (auto simp: run_intent_def Let_def booked_defs)
qed (use assms in \<open>auto simp: run_intent_def Let_def tracked_def escrow_booked locked_def released_def gas_already_debited_def
  intro!: quiet_booked intro: handlers_quiet\<close>)

section \<open>Fees\<close>

lemma settle_fees_shape:
  fixes d :: state_diff and trth cu bf
  defines "d' \<equiv> settle_fees trth cu bf d"
  shows "d' = d\<lparr>cu_fee := cu_fee d', gas_fee := gas_fee d'\<rparr>" and "gas_fee d \<le> gas_fee d'"
  by (simp_all add: d'_def settle_fees_def Let_def less_imp_le) auto

definition paid_by :: "bytes \<Rightarrow> u128 \<Rightarrow> state_diff \<Rightarrow> state_diff \<Rightarrow> bool" where
  "paid_by i amt d d' \<longleftrightarrow> d' = debit_of i amt d \<or> amt = 0 \<and> d' = d"

lemma charge_gas_shape:
  assumes "charge_gas E tx sa d = Inr d'"
    and "gas_already_debited (tx_intent tx) \<longrightarrow> embedded_fee E (tx_intent tx) \<le> gas_fee d"
  shows "paid_by (tx_sender tx) (gas_fee d - (if gas_already_debited (tx_intent tx) then embedded_fee E (tx_intent tx) else 0)) d d'"
  using assms by (auto simp: charge_gas_def Let_def paid_by_def saturating_sub_def not_less split: if_splits option.splits)

lemma charge_compute_shape:
  assumes "charge_compute E tx sa d = Inr d'"
  shows "d' = d \<or> (\<exists>fee. d' = d\<lparr>compute_escrow_debits := compute_escrow_debits d @ [(tx_sender tx, fee)], compute_fee_tlkd := fee\<rparr>)"
  using assms by (auto simp: charge_compute_def Let_def split: if_splits option.splits sum.splits)

lemma finish_shape:
  assumes "finish_diff E tx sa bf d = Inr d'"
    and "gas_already_debited (tx_intent tx) \<longrightarrow> embedded_fee E (tx_intent tx) \<le> gas_fee d"
  obtains c g d2 d3 where "gas_fee d \<le> g"
    and "paid_by (tx_sender tx) (g - (if gas_already_debited (tx_intent tx) then embedded_fee E (tx_intent tx) else 0))
      (d\<lparr>cu_fee := c, gas_fee := g\<rparr>) d2"
    and "d3 = d2 \<or> (\<exists>fee. d3 = d2\<lparr>compute_escrow_debits := compute_escrow_debits d2 @ [(tx_sender tx, fee)], compute_fee_tlkd := fee\<rparr>)"
    and "d' = keep_sender_key tx sa d3"
proof -
  let ?d = "settle_fees (required_trth_fee E (tx_intent tx) bf) (required_cu_fee E (tx_intent tx)) bf d"
  note cg = settle_fees_shape [where d = d and trth = "required_trth_fee E (tx_intent tx) bf"
      and cu = "required_cu_fee E (tx_intent tx)" and bf = bf]
  from assms(1) obtain d2 d3 where s: "charge_gas E tx sa ?d = Inr d2"
      "charge_compute E tx sa d2 = Inr d3" "d' = keep_sender_key tx sa d3"
    by (auto simp: finish_diff_def Let_def split: if_splits sum.splits)
  have "gas_already_debited (tx_intent tx) \<longrightarrow> embedded_fee E (tx_intent tx) \<le> gas_fee ?d"
    using assms(2) cg(2) by (auto intro: order_trans)
  note p = charge_gas_shape [OF s(1) this]
  show thesis
    by (rule that [OF cg(2) _ charge_compute_shape [OF s(2)] s(3)]) (subst cg(1) [symmetric], rule p)
qed

lemma keep_sender_key_quiet:
  assumes "om_get (accounts l) (tx_sender tx) = Some sa"
  shows "quiet l d (keep_sender_key tx sa d)"
  unfolding keep_sender_key_def Let_def by (intro quiet_put) (simp add: assms)

lemma money_eq:
  assumes "money d' = money d"
  shows "native_transfers d' = native_transfers d" "native_debits d' = native_debits d"
    "compute_escrow_credits d' = compute_escrow_credits d" "compute_escrow_debits d' = compute_escrow_debits d"
    "gas_fee d' = gas_fee d" "compute_fee_tlkd d' = compute_fee_tlkd d" "nonce_updates d' = nonce_updates d"
  using assms by (simp_all add: money_def)

definition settled :: "ledger \<Rightarrow> 'o transaction \<Rightarrow> state_diff \<Rightarrow> state_diff \<Rightarrow> bool" where
  "settled l tx d d' \<longleftrightarrow> sound_diff l d'
     \<and> balanced d' (released (tx_intent tx)) (locked (tx_intent tx)) (unat (gas_fee d') + unat (compute_fee_tlkd d'))
     \<and> nonce_updates d' = nonce_updates d \<and> native_transfers d' = native_transfers d
     \<and> (\<exists>fee. unat fee = unat (gas_fee d') - unat (gas_fee d) \<and> gas_fee d \<le> gas_fee d'
          \<and> (native_debits d' = native_debits d @ [(tx_sender tx, fee)] \<or> fee = 0 \<and> native_debits d' = native_debits d))"

lemma finish_settled:
  assumes "finish_diff E tx sa bf d = Inr d'" and "booked E l (tx_intent tx) d0 d"
    and "om_get (accounts l) (tx_sender tx) = Some sa"
  shows "settled l tx d d'"
proof -
  let ?i = "tx_intent tx"
  let ?emb = "if gas_already_debited ?i then embedded_fee E ?i else 0"
  have b: "sound_diff l d" "balanced d (released ?i) (locked ?i) (unat (gas_fee d))" "gas_fee d = ?emb"
    "compute_fee_tlkd d = 0" "nonce_updates d = nonce_updates d0"
    using assms(2) unfolding booked_def by blast+
  from assms(1) b(3) obtain c g d2 d3 where s: "gas_fee d \<le> g"
      "paid_by (tx_sender tx) (g - ?emb) (d\<lparr>cu_fee := c, gas_fee := g\<rparr>) d2"
      "d3 = d2 \<or> (\<exists>fee. d3 = d2\<lparr>compute_escrow_debits := compute_escrow_debits d2 @ [(tx_sender tx, fee)], compute_fee_tlkd := fee\<rparr>)"
      "d' = keep_sender_key tx sa d3"
    by (elim finish_shape) auto
  have fee: "unat (g - ?emb) = unat g - unat (gas_fee d)" "unat (gas_fee d) \<le> unat g"
    using s(1) b(3) by (simp_all add: unat_sub_le word_le_nat_alt)
  have q: "quiet l d3 d'" unfolding s(4) by (rule keep_sender_key_quiet [OF assms(3)])
  note m = money_eq [of d' d3]
  have "sound_diff l d2" using b(1) s(2) by (auto simp: paid_by_def sound_diff_def plain_def debit_of_def)
  then have "sound_diff l d3" using s(3) by (auto simp: sound_diff_def plain_def)
  then have "sound_diff l d'" using q by (simp add: quiet_def)
  moreover have "balanced d2 (released ?i) (locked ?i) (unat (gas_fee d2)) \<and> compute_fee_tlkd d2 = 0 \<and> gas_fee d2 = g"
    using b(2,4) s(2) fee by (auto simp: paid_by_def balanced_def debit_of_def amount_in_def)
  then have "balanced d3 (released ?i) (locked ?i) (unat (gas_fee d3) + unat (compute_fee_tlkd d3)) \<and> gas_fee d3 = g"
    using s(3) by (auto simp: balanced_def amount_in_def)
  then have "balanced d' (released ?i) (locked ?i) (unat (gas_fee d') + unat (compute_fee_tlkd d')) \<and> gas_fee d' = g"
    using m q by (simp add: quiet_def balanced_def)
  moreover have "nonce_updates d' = nonce_updates d" "native_transfers d' = native_transfers d"
    "native_debits d' = native_debits d @ [(tx_sender tx, g - ?emb)] \<or> g - ?emb = 0 \<and> native_debits d' = native_debits d"
    using m q s(2,3) by (auto simp: quiet_def paid_by_def debit_of_def)
  ultimately show ?thesis using s(1) fee(1) unfolding settled_def by metis
qed

lemma compute_transaction_ok:
  assumes "compute_transaction_diff v E l tx = Inr d"
  obtains sa bf h d1 where "om_get (accounts l) (tx_sender tx) = Some sa" and "tx_nonce tx = saturating_add (acct_nonce sa) 1"
    and "run_intent E l tx sa (diff_default\<lparr>nonce_updates := [(tx_sender tx, tx_nonce tx)], tx_hash := h\<rparr>) = Inr d1"
    and "finish_diff E tx sa bf d1 = Inr d"
  using assms by (auto simp: compute_transaction_diff_def Let_def split: sum.splits if_splits option.splits)

lemma start_default: "start (diff_default\<lparr>nonce_updates := ns, tx_hash := h\<rparr>)"
  by (simp add: start_def diff_default_def)

lemma sound_default: "sound_diff l (diff_default\<lparr>nonce_updates := ns, tx_hash := h\<rparr>)"
  by (simp add: sound_diff_def plain_def covered_def diff_default_def)

lemma transaction_settled:
  assumes "compute_transaction_diff v E l tx = Inr d" and "tracked (tx_intent tx)"
  obtains sa h d1 where "om_get (accounts l) (tx_sender tx) = Some sa"
    and "run_intent E l tx sa (diff_default\<lparr>nonce_updates := [(tx_sender tx, tx_nonce tx)], tx_hash := h\<rparr>) = Inr d1"
    and "booked E l (tx_intent tx) (diff_default\<lparr>nonce_updates := [(tx_sender tx, tx_nonce tx)], tx_hash := h\<rparr>) d1"
    and "settled l tx d1 d"
proof -
  from assms(1) obtain sa bf h d1 where s: "om_get (accounts l) (tx_sender tx) = Some sa"
      "run_intent E l tx sa (diff_default\<lparr>nonce_updates := [(tx_sender tx, tx_nonce tx)], tx_hash := h\<rparr>) = Inr d1"
      "finish_diff E tx sa bf d1 = Inr d" by (rule compute_transaction_ok)
  note b = run_intent_booked [OF s(2,1) start_default sound_default assms(2)]
  show thesis by (rule that [OF s(1,2) b finish_settled [OF s(3) b s(1)]])
qed

section \<open>Nonces\<close>

definition handled :: "'o intent \<Rightarrow> bool" where
  "handled i = (case i of OtherIntent _ \<Rightarrow> False | _ \<Rightarrow> True)"

lemma effects_nonce [simp]:
  "nonce_updates (take_effects r d) = nonce_updates d" "nonce_updates (take_oracle r d) = nonce_updates d"
  "nonce_updates (take_changes ks b a d) = nonce_updates d" "nonce_updates (lower_balance s sa x d) = nonce_updates d"
  by (simp_all add: take_effects_def take_oracle_def take_changes_def lower_balance_def put_account_def)

lemma pay_value_nonce: "pay_value sender sa val d = Inr d' \<Longrightarrow> nonce_updates d' = nonce_updates d"
  by (auto simp: pay_value_def split: if_splits option.splits)

lemma fold_effects_nonce:
  "nonce_updates (fold (\<lambda>r d. take_oracle r (take_effects r d)) rs d) = nonce_updates d"
  by (induction rs arbitrary: d) simp_all

lemma call_nonce:
  "compute_call_cell_diff E l sender cid cd val g ts ht sa d = Inr d' \<Longrightarrow> nonce_updates d' = nonce_updates d"
  "compute_call_chain_diff E l sender calls g sa mcp d = Inr d' \<Longrightarrow> nonce_updates d' = nonce_updates d"
  by (auto simp: compute_call_cell_diff_def call_system_cell_def compute_call_chain_diff_def Let_def fold_effects_nonce
      dest!: pay_value_nonce split: if_splits option.splits sum.splits)

lemma cell_intent_nonce:
  assumes "run_cell_intent E l sender ts ci sa d = Inr d'" and "om_get (accounts l) sender = Some sa"
  shows "nonce_updates d' = nonce_updates d"
proof (cases "calls_cells ci")
  case True
  then show ?thesis
    using assms(1) by (auto simp: calls_cells_def run_cell_intent_def dest: call_nonce split: cell_intent.splits)
next
  case False
  then show ?thesis
    using cell_intent_quiet [OF assms False] by (simp add: quiet_def money_def)
qed

lemma run_intent_nonce:
  assumes "run_intent E l tx sa d = Inr d'" and "om_get (accounts l) (tx_sender tx) = Some sa"
    and "start d" and "sound_diff l d" and "handled (tx_intent tx)"
  shows "nonce_updates d' = nonce_updates d"
    and "gas_already_debited (tx_intent tx) \<longrightarrow> embedded_fee E (tx_intent tx) \<le> gas_fee d'"
proof (atomize (full), cases "tracked (tx_intent tx)")
  case True
  then show "nonce_updates d' = nonce_updates d
    \<and> (gas_already_debited (tx_intent tx) \<longrightarrow> embedded_fee E (tx_intent tx) \<le> gas_fee d')"
    using run_intent_booked [OF assms(1-4)] by (simp add: booked_def)
next
  case False
  then show "nonce_updates d' = nonce_updates d
    \<and> (gas_already_debited (tx_intent tx) \<longrightarrow> embedded_fee E (tx_intent tx) \<le> gas_fee d')"
    using assms
    by (auto simp: tracked_def handled_def gas_already_debited_def run_intent_def Let_def compute_claim_diff_def
        compute_vote_url_diff_def compute_report_malicious_url_diff_def put_account_def cell_intent_nonce
        split: intent.splits if_splits option.splits sum.splits)
qed

lemma finish_nonce:
  assumes "finish_diff E tx sa bf d = Inr d'"
    and "gas_already_debited (tx_intent tx) \<longrightarrow> embedded_fee E (tx_intent tx) \<le> gas_fee d"
  shows "nonce_updates d' = nonce_updates d"
proof -
  from assms obtain c g d2 d3 where
      "paid_by (tx_sender tx) (g - (if gas_already_debited (tx_intent tx) then embedded_fee E (tx_intent tx) else 0))
        (d\<lparr>cu_fee := c, gas_fee := g\<rparr>) d2"
      "d3 = d2 \<or> (\<exists>fee. d3 = d2\<lparr>compute_escrow_debits := compute_escrow_debits d2 @ [(tx_sender tx, fee)], compute_fee_tlkd := fee\<rparr>)"
      "d' = keep_sender_key tx sa d3"
    by (rule finish_shape)
  then show ?thesis by (auto simp: paid_by_def keep_sender_key_def Let_def put_account_def debit_of_def)
qed

lemma transaction_nonce:
  assumes "compute_transaction_diff v E l tx = Inr d" and "handled (tx_intent tx)"
  shows "nonce_updates d = [(tx_sender tx, tx_nonce tx)]"
    and "\<exists>a. om_get (accounts l) (tx_sender tx) = Some a \<and> tx_nonce tx = saturating_add (acct_nonce a) 1"
proof -
  from assms(1) obtain sa bf h d1 where s: "om_get (accounts l) (tx_sender tx) = Some sa"
      "tx_nonce tx = saturating_add (acct_nonce sa) 1"
      "run_intent E l tx sa (diff_default\<lparr>nonce_updates := [(tx_sender tx, tx_nonce tx)], tx_hash := h\<rparr>) = Inr d1"
      "finish_diff E tx sa bf d1 = Inr d" by (rule compute_transaction_ok)
  note n = run_intent_nonce [OF s(3,1) start_default sound_default assms(2)]
  show "nonce_updates d = [(tx_sender tx, tx_nonce tx)]" using finish_nonce [OF s(4) n(2)] n(1) by simp
  show "\<exists>a. om_get (accounts l) (tx_sender tx) = Some a \<and> tx_nonce tx = saturating_add (acct_nonce a) 1" using s by blast
qed

lemma apply_diff_nonce:
  assumes "accounts_ok l" and "nonce_updates d = [(i, n)]" and "om_get (accounts l) i = Some a"
    and "apply_diff E d l = (Inr (), l')"
  shows "\<exists>a'. om_get (accounts l') i = Some a' \<and> n \<le> acct_nonce a'"
proof -
  let ?early = "butlast (account_steps d)"
  have split: "account_steps d = ?early @ [always (update_nonce (i, n))]"
    by (simp add: account_steps_def assms(2))
  have "apply_diff E d = steps_in_order (?early @ [always (update_nonce (i, n))] @ later_steps E d)"
    unfolding apply_diff_steps by (subst split) simp
  then obtain l1 where s: "steps_in_order ?early l = (Inr (), l1)"
      "steps_in_order (later_steps E d) (update_nonce (i, n) l1) = (Inr (), l')"
    using assms(4) by (auto simp: steps_in_order_append then_step_ok always_def)
  have "accounts_grow l (snd (steps_in_order ?early l))"
    by (intro grow.rel_steps grow_step_in) (use in_set_butlastD in force)
  then obtain a1 where a1: "accounts_ok l1" "om_get (accounts l1) i = Some a1"
    using s(1) assms(1,3) unfolding accounts_grow_def by fastforce
  let ?l2 = "update_nonce (i, n) l1"
  have ok2: "accounts_ok ?l2" using a1 grow_update_nonce [of l1 "(i, n)"] by (simp add: accounts_grow_def)
  have "\<exists>a2. om_get (accounts ?l2) i = Some a2 \<and> n \<le> acct_nonce a2"
    using a1 by (auto simp: update_nonce_def get_set_account)
  then obtain a2 where a2: "om_get (accounts ?l2) i = Some a2" "n \<le> acct_nonce a2" by blast
  have "accounts_grow ?l2 (snd (steps_in_order (later_steps E d) ?l2))"
    by (intro grow.rel_steps grow_step_in) auto
  then show ?thesis using s(2) ok2 a2 unfolding accounts_grow_def grows_def by fastforce
qed

lemma stale_nonce_rejected:
  assumes "om_get (accounts l) (tx_sender tx) = Some a" and "tx_nonce tx \<le> acct_nonce a" and "tx_nonce tx \<noteq> - 1"
  shows "\<exists>e. compute_transaction_diff v E l tx = Inl e"
proof (cases "compute_transaction_diff v E l tx")
  case (Inr d)
  then have eq: "tx_nonce tx = saturating_add (acct_nonce a) 1" using assms(1) by (elim compute_transaction_ok) simp
  have "unat (- 1 :: u64) = 2 ^ 64 - 1" by (simp add: unsigned_minus_1_eq_mask mask_eq_exp_minus_1)
  then have "unat (tx_nonce tx) \<noteq> 2 ^ 64 - 1" using assms(3) by (metis word_unat_eq_iff)
  then show ?thesis using assms(2) arg_cong [OF eq, of unat] by (simp add: unat_saturating_add word_le_nat_alt)
qed simp

lemma settled_supply:
  assumes "settled l tx d1 d" and "accounts_ok l" and "apply_diff E d l = (Inr (), l')"
  shows "native_supply l' + unat (gas_fee d) + unat (compute_fee_tlkd d) + locked (tx_intent tx)
    = native_supply l + released (tx_intent tx)"
proof -
  have s: "covered l (account_updates d)" "plain d"
      "balanced d (released (tx_intent tx)) (locked (tx_intent tx)) (unat (gas_fee d) + unat (compute_fee_tlkd d))"
    using assms(1) by (simp_all add: settled_def sound_diff_def)
  show ?thesis using apply_diff_flow(1) [OF assms(2) s(1,2) assms(3)] s(3) unfolding balanced_def by linarith
qed

section \<open>Properties of whole transactions\<close>

text \<open>
  C4. The currency held by accounts is conserved. When a transaction is accepted and its diff
  applied, the balances and compute escrows of all accounts together fall by exactly the
  gas fee and the compute fee that go to the fee accumulators, by what a wrap or a URL
  bond locks, and grow by exactly what an unwrap releases. This is for the tracked intents:
  every intent with a handler here, the deployment and governance of cells included, but the
  faucet claim, which mints, the calls of cells and of chains of cells, whose effects are
  theirs, and the URL vote and the URL report, which can pay out a bond.
\<close>
theorem supply_conserved:
  assumes "accounts_ok l" and "compute_transaction_diff v E l tx = Inr d" and "tracked (tx_intent tx)"
    and "apply_diff E d l = (Inr (), l')"
  shows "native_supply l' + unat (gas_fee d) + unat (compute_fee_tlkd d) + locked (tx_intent tx)
    = native_supply l + released (tx_intent tx)"
proof -
  obtain sa d1 where "settled l tx d1 d" using transaction_settled [OF assms(2,3)] by metis
  then show ?thesis by (rule settled_supply [OF _ assms(1,4)])
qed

lemma transfer_diff:
  assumes "compute_transaction_diff v E l tx = Inr d" and "tx_intent tx = Transfer r pk amt"
  shows "native_transfers d = [(r, amt)]"
    and "total_at i (native_debits d) = (if i = tx_sender tx then unat amt + unat (gas_fee d) else 0)"
    and "covered l (account_updates d)" and "plain d"
proof -
  have tr: "tracked (tx_intent tx)" by (simp add: assms(2) tracked_def)
  obtain sa h d1 where s: "run_intent E l tx sa (diff_default\<lparr>nonce_updates := [(tx_sender tx, tx_nonce tx)], tx_hash := h\<rparr>) = Inr d1"
      "settled l tx d1 d" using transaction_settled [OF assms(1) tr] by metis
  have "compute_transfer_diff E l (tx_sender tx) r (key_or_empty pk) amt sa
      (diff_default\<lparr>nonce_updates := [(tx_sender tx, tx_nonce tx)], tx_hash := h\<rparr>) = Inr d1"
    using s(1) by (simp add: run_intent_def assms(2))
  then obtain tc where tc: "unat tc = unat amt + unat (gas_fee d1)" "native_debits d1 = [(tx_sender tx, tc)]"
      "native_transfers d1 = [(r, amt)]"
    by (elim transfer_shape) (simp add: credit_of_def debit_of_def diff_default_def)
  obtain fee where fee: "unat fee = unat (gas_fee d) - unat (gas_fee d1)" "gas_fee d1 \<le> gas_fee d"
      "native_debits d = native_debits d1 @ [(tx_sender tx, fee)] \<or> fee = 0 \<and> native_debits d = native_debits d1"
      "native_transfers d = native_transfers d1" "covered l (account_updates d)" "plain d"
    using s(2) by (auto simp: settled_def sound_diff_def)
  have le: "unat (gas_fee d1) \<le> unat (gas_fee d)" using fee(2) by (simp add: word_le_nat_alt)
  show "total_at i (native_debits d) = (if i = tx_sender tx then unat amt + unat (gas_fee d) else 0)"
    using fee(1,3) tc le by (auto simp: amount_at_def)
  show "native_transfers d = [(r, amt)]" "covered l (account_updates d)" "plain d"
    using fee(4-6) tc(3) by simp_all
qed

text \<open>
  C24. A transfer moves exactly its amount: afterwards the recipient has the amount more,
  the sender the amount and the fee less, every other balance is unchanged, and a transfer
  to oneself costs the fee alone.
\<close>
theorem transfer_exact:
  assumes "accounts_ok l" and "compute_transaction_diff v E l tx = Inr d" and "tx_intent tx = Transfer r pk amt"
    and "apply_diff E d l = (Inr (), l')"
  shows "balance_of i l' + (if i = tx_sender tx then unat amt + unat (gas_fee d) else 0)
    = balance_of i l + (if i = r then unat amt else 0)"
  using apply_diff_flow(2) [OF assms(1) transfer_diff(3,4) [OF assms(2,3)] assms(4), of i]
    transfer_diff(1,2) [OF assms(2,3)]
  by (auto simp: amount_at_def)

text \<open>
  C32. Sequential execution never changes the key of an account and never lowers a nonce:
  whatever transactions \<^verbatim>\<open>execute_sequential\<close> runs, accepted, rejected or abandoned half-way, an
  account that has a public key keeps exactly this key. In particular a key rotation, although
  it is accepted and paid for, does not replace the key. (Merging the diff of a rotation in a
  parallel batch does replace it.)
\<close>
theorem keys_never_change:
  assumes "accounts_ok l" and "om_get (accounts l) i = Some a" and "pubkey_bytes a \<noteq> []"
  shows "\<exists>a'. om_get (accounts (br_state (execute_sequential E l txs))) i = Some a'
    \<and> pubkey_bytes a' = pubkey_bytes a \<and> acct_nonce a \<le> acct_nonce a'"
proof -
  have "accounts_grow l (br_state (execute_sequential E l txs))"
    using grow_run_sequential [of "\<lparr>br_state = l, br_failed = [], br_applied = 0, br_total_fees = 0\<rparr>"]
    by (simp add: execute_sequential_def Let_def)
  then show ?thesis using assms unfolding accounts_grow_def grows_def by blast
qed

text \<open>
  C31. Applying a diff is not atomic. A deposit into the compute escrow is checked against
  the balance without the byte fee, so it can be accepted although deposit and fee together
  exceed the balance; then the application stops at the second debit. The sender has lost
  the deposit, no escrow was credited, and the fee accumulator already counts the fee.
\<close>
theorem deposit_not_atomic:
  assumes "accounts_ok l" and "compute_transaction_diff v E l tx = Inr d" and "tx_intent tx = DepositCompute amt"
    and "balance_of (tx_sender tx) l < unat amt + unat (gas_fee d)"
  shows "\<exists>l'. apply_diff E d l = (Inl ''Sender balance underflow'', l')
    \<and> native_supply l' + unat amt = native_supply l
    \<and> balance_of (tx_sender tx) l' + unat amt = balance_of (tx_sender tx) l
    \<and> accumulated_gas_fees l' = accumulated_gas_fees l + gas_fee d"
proof -
  let ?s = "tx_sender tx"
  from assms(2) obtain sa bf h d1 where s: "om_get (accounts l) ?s = Some sa"
      "run_intent E l tx sa (diff_default\<lparr>nonce_updates := [(?s, tx_nonce tx)], tx_hash := h\<rparr>) = Inr d1"
      "finish_diff E tx sa bf d1 = Inr d" by (rule compute_transaction_ok)
  then have d1: "amt \<le> acct_balance sa" "native_transfers d1 = []" "native_debits d1 = [(?s, amt)]" "gas_fee d1 = 0" "\<not> is_system d1"
    by (auto simp: run_intent_def Let_def assms(3) compute_deposit_compute_diff_def debit_of_def diff_default_def not_less split: if_splits)
  have "\<not> gas_already_debited (tx_intent tx)" by (simp add: assms(3) gas_already_debited_def)
  then obtain c g d2 d3 where f: "paid_by ?s g (d1\<lparr>cu_fee := c, gas_fee := g\<rparr>) d2"
      "d3 = d2 \<or> (\<exists>fee. d3 = d2\<lparr>compute_escrow_debits := compute_escrow_debits d2 @ [(?s, fee)], compute_fee_tlkd := fee\<rparr>)"
      "d = keep_sender_key tx sa d3"
    using s(3) by (elim finish_shape) auto
  have bal: "balance_of ?s l = unat (acct_balance sa)" using s(1) by (simp add: balance_of_def)
  have d: "native_transfers d = []" "gas_fee d = g" "\<not> is_system d"
      "native_debits d = [(?s, amt), (?s, g)] \<or> g = 0"
    using f d1 by (auto simp: paid_by_def debit_of_def keep_sender_key_def put_account_def Let_def)
  have pos: "g \<noteq> 0" using assms(4) d(2) d1(1) bal by (auto simp: word_le_nat_alt)
  let ?l0 = "record_tx d l" and ?a = "sa\<lparr>acct_balance := acct_balance sa - amt\<rparr>"
  have acc0: "om_get (accounts ?l0) ?s = Some sa" "accounts_ok ?l0"
    using s(1) assms(1) by (simp_all add: same_record_tx accounts_ok_def)
  have b: "unat (acct_balance sa - amt) = unat (acct_balance sa) - unat amt" "unat amt \<le> unat (acct_balance sa)"
    using d1(1) by (simp_all add: unat_sub_le word_le_nat_alt)
  have low: "checked_sub (acct_balance sa - amt) g = None"
    using assms(4) b bal d(2) by (simp add: checked_sub_def word_le_nat_alt)
  have "each debit_native (native_debits d) ?l0 = (Inl ''Sender balance underflow'', set_account ?s ?a ?l0)"
    using d(4) pos d1(1) acc0 low by (simp add: then_step_def debit_native_def checked_sub_def get_set_account)
  then have "apply_diff E d l = (Inl ''Sender balance underflow'', set_account ?s ?a ?l0)"
    by (simp add: apply_diff_def d(1) then_step_def always_def)
  moreover have "native_supply (set_account ?s ?a ?l0) + unat amt = native_supply l"
    using supply_put_old [OF acc0(2,1), of ?a] b
    by (simp add: account_value_def native_supply_def same_record_tx)
  moreover have "balance_of ?s (set_account ?s ?a ?l0) + unat amt = balance_of ?s l"
    using acc0(2) b bal by (simp add: balance_of_set)
  moreover have "accumulated_gas_fees (set_account ?s ?a ?l0) = accumulated_gas_fees l + gas_fee d"
    using d(3) by (simp add: set_account_def record_tx_def)
  ultimately show ?thesis by blast
qed

text \<open>
  A faucet claim for an account that exists pays nothing: it is accepted, counted as
  minted and recorded for the cooldown, but no balance changes, because the application of
  a diff never takes a balance from the account updates.
\<close>
theorem claim_existing_unpaid:
  assumes "accounts_ok l" and "compute_transaction_diff v E l tx = Inr d" and "tx_intent tx = Claim r pk amt"
    and "om_get (accounts l) r \<noteq> None" and "apply_diff E d l = (Inr (), l')"
  shows "minted_amount d = amt \<and> native_supply l' = native_supply l \<and> balance_of i l' = balance_of i l"
proof -
  let ?s = "tx_sender tx" and ?d0 = "\<lambda>h. diff_default\<lparr>nonce_updates := [(tx_sender tx, tx_nonce tx)], tx_hash := h\<rparr>"
  from assms(2) obtain sa h d1 where s: "om_get (accounts l) ?s = Some sa"
      "run_intent E l tx sa (?d0 h) = Inr d1" "finish_diff E tx sa 0 d1 = Inr d"
    by (auto simp: compute_transaction_diff_def Let_def is_claim_def assms(3) split: sum.splits if_splits option.splits)
  have d1: "minted_amount d1 = amt" "gas_fee d1 = 0" "cu_fee d1 = 0" "start d1" "sound_diff l d1"
    using s(2) assms(4) sound_default [of l h "[(?s, tx_nonce tx)]"]
    by (auto simp: run_intent_def assms(3) compute_claim_diff_def Let_def start_def diff_default_def put_account_def
        sound_diff_def plain_def covered_def split: if_splits option.splits sum.splits dest: set_om_put [THEN subsetD])
  have "d = keep_sender_key tx sa d1"
    using s(3) d1 by (simp add: finish_diff_def required_trth_fee_def required_cu_fee_def settle_fees_def Let_def
        charge_gas_def charge_compute_def assms(3))
  then have q: "quiet l d1 d" and m: "minted_amount d = amt"
    using keep_sender_key_quiet [OF s(1), of d1] d1(1) by (simp_all add: keep_sender_key_def put_account_def Let_def)
  have d: "sound_diff l d" "native_debits d = []" "native_transfers d = []" "compute_escrow_credits d = []"
      "compute_escrow_debits d = []"
    using q d1(4,5) by (auto simp: quiet_def start_def money_def)
  note f = apply_diff_flow [OF assms(1) _ _ assms(5)]
  show ?thesis using m f d by (simp add: sound_diff_def)
qed

section \<open>A concrete chain\<close>

text \<open>
  The witnesses run on a chain with two accounts, a serialisation of five bytes, one unit
  of gas per byte and ten per transfer, and signatures that are not looked at.
\<close>

definition demo_params :: "string \<Rightarrow> u64" where
  "demo_params p = (if p = ''cu.per_tlkd'' then 1000000000 else if p = ''fees.tx_byte'' then 1 else 10)"

definition demo_chain :: "unit tx_env" where
  "demo_chain = \<lparr>env_sha256 = demo_hash, env_blake3 = demo_hash, env_gp = demo_params,
     env_global_results = (\<lambda>_. None), env_gp128 = (\<lambda>_. 10), env_hex = (\<lambda>_. []),
     env_sigs = \<lparr>pk_valid = (\<lambda>_. True), sig_verify = (\<lambda>_ _ _ _. True)\<rparr>, env_tally_order = (\<lambda>m. m),
     env_parse_price = (\<lambda>_. None), env_price_json = (\<lambda>_ _. None), env_ser_tx = (\<lambda>_. Inr (zeros 5)),
     env_ser_intent = (\<lambda>_. Some []), env_genesis = [], env_height = Some 0, env_testnet = True,
     env_pubkey_ok = (\<lambda>_. True), env_verify = (\<lambda>_ _ _ _. True), env_other = (\<lambda>_ _ _ _ _. Inl []),
     env_other_fee = (\<lambda>_. 0)\<rparr>"

definition demo_account :: "u8 \<Rightarrow> account_record" where
  "demo_account k = \<lparr>pubkey_bytes = [k], acct_balance = 1000, compute_escrow = 100, acct_nonce = 0, acct_nfts = []\<rparr>"

definition demo_ledger :: ledger where
  "demo_ledger = (state_genesis demo_chain [])\<lparr>accounts := [([1], demo_account 1), ([2], demo_account 2)],
     foundation_mint_authority := Some [1]\<rparr>"

definition demo_tx :: "unit intent \<Rightarrow> unit transaction" where
  "demo_tx i = \<lparr>tx_sender = [1], tx_intent = i, tx_signature = [], tx_nonce = 1, tx_timestamp = 0,
     tx_genesis_fingerprint = [], tx_expiration_height = 9\<rparr>"

lemma demo_accounts_ok: "accounts_ok demo_ledger"
  by (simp add: accounts_ok_def demo_ledger_def state_genesis_def om_inv_def)

lemmas demo_eval = state_genesis_def staking_new_def demo_chain_def demo_params_def demo_account_def demo_ledger_def demo_tx_def height_now_def gas_of_def
  compute_transaction_diff_def Let_def is_claim_def tx_byte_fee_def run_intent_def finish_diff_def required_trth_fee_def
  required_cu_fee_def settle_fees_def charge_gas_def gas_already_debited_def embedded_fee_def charge_compute_def
  cu_fee_to_tlkd_def keep_sender_key_def diff_default_def put_account_def debit_of_def credit_of_def om_get_def
  rust_int saturating_mul_def checked_mul_def amounts_at_def ONE_TLKD_def

lemmas demo_apply = apply_diff_def then_step_def always_def record_tx_def record_hash_def MAX_EXECUTED_TX_HASHES_def
  credit_native_def debit_native_def credit_escrow_def debit_escrow_def account_or_def set_account_def
  update_account_def update_nonce_def collect_name_fee_def spend_gas_fees_def spend_name_fees_def spend_compute_fees_def
  spend_treasury_fees_def vote_authorities_def count_minted_def record_claim_def

lemma demo_transfer:
  "\<exists>d l'. compute_transaction_diff False demo_chain demo_ledger (demo_tx (Transfer [2] None 100)) = Inr d
     \<and> apply_diff demo_chain d demo_ledger = (Inr (), l')"
  by (simp add: demo_eval demo_apply compute_transfer_diff_def check_recipient_def open_account_def key_or_empty_def)

theorem supply_conserved_witness:
  "\<exists>d l'. compute_transaction_diff False demo_chain demo_ledger (demo_tx (Transfer [2] None 100)) = Inr d
     \<and> apply_diff demo_chain d demo_ledger = (Inr (), l')
     \<and> native_supply l' + unat (gas_fee d) + unat (compute_fee_tlkd d) = native_supply demo_ledger"
proof -
  obtain d l' where s: "compute_transaction_diff False demo_chain demo_ledger (demo_tx (Transfer [2] None 100)) = Inr d"
      "apply_diff demo_chain d demo_ledger = (Inr (), l')" using demo_transfer by blast
  then show ?thesis using supply_conserved [OF demo_accounts_ok s(1) _ s(2)]
    by (simp add: demo_tx_def tracked_def locked_def released_def)
qed

theorem transfer_exact_witness:
  "\<exists>d l'. apply_diff demo_chain d demo_ledger = (Inr (), l') \<and> balance_of [2] l' = 1100"
proof -
  obtain d l' where s: "compute_transaction_diff False demo_chain demo_ledger (demo_tx (Transfer [2] None 100)) = Inr d"
      "apply_diff demo_chain d demo_ledger = (Inr (), l')" using demo_transfer by blast
  have "balance_of [2] demo_ledger = 1000" by (simp add: balance_of_def demo_ledger_def demo_account_def om_get_def)
  then show ?thesis using s(2) transfer_exact [OF demo_accounts_ok s(1) _ s(2), of "[2]" None 100 "[2]"]
    by (auto simp: demo_tx_def)
qed

theorem keys_never_change_witness:
  "\<exists>a. om_get (accounts (br_state (execute_sequential demo_chain demo_ledger [demo_tx (RotateKey (zeros 1952))]))) [1] = Some a
     \<and> pubkey_bytes a = [1]"
  using keys_never_change [OF demo_accounts_ok, of "[1]" "demo_account 1" demo_chain "[demo_tx (RotateKey (zeros 1952))]"]
  by (auto simp: demo_ledger_def demo_account_def om_get_def)

theorem deposit_not_atomic_witness:
  "\<exists>d l'. compute_transaction_diff False demo_chain demo_ledger (demo_tx (DepositCompute 1000)) = Inr d
     \<and> apply_diff demo_chain d demo_ledger = (Inl ''Sender balance underflow'', l') \<and> balance_of [1] l' = 0"
proof -
  have "\<exists>d. compute_transaction_diff False demo_chain demo_ledger (demo_tx (DepositCompute 1000)) = Inr d \<and> gas_fee d = 5"
    by (simp add: demo_eval compute_deposit_compute_diff_def)
  then obtain d where d: "compute_transaction_diff False demo_chain demo_ledger (demo_tx (DepositCompute 1000)) = Inr d"
      "gas_fee d = 5" by blast
  have b: "balance_of [1] demo_ledger = 1000" by (simp add: balance_of_def demo_ledger_def demo_account_def om_get_def)
  show ?thesis using d(1) deposit_not_atomic [OF demo_accounts_ok d(1), of 1000] d(2) b
    by (auto simp: demo_tx_def)
qed

theorem claim_existing_unpaid_witness:
  "\<exists>d l'. compute_transaction_diff False demo_chain demo_ledger (demo_tx (Claim [2] None 500)) = Inr d
     \<and> apply_diff demo_chain d demo_ledger = (Inr (), l') \<and> minted_amount d = 500 \<and> balance_of [2] l' = balance_of [2] demo_ledger"
proof -
  have "\<exists>d l'. compute_transaction_diff False demo_chain demo_ledger (demo_tx (Claim [2] None 500)) = Inr d
     \<and> apply_diff demo_chain d demo_ledger = (Inr (), l')"
    by (simp add: demo_eval demo_apply compute_claim_diff_def check_recipient_def key_or_empty_def MAX_TESTNET_MINT_def
        MAX_AIRDROP_AMOUNT_def)
  then obtain d l' where s: "compute_transaction_diff False demo_chain demo_ledger (demo_tx (Claim [2] None 500)) = Inr d"
      "apply_diff demo_chain d demo_ledger = (Inr (), l')" by blast
  have "om_get (accounts demo_ledger) [2] \<noteq> None" by (simp add: demo_ledger_def om_get_def)
  then show ?thesis using s claim_existing_unpaid [OF demo_accounts_ok s(1) _ _ s(2), of "[2]" None 500 "[2]"]
    by (auto simp: demo_tx_def)
qed

end
