(* ===== verification/System_Cells_Props.thy ===== *)
theory System_Cells_Props
  imports System_Cells
begin

text \<open>
  Properties of the system cells: the time locks refine a map from owners to positions, a
  treasury proposal is paid at most once and only with the votes it needs, and an approved
  parameter change is applied whatever its value.
\<close>

section \<open>Slots\<close>

text \<open>What the code relies on of the hash function at one input.\<close>

definition no_second_preimage :: "('z) ledger_env_scheme \<Rightarrow> bytes \<Rightarrow> bool" where
  "no_second_preimage E x \<longleftrightarrow> (\<forall>y. digest (env_sha256 E) y = digest (env_sha256 E) x \<longrightarrow> y = x)"

lemma no_second_preimageD: "no_second_preimage E x \<Longrightarrow> digest (env_sha256 E) y = digest (env_sha256 E) x \<longleftrightarrow> y = x"
  unfolding no_second_preimage_def by auto

lemma str_bytes_inj [simp]: "str_bytes a = str_bytes b \<longleftrightarrow> a = b"
proof -
  have "inj (of_char :: char \<Rightarrow> 8 word)"
    by (rule injI) (metis uint_of_char of_char_eq_iff)
  then show ?thesis
    by (simp add: str_bytes_def inj_map_eq_map)
qed

lemma length_sys_id [simp]: "length (sys_id E s) = 32"
  by (simp add: sys_id_def)

lemma flag_True [simp]: "hd (pack_flag True) = 1"
  by (simp add: pack_flag_def)

lemma flag_False [simp]: "hd (pack_flag False) = 0"
  by (simp add: pack_flag_def)

lemma apply_storage_diff_Nil [simp]: "apply_storage_diff [] m = m"
  by (simp add: apply_storage_diff_def)

lemma apply_storage_diff_Cons [simp]: "apply_storage_diff ((k, v) # d) m = apply_storage_diff d (m(k := v))"
  by (simp add: apply_storage_diff_def)

lemma apply_storage_diff_other: "k \<notin> fst ` set d \<Longrightarrow> apply_storage_diff d m k = m k"
  by (induction d arbitrary: m) (auto simp: apply_storage_diff_def)

lemma unpack_pack_position [simp]: "unpack_staking_position (pack_staking_position a e) = (a, e)"
  by (simp add: unpack_staking_position_def pack_staking_position_def from_to_le_bytes)

text \<open>The demonstrations use a hash function that numbers the inputs of a table.\<close>

primrec table_pos :: "bytes list \<Rightarrow> bytes \<Rightarrow> nat" where
  "table_pos [] x = 0"
| "table_pos (y # ys) x = (if x = y then 1 else if table_pos ys x = 0 then 0 else Suc (table_pos ys x))"

definition table_env :: "bytes list \<Rightarrow> ledger_env" where
  "table_env xs = (let sha = (\<lambda>x. L4 (of_nat (table_pos xs x)) 0 0 0) in \<lparr>env_sha256 = sha, env_blake3 = sha,
     env_gp = (\<lambda>_. 0), env_global_results = (\<lambda>_. None), env_gp128 = (\<lambda>_. 0), env_hex = (\<lambda>_. []),
     env_sigs = \<lparr>pk_valid = (\<lambda>_. True), sig_verify = (\<lambda>_ _ _ _. True)\<rparr>, env_tally_order = (\<lambda>m. m),
     env_parse_price = (\<lambda>_. None), env_price_json = (\<lambda>_ _. None)\<rparr>)"

lemma table_pos_le: "table_pos xs x \<le> length xs"
  by (induction xs) auto

lemma table_pos_0: "table_pos xs x = 0 \<longleftrightarrow> x \<notin> set xs"
  by (induction xs) auto

lemma table_pos_inj: "x \<in> set xs \<Longrightarrow> table_pos xs y = table_pos xs x \<Longrightarrow> y = x"
  by (induction xs) (auto simp: table_pos_0 split: if_splits)

lemma table_digest: "digest (env_sha256 (table_env xs)) x = to32 (L4 (of_nat (table_pos xs x)) 0 0 0)"
  by (simp add: digest_def table_env_def Let_def)

lemma to_le_bytes_0 [simp]: "to_le_bytes n 0 = zeros n"
proof -
  have "le_digits n 0 = replicate n 0" by (induction n) simp_all
  then show ?thesis by (simp add: to_le_bytes_def zeros_def)
qed

lemma zeros_append [simp]: "zeros m @ zeros n = zeros (m + n)"
  by (simp add: zeros_def replicate_add)

lemma table_zero: "list_all (\<lambda>y. length y \<noteq> length x) xs \<Longrightarrow> digest (env_sha256 (table_env xs)) x = zeros 32"
  by (auto simp: table_digest list_all_iff table_pos_0 [THEN iffD2])

lemma length_str_bytes [simp]: "length (str_bytes s) = length s"
  by (simp add: str_bytes_def)

lemma table_no_second_preimage:
  assumes "x \<in> set xs" and "length xs < 100"
  shows "no_second_preimage (table_env xs) x"
  unfolding no_second_preimage_def
proof (intro allI impI)
  fix y assume eq: "digest (env_sha256 (table_env xs)) y = digest (env_sha256 (table_env xs)) x"
  have small: "table_pos xs z < 2 ^ 64" for z
    using table_pos_le [of xs z] assms(2) by simp
  have "(of_nat (table_pos xs y) :: u64) = of_nat (table_pos xs x)"
    using eq by (metis table_digest u256_to32 limbs.inject)
  then have "table_pos xs y = table_pos xs x"
    using small [of x] small [of y] by (simp add: word_of_nat_eq_iff take_bit_nat_eq_self)
  then show "y = x"
    using table_pos_inj [OF assms(1)] by blast
qed

section \<open>Time locks\<close>

text \<open>The four slots that a lock of an owner may write, as inputs of the hash function.\<close>

definition lock_inputs :: "('z) ledger_env_scheme \<Rightarrow> cell_storage \<Rightarrow> bytes \<Rightarrow> bytes list" where
  "lock_inputs E st own =
    (let pos = str_bytes ''trth:sdk:slot:v1'' @ [0] @ sys_id E ''truthlinked.staking.positions'' @ [255];
         hol = str_bytes ''trth:sdk:slot:v1'' @ [0] @ sys_id E ''truthlinked.staking.holders'' @ [255]
     in [pos @ str_bytes ''map:exists'' @ 255 # own, pos @ str_bytes ''map:value'' @ 255 # own,
         hol @ str_bytes ''vec:elem'' @ 255 # to_le_bytes 8 (read_slot_u64 st (staking_holders_len_slot E)),
         hol @ str_bytes ''vec:len''])"

definition slots_apart :: "('z) ledger_env_scheme \<Rightarrow> cell_storage \<Rightarrow> bytes \<Rightarrow> bool" where
  "slots_apart E st own \<longleftrightarrow> list_all (no_second_preimage E) (lock_inputs E st own)"

lemmas slot_defs = staking_exists_slot_def staking_value_slot_def staking_holders_len_slot_def
  staking_holders_elem_slot_def derive_slot_def

lemma slots_apartD:
  assumes "slots_apart E st own"
  shows "staking_exists_slot E w = staking_exists_slot E own \<longleftrightarrow> w = own"
    and "staking_value_slot E w = staking_value_slot E own \<longleftrightarrow> w = own"
    and "staking_value_slot E w \<noteq> staking_exists_slot E own"
    and "staking_exists_slot E w \<noteq> staking_value_slot E own"
    and "staking_exists_slot E w \<noteq> staking_holders_len_slot E"
    and "staking_value_slot E w \<noteq> staking_holders_len_slot E"
    and "staking_exists_slot E w \<noteq> staking_holders_elem_slot E (read_slot_u64 st (staking_holders_len_slot E))"
    and "staking_value_slot E w \<noteq> staking_holders_elem_slot E (read_slot_u64 st (staking_holders_len_slot E))"
  using assms
  by (simp_all add: slots_apart_def lock_inputs_def Let_def slot_defs no_second_preimageD str_bytes_def)

text \<open>
  The specification: a table of positions (present, amount, end of the lock). Taking a lock adds to
  the position and never shortens it, releasing it needs maturity and pays it out whole.
\<close>

datatype lock_op = TakeLock u64 | ExtendLock u64 | ReleaseLock

type_synonym lock_table = "bytes \<Rightarrow> bool \<times> u128 \<times> u64"

definition lock_spec :: "lock_op \<Rightarrow> bytes \<Rightarrow> u128 \<Rightarrow> u64 \<Rightarrow> lock_table \<Rightarrow> (lock_table \<times> (bytes \<times> u128) list) option" where
  "lock_spec lop who val ht T = (let (present, amt, lock_end) = T who in case lop of
     TakeLock n \<Rightarrow> if val = 0 \<or> n = 0 then None
       else Some (T(who := (True, saturating_add amt val, max lock_end (saturating_add ht n))), [])
   | ExtendLock n \<Rightarrow> if present \<and> n \<noteq> 0
       then Some (T(who := (True, amt, max lock_end (saturating_add ht n))), []) else None
   | ReleaseLock \<Rightarrow> if present \<and> lock_end \<le> ht then Some (T(who := (False, 0, 0)), [(who, amt)]) else None)"

definition lock_call :: "lock_op \<Rightarrow> bytes \<Rightarrow> bytes" where
  "lock_call lop own = (case lop of
     TakeLock n \<Rightarrow> sel ''lock'' @ own @ to_le_bytes 8 n
   | ExtendLock n \<Rightarrow> sel ''extend'' @ own @ to_le_bytes 8 n
   | ReleaseLock \<Rightarrow> sel ''unlock'' @ own)"

lemma lock_position_write:
  assumes "slots_apart E st own"
  shows "lock_position E (st(staking_value_slot E own \<mapsto> pack_staking_position a e))
      = (lock_position E st)(own := (fst (lock_position E st own), a, e))"
    and "lock_position E (st(staking_exists_slot E own \<mapsto> pack_flag True,
          staking_value_slot E own \<mapsto> pack_staking_position a e)) = (lock_position E st)(own := (True, a, e))"
    and "lock_position E (st(staking_exists_slot E own \<mapsto> pack_flag True,
          staking_value_slot E own \<mapsto> pack_staking_position a e,
          staking_holders_elem_slot E (read_slot_u64 st (staking_holders_len_slot E)) \<mapsto> v,
          staking_holders_len_slot E \<mapsto> w)) = (lock_position E st)(own := (True, a, e))"
    and "lock_position E (st(staking_exists_slot E own := None, staking_value_slot E own := None))
      = (lock_position E st)(own := (False, 0, 0))"
  using slots_apartD [OF assms]
  by (auto simp: fun_eq_iff lock_position_def slot_flag_def)

lemma lock_call_reads:
  assumes "length own = 32"
  shows "read32 (lock_call lop own) 4 = Some own"
    and "sel_or_default (lock_call (TakeLock n) own) = sel ''lock''" "read_u64 (lock_call (TakeLock n) own) 36 = Some n"
    and "sel_or_default (lock_call (ExtendLock n) own) = sel ''extend''" "read_u64 (lock_call (ExtendLock n) own) 36 = Some n"
    and "sel_or_default (lock_call ReleaseLock own) = sel ''unlock''"
  using assms by (cases lop; simp add: lock_call_def read32_def read_u64_def sel_or_default_def read_sel_def from_to_le_bytes)+

text \<open>
  C19. A call of the staking cell that takes, extends or releases a lock of its caller implements the
  table of positions: when the table allows the operation the call succeeds, writes the positions
  of the table and pays what the table pays; otherwise it fails and has no effects. The slots of
  the owner are assumed not to collide with those of others.
\<close>

theorem locks_refine_table:
  assumes "slots_apart E st own" and "length own = 32"
  shows "case lock_spec lop own val ht (lock_position E st) of
     Some (T, paid) \<Rightarrow> (let r = staking_cell E (lock_call lop own) own st ht val g in
       er_success r \<and> lock_position E (apply_storage_diff (er_storage_diff r) st) = T \<and> er_native_credits r = paid)
   | None \<Rightarrow> (\<exists>msg. staking_cell E (lock_call lop own) own st ht val g = sys_err msg g)"
proof (cases lop)
  case (TakeLock n)
  then show ?thesis
    using lock_call_reads [OF assms(2)]
    by (auto simp: lock_spec_def staking_cell_def staking_lock_def need_def Let_def sys_ok_def default_result_def
        lock_position_write [OF assms(1)] split: prod.splits)
next
  case (ExtendLock n)
  then show ?thesis
    using lock_call_reads [OF assms(2)]
    by (auto simp: lock_spec_def staking_cell_def staking_lock_def need_def Let_def sys_ok_def default_result_def
        lock_position_write [OF assms(1)] split: prod.splits)
next
  case ReleaseLock
  then show ?thesis
    using lock_call_reads [OF assms(2)]
    by (auto simp: lock_spec_def staking_cell_def staking_lock_def need_def Let_def sys_ok_def default_result_def
        lock_position_write [OF assms(1)] split: prod.splits)
qed

definition demo_owner :: bytes where
  "demo_owner = replicate 32 7"

definition lock_table_inputs :: "bytes list" where
  "lock_table_inputs = (let pre = str_bytes ''trth:sdk:slot:v1'' @ 0 # zeros 32 @ [255]
     in [pre @ str_bytes ''map:exists'' @ 255 # demo_owner, pre @ str_bytes ''map:value'' @ 255 # demo_owner,
         pre @ str_bytes ''vec:elem'' @ 255 # zeros 8, pre @ str_bytes ''vec:len''])"

lemma demo_lock_ids:
  "sys_id (table_env lock_table_inputs) ''truthlinked.staking.positions'' = zeros 32"
  "sys_id (table_env lock_table_inputs) ''truthlinked.staking.holders'' = zeros 32"
  by (simp_all add: sys_id_def table_zero lock_table_inputs_def Let_def demo_owner_def)

lemma demo_slots_apart: "slots_apart (table_env lock_table_inputs) Map.empty demo_owner"
proof -
  have "lock_inputs (table_env lock_table_inputs) Map.empty demo_owner = lock_table_inputs"
    by (simp add: lock_inputs_def demo_lock_ids read_slot_u64_def) (simp add: lock_table_inputs_def)
  then show ?thesis
    by (auto simp: slots_apart_def list_all_iff intro!: table_no_second_preimage) (simp add: lock_table_inputs_def Let_def)
qed

theorem locks_refine_table_witness:
  "er_success (staking_cell (table_env lock_table_inputs) (lock_call (TakeLock 5) demo_owner) demo_owner Map.empty 10 100 0)"
  using locks_refine_table [OF demo_slots_apart, of "TakeLock 5" 10 100 0]
  by (simp add: demo_owner_def lock_spec_def lock_position_def slot_flag_def Let_def)

section \<open>The treasury\<close>

text \<open>A call of the treasury cell, by anyone, at any height and in any chain state.\<close>

record treasury_call =
  tc_data :: bytes
  tc_caller :: bytes
  tc_height :: u64
  tc_ledger :: ledger
  tc_gas :: nat

definition treasury_result :: "('z) ledger_env_scheme \<Rightarrow> treasury_call \<Rightarrow> cell_storage \<Rightarrow> execution_result" where
  "treasury_result E c st = treasury_cell E (tc_data c) (tc_caller c) st (tc_height c) (tc_ledger c) (tc_gas c)"

definition treasury_after :: "('z) ledger_env_scheme \<Rightarrow> treasury_call \<Rightarrow> cell_storage \<Rightarrow> cell_storage" where
  "treasury_after E c st = apply_storage_diff (er_storage_diff (treasury_result E c st)) st"

definition call_pid :: "treasury_call \<Rightarrow> bytes" where
  "call_pid c = take 32 (drop 4 (tc_data c))"

text \<open>
  The proposals paid by calls executed one after another, in order: each call runs on the storage
  its predecessor left, as in sequential execution. (In a parallel batch all calls run on the
  storage before the batch.)
\<close>

primrec treasury_payouts :: "('z) ledger_env_scheme \<Rightarrow> treasury_call list \<Rightarrow> cell_storage \<Rightarrow> bytes list" where
  "treasury_payouts E [] st = []"
| "treasury_payouts E (c # cs) st =
     (if er_native_credits (treasury_result E c st) = [] then [] else [call_pid c])
     @ treasury_payouts E cs (treasury_after E c st)"

definition spent :: "('z) ledger_env_scheme \<Rightarrow> bytes \<Rightarrow> cell_storage \<Rightarrow> bool" where
  "spent E pid st \<longleftrightarrow> slot_flag st (treas_key E ''proposal.exists'' pid) = 1
     \<and> slot_flag st (treas_key E ''proposal.executed'' pid) = 1"

definition proposal_apart :: "('z) ledger_env_scheme \<Rightarrow> bytes \<Rightarrow> bool" where
  "proposal_apart E pid \<longleftrightarrow> list_all (no_second_preimage E)
     [str_bytes ''truthlinked.treasury.proposal.exists'', str_bytes ''truthlinked.treasury.proposal.executed'',
      sys_id E ''truthlinked.treasury.proposal.exists'' @ pid, sys_id E ''truthlinked.treasury.proposal.executed'' @ pid]"

lemma proposal_apartD:
  assumes "proposal_apart E pid"
  shows "treas_key E sub k = treas_key E ''proposal.exists'' pid \<longleftrightarrow> sub = ''proposal.exists'' \<and> k = pid"
    and "treas_key E sub k = treas_key E ''proposal.executed'' pid \<longleftrightarrow> sub = ''proposal.executed'' \<and> k = pid"
proof -
  have id: "sys_id E a = sys_id E b \<longleftrightarrow> a = b" if "no_second_preimage E (str_bytes b)" for a b
    using no_second_preimageD [OF that, of "str_bytes a"] by (simp add: sys_id_def)
  show "treas_key E sub k = treas_key E ''proposal.exists'' pid \<longleftrightarrow> sub = ''proposal.exists'' \<and> k = pid"
    and "treas_key E sub k = treas_key E ''proposal.executed'' pid \<longleftrightarrow> sub = ''proposal.executed'' \<and> k = pid"
    using assms by (simp_all add: proposal_apart_def treas_key_def storage_key_def no_second_preimageD id)
qed

lemma slot_flag_upd: "slot_flag (st(k := v)) k' = (if k = k' then (case v of Some v \<Rightarrow> hd v | None \<Rightarrow> 0) else slot_flag st k')"
  by (simp add: slot_flag_def)

lemmas outcome_defs = need_def Let_def sys_ok_def sys_err_def default_result_def read32_def

text \<open>What each handler may write and pay.\<close>

lemma propose_writes:
  "er_native_credits (treasury_propose E cd st ht g) = []"
  "er_storage_diff (treasury_propose E cd st ht g) = []
   \<or> slot_flag st (treas_key E ''proposal.exists'' (take 32 (drop 4 cd))) \<noteq> 1
     \<and> fst ` set (er_storage_diff (treasury_propose E cd st ht g)) \<subseteq> range (\<lambda>sub. treas_key E sub (take 32 (drop 4 cd)))"
  by (simp_all add: treasury_propose_def outcome_defs split: option.split)

lemma vote_writes:
  "er_native_credits (treasury_vote E cd who st ht l g) = []"
  "er_storage_diff (treasury_vote E cd who st ht l g) = []
   \<or> (\<exists>vkey sub v. sub \<in> {''proposal.votes_for'', ''proposal.votes_against''}
       \<and> er_storage_diff (treasury_vote E cd who st ht l g)
         = [(vkey, Some (pack_flag True)), (treas_key E sub (take 32 (drop 4 cd)), Some v)])"
  by (simp_all add: treasury_vote_def outcome_defs) blast

lemma execute_writes:
  "er_storage_diff (treasury_execute E cd st ht l g) = [] \<and> er_native_credits (treasury_execute E cd st ht l g) = []
   \<or> slot_flag st (treas_key E ''proposal.exists'' (take 32 (drop 4 cd))) = 1
     \<and> slot_flag st (treas_key E ''proposal.executed'' (take 32 (drop 4 cd))) \<noteq> 1
     \<and> er_storage_diff (treasury_execute E cd st ht l g)
       = [(treas_key E ''proposal.executed'' (take 32 (drop 4 cd)), Some (pack_flag True))]"
  by (simp add: treasury_execute_def outcome_defs)

lemma spent_propose:
  assumes "proposal_apart E pid" and "spent E pid st"
  shows "spent E pid (apply_storage_diff (er_storage_diff (treasury_propose E cd st ht g)) st)"
  using propose_writes(2) [of E cd st ht g]
proof
  assume new: "slot_flag st (treas_key E ''proposal.exists'' (take 32 (drop 4 cd))) \<noteq> 1
     \<and> fst ` set (er_storage_diff (treasury_propose E cd st ht g)) \<subseteq> range (\<lambda>sub. treas_key E sub (take 32 (drop 4 cd)))"
  then have "pid \<noteq> take 32 (drop 4 cd)"
    using assms(2) by (auto simp: spent_def)
  then have "treas_key E ''proposal.exists'' pid \<notin> range (\<lambda>sub. treas_key E sub (take 32 (drop 4 cd)))"
    and "treas_key E ''proposal.executed'' pid \<notin> range (\<lambda>sub. treas_key E sub (take 32 (drop 4 cd)))"
    by (simp_all add: image_iff eq_commute [of "treas_key E _ pid"] proposal_apartD [OF assms(1)])
  then have "treas_key E ''proposal.exists'' pid \<notin> fst ` set (er_storage_diff (treasury_propose E cd st ht g))"
    and "treas_key E ''proposal.executed'' pid \<notin> fst ` set (er_storage_diff (treasury_propose E cd st ht g))"
    using new by (meson subsetD)+
  then show ?thesis
    using assms(2) by (simp add: spent_def slot_flag_def apply_storage_diff_other)
qed (use assms(2) in simp)

lemma spent_vote:
  assumes "proposal_apart E pid" and "spent E pid st"
  shows "spent E pid (apply_storage_diff (er_storage_diff (treasury_vote E cd who st ht l g)) st)"
  using vote_writes(2) [of E cd who st ht l g] assms(2)
  by (elim disjE exE conjE) (auto simp: spent_def slot_flag_upd proposal_apartD [OF assms(1)])

lemma spent_execute:
  assumes "proposal_apart E pid" and "spent E pid st"
  shows "spent E pid (apply_storage_diff (er_storage_diff (treasury_execute E cd st ht l g)) st)"
  using execute_writes [of E cd st ht l g] assms(2)
  by (elim disjE exE conjE) (auto simp: spent_def slot_flag_upd proposal_apartD [OF assms(1)])

lemma spent_kept:
  assumes "proposal_apart E pid" and "spent E pid st"
  shows "spent E pid (treasury_after E c st)"
  unfolding treasury_after_def treasury_result_def treasury_cell_def Let_def
  by (simp add: assms spent_propose spent_vote spent_execute) (simp add: assms sys_err_def default_result_def)

lemma paid_becomes_spent:
  assumes "proposal_apart E (call_pid c)" and "er_native_credits (treasury_result E c st) \<noteq> []"
  shows "\<not> spent E (call_pid c) st" and "spent E (call_pid c) (treasury_after E c st)"
proof -
  have r: "treasury_result E c st = treasury_execute E (tc_data c) st (tc_height c) (tc_ledger c) (tc_gas c)"
    using assms(2)
    by (simp add: treasury_result_def treasury_cell_def Let_def sys_err_def default_result_def propose_writes vote_writes
        split: if_splits)
  show "\<not> spent E (call_pid c) st" "spent E (call_pid c) (treasury_after E c st)"
    using execute_writes [of E "tc_data c" st "tc_height c" "tc_ledger c" "tc_gas c"] assms
    unfolding treasury_after_def r
    by (auto simp: spent_def call_pid_def slot_flag_upd proposal_apartD)
qed

lemma spent_not_paid:
  assumes "proposal_apart E pid" and "spent E pid st"
  shows "pid \<notin> set (treasury_payouts E cs st)"
  using assms(2)
proof (induction cs arbitrary: st)
  case (Cons c cs)
  have "pid \<notin> set (treasury_payouts E cs (treasury_after E c st))"
    using Cons.IH [OF spent_kept [OF assms(1) Cons.prems]] .
  moreover have "pid \<noteq> call_pid c" if "er_native_credits (treasury_result E c st) \<noteq> []"
    using paid_becomes_spent(1) [OF _ that] assms(1) Cons.prems by auto
  ultimately show ?case
    by auto
qed simp

text \<open>
  C16. As long as the calls of the treasury cell are executed one after another, as sequential
  execution does, a proposal is paid at most once, whoever calls, in which order, at which
  heights and in which chain states (the two flags of the proposal are assumed not to collide
  with other slots). Calls of one parallel batch are not covered: they all run on the storage
  before the batch.
\<close>

theorem treasury_pays_once:
  assumes "proposal_apart E pid"
  shows "count_list (treasury_payouts E cs st) pid \<le> 1"
proof (induction cs arbitrary: st)
  case (Cons c cs)
  have "count_list (treasury_payouts E cs (treasury_after E c st)) pid = 0"
    if "er_native_credits (treasury_result E c st) \<noteq> []" "call_pid c = pid"
    using spent_not_paid [OF assms] paid_becomes_spent(2) [of E c st] assms that by (simp add: count_list_0_iff)
  then show ?case
    using Cons [of "treasury_after E c st"] by simp
qed simp

text \<open>The two vote tests over the integers.\<close>

lemma unat_saturating_mul: "unat (saturating_mul a b) = min (unat a * unat b) (2 ^ LENGTH('a) - 1)"
  for a b :: "'a::len word"
proof (cases "unat a * unat b < 2 ^ LENGTH('a)")
  case True
  then show ?thesis by (simp add: saturating_mul_def unat_word_ariths)
next
  case False
  then have "min (unat a * unat b) (2 ^ LENGTH('a) - 1) = 2 ^ LENGTH('a) - 1"
    by (intro min_absorb2) linarith
  with False show ?thesis
    by (simp add: saturating_mul_def unsigned_minus_1_eq_mask mask_eq_exp_minus_1)
qed

lemma votes_over_integers:
  assumes "unat vf + unat va < 2 ^ 62"
  shows "quorum_met vf va tot \<longleftrightarrow> unat tot \<le> 3 * (unat vf + unat va)"
    and "approval_met vf va \<longleftrightarrow> 2 * (unat vf + unat va) \<le> 3 * unat vf"
proof -
  have "unat tot < 2 ^ 64" using unsigned_less [of tot] by simp
  then show "quorum_met vf va tot \<longleftrightarrow> unat tot \<le> 3 * (unat vf + unat va)"
    using assms by (auto simp: quorum_met_def word_le_nat_alt unat_saturating_mul unat_saturating_add min_def)
  show "approval_met vf va \<longleftrightarrow> 2 * (unat vf + unat va) \<le> 3 * unat vf"
    using assms by (auto simp: approval_met_def word_le_nat_alt unat_saturating_mul unat_saturating_add min_def)
qed

lemma after_saturating: "saturating_add a b < c \<longleftrightarrow> unat a + unat b < unat c" for a b c :: u64
proof -
  have "unat c < 2 ^ 64" using unsigned_less [of c] by simp
  then show ?thesis by (auto simp: word_less_nat_alt unat_saturating_add min_def)
qed

lemma paid_by_execute:
  assumes "er_native_credits (treasury_cell E cd who st ht l g) \<noteq> []"
  shows "treasury_cell E cd who st ht l g = treasury_execute E cd st ht l g"
  using assms
  by (simp add: treasury_cell_def Let_def sys_err_def default_result_def propose_writes vote_writes split: if_splits)


text \<open>
  A proposal with all its slots filled, no votes against it and one validator; the flags and
  the votes against it have slots of their own.
\<close>

definition demo_pid :: bytes where
  "demo_pid = replicate 32 7"

definition id_bytes :: "u64 \<Rightarrow> bytes" where
  "id_bytes n = to32 (L4 n 0 0 0)"

lemma length_id_bytes [simp]: "length (id_bytes n) = 32"
  by (simp add: id_bytes_def)

lemma id_bytes_inj [simp]: "id_bytes a = id_bytes b \<longleftrightarrow> a = b"
  unfolding id_bytes_def by (metis u256_to32 limbs.inject)

lemma not_str_bytes: "length xs \<noteq> length s \<Longrightarrow> xs \<noteq> str_bytes s"
  by auto

definition treasury_table :: "bytes list" where
  "treasury_table = [str_bytes ''truthlinked.treasury.proposal.exists'', str_bytes ''truthlinked.treasury.proposal.executed'',
     str_bytes ''truthlinked.treasury.proposal.votes_against'', id_bytes 1 @ demo_pid, id_bytes 2 @ demo_pid, id_bytes 3 @ demo_pid]"

lemma demo_ids:
  "sys_id (table_env treasury_table) ''truthlinked.treasury.proposal.exists'' = id_bytes 1"
  "sys_id (table_env treasury_table) ''truthlinked.treasury.proposal.executed'' = id_bytes 2"
  "sys_id (table_env treasury_table) ''truthlinked.treasury.proposal.votes_against'' = id_bytes 3"
  by (simp_all add: sys_id_def table_digest treasury_table_def id_bytes_def del: to32.simps)

lemma demo_proposal_apart: "proposal_apart (table_env treasury_table) demo_pid"
  unfolding proposal_apart_def demo_ids list_all_iff
  by (intro ballI table_no_second_preimage) (auto simp: treasury_table_def)

definition demo_slot :: bytes where
  "demo_slot = [1, 0, 0, 0, 0, 0, 16] @ zeros 25"

definition demo_storage :: cell_storage where
  "demo_storage = (\<lambda>_. Some demo_slot)(id_bytes 5 := None, id_bytes 6 := None)"

definition demo_electorate :: ledger where
  "demo_electorate = (let l = state_genesis (table_env treasury_table) []
     in l\<lparr>staking := (staking l)\<lparr>validators := [([9], validator_new MIN_VALIDATOR_STAKE)]\<rparr>\<rparr>)"

definition demo_spend :: treasury_call where
  "demo_spend = \<lparr>tc_data = sel ''execute_spend'' @ demo_pid, tc_caller = [], tc_height = 2 ^ 60,
     tc_ledger = demo_electorate, tc_gas = 0\<rparr>"

lemma demo_positions:
  "table_pos treasury_table (id_bytes 1 @ demo_pid) = 4"
  "table_pos treasury_table (id_bytes 2 @ demo_pid) = 5"
  "table_pos treasury_table (id_bytes 3 @ demo_pid) = 6"
  by (simp_all add: treasury_table_def not_str_bytes demo_pid_def)

lemma demo_keys:
  "treas_key (table_env treasury_table) ''proposal.exists'' demo_pid = id_bytes 4"
  "treas_key (table_env treasury_table) ''proposal.executed'' demo_pid = id_bytes 5"
  "treas_key (table_env treasury_table) ''proposal.votes_against'' demo_pid = id_bytes 6"
  unfolding treas_key_def storage_key_def append.simps demo_ids table_digest demo_positions
  by (simp_all add: id_bytes_def)

lemma digest_other: "x \<notin> set xs \<Longrightarrow> digest (env_sha256 (table_env xs)) x = id_bytes 0"
  using table_pos_0 [of xs x] by (simp add: table_digest id_bytes_def)

lemma demo_other_keys:
  assumes "sub \<notin> {''proposal.exists'', ''proposal.executed'', ''proposal.votes_against''}" and "length sub < 40"
  shows "treas_key (table_env treasury_table) sub demo_pid = id_bytes 0"
proof -
  have "str_bytes (''truthlinked.treasury.'' @ sub) \<notin> set treasury_table"
    using assms by (auto simp: treasury_table_def dest: arg_cong [where f = length]) (auto dest!: arg_cong [where f = length] simp: demo_pid_def)
  then have id: "sys_id (table_env treasury_table) (''truthlinked.treasury.'' @ sub) = id_bytes 0"
    unfolding sys_id_def by (rule digest_other)
  have "id_bytes 0 @ demo_pid \<notin> set treasury_table"
    by (simp add: treasury_table_def not_str_bytes demo_pid_def)
  then show ?thesis
    unfolding treas_key_def storage_key_def id by (rule digest_other)
qed

lemma demo_active: "active_total (staking demo_electorate) = MIN_VALIDATOR_STAKE"
  by (simp add: active_total_def demo_electorate_def Let_def is_active_def validator_new_def)

lemma demo_reads:
  "from_le_bytes (take 8 demo_slot) = (0x10000000000001 :: u64)" "from_le_bytes (take 16 demo_slot) = (0x10000000000001 :: u128)"
  by (simp_all add: demo_slot_def zeros_def from_le_bytes_def)

lemma demo_votes:
  "hd demo_slot = 1" "quorum_met 0x10000000000001 0 (active_total (staking (tc_ledger demo_spend)))"
  "approval_met 0x10000000000001 0" "active_total (staking (tc_ledger demo_spend)) \<noteq> 0"
  by (simp_all add: demo_slot_def demo_spend_def demo_active quorum_met_def approval_met_def rust_int saturating_mul_def
      MIN_VALIDATOR_STAKE_def)

lemma demo_times:
  "\<not> tc_height demo_spend \<le> saturating_add 0x10000000000001 VOTING_PERIOD"
  "\<not> tc_height demo_spend < saturating_add 0x10000000000001 0x10000000000001"
  by (simp_all add: demo_spend_def rust_int VOTING_PERIOD_def)

lemma demo_paid: "er_native_credits (treasury_result (table_env treasury_table) demo_spend demo_storage)
   = [(demo_slot, 0x10000000000001)]"
proof -
  have "read32 (tc_data demo_spend) 4 = Some demo_pid" "sel_or_default (tc_data demo_spend) = sel ''execute_spend''"
    "\<not> length (tc_data demo_spend) < 36"
    by (simp_all add: demo_spend_def read32_def sel_or_default_def read_sel_def demo_pid_def)
  then show ?thesis
    unfolding treasury_result_def treasury_cell_def treasury_execute_def need_def Let_def
    by (simp add: demo_keys demo_other_keys demo_storage_def slot_flag_def read_slot_u64_def read_slot_u128_def demo_reads
        demo_votes demo_times sys_ok_def default_result_def)
qed

theorem treasury_pays_once_witness:
  "count_list (treasury_payouts (table_env treasury_table) [demo_spend, demo_spend] demo_storage) demo_pid = 1"
proof -
  have "call_pid demo_spend = demo_pid"
    by (simp add: call_pid_def demo_spend_def demo_pid_def)
  then have "count_list (treasury_payouts (table_env treasury_table) [demo_spend, demo_spend] demo_storage) demo_pid \<ge> 1"
    using demo_paid by simp
  then show ?thesis
    using treasury_pays_once [OF demo_proposal_apart, of "[demo_spend, demo_spend]" demo_storage] by simp
qed


section \<open>Parameter governance\<close>

text \<open>
  C30. An approved proposal of the governance cell is applied with whatever value was proposed: the
  handler never validates, so a pinned parameter changes and a value outside the range of its
  specification is written.
\<close>

theorem execute_param_unvalidated:
  assumes "validate_param_value (env_sha256 E) k v = Inl e" and "is_known_param_key (env_sha256 E) k" and "length k = 32"
    and "slot_flag st (gov_key E ''proposal.exists'' k) = 1" and "slot_flag st (gov_key E ''proposal.executed'' k) \<noteq> 1"
    and "read_slot_u64 st (gov_key E ''proposal.voting_ends'' k) < ht"
    and "saturating_add (read_slot_u64 st (gov_key E ''proposal.created'' k))
           (read_slot_u64 st (gov_key E ''proposal.timelock'' k)) \<le> ht"
    and "active_total (staking l) \<noteq> 0" and "st (gov_key E ''proposal.value'' k) = Some v"
    and "vf = read_slot_u64 st (gov_key E ''proposal.votes_for'' k)"
    and "va = read_slot_u64 st (gov_key E ''proposal.votes_against'' k)"
    and "quorum_met vf va (active_total (staking l))" and "approval_met vf va" and "va < vf"
  shows "er_success (governance_cell E (sel ''execute_param'' @ k) who st ht l g)
     \<and> er_param_updates (governance_cell E (sel ''execute_param'' @ k) who st ht l g) = [(k, v)]"
proof -
  have "sel_or_default (sel ''execute_param'' @ k) = sel ''execute_param''" "read32 (sel ''execute_param'' @ k) 4 = Some k"
    using assms(3) by (simp_all add: sel_or_default_def read_sel_def read32_def)
  moreover have "\<not> ht \<le> read_slot_u64 st (gov_key E ''proposal.voting_ends'' k)" "\<not> vf \<le> va"
    using assms(6,14) by simp_all
  ultimately show ?thesis
    using assms(2,4-13)
    by (simp add: governance_cell_def gov_execute_def need_def Let_def sys_ok_def default_result_def not_less [THEN iffD2])
qed

text \<open>The pinned conversion rate, under a hash function that gives its key the number 0.\<close>

definition gov_table :: "bytes list" where
  "gov_table = [str_bytes ''truthlinked.gov.proposal.executed'', str_bytes ''truthlinked.gov.proposal.votes_against'',
     id_bytes 1 @ id_bytes 0, id_bytes 2 @ id_bytes 0]"

lemma gov_ids:
  "sys_id (table_env gov_table) ''truthlinked.gov.proposal.executed'' = id_bytes 1"
  "sys_id (table_env gov_table) ''truthlinked.gov.proposal.votes_against'' = id_bytes 2"
  by (simp_all add: sys_id_def table_digest gov_table_def id_bytes_def del: to32.simps)

lemma gov_positions:
  "table_pos gov_table (id_bytes 1 @ id_bytes 0) = 3"
  "table_pos gov_table (id_bytes 2 @ id_bytes 0) = 4"
  by (simp_all add: gov_table_def not_str_bytes)

lemma gov_keys:
  "gov_key (table_env gov_table) ''proposal.executed'' (id_bytes 0) = id_bytes 3"
  "gov_key (table_env gov_table) ''proposal.votes_against'' (id_bytes 0) = id_bytes 4"
  unfolding gov_key_def storage_key_def append.simps gov_ids table_digest gov_positions
  by (simp_all add: id_bytes_def)

lemma gov_other_keys:
  assumes "sub \<notin> {''proposal.executed'', ''proposal.votes_against''}" and "length sub < 40"
  shows "gov_key (table_env gov_table) sub (id_bytes 0) = id_bytes 0"
proof -
  have "str_bytes (''truthlinked.gov.'' @ sub) \<notin> set gov_table"
    using assms by (auto simp: gov_table_def) (auto dest!: arg_cong [where f = length])
  then have id: "sys_id (table_env gov_table) (''truthlinked.gov.'' @ sub) = id_bytes 0"
    unfolding sys_id_def by (rule digest_other)
  have "id_bytes 0 @ id_bytes 0 \<notin> set gov_table"
    by (simp add: gov_table_def not_str_bytes)
  then show ?thesis
    unfolding gov_key_def storage_key_def id by (rule digest_other)
qed

lemma gov_param: "param_key (env_sha256 (table_env gov_table)) ''cu.per_tlkd'' = id_bytes 0"
  unfolding param_key_def
  by (rule digest_other) (auto simp: gov_table_def PARAM_DOMAIN_def str_bytes_def dest!: arg_cong [where f = length])

lemma gov_pinned:
  "validate_param_value (env_sha256 (table_env gov_table)) (id_bytes 0) v = Inl ''Governance parameter is pinned and cannot be changed''"
  "is_known_param_key (env_sha256 (table_env gov_table)) (id_bytes 0)"
proof -
  have "list_ex (\<lambda>n. param_key (env_sha256 (table_env gov_table)) n = id_bytes 0) PINNED_PARAMS"
    using capped_pinned(4) gov_param by (auto simp: list_ex_iff)
  then show "validate_param_value (env_sha256 (table_env gov_table)) (id_bytes 0) v
      = Inl ''Governance parameter is pinned and cannot be changed''"
    by (simp add: validate_param_value_def)
  obtain s where "s \<in> set PARAM_SPECS" "ps_name s = ''cu.per_tlkd''"
    using capped_pinned(4) pinned_spec by blast
  then show "is_known_param_key (env_sha256 (table_env gov_table)) (id_bytes 0)"
    unfolding is_known_param_key_def list_ex_iff using gov_param by (intro bexI [of _ s]) simp_all
qed

definition gov_storage :: cell_storage where
  "gov_storage = (\<lambda>_. Some demo_slot)(id_bytes 3 := None, id_bytes 4 := None)"

theorem execute_param_unvalidated_witness:
  "er_param_updates (governance_cell (table_env gov_table) (sel ''execute_param'' @ id_bytes 0) [] gov_storage
     (tc_height demo_spend) demo_electorate 0) = [(id_bytes 0, demo_slot)]"
proof -
  have "tc_ledger demo_spend = demo_electorate" by (simp add: demo_spend_def)
  moreover have "saturating_add 0x10000000000001 0x10000000000001 \<le> tc_height demo_spend" "(0x10000000000001 :: u64) < tc_height demo_spend"
    by (simp_all add: demo_spend_def rust_int)
  ultimately show ?thesis
    using execute_param_unvalidated [OF gov_pinned, where st = gov_storage and ht = "tc_height demo_spend"
        and l = demo_electorate and who = "[]" and g = 0] demo_votes
    by (simp add: gov_keys gov_other_keys gov_storage_def slot_flag_def read_slot_u64_def demo_reads)
qed

end
