(* ===== verification/Manifest_Props.thy ===== *)
theory Manifest_Props
  imports Manifest Machine_Code Axiom_Host
begin

text \<open>
  What the static analyser establishes. On assembled code it sees exactly the
  instructions the assembler wrote, up to the first buffer instruction, which it does not
  know; what it concludes from them can be wrong, because it forgets that other
  instructions also write registers.
\<close>

section \<open>The scan as a fold over instructions\<close>

definition scan_effect :: "bytes list \<Rightarrow> op \<Rightarrow> scan_acc \<Rightarrow> scan_acc" where
  "scan_effect cpool i a = (case i of
     OpLoadConst d k \<Rightarrow> set_const d (pool_key cpool (unat k)) a
   | OpLoadImm8 d _ \<Rightarrow> set_const d None a
   | OpLoadImm64 d _ \<Rightarrow> set_const d None a
   | OpSLoad _ k \<Rightarrow> note_read k a
   | OpSStore k _ \<Rightarrow> note_write k a
   | OpSDelete k \<Rightarrow> note_write k a
   | _ \<Rightarrow> a)"

definition known :: "op \<Rightarrow> bool" where
  "known i \<longleftrightarrow> op_tag i \<notin> {tag_BUF_RESET, tag_BUF_WRITE_CONST, tag_BUF_WRITE_REG, tag_BUF_CALL_CELL, tag_BUF_SET_RETURN}"

lemma nth_code: "drop p cd = xs \<Longrightarrow> n < length xs \<Longrightarrow> p + n < length cd \<and> cd ! (p + n) = xs ! n"
  by (metis add.commute length_drop less_diff_conv nth_drop order_le_less_trans less_imp_le not_le_imp_less
      drop_all length_0_conv list.size(3) not_less_zero)

lemma u16_code: "drop p cd = t # r # to_le_bytes 2 k @ rest \<Longrightarrow> u16_at cd (p + 2) = unat (k :: u16)"
proof -
  assume "drop p cd = t # r # to_le_bytes 2 k @ rest"
  then have "drop (p + 2) cd = to_le_bytes 2 k @ rest" using drop_past [of p cd "[t, r]"] by simp
  then show ?thesis by (simp add: u16_at_def slice_def from_to_le_bytes)
qed

lemma scan_op_known:
  assumes "known i" and "drop p cd = op_bytes i @ rest"
  shows "scan_op cpool cd (cd ! p) (p + 1) a = Some (p + length (op_bytes i), scan_effect cpool i a)"
proof -
  have len: "length cd = p + length (op_bytes i) + length rest"
  proof -
    have "length (drop p cd) = length (op_bytes i) + length rest" using assms(2) by simp
    moreover have "0 < length (op_bytes i)" using op_bytes_tag [of i] by auto
    ultimately show ?thesis unfolding length_drop by linarith
  qed
  have nth: "cd ! (p + n) = op_bytes i ! n" if "n < length (op_bytes i)" for n
    using nth_code [OF assms(2), of n] that by (simp add: nth_append)
  have k: "u16_at cd (p + 2) = unat k" if "i = OpLoadConst d k" for d k
    using u16_code [of p cd tag_LOAD_CONST d k rest] assms(2) that by simp
  show ?thesis using assms(1) len nth [of 0] nth [of 1] nth [of 2] k
    by (induction i) (simp_all add: known_def scan_op_def scan_effect_def skip_size_def)
qed

lemma scan_op_unknown: "\<not> known i \<Longrightarrow> scan_op cpool cd (op_tag i) p a = None"
  by (induction i) (simp_all add: known_def scan_op_def skip_size_def)

lemma scan_code_ops:
  assumes "drop p cd = code_of ops"
  shows "scan_code cpool cd p a = fold (scan_effect cpool) (takeWhile known ops) a"
  using assms
proof (induction ops arbitrary: p a)
  case Nil
  then show ?case by (simp add: scan_code.simps)
next
  case (Cons i ops)
  then have d: "drop p cd = op_bytes i @ code_of ops" by simp
  obtain bs where bs: "op_bytes i = op_tag i # bs" using op_bytes_tag by blast
  then have p: "p < length cd" and t: "cd ! p = op_tag i" using d by (metis append_Cons at_code(3), simp add: nth_via_drop)
  show ?case
  proof (cases "known i")
    case True
    have "drop (p + length (op_bytes i)) cd = code_of ops" using d by (rule drop_past)
    from Cons.IH [OF this] show ?thesis using p scan_op_known [OF True d] True
      by (simp add: scan_code.simps [of cpool cd p])
  next
    case False
    then show ?thesis using p t scan_op_unknown by (simp add: scan_code.simps [of cpool cd p])
  qed
qed

section \<open>The container\<close>

lemma mf_blob_decode: "decode_blob raw lim pos = Inr x \<Longrightarrow> mf_blob raw m1 m2 pos = Inr x"
  by (auto simp: decode_blob_def mf_blob_def Let_def split: if_splits)

lemma mf_pool_decode: "decode_pool raw n pos cpool = Inr x \<Longrightarrow> mf_pool raw n pos cpool = Inr x"
  by (induction n arbitrary: pos cpool)
     (auto simp: mf_blob_decode [where lim = MAX_CONST_ENTRY_BYTES] split: sum.split_asm prod.split_asm)

lemma mf_parse_decode:
  assumes "decode raw = Inr cell"
  shows "raw \<noteq> [] \<and> mf_parse raw = Inr (const_pool cell, code cell)"
  using assms by (auto simp: decode_def mf_parse_def Let_def mf_pool_decode mf_blob_decode [where lim = MAX_CODE_BYTES]
      split: if_split_asm sum.split_asm prod.split_asm)

lemma analyze_ops:
  assumes "decode raw = Inr cell" and "code cell = code_of ops"
  shows "analyze_bytecode raw = Inr (let a = fold (scan_effect (const_pool cell)) (takeWhile known ops) scan_init in
    \<lparr>static_read_slots = remdups_adj (sort (acc_reads a)), static_write_slots = remdups_adj (sort (acc_writes a)),
     has_storage_reads = has_reads a, has_storage_writes = has_writes a, fully_resolved = resolved a\<rparr>)"
  using mf_parse_decode [OF assms(1)] scan_code_ops [of 0 "code cell" ops] assms(2)
  by (simp add: analyze_bytecode_def Let_def)

lemma has_effect:
  "has_reads (scan_effect cpool i a) \<longleftrightarrow> has_reads a \<or> (\<exists>d k. i = OpSLoad d k)"
  "has_writes (scan_effect cpool i a) \<longleftrightarrow> has_writes a \<or> (\<exists>k v. i = OpSStore k v) \<or> (\<exists>k. i = OpSDelete k)"
  by (cases i; simp add: scan_effect_def set_const_def note_read_def note_write_def Let_def split: option.split)+

lemma has_fold:
  "has_reads (fold (scan_effect cpool) ops a) \<longleftrightarrow> has_reads a \<or> (\<exists>d k. OpSLoad d k \<in> set ops)"
  "has_writes (fold (scan_effect cpool) ops a) \<longleftrightarrow>
     has_writes a \<or> (\<exists>k v. OpSStore k v \<in> set ops) \<or> (\<exists>k. OpSDelete k \<in> set ops)"
  by (induction ops arbitrary: a) (auto simp: has_effect)

section \<open>Properties\<close>

text \<open>
  The analyser reads the instruction stream the way the assembler writes it: on every
  cell that decodes and whose code holds no buffer instruction it reports storage reads
  exactly when there is a load, and storage writes exactly when there is a store or a
  delete; it never takes an operand for an opcode.
\<close>
theorem analysis_sees_storage:
  assumes "decode raw = Inr cell" and "code cell = code_of ops" and "\<forall>i \<in> set ops. known i"
  shows "\<exists>an. analyze_bytecode raw = Inr an
    \<and> (has_storage_reads an \<longleftrightarrow> (\<exists>d k. OpSLoad d k \<in> set ops))
    \<and> (has_storage_writes an \<longleftrightarrow> (\<exists>k v. OpSStore k v \<in> set ops) \<or> (\<exists>k. OpSDelete k \<in> set ops))"
proof -
  have "takeWhile known ops = ops" using assms(3) by (simp add: takeWhile_eq_all_conv)
  from analyze_ops [OF assms(1,2), unfolded this] show ?thesis
    by (simp add: Let_def has_fold scan_init_def)
qed

definition demo_key :: bytes where
  "demo_key = replicate 32 7"

text \<open>
  Cells with two constants, the slots \<open>k\<close> and \<open>k'\<close>: the first is loaded into the key register, but the
  second is moved there before the store. The other cell begins with a buffer instruction.
\<close>

definition moved_ops :: "op list" where
  "moved_ops = [OpLoadConst 1 0, OpLoadConst 2 1, OpMove 1 2, OpSStore 1 3]"

definition moved_cell :: "bytes \<Rightarrow> bytes \<Rightarrow> cell_bytecode" where
  "moved_cell k k' = \<lparr>const_pool = [k, k'], code = code_of moved_ops\<rparr>"

definition buffer_cell :: "bytes \<Rightarrow> bytes \<Rightarrow> cell_bytecode" where
  "buffer_cell k k' = \<lparr>const_pool = [k, k'], code = code_of (OpBufReset # moved_ops)\<rparr>"

lemma demo_cells_decode:
  assumes "length k = 32" and "length k' = 32"
  shows "decode (encode (moved_cell k k')) = Inr (moved_cell k k')" "decode (encode (buffer_cell k k')) = Inr (buffer_cell k k')"
  using assms decode_complete [of "moved_cell k k'" _ "[]"] decode_complete [of "buffer_cell k k'" _ "[]"]
  by (simp_all add: within_limits_def limit_defs moved_cell_def buffer_cell_def moved_ops_def)

theorem analysis_sees_storage_witness:
  "\<exists>an. analyze_bytecode (encode (moved_cell demo_key (zeros 32))) = Inr an \<and> \<not> has_storage_reads an \<and> has_storage_writes an"
  using analysis_sees_storage [OF demo_cells_decode(1) [of demo_key "zeros 32"], of moved_ops]
  by (auto simp: moved_cell_def moved_ops_def known_def demo_key_def)

lemmas analysis_eval = scan_effect_def scan_init_def set_const_def pool_key_def note_read_def note_write_def known_def

lemma demo_cells_accepted:
  assumes "length k = 32" and "length k' = 32"
  shows "verify_manifest_against_bytecode hex (encode (moved_cell k k')) [] [k] [] = Inr ()"
    and "map_sum id fully_resolved (analyze_bytecode (encode (moved_cell k k'))) = Inr True"
    and "verify_manifest_against_bytecode hex (encode (buffer_cell k k')) [] [] [] = Inr ()"
proof -
  have a: "analyze_bytecode (encode (moved_cell k k')) = Inr \<lparr>static_read_slots = [], static_write_slots = [k],
      has_storage_reads = False, has_storage_writes = True, fully_resolved = True\<rparr>"
    using analyze_ops [OF demo_cells_decode(1) [OF assms], of moved_ops] assms
    by (simp add: moved_cell_def moved_ops_def analysis_eval)
  have b: "analyze_bytecode (encode (buffer_cell k k')) = Inr \<lparr>static_read_slots = [], static_write_slots = [],
      has_storage_reads = False, has_storage_writes = False, fully_resolved = True\<rparr>"
    using analyze_ops [OF demo_cells_decode(2) [OF assms], of "OpBufReset # moved_ops"]
    by (simp add: buffer_cell_def analysis_eval)
  note ne = mf_parse_decode [OF demo_cells_decode(1) [OF assms]] mf_parse_decode [OF demo_cells_decode(2) [OF assms]]
  show "verify_manifest_against_bytecode hex (encode (moved_cell k k')) [] [k] [] = Inr ()"
    using a ne by (simp add: verify_manifest_against_bytecode_def undeclared_def)
  show "map_sum id fully_resolved (analyze_bytecode (encode (moved_cell k k'))) = Inr True" using a by simp
  show "verify_manifest_against_bytecode hex (encode (buffer_cell k k')) [] [] [] = Inr ()"
    using b ne by (simp add: verify_manifest_against_bytecode_def undeclared_def)
qed

section \<open>Running the cells\<close>

lemma le_bytes_2: "to_le_bytes 2 (0 :: u16) = [0, 0]" "to_le_bytes 2 (1 :: u16) = [1, 0]"
proof -
  have two: "(2 :: nat) = Suc (Suc 0)" by simp
  show "to_le_bytes 2 (0 :: u16) = [0, 0]" "to_le_bytes 2 (1 :: u16) = [1, 0]"
    unfolding to_le_bytes_def two le_digits.simps by simp_all
qed

lemmas one_step = step_def dispatch_def handlers_def charge_def charge_raw_def read8_def read16_def get_const_def

text \<open>The four instructions from the position \<open>p\<close> to the end of the code, on a host that accepts the store.\<close>

lemma moved_steps:
  assumes cell: "const_pool cell = [k, k']" "drop p (code cell) = code_of moved_ops" and k: "length k = 32" "length k' = 32"
    and s: "pc s = p" "510 \<le> remaining (gas s)" "reg_at s 3 = zeros 32"
    and accepts: "storage_write H (vm_host s) k' (zeros 32) = (Inr (), h)"
  shows "\<exists>s'. run H cell s = Done s' \<and> vm_host s' = h"
proof -
  let ?cd = "[tag_LOAD_CONST, 1, 0, 0, tag_LOAD_CONST, 2, 1, 0, tag_MOVE, 1, 2, tag_SSTORE, 1, 3]"
  have c: "drop p (code cell) = ?cd" using cell(2) by (simp add: moved_ops_def le_bytes_2)
  have "length (drop p (code cell)) = 14" unfolding c by simp
  then have len: "length (code cell) = p + 14" unfolding length_drop by linarith
  have at: "code cell ! (p + n) = ?cd ! n" if "n < 14" for n
    using nth_code [OF c, of n] that by simp
  have ix: "slice (code cell) (p + 2) 2 = to_le_bytes 2 (0 :: u16)" "slice (code cell) (p + 6) 2 = to_le_bytes 2 (1 :: u16)"
  proof -
    have "drop (p + n) (code cell) = drop n ?cd" for n by (simp only: c [symmetric] drop_drop add.commute)
    then show "slice (code cell) (p + 2) 2 = to_le_bytes 2 (0 :: u16)" "slice (code cell) (p + 6) 2 = to_le_bytes 2 (1 :: u16)"
      by (simp_all only: slice_def le_bytes_2) simp_all
  qed
  note ix = ix [simplified] ix(2) [unfolded add.commute [of p]]
  have at': "code cell ! (n + p) = ?cd ! n" if "n < 14" for n using at [OF that] by (simp only: add.commute)
  note code' = at' [of 5, simplified] at' [of 9, simplified] at' [of 10, simplified] at' [of 12, simplified] at' [of 13, simplified]
  note code = at [of 0, simplified] at [of 1, simplified] at [of 4, simplified] at [of 5, simplified] at [of 8, simplified]
    at [of 9, simplified] at [of 10, simplified] at [of 11, simplified] at [of 12, simplified] at [of 13, simplified]
  have "\<exists>s1. step H cell s = Continue s1 \<and> pc s1 = p + 4 \<and> 509 \<le> remaining (gas s1) \<and> reg_at s1 3 = zeros 32 \<and> vm_host s1 = vm_host s"
    using k s by (simp add: one_step exec_load_const_def bail_if_def cell(1) code code' len ix from_to_le_bytes set_reg_def reg_at_def)
  then obtain s1 where s1: "step H cell s = Continue s1" "pc s1 = p + 4" "509 \<le> remaining (gas s1)" "reg_at s1 3 = zeros 32"
      "vm_host s1 = vm_host s" by blast
  have "\<exists>s2. step H cell s1 = Continue s2 \<and> pc s2 = p + 8 \<and> 508 \<le> remaining (gas s2) \<and> reg_at s2 3 = zeros 32 \<and> reg_at s2 2 = k'
      \<and> vm_host s2 = vm_host s"
    using k s1(2-) by (simp add: one_step exec_load_const_def bail_if_def cell(1) code code' len ix from_to_le_bytes set_reg_def reg_at_def pad_to_def)
  then obtain s2 where s2: "step H cell s1 = Continue s2" "pc s2 = p + 8" "508 \<le> remaining (gas s2)" "reg_at s2 3 = zeros 32"
      "reg_at s2 2 = k'" "vm_host s2 = vm_host s" by blast
  have "\<exists>s3. step H cell s2 = Continue s3 \<and> pc s3 = p + 11 \<and> 507 \<le> remaining (gas s3) \<and> reg_at s3 3 = zeros 32 \<and> reg_at s3 1 = k'
      \<and> vm_host s3 = vm_host s"
    using s2(2-) by (simp add: one_step exec_move_def code code' len set_reg_def reg_at_def)
  then obtain s3 where s3: "step H cell s2 = Continue s3" "pc s3 = p + 11" "507 \<le> remaining (gas s3)" "reg_at s3 3 = zeros 32"
      "reg_at s3 1 = k'" "vm_host s3 = vm_host s" by blast
  have "\<exists>s4. step H cell s3 = Continue s4 \<and> pc s4 = p + 14 \<and> vm_host s4 = h"
    using s3(2-) accepts by (simp add: one_step exec_sstore_def try_host_def try_read_def code code' len reg_at_def)
  then obtain s4 where s4: "step H cell s3 = Continue s4" "pc s4 = p + 14" "vm_host s4 = h" by blast
  have "run H cell s = Done s4"
    using s(1) s1(1,2) s2(1,2) s3(1,2) s4(1,2) len
    by (simp add: run.simps [of H cell s] run.simps [of H cell s1] run.simps [of H cell s2] run.simps [of H cell s3] run.simps [of H cell s4])
  then show ?thesis using s4(3) by blast
qed

lemma demo_cells_run:
  assumes k: "length k = 32" "length k' = 32" and g: "600 \<le> ca_gas_limit a" and c: "cell = moved_cell k k' \<or> cell = buffer_cell k k'"
  shows "\<exists>r. execute_axiom E (a\<lparr>ca_bytecode := encode cell\<rparr>) = Some r \<and> er_success r \<and> er_storage_diff r = [(k', Some (zeros 32))]"
proof -
  let ?H = "axiom_ops E MAX_LEVELS" and ?a = "a\<lparr>ca_bytecode := encode cell\<rparr>"
  let ?s = "enter (vm_new (new_host E ?a) (ca_gas_limit a) (ca_depth a)) :: axiom_host frame"
  have "storage_write (axiom_ops E n) = ah_storage_write" for n by (cases n) (simp_all add: host_with_def)
  note H = this [of MAX_LEVELS]
  let ?h = "(new_host E ?a)\<lparr>hs_storage := (hs_storage (new_host E ?a))(k' \<mapsto> zeros 32), hs_storage_diff := [(k', Some (zeros 32))]\<rparr>"
  have w: "storage_write ?H (new_host E ?a) k' (zeros 32) = (Inr (), ?h)"
    by (simp add: H ah_storage_write_def new_host_def)
  have s: "pc ?s = 0" "600 \<le> remaining (gas ?s)" "reg_at ?s 3 = zeros 32" "vm_host ?s = new_host E ?a"
    using g by (simp_all add: enter_def vm_new_def vm.defs gas_new_def reg_at_def)
  have "\<exists>s'. run ?H cell ?s = Done s' \<and> vm_host s' = ?h"
    using c
  proof
    assume "cell = moved_cell k k'"
    then show ?thesis using moved_steps [of cell k k' 0 ?s ?H ?h] k s w by (simp add: moved_cell_def)
  next
    assume cell: "cell = buffer_cell k k'"
    have "\<exists>s1. step ?H cell ?s = Continue s1 \<and> pc s1 = 1 \<and> 510 \<le> remaining (gas s1) \<and> reg_at s1 3 = zeros 32
        \<and> vm_host s1 = new_host E ?a"
      using s by (simp add: cell buffer_cell_def one_step exec_buf_reset_def reg_at_def)
    then obtain s1 where s1: "step ?H cell ?s = Continue s1" "pc s1 = 1" "510 \<le> remaining (gas s1)" "reg_at s1 3 = zeros 32"
        "vm_host s1 = new_host E ?a" by blast
    have "pc ?s < length (code cell)" unfolding s(1) by (simp add: cell buffer_cell_def)
    then have "run ?H cell ?s = run ?H cell s1"
      using run.simps [of ?H cell ?s] s1(1) by simp
    then show ?thesis using moved_steps [of cell k k' 1 s1 ?H ?h] k s1 w by (simp add: cell buffer_cell_def)
  qed
  moreover have "decode (encode cell) = Inr cell" using demo_cells_decode [OF k] c by blast
  ultimately show ?thesis
    by (auto simp: execute_axiom_def execute_level_def execute_def execution_result_of_def leave_def vm.defs)
qed

text \<open>
  C40. The analyser is not sound, for any two storage slots. There is a cell, complete in the opinion
  of the analysis, whose manifest that declares only the first slot as written is accepted, and
  yet every run of it with enough gas succeeds and writes the second slot and nothing else: the
  analysis does not notice that a move overwrites the register it tracks. And the same code
  behind a buffer instruction, where the scan stops, is accepted with a manifest that declares
  nothing at all.
\<close>
theorem analysis_unsound:
  assumes "length k = 32" and "length k' = 32" and "k \<noteq> k'" and "600 \<le> ca_gas_limit a"
  shows "verify_manifest_against_bytecode hex (encode (moved_cell k k')) [] [k] [] = Inr ()
    \<and> map_sum id fully_resolved (analyze_bytecode (encode (moved_cell k k'))) = Inr True
    \<and> (\<exists>r. execute_axiom E (a\<lparr>ca_bytecode := encode (moved_cell k k')\<rparr>) = Some r \<and> er_success r
        \<and> er_storage_diff r = [(k', Some (zeros 32))] \<and> k' \<notin> set [k])
    \<and> verify_manifest_against_bytecode hex (encode (buffer_cell k k')) [] [] [] = Inr ()
    \<and> (\<exists>r. execute_axiom E (a\<lparr>ca_bytecode := encode (buffer_cell k k')\<rparr>) = Some r \<and> er_success r
        \<and> er_storage_diff r = [(k', Some (zeros 32))])"
  using demo_cells_accepted [OF assms(1,2)] demo_cells_run [OF assms(1,2,4)] assms(3) by simp

theorem analysis_unsound_witness:
  "\<exists>r. verify_manifest_against_bytecode (\<lambda>_. []) (encode (moved_cell demo_key (zeros 32))) [] [demo_key] [] = Inr ()
     \<and> execute_axiom demo_env ((demo_args [])\<lparr>ca_bytecode := encode (moved_cell demo_key (zeros 32))\<rparr>) = Some r
     \<and> er_storage_diff r = [(zeros 32, Some (zeros 32))]"
proof -
  have "length demo_key = 32" by (simp add: demo_key_def)
  moreover have "hd demo_key \<noteq> hd (zeros 32)" by (simp add: zeros_def demo_key_def)
  then have "demo_key \<noteq> zeros 32" by auto
  ultimately show ?thesis
    using analysis_unsound [of demo_key "zeros 32" "demo_args []" "\<lambda>_. []" demo_env] by (auto simp: demo_args_def)
qed

end
