(* ===== verification/Cell_Props.thy ===== *)
theory Cell_Props
  imports Accounting System_Cells_Props Manifest_Props
begin

text \<open>
  Properties of the cell intents as whole transactions: what a deployment and a stake through
  the staking cell do to the currency, and when the governance of a system cell takes effect.
\<close>

section \<open>Diffs that touch only cells and stakes\<close>

definition calm :: "state_diff \<Rightarrow> bool" where
  "calm d \<longleftrightarrow> param_updates d = [] \<and> nft_updates d = [] \<and> token_credits d = [] \<and> token_balance_updates d = []
     \<and> staking_rewards d = [] \<and> cell_credits d = [] \<and> cell_debits d = [] \<and> storage_deltas d = [] \<and> name_fee d = 0
     \<and> gas_fee_spent d = 0 \<and> name_fee_spent d = 0 \<and> compute_fee_spent d = 0 \<and> treasury_fee_spent d = 0
     \<and> pending_name_proposals d = [] \<and> pending_token_authority_proposals d = [] \<and> token_authority_votes d = []
     \<and> name_renewals d = [] \<and> name_transfers d = [] \<and> diff_airdrop_claims d = [] \<and> minted_amount d = 0
     \<and> frozen_account_updates d = [] \<and> oracle_updates d = []"

lemma calm_default: "calm (diff_default\<lparr>nonce_updates := ns, tx_hash := h\<rparr>)"
  by (simp add: calm_def diff_default_def)

lemma finish_effects:
  assumes "finish_diff E tx sa bf d = Inr d'" and "\<not> gas_already_debited (tx_intent tx)"
  shows "calm d' = calm d" and "cell_updates d' = cell_updates d" and "staking_updates d' = staking_updates d"
proof -
  from assms obtain c g d2 d3 where s: "paid_by (tx_sender tx) g (d\<lparr>cu_fee := c, gas_fee := g\<rparr>) d2"
      "d3 = d2 \<or> (\<exists>fee. d3 = d2\<lparr>compute_escrow_debits := compute_escrow_debits d2 @ [(tx_sender tx, fee)], compute_fee_tlkd := fee\<rparr>)"
      "d' = keep_sender_key tx sa d3"
    by (elim finish_shape) auto
  have "calm d2 = calm d \<and> cell_updates d2 = cell_updates d \<and> staking_updates d2 = staking_updates d"
    using s(1) unfolding paid_by_def debit_of_def by (elim disjE conjE) (simp_all add: calm_def)
  moreover have "calm d3 = calm d2 \<and> cell_updates d3 = cell_updates d2 \<and> staking_updates d3 = staking_updates d2"
    using s(2) by (elim disjE exE) (simp_all add: calm_def)
  moreover have "calm d' = calm d3 \<and> cell_updates d' = cell_updates d3 \<and> staking_updates d' = staking_updates d3"
    unfolding s(3) keep_sender_key_def Let_def put_account_def by (simp add: calm_def)
  ultimately show "calm d' = calm d" "cell_updates d' = cell_updates d" "staking_updates d' = staking_updates d"
    by simp_all
qed

interpretation same_cells: ledger_relation "\<lambda>l l'. cells l' = cells l \<and> staking l' = staking l"
  by unfold_locales simp_all

lemma set_account_cells [simp]: "cells (set_account i a l) = cells l" "staking (set_account i a l) = staking l"
  by (simp_all add: set_account_def)

lemma account_steps_cells:
  "cells (snd (steps_in_order (account_steps d) l)) = cells l \<and> staking (snd (steps_in_order (account_steps d) l)) = staking l"
proof (rule same_cells.rel_steps)
  fix f :: "ledger \<Rightarrow> step_result" and l assume "f \<in> set (account_steps d)"
  moreover have "cells (snd (each credit_native xs l)) = cells l \<and> staking (snd (each credit_native xs l)) = staking l" for xs
    by (rule same_cells.rel_each) (auto simp: credit_native_def Let_def split: option.splits)
  moreover have "cells (snd (each debit_native xs l)) = cells l \<and> staking (snd (each debit_native xs l)) = staking l" for xs
    by (rule same_cells.rel_each) (auto simp: debit_native_def split: option.splits)
  moreover have "cells (snd (each credit_escrow xs l)) = cells l \<and> staking (snd (each credit_escrow xs l)) = staking l" for xs
    by (rule same_cells.rel_each) (auto simp: credit_escrow_def Let_def split: option.splits)
  moreover have "cells (snd (each debit_escrow xs l)) = cells l \<and> staking (snd (each debit_escrow xs l)) = staking l" for xs
    by (rule same_cells.rel_each) (auto simp: debit_escrow_def split: option.splits)
  moreover have "cells (fold update_account xs l) = cells l \<and> staking (fold update_account xs l) = staking l" for xs
    by (rule same_cells.rel_fold) (auto simp: update_account_def split: option.splits)
  moreover have "cells (fold update_nonce xs l) = cells l \<and> staking (fold update_nonce xs l) = staking l" for xs
    by (rule same_cells.rel_fold) (auto simp: update_nonce_def split: option.splits)
  ultimately show "cells (snd (f l)) = cells l \<and> staking (snd (f l)) = staking l"
    by (auto simp: account_steps_def always_def record_tx_def)
qed

lemma calm_later:
  assumes "calm d" and "steps_in_order (later_steps E d) l = (Inr (), l')"
  obtains l1 where "each (apply_staking_update E) (staking_updates d) l = (Inr (), l1)"
    and "each (apply_cell_update E) (cell_updates d) l1 = (Inr (), l')"
  using assms
  by (auto simp: later_steps_def calm_def then_step_ok always_def collect_name_fee_def spend_gas_fees_def spend_name_fees_def
      spend_compute_fees_def spend_treasury_fees_def vote_authorities_def count_minted_def)

lemma calm_apply:
  assumes "calm d" and "apply_diff E d l = (Inr (), l')"
  obtains l1 l2 where "cells l1 = cells l" and "staking l1 = staking l"
    and "each (apply_staking_update E) (staking_updates d) l1 = (Inr (), l2)"
    and "each (apply_cell_update E) (cell_updates d) l2 = (Inr (), l')"
proof -
  from assms(2) obtain l1 where s: "steps_in_order (account_steps d) l = (Inr (), l1)"
      "steps_in_order (later_steps E d) l1 = (Inr (), l')"
    by (auto simp: apply_diff_steps steps_in_order_append then_step_ok)
  obtain l2 where l2: "each (apply_staking_update E) (staking_updates d) l1 = (Inr (), l2)"
      "each (apply_cell_update E) (cell_updates d) l2 = (Inr (), l')"
    using calm_later [OF assms(1) s(2)] .
  show thesis
    using account_steps_cells [of d l] s(1) by (intro that [OF _ _ l2]) simp_all
qed

section \<open>Currency\<close>

definition cell_supply :: "ledger \<Rightarrow> nat" where
  "cell_supply l = om_total (\<lambda>c. unat (acc_balance c)) (cst_cells (cells l))"

lemma deploy_effects:
  assumes "compute_deploy_cell_diff E l sender cid raw ibal ts reads writes comm specs schemas sa d = Inr d'" and "calm d"
  shows "cell_at l cid = None" and "calm d'" and "staking_updates d' = staking_updates d"
    and "cell_updates d' = cell_updates d @ [CuDeploy cid (deployed_cell E cid sender raw ibal ts reads writes comm specs schemas)]"
  using assms
  by (auto simp: compute_deploy_cell_diff_def Let_def lower_balance_def put_account_def calm_def
      split: if_splits option.splits sum.splits)

text \<open>
  C28. Deploying a cell creates currency. After an accepted deployment with an initial balance has
  been applied, accounts and cells together hold exactly that balance more than before, less
  the fees: the cell is credited, but the sender is debited only in a record update that leaves
  the balance of an existing account as it is.
\<close>

theorem deploy_creates_currency:
  assumes "accounts_ok l" and "compute_transaction_diff v E l tx = Inr d"
    and "tx_intent tx = CellIntent (DeployCell cid raw ibal reads writes comm specs schemas)"
    and "apply_diff E d l = (Inr (), l')"
  shows "native_supply l' + cell_supply l' + unat (gas_fee d) + unat (compute_fee_tlkd d)
    = native_supply l + cell_supply l + unat ibal"
proof -
  have tr: "tracked (tx_intent tx)" and ng: "\<not> gas_already_debited (tx_intent tx)"
    by (simp_all add: assms(3) tracked_def calls_cells_def gas_already_debited_def)
  obtain sa h bf d1 where s: "om_get (accounts l) (tx_sender tx) = Some sa"
      "run_intent E l tx sa (diff_default\<lparr>nonce_updates := [(tx_sender tx, tx_nonce tx)], tx_hash := h\<rparr>) = Inr d1"
      "finish_diff E tx sa bf d1 = Inr d"
    using assms(2) by (rule compute_transaction_ok)
  note b = run_intent_booked [OF s(2,1) start_default sound_default tr]
  have st: "settled l tx d1 d" using finish_settled [OF s(3) b s(1)] .
  let ?c = "deployed_cell E cid (tx_sender tx) raw ibal (tx_timestamp tx) reads writes comm specs schemas"
  have "compute_deploy_cell_diff E l (tx_sender tx) cid raw ibal (tx_timestamp tx) reads writes comm specs schemas sa
      (diff_default\<lparr>nonce_updates := [(tx_sender tx, tx_nonce tx)], tx_hash := h\<rparr>) = Inr d1"
    using s(2) by (simp add: run_intent_def assms(3) run_cell_intent_def)
  note c = deploy_effects [OF this calm_default]
  note e = finish_effects [OF s(3) ng]
  obtain l1 l2 where a: "cells l1 = cells l" "each (apply_staking_update E) [] l1 = (Inr (), l2)"
      "each (apply_cell_update E) [CuDeploy cid ?c] l2 = (Inr (), l')"
    using calm_apply [OF _ assms(4)] e c by (simp add: diff_default_def) metis
  have "cell_supply l' = cell_supply l + unat ibal"
    using a c(1) om_total_put_new [of "cst_cells (cells l)" cid "\<lambda>c. unat (acc_balance c)" ?c]
    by (auto simp: deployed_cell_def fresh_cell_def then_step_ok cell_supply_def on_cells_def set_cell_def cell_at_def)
  moreover have "native_supply l' + unat (gas_fee d) + unat (compute_fee_tlkd d) = native_supply l"
    using settled_supply [OF st assms(1,4)] by (simp add: assms(3) locked_def released_def)
  ultimately show ?thesis
    by simp
qed

section \<open>Staking through the system cell\<close>

definition staking_id :: "('z) ledger_env_scheme \<Rightarrow> bytes" where
  "staking_id E = sys_id E ''truthlinked-staking-v1''"

definition stake_call :: "bytes \<Rightarrow> u64 \<Rightarrow> bytes" where
  "stake_call pk amt = sel ''stake'' @ pk @ to_le_bytes 8 amt"

lemma staking_id_system: "is_system_cell (axiom_env.truncate E) (staking_id E)"
  by (simp add: is_system_cell_def staking_id_def sys_id_def system_cell_id_def axiom_env.defs)

lemma stake_call_parts:
  assumes "length pk = PUBKEY_LEN"
  shows "sel_or_default (stake_call pk amt) = sel ''stake''" "take PUBKEY_LEN (drop 4 (stake_call pk amt)) = pk"
    "read_u64 (stake_call pk amt) (4 + PUBKEY_LEN) = Some amt" "\<not> length (stake_call pk amt) < 4 + PUBKEY_LEN"
  using assms by (simp_all add: stake_call_def sel_or_default_def read_sel_def read_u64_def PUBKEY_LEN_def from_to_le_bytes)

lemma stake_call_result:
  assumes "length pk = PUBKEY_LEN" and "er_success (dispatch E (staking_id E) (stake_call pk amt) who st ht val g l)"
  shows "dispatch E (staking_id E) (stake_call pk amt) who st ht val g l = (sys_ok 500)\<lparr>er_staking_updates := [UpStake pk amt]\<rparr>"
  using assms(2)
  by (simp add: dispatch_def staking_id_def staking_cell_def stake_call_parts [OF assms(1)] Let_def staking_op_def need_def
      sys_err_def default_result_def split: if_splits)

lemma stake_call_effects:
  assumes "compute_call_cell_diff E l sender (staking_id E) (stake_call pk amt) 0 g ts ht sa d = Inr d'"
    and "length pk = PUBKEY_LEN"
  shows "d' = d\<lparr>staking_updates := staking_updates d @ [UpStake pk amt]\<rparr>"
proof -
  from assms(1) obtain c where "call_system_cell E l sender (staking_id E) c (stake_call pk amt) 0 g ht sa d = Inr d'"
    by (auto simp: compute_call_cell_diff_def staking_id_system split: if_splits option.splits)
  then show ?thesis
    by (auto simp: call_system_cell_def Let_def pay_value_def take_effects_def stake_call_result [OF assms(2)]
        sys_ok_def default_result_def split: if_splits)
qed

lemma bonded_by_stake:
  assumes "stake pk amt s = (Inr (), s')" and "om_inv (validators s)"
  shows "unat (case om_get (validators s') pk of None \<Rightarrow> 0 | Some v \<Rightarrow> active_stake v)
    = unat (case om_get (validators s) pk of None \<Rightarrow> 0 | Some v \<Rightarrow> active_stake v) + unat amt"
  using assms
  by (auto simp: stake_def Let_def set_validator_def om_get_put validator_new_def
      split: if_splits option.splits dest!: checked_add_Some)

text \<open>
  C29. Stake is free. When a validator stakes through the staking cell, the only way left to stake,
  and the transaction is accepted and applied, the amount is bonded to the validator while the
  accounts together lose nothing but the fees: no balance is debited for the stake.
\<close>

theorem stake_call_free:
  assumes "accounts_ok l" and "compute_transaction_diff v E l tx = Inr d"
    and "tx_intent tx = CellIntent (CallCell (staking_id E) (stake_call pk amt) 0 g)" and "length pk = PUBKEY_LEN"
    and "apply_diff E d l = (Inr (), l')"
    and "om_inv (validators (staking l))"
  shows "native_supply l' + unat (gas_fee d) + unat (compute_fee_tlkd d) = native_supply l
    \<and> unat (stake_of_key l' pk) = unat (stake_of_key l pk) + unat amt"
proof -
  have nl: "locked (tx_intent tx) = 0" "released (tx_intent tx) = 0" "\<not> gas_already_debited (tx_intent tx)"
    by (simp_all add: assms(3) locked_def released_def gas_already_debited_def)
  let ?d0 = "\<lambda>h. diff_default\<lparr>nonce_updates := [(tx_sender tx, tx_nonce tx)], tx_hash := h\<rparr>"
  obtain sa h bf d1 where s: "om_get (accounts l) (tx_sender tx) = Some sa" "run_intent E l tx sa (?d0 h) = Inr d1"
      "finish_diff E tx sa bf d1 = Inr d"
    using assms(2) by (rule compute_transaction_ok)
  have "compute_call_cell_diff E l (tx_sender tx) (staking_id E) (stake_call pk amt) 0 g (tx_timestamp tx)
      (current_height (staking l)) sa (?d0 h) = Inr d1"
    using s(2) by (simp add: run_intent_def assms(3) run_cell_intent_def)
  note d1 = stake_call_effects [OF this assms(4)]
  have "quiet l (?d0 h) d1" "calm d1" "cell_updates d1 = []" "staking_updates d1 = [UpStake pk amt]"
    unfolding d1 by (simp_all add: quiet_defs pays_out_def calm_def diff_default_def)
  note q = quiet_booked [OF this(1) start_default sound_default nl] this
  have st: "settled l tx d1 d" using finish_settled [OF s(3) q(1) s(1)] .
  obtain l1 l2 where a: "staking l1 = staking l" "each (apply_staking_update E) [UpStake pk amt] l1 = (Inr (), l2)"
      "each (apply_cell_update E) [] l2 = (Inr (), l')"
    using calm_apply [OF _ assms(5)] finish_effects [OF s(3) nl(3)] q(3,4,5) by metis
  then have "stake pk amt (staking l) = (Inr (), staking l')"
    by (auto simp: then_step_ok of_staking_def split: prod.splits sum.splits)
  then have "unat (stake_of_key l' pk) = unat (stake_of_key l pk) + unat amt"
    using bonded_by_stake [OF _ assms(6)] by (simp add: stake_of_key_def)
  then show ?thesis
    using settled_supply [OF st assms(1,5)] nl by simp
qed

section \<open>Governance of system cells\<close>

text \<open>
  C18. A proposal on a system cell is executed only by a validator, after its time lock and with at
  least 67 per cent of the active stake in favour (up to rounding down); the owner of the cell
  does not change by it, only the pending owner can.
\<close>

theorem execute_needs_supermajority:
  assumes "compute_execute_cell_proposal_diff E l cid sa d = Inr d'"
  shows "\<exists>c p c'. cell_at l cid = Some c \<and> acc_owner c = system_authority_id E \<and> acc_governance_proposal c = Some p
    \<and> om_get (validators (staking l)) (pubkey_bytes sa) \<noteq> None
    \<and> unat (gpr_created_at_height p) + unat (gpr_timelock_blocks p) \<le> unat (height_now E)
    \<and> 67 * unat (sum_list (map (\<lambda>e. active_stake (snd e)) (filter (\<lambda>e. is_active (height_now E) (snd e)) (validators (staking l)))))
        \<le> 100 * unat (gpr_votes_for p) + 99
    \<and> cell_updates d' = cell_updates d @ [CuDeploy cid c'] \<and> acc_owner c' = acc_owner c
    \<and> acc_governance_proposal c' = None"
proof -
  let ?tot = "sum_list (map (\<lambda>e. active_stake (snd e)) (filter (\<lambda>e. is_active (height_now E) (snd e)) (validators (staking l))))"
  from assms obtain c p unlock t c1 where s: "cell_at l cid = Some c" "acc_governance_proposal c = Some p"
      "is_validator l sa" "checked_add (gpr_created_at_height p) (gpr_timelock_blocks p) = Some unlock"
      "unlock \<le> height_now E" "checked_mul ?tot 67 = Some t" "t div 100 \<le> gpr_votes_for p"
      "apply_proposal E (height_now E) (gpr_type p) c = Inr c1"
      "cell_updates d' = cell_updates d @ [CuDeploy cid (c1\<lparr>acc_governance_proposal := None\<rparr>)]"
      "acc_owner c = system_authority_id E"
    by (auto simp: compute_execute_cell_proposal_diff_def Let_def height_now_def [symmetric] not_less
        split: if_splits option.splits sum.splits)
  have "unat t = 67 * unat ?tot"
    using s(6) by (auto simp: checked_mul_def unat_word_ariths split: if_splits)
  moreover have "unat t div 100 \<le> unat (gpr_votes_for p)"
    using s(7) by (simp add: word_le_nat_alt unat_div)
  ultimately have "67 * unat ?tot \<le> 100 * unat (gpr_votes_for p) + 99"
    by linarith
  moreover have "unat (gpr_created_at_height p) + unat (gpr_timelock_blocks p) \<le> unat (height_now E)"
    using s(4,5) checked_add_Some by (fastforce simp: word_le_nat_alt)
  moreover have "acc_owner c1 = acc_owner c"
    using s(8) by (cases "gpr_type p") (auto split: sum.splits)
  ultimately show ?thesis
    using s(1,2,3,9,10) by (intro exI [of _ c] exI [of _ p] exI [of _ "c1\<lparr>acc_governance_proposal := None\<rparr>"])
      (simp add: is_validator_def)
qed

section \<open>Concrete chains\<close>

text \<open>
  The witnesses run on a chain with the fees of \<^const>\<open>demo_chain\<close>, ample limits and
  a hash that is constant, so that every system cell has the same identifier.
\<close>

definition cell_params :: "string \<Rightarrow> u64" where
  "cell_params p = (if take 7 p = ''limits.'' then 1000000 else demo_params p)"

definition cell_chain :: "unit tx_env" where
  "cell_chain = demo_chain\<lparr>env_sha256 := (\<lambda>_. L4 0 0 0 0), env_blake3 := (\<lambda>_. L4 0 0 0 0), env_gp := cell_params\<rparr>"

definition cell_sender :: bytes where
  "cell_sender = zeros 32"

definition cell_ledger :: ledger where
  "cell_ledger = (state_genesis cell_chain [])\<lparr>accounts := [(cell_sender, demo_account 1)]\<rparr>"

definition cell_tx :: "unit intent \<Rightarrow> unit transaction" where
  "cell_tx i = (demo_tx i)\<lparr>tx_sender := cell_sender\<rparr>"

definition bare_cell :: cell_bytecode where
  "bare_cell = \<lparr>const_pool = [], code = []\<rparr>"

definition bare_deploy :: "unit intent" where
  "bare_deploy = CellIntent (DeployCell [9] (encode bare_cell) 600 [] [] [] [] [])"

lemma cell_ledger_ok: "accounts_ok cell_ledger"
  by (simp add: accounts_ok_def cell_ledger_def state_genesis_def om_inv_def)

lemma bare_manifest: "verify_manifest_against_bytecode hex (encode bare_cell) [] [] [] = Inr ()"
proof -
  have "decode (encode bare_cell) = Inr bare_cell"
    using decode_complete [of bare_cell _ "[]"] by (simp add: within_limits_def limit_defs bare_cell_def)
  from analyze_ops [OF this, of "[]"] show ?thesis
    by (simp add: bare_cell_def verify_manifest_against_bytecode_def scan_init_def undeclared_def)
qed

lemma bare_raw: "length (encode bare_cell) = 12" "take 4 (encode bare_cell) = str_bytes ''AXIO''"
  by (simp_all add: encode_def bare_cell_def encode_blob_def MAGIC_def str_bytes_def)

lemmas cell_eval = demo_eval cell_chain_def cell_params_def cell_ledger_def cell_tx_def cell_at_def
  cells_env_of_def run_cell_intent_def cell_intent_fee_def

lemma bare_deploy_applied:
  "\<exists>d l'. compute_transaction_diff False cell_chain cell_ledger (cell_tx bare_deploy) = Inr d
     \<and> apply_diff cell_chain d cell_ledger = (Inr (), l')"
  by (simp add: bare_deploy_def cell_eval compute_deploy_cell_diff_def bytecode_ok_def bare_raw bare_manifest lower_balance_def
      cell_state_new_def) (simp add: demo_apply on_cells_def set_cell_def cell_at_def om_get_def rust_int)

theorem deploy_creates_currency_witness:
  "\<exists>d l'. apply_diff cell_chain d cell_ledger = (Inr (), l')
     \<and> native_supply l' + cell_supply l' + unat (gas_fee d) + unat (compute_fee_tlkd d)
       = native_supply cell_ledger + cell_supply cell_ledger + 600"
proof -
  obtain d l' where s: "compute_transaction_diff False cell_chain cell_ledger (cell_tx bare_deploy) = Inr d"
      "apply_diff cell_chain d cell_ledger = (Inr (), l')" using bare_deploy_applied by blast
  then show ?thesis
    using deploy_creates_currency [OF cell_ledger_ok s(1) _ s(2)] by (auto simp: cell_tx_def demo_tx_def bare_deploy_def)
qed

definition staking_ledger :: ledger where
  "staking_ledger = cell_ledger\<lparr>cells := cell_state_new\<lparr>cst_cells :=
     [(cell_sender, fresh_cell (cells_env_of cell_chain) cell_sender cell_sender 0 0)]\<rparr>\<rparr>"

definition demo_stake :: "unit intent" where
  "demo_stake = CellIntent (CallCell (staking_id cell_chain) (stake_call (zeros PUBKEY_LEN) MIN_VALIDATOR_STAKE) 0 10)"

lemma staking_ledger_ok: "accounts_ok staking_ledger" "om_inv (validators (staking staking_ledger))"
  by (simp_all add: accounts_ok_def staking_ledger_def cell_ledger_def state_genesis_def staking_new_def om_inv_def)

lemma zero_digest: "digest (env_sha256 cell_chain) x = cell_sender" "digest (env_blake3 cell_chain) x = cell_sender"
  by (simp_all add: digest_def cell_chain_def cell_sender_def zeros_def to_le_bytes_def) (simp_all add: numeral_eq_Suc)

lemma stake_accepted:
  assumes "length pk = PUBKEY_LEN" and "account_id_from_pubkey E pk = who" and "amt \<noteq> 0"
  shows "dispatch E (staking_id E) (stake_call pk amt) who st ht val g l = (sys_ok 500)\<lparr>er_staking_updates := [UpStake pk amt]\<rparr>"
  using assms(2,3)
  by (simp add: dispatch_def staking_id_def staking_cell_def stake_call_parts [OF assms(1)] Let_def staking_op_def need_def)

lemma demo_stake_applied:
  "\<exists>d l'. compute_transaction_diff False cell_chain staking_ledger (cell_tx demo_stake) = Inr d
     \<and> apply_diff cell_chain d staking_ledger = (Inr (), l')"
proof -
  have id: "staking_id cell_chain = cell_sender" "account_id_from_pubkey cell_chain pk = cell_sender"
      "mcp_registry cell_chain = cell_sender" for pk
    by (simp_all add: staking_id_def sys_id_def account_id_from_pubkey_def mcp_registry_def zero_digest)
  have l: "length (stake_call (zeros PUBKEY_LEN) MIN_VALIDATOR_STAKE) = 1964"
    by (simp add: stake_call_def PUBKEY_LEN_def)
  have c: "cell_at staking_ledger cell_sender = Some (fresh_cell (cells_env_of cell_chain) cell_sender cell_sender 0 0)"
    by (simp add: cell_at_def staking_ledger_def om_get_def)
  have t: "\<not> is_mcp_tool_cell cell_chain staking_ledger cell_sender"
    by (simp add: is_mcp_tool_cell_def id c fresh_cell_def read_slot_u64_def)
  have sys: "is_system_cell (axiom_env.truncate cell_chain) cell_sender"
    using staking_id_system [of cell_chain] by (simp add: id)
  have p: "env_gp cell_chain = cell_params" by (simp add: cell_chain_def)
  have r: "dispatch cell_chain cell_sender (stake_call (zeros PUBKEY_LEN) MIN_VALIDATOR_STAKE) cell_sender st ht val g l
      = (sys_ok 500)\<lparr>er_staking_updates := [UpStake (zeros PUBKEY_LEN) MIN_VALIDATOR_STAKE]\<rparr>" for st ht val g l
    using stake_accepted [of "zeros PUBKEY_LEN" cell_chain cell_sender MIN_VALIDATOR_STAKE] by (simp add: id MIN_VALIDATOR_STAKE_def)
  have call: "compute_call_cell_diff cell_chain staking_ledger cell_sender cell_sender
      (stake_call (zeros PUBKEY_LEN) MIN_VALIDATOR_STAKE) 0 10 ts ht sa d
    = Inr (d\<lparr>staking_updates := staking_updates d @ [UpStake (zeros PUBKEY_LEN) MIN_VALIDATOR_STAKE]\<rparr>)" for ts ht sa d
    by (simp add: compute_call_cell_diff_def p cell_params_def l c t sys call_system_cell_def r Let_def sys_ok_def
      default_result_def pay_value_def take_effects_def)
  have run: "run_intent cell_chain staking_ledger (cell_tx demo_stake) sa d
    = Inr (d\<lparr>staking_updates := staking_updates d @ [UpStake (zeros PUBKEY_LEN) MIN_VALIDATOR_STAKE]\<rparr>)" for sa d
    by (simp add: run_intent_def cell_tx_def demo_tx_def demo_stake_def run_cell_intent_def id call)
  show ?thesis
    unfolding compute_transaction_diff_def run
    by (simp add: cell_eval demo_stake_def staking_ledger_def)
      (simp add: demo_apply of_staking_def stake_def set_validator_def om_get_def rust_int validator_new_def Let_def
        MIN_VALIDATOR_STAKE_def MAX_VALIDATOR_STAKE_def)
qed

theorem stake_call_free_witness:
  "\<exists>d l'. apply_diff cell_chain d staking_ledger = (Inr (), l')
     \<and> native_supply l' + unat (gas_fee d) + unat (compute_fee_tlkd d) = native_supply staking_ledger
     \<and> unat (stake_of_key l' (zeros PUBKEY_LEN)) = unat (stake_of_key staking_ledger (zeros PUBKEY_LEN)) + unat MIN_VALIDATOR_STAKE"
proof -
  obtain d l' where s: "compute_transaction_diff False cell_chain staking_ledger (cell_tx demo_stake) = Inr d"
      "apply_diff cell_chain d staking_ledger = (Inr (), l')" using demo_stake_applied by blast
  have "tx_intent (cell_tx demo_stake) = CellIntent (CallCell (staking_id cell_chain) (stake_call (zeros PUBKEY_LEN) MIN_VALIDATOR_STAKE) 0 10)"
    by (simp add: cell_tx_def demo_tx_def demo_stake_def)
  from stake_call_free [OF staking_ledger_ok(1) s(1) this _ s(2) staking_ledger_ok(2)] s(2) show ?thesis
    by auto
qed

definition frozen_cell :: cell_account where
  "frozen_cell = (fresh_cell (cells_env_of cell_chain) [9] (system_authority_id cell_chain) 0 0)\<lparr>acc_governance_proposal :=
     Some \<lparr>gpr_type = MakeImmutable, gpr_proposer = [], gpr_created_at_height = 0, gpr_timelock_blocks = 0,
       gpr_require_vote = True, gpr_votes_for = 7, gpr_votes_against = 3, gpr_voters = {}, gpr_executed = False\<rparr>\<rparr>"

definition voting_ledger :: ledger where
  "voting_ledger = cell_ledger\<lparr>cells := cell_state_new\<lparr>cst_cells := [([9], frozen_cell)]\<rparr>,
     staking := staking_new\<lparr>validators := [([1], validator_new 10)]\<rparr>\<rparr>"

theorem execute_needs_supermajority_witness:
  "\<exists>d c'. compute_execute_cell_proposal_diff cell_chain voting_ledger [9] (demo_account 1) diff_default = Inr d
     \<and> cell_updates d = [CuDeploy [9] c'] \<and> acc_governance_proposal c' = None"
proof -
  have "\<exists>d. compute_execute_cell_proposal_diff cell_chain voting_ledger [9] (demo_account 1) diff_default = Inr d"
    by (simp add: compute_execute_cell_proposal_diff_def is_validator_def cell_at_def voting_ledger_def demo_account_def
        om_get_def frozen_cell_def Let_def rust_int checked_mul_def is_active_def validator_new_def fresh_cell_def cell_chain_def demo_chain_def)
  then obtain d where d: "compute_execute_cell_proposal_diff cell_chain voting_ledger [9] (demo_account 1) diff_default = Inr d" ..
  from execute_needs_supermajority [OF d] d show ?thesis by (auto simp: diff_default_def)
qed

end
