(* ===== verification/Parallel_Props.thy ===== *)
theory Parallel_Props
  imports Parallel Cell_Props
begin

text \<open>
  Properties of the parallel executor: its result does not depend on how the work is split
  among threads, and where it departs from sequential execution.
\<close>

section \<open>Unions of ordered maps\<close>

lemma om_eqI:
  assumes "om_inv m" and "om_inv n" and "\<And>k. om_get m k = om_get n k"
  shows "m = n"
proof -
  have "set m = set n"
    using om_get_in [OF assms(1)] om_get_in [OF assms(2)] assms(3) by (metis pred_equals_eq2 subrelI subset_antisym)
  moreover have "inj_on fst (set m \<union> set n)"
    using \<open>set m = set n\<close> om_inv_distinct [OF assms(2)] by (simp add: distinct_map)
  ultimately show ?thesis
    using assms(1,2) map_sorted_distinct_set_unique [of fst m n]
    by (simp add: om_inv_def strict_sorted_iff)
qed

definition om_union :: "('k::linorder, 'v) omap \<Rightarrow> ('k, 'v) omap \<Rightarrow> ('k, 'v) omap" where
  "om_union es m = fold (\<lambda>e. om_put (fst e) (snd e)) es m"

lemma om_inv_union: "om_inv m \<Longrightarrow> om_inv (om_union es m)"
  by (induction es arbitrary: m) (simp_all add: om_union_def om_inv_put)

lemma keys_union: "fst ` set (om_union es m) = fst ` set es \<union> fst ` set m"
  by (induction es arbitrary: m) (auto simp: om_union_def keys_om_put)

lemma om_get_Cons: "om_get (e # es) k = (if k = fst e then Some (snd e) else om_get es k)"
  by (cases e) (simp add: om_get_def)

lemma om_get_union:
  "om_inv m \<Longrightarrow> distinct (map fst es) \<Longrightarrow> om_get (om_union es m) k = (case om_get es k of Some v \<Rightarrow> Some v | None \<Rightarrow> om_get m k)"
proof (induction es arbitrary: m)
  case Nil
  then show ?case by (simp add: om_union_def om_get_def)
next
  case (Cons e es)
  have "om_get es (fst e) = None"
    using Cons.prems(2) by (simp add: om_get_None)
  then show ?case
    using Cons.IH [of "om_put (fst e) (snd e) m"] Cons.prems
    by (auto simp: om_union_def om_inv_put om_get_put om_get_Cons split: option.split)
qed

lemma om_union_assoc:
  assumes "om_inv a" and "om_inv b" and "om_inv c"
  shows "om_union (om_union a b) c = om_union a (om_union b c)"
  using assms
  by (intro om_eqI) (simp_all add: om_inv_union om_get_union om_inv_distinct split: option.split)

lemma om_union_empty [simp]: "om_union [] m = m"
  by (simp add: om_union_def)

lemma insert_fresh_spec:
  "fst (insert_fresh es m) \<longleftrightarrow> distinct (map fst es) \<and> fst ` set es \<inter> fst ` set m = {}"
  "fst (insert_fresh es m) \<Longrightarrow> snd (insert_fresh es m) = om_union es m"
  by (induction es arbitrary: m) (auto simp: Let_def om_get_None keys_om_put om_union_def split: if_splits)

section \<open>Composition as one pass\<close>

definition wf_diff :: "state_diff \<Rightarrow> bool" where
  "wf_diff d \<longleftrightarrow> om_inv (account_updates d) \<and> om_inv (nft_updates d) \<and> storage_deltas d = []"

definition write_keys :: "state_diff \<Rightarrow> (bytes + bytes) set" where
  "write_keys d = Inl ` fst ` set (account_updates d) \<union> Inr ` fst ` set (nft_updates d)"

definition absorb :: "bytes list \<Rightarrow> state_diff \<Rightarrow> state_diff \<Rightarrow> state_diff" where
  "absorb hs d k = extend_rest d (extend_cell_debits d (extend_commutative d (k\<lparr>tx_hashes := tx_hashes k @ hs,
     account_updates := om_union (account_updates d) (account_updates k),
     nft_updates := om_union (nft_updates d) (nft_updates k)\<rparr>)))"

abbreviation absorb_all :: "state_diff list \<Rightarrow> state_diff \<Rightarrow> state_diff" where
  "absorb_all ds k \<equiv> fold (\<lambda>d. absorb [tx_hash d] d) ds k"

lemmas extend_defs = extend_rest_def extend_cell_debits_def extend_commutative_def

lemma saturating_add_assoc: "saturating_add (saturating_add a b) c = saturating_add a (saturating_add b c)"
  for a b c :: "'a::len word"
  by (simp add: word_unat_eq_iff unat_saturating_add)

lemma saturating_add_zero [simp]: "saturating_add a 0 = a" "saturating_add 0 a = a" for a :: "'a::len word"
  by (simp_all add: rust_int)

lemma compose_storage_nil [simp]: "compose_storage [] m = m"
  by (simp add: compose_storage_def)

lemma wf_absorb: "wf_diff d \<Longrightarrow> wf_diff k \<Longrightarrow> wf_diff (absorb hs d k)"
  by (simp add: wf_diff_def absorb_def extend_defs om_inv_union)

lemma wf_default: "wf_diff diff_default"
  by (simp add: wf_diff_def diff_default_def om_inv_def)

lemma keys_absorb: "write_keys (absorb hs d k) = write_keys d \<union> write_keys k"
  by (auto simp: write_keys_def absorb_def extend_defs keys_union simp flip: image_Un)

lemma hashes_absorb: "tx_hashes (absorb hs d k) = tx_hashes k @ hs"
  by (simp add: absorb_def extend_defs)

lemma absorb_assoc:
  assumes "wf_diff d" and "wf_diff k" and "wf_diff j"
  shows "absorb (tx_hashes (absorb hs d k)) (absorb hs d k) j = absorb hs d (absorb (tx_hashes k) k j)"
  using assms by (simp add: absorb_def extend_defs wf_diff_def om_union_assoc saturating_add_assoc add.assoc disj_ac)

lemma absorb_default: "absorb (tx_hashes diff_default) diff_default k = k"
  by (simp add: absorb_def extend_defs diff_default_def)

lemma wf_absorb_all: "\<forall>d \<in> set ds. wf_diff d \<Longrightarrow> wf_diff k \<Longrightarrow> wf_diff (absorb_all ds k)"
  by (induction ds arbitrary: k) (simp_all add: wf_absorb)

lemma keys_absorb_all: "write_keys (absorb_all ds k) = \<Union> (write_keys ` set ds) \<union> write_keys k"
  by (induction ds arbitrary: k) (auto simp: keys_absorb)

lemma hashes_absorb_all: "tx_hashes (absorb_all ds k) = tx_hashes k @ map tx_hash ds"
  by (induction ds arbitrary: k) (simp_all add: hashes_absorb)

lemma absorb_whole:
  assumes "\<forall>d \<in> set ds. wf_diff d" and "wf_diff k"
  shows "absorb (tx_hashes (absorb_all ds diff_default)) (absorb_all ds diff_default) k = absorb_all ds k"
  using assms(1)
proof (induction ds rule: rev_induct)
  case Nil
  then show ?case by (simp add: absorb_default)
next
  case (snoc d ds)
  then show ?case
    using absorb_assoc [of d "absorb_all ds diff_default" k] assms(2) by (simp add: wf_absorb_all wf_default)
qed

text \<open>When the key sets of a list of diffs are disjoint from each other and from a given one.\<close>

primrec all_fresh :: "'a set list \<Rightarrow> 'a set \<Rightarrow> bool" where
  "all_fresh [] K = True"
| "all_fresh (A # As) K \<longleftrightarrow> A \<inter> K = {} \<and> all_fresh As (A \<union> K)"

lemma all_fresh_iff: "all_fresh As K \<longleftrightarrow> all_fresh As {} \<and> \<Union> (set As) \<inter> K = {}"
proof (induction As arbitrary: K)
  case Nil
  then show ?case by simp
next
  case (Cons A As)
  show ?case
    using Cons [of "A \<union> K"] Cons [of A] by auto
qed

lemma all_fresh_append: "all_fresh (As @ Bs) K \<longleftrightarrow> all_fresh As K \<and> all_fresh Bs (\<Union> (set As) \<union> K)"
  by (induction As arbitrary: K) (auto simp: Un_ac)

lemma keys_disjoint:
  "write_keys d \<inter> write_keys k = {} \<longleftrightarrow> fst ` set (account_updates d) \<inter> fst ` set (account_updates k) = {}
     \<and> fst ` set (nft_updates d) \<inter> fst ` set (nft_updates k) = {}"
proof -
  have "write_keys d \<inter> write_keys k = Inl ` (fst ` set (account_updates d) \<inter> fst ` set (account_updates k))
      \<union> Inr ` (fst ` set (nft_updates d) \<inter> fst ` set (nft_updates k))"
    by (auto simp: write_keys_def)
  then show ?thesis by simp
qed

lemma extend_checked_ok:
  assumes "wf_diff d" and "write_keys d \<inter> write_keys (co_diff c) = {}"
  shows "extend_checked post d c = (True, c\<lparr>co_diff := post ((co_diff c)\<lparr>
      account_updates := om_union (account_updates d) (account_updates (co_diff c)),
      nft_updates := om_union (nft_updates d) (nft_updates (co_diff c))\<rparr>)\<rparr>)"
proof -
  have a: "fst (insert_fresh (account_updates d) (account_updates (co_diff c)))"
    and n: "fst (insert_fresh (nft_updates d) (nft_updates (co_diff c)))"
    using assms by (simp_all add: insert_fresh_spec(1) wf_diff_def keys_disjoint om_inv_distinct)
  from insert_fresh_spec(2) [OF a] insert_fresh_spec(2) [OF n] a n show ?thesis
    by (auto simp: extend_checked_def Let_def split: prod.splits)
qed

lemma extend_checked_clash:
  assumes "wf_diff d" and "write_keys d \<inter> write_keys (co_diff c) \<noteq> {}"
  shows "\<not> fst (extend_checked post d c)" and "falls_back (snd (extend_checked post d c))"
proof -
  have "\<not> fst (insert_fresh (account_updates d) (account_updates (co_diff c)))
      \<or> \<not> fst (insert_fresh (nft_updates d) (nft_updates (co_diff c)))"
    using assms by (simp add: insert_fresh_spec(1) keys_disjoint)
  then show "\<not> fst (extend_checked post d c)" and "falls_back (snd (extend_checked post d c))"
    by (auto simp: extend_checked_def Let_def fall_back_def falls_back_def split: prod.splits)
qed

lemma compose_diff_ok:
  assumes "wf_diff d" and "write_keys d \<inter> write_keys (co_diff c) = {}" and "tx_hash d \<notin> set (tx_hashes (co_diff c))"
  shows "compose_diff E d c = (True, c\<lparr>co_diff := absorb [tx_hash d] d (co_diff c)\<rparr>)"
  using assms
  by (subst compose_diff_def) (simp add: extend_checked_ok write_keys_def extend_defs absorb_def)

lemma compose_diff_clash:
  assumes "wf_diff d" and "write_keys d \<inter> write_keys (co_diff c) \<noteq> {}" and "tx_hash d \<notin> set (tx_hashes (co_diff c))"
  shows "\<not> fst (compose_diff E d c)" and "falls_back (snd (compose_diff E d c))"
  using assms extend_checked_clash [of d "c\<lparr>co_diff := extend_cell_debits d (extend_commutative d
       ((co_diff c)\<lparr>tx_hashes := tx_hashes (co_diff c) @ [tx_hash d]\<rparr>))\<rparr>" "extend_rest d"]
  by (simp_all add: compose_diff_def write_keys_def extend_defs)

lemma compose_diffs_spec:
  assumes "\<forall>d \<in> set ds. wf_diff d" and "distinct (map tx_hash ds)"
    and "set (map tx_hash ds) \<inter> set (tx_hashes (co_diff c)) = {}"
  shows "all_fresh (map write_keys ds) (write_keys (co_diff c)) \<Longrightarrow> compose_diffs E ds c = c\<lparr>co_diff := absorb_all ds (co_diff c)\<rparr>"
    and "\<not> all_fresh (map write_keys ds) (write_keys (co_diff c)) \<Longrightarrow> falls_back (compose_diffs E ds c)"
  using assms
proof (induction ds arbitrary: c)
  case Nil
  case 1
  then show ?case by simp
next
  case Nil
  case 2
  then show ?case by simp
next
  case (Cons d ds)
  case 1
  then show ?case
    using Cons.IH(1) [of "c\<lparr>co_diff := absorb [tx_hash d] d (co_diff c)\<rparr>"]
    by (simp add: compose_diff_ok hashes_absorb keys_absorb)
next
  case (Cons d ds)
  case 2
  show ?case
  proof (cases "write_keys d \<inter> write_keys (co_diff c) = {}")
    case True
    then show ?thesis
      using 2 Cons.IH(2) [of "c\<lparr>co_diff := absorb [tx_hash d] d (co_diff c)\<rparr>"]
      by (simp add: compose_diff_ok hashes_absorb keys_absorb)
  next
    case False
    then show ?thesis
      using 2 compose_diff_clash [of d c E] by (auto split: prod.split)
  qed
qed

definition diffs_of :: "group_result list \<Rightarrow> state_diff list" where
  "diffs_of gs = concat (map fst gs)"

lemma diffs_of_append [simp]: "diffs_of (gs @ hs) = diffs_of gs @ diffs_of hs"
  by (simp add: diffs_of_def)

text \<open>The result of composing a list of groups in one pass, without the checks.\<close>

definition composed_of :: "group_result list \<Rightarrow> composed" where
  "composed_of gs = \<lparr>co_errors = concat (map snd gs), co_count = length (diffs_of gs),
     co_diff = absorb_all (diffs_of gs) diff_default\<rparr>"

definition well_formed :: "group_result list \<Rightarrow> bool" where
  "well_formed gs \<longleftrightarrow> (\<forall>d \<in> set (diffs_of gs). wf_diff d) \<and> distinct (map tx_hash (diffs_of gs))"

lemma well_formed_append: "well_formed (gs @ hs) \<Longrightarrow> well_formed gs \<and> well_formed hs"
  by (auto simp: well_formed_def)

definition no_clash :: "group_result list \<Rightarrow> bool" where
  "no_clash gs \<longleftrightarrow> all_fresh (map write_keys (diffs_of gs)) {}"

lemma keys_default [simp]: "write_keys diff_default = {}"
  by (simp add: write_keys_def diff_default_def)

lemma no_clash_append:
  "no_clash (gs @ hs) \<longleftrightarrow> no_clash gs \<and> no_clash hs
     \<and> write_keys (co_diff (composed_of hs)) \<inter> write_keys (co_diff (composed_of gs)) = {}"
  using all_fresh_iff [of "map write_keys (diffs_of hs)" "\<Union> (write_keys ` set (diffs_of gs))"]
  by (auto simp: no_clash_def composed_of_def keys_absorb_all all_fresh_append)

lemma compose_group_spec:
  assumes "well_formed (gs @ [g])"
  shows "no_clash (gs @ [g]) \<Longrightarrow> compose_group E g (composed_of gs) = composed_of (gs @ [g])"
    and "no_clash gs \<Longrightarrow> \<not> no_clash (gs @ [g]) \<Longrightarrow> falls_back (compose_group E g (composed_of gs))"
proof -
  let ?c = "(composed_of gs)\<lparr>co_count := co_count (composed_of gs) + length (fst g), co_errors := co_errors (composed_of gs) @ snd g\<rparr>"
  have g: "diffs_of [g] = fst g" by (simp add: diffs_of_def)
  have h: "tx_hashes (co_diff ?c) = map tx_hash (diffs_of gs)"
    by (simp add: composed_of_def hashes_absorb_all) (simp add: diff_default_def)
  have pre: "\<forall>d \<in> set (fst g). wf_diff d" "distinct (map tx_hash (fst g))"
      "set (map tx_hash (fst g)) \<inter> set (tx_hashes (co_diff ?c)) = {}"
    using assms unfolding h by (auto simp: well_formed_def g)
  have "no_clash (gs @ [g]) \<longleftrightarrow> no_clash gs \<and> all_fresh (map write_keys (fst g)) (write_keys (co_diff ?c))"
    by (simp add: no_clash_def all_fresh_append g composed_of_def keys_absorb_all)
  then show "no_clash (gs @ [g]) \<Longrightarrow> compose_group E g (composed_of gs) = composed_of (gs @ [g])"
    and "no_clash gs \<Longrightarrow> \<not> no_clash (gs @ [g]) \<Longrightarrow> falls_back (compose_group E g (composed_of gs))"
    using compose_diffs_spec [OF pre, of E] by (simp_all add: compose_group_def composed_of_def g)
qed

lemma errors_compose_diffs: "falls_back c \<Longrightarrow> falls_back (compose_diffs E ds c)"
proof (induction ds arbitrary: c)
  case (Cons d ds)
  have "falls_back (snd (compose_diff E d c))"
    using Cons.prems
    by (auto simp: compose_diff_def extend_checked_def Let_def fall_back_def falls_back_def split: prod.splits)
  then show ?case
    using Cons.IH by (auto split: prod.split)
qed simp

lemma fold_groups_spec:
  assumes "well_formed gs"
  shows "if no_clash gs then fold (compose_group E) gs composed_new = composed_of gs
    else falls_back (fold (compose_group E) gs composed_new)"
  using assms
proof (induction gs rule: rev_induct)
  case Nil
  then show ?case by (simp add: composed_of_def composed_new_def no_clash_def diffs_of_def)
next
  case (snoc g gs)
  have gs: "well_formed gs" using well_formed_append [OF snoc.prems] ..
  show ?case
  proof (cases "no_clash gs")
    case True
    then show ?thesis
      using snoc.IH [OF gs] compose_group_spec [OF snoc.prems, of E] by simp
  next
    case False
    have "falls_back (c\<lparr>co_count := n, co_errors := co_errors c @ es\<rparr>)" if "falls_back c" for c n es
      using that by (simp add: falls_back_def)
    then show ?thesis
      using False snoc.IH [OF gs] by (simp add: no_clash_append compose_group_def errors_compose_diffs)
  qed
qed

lemma add_hashes:
  assumes "distinct hs" and "set hs \<inter> set (tx_hashes (co_diff c)) = {}"
  shows "fold (add_hash E) hs c = c\<lparr>co_diff := (co_diff c)\<lparr>tx_hashes := tx_hashes (co_diff c) @ hs\<rparr>\<rparr>"
  using assms
proof (induction hs arbitrary: c)
  case (Cons h hs)
  then show ?case
    using Cons.IH [of "c\<lparr>co_diff := (co_diff c)\<lparr>tx_hashes := tx_hashes (co_diff c) @ [h]\<rparr>\<rparr>"]
    by (simp add: add_hash_def)
qed simp

lemma falls_back_mono: "set (co_errors c) \<subseteq> set (co_errors c') \<Longrightarrow> falls_back c \<Longrightarrow> falls_back c'"
  by (auto simp: falls_back_def list_ex_iff)

lemma errors_extend_checked: "set (co_errors c) \<subseteq> set (co_errors (snd (extend_checked post d c)))"
  by (auto simp: extend_checked_def Let_def fall_back_def split: prod.split)

lemma errors_add_hashes: "set (co_errors c) \<subseteq> set (co_errors (fold (add_hash E) hs c))"
proof (induction hs arbitrary: c)
  case (Cons h hs)
  have "set (co_errors c) \<subseteq> set (co_errors (add_hash E h c))"
    by (auto simp: add_hash_def)
  then show ?case
    using Cons.IH [of "add_hash E h c"] by (simp only: fold.simps o_apply subset_trans)
qed simp

lemma errors_reduce:
  assumes "falls_back c1 \<or> falls_back c2"
  shows "falls_back (reduce_composed E c1 c2)"
proof -
  let ?start = "c1\<lparr>co_errors := co_errors c1 @ co_errors c2\<rparr>"
  let ?c = "fold (add_hash E) (tx_hashes (co_diff c2)) ?start"
  have "set (co_errors ?c) \<subseteq> set (co_errors (reduce_composed E c1 c2))"
    using errors_extend_checked [of "?c\<lparr>co_diff := extend_commutative (co_diff c2) (co_diff ?c)\<rparr>"
        "extend_rest (co_diff c2) \<circ> extend_cell_debits (co_diff c2)" "co_diff c2"]
    by (simp add: reduce_composed_def Let_def)
  with errors_add_hashes have "set (co_errors ?start) \<subseteq> set (co_errors (reduce_composed E c1 c2))"
    by (rule subset_trans)
  then show ?thesis
    using assms falls_back_mono [of c1 "reduce_composed E c1 c2"] falls_back_mono [of c2 "reduce_composed E c1 c2"] by auto
qed

lemma hashes_composed: "tx_hashes (co_diff (composed_of gs)) = map tx_hash (diffs_of gs)"
  by (simp add: composed_of_def hashes_absorb_all) (simp add: diff_default_def)

lemma wf_composed: "well_formed gs \<Longrightarrow> wf_diff (co_diff (composed_of gs))"
  by (simp add: well_formed_def composed_of_def wf_absorb_all wf_default)

lemma reduce_spec:
  assumes "well_formed (gs @ hs)" and "no_clash gs" and "no_clash hs"
  shows "if no_clash (gs @ hs) then reduce_composed E (composed_of gs) (composed_of hs) = composed_of (gs @ hs)
    else falls_back (reduce_composed E (composed_of gs) (composed_of hs))"
proof -
  let ?left = "composed_of gs" and ?right = "composed_of hs"
  let ?start = "?left\<lparr>co_errors := co_errors ?left @ co_errors ?right\<rparr>"
  let ?post = "extend_rest (co_diff ?right) \<circ> extend_cell_debits (co_diff ?right)"
  have wf: "well_formed gs" "well_formed hs" using well_formed_append [OF assms(1)] by simp_all
  have "fold (add_hash E) (tx_hashes (co_diff ?right)) ?start
      = ?start\<lparr>co_diff := (co_diff ?left)\<lparr>tx_hashes := tx_hashes (co_diff ?left) @ tx_hashes (co_diff ?right)\<rparr>\<rparr>"
    using assms(1) by (subst add_hashes) (auto simp: hashes_composed well_formed_def)
  then obtain c where c: "reduce_composed E ?left ?right
      = (snd (extend_checked ?post (co_diff ?right) c))\<lparr>co_count := co_count ?left + co_count ?right\<rparr>"
    "c = ?start\<lparr>co_diff := extend_commutative (co_diff ?right)
       ((co_diff ?left)\<lparr>tx_hashes := tx_hashes (co_diff ?left) @ tx_hashes (co_diff ?right)\<rparr>)\<rparr>"
    by (simp add: reduce_composed_def Let_def)
  have k: "write_keys (co_diff c) = write_keys (co_diff ?left)"
    by (simp add: c(2) write_keys_def extend_defs)
  show ?thesis
  proof (cases "no_clash (gs @ hs)")
    case True
    then have "write_keys (co_diff ?right) \<inter> write_keys (co_diff c) = {}"
      by (simp add: no_clash_append k)
    from extend_checked_ok [OF wf_composed [OF wf(2)] this, of ?post]
    have "reduce_composed E ?left ?right = ?start\<lparr>co_count := co_count ?left + co_count ?right,
        co_diff := absorb (tx_hashes (co_diff ?right)) (co_diff ?right) (co_diff ?left)\<rparr>"
      by (simp add: c absorb_def extend_defs)
    moreover have "absorb (tx_hashes (co_diff ?right)) (co_diff ?right) (co_diff ?left) = co_diff (composed_of (gs @ hs))"
      using absorb_whole [of "diffs_of hs" "co_diff ?left"] wf_composed [OF wf(1)] wf(2)
      by (simp add: well_formed_def composed_of_def)
    ultimately show ?thesis
      using True by (simp add: composed_of_def)
  next
    case False
    then have "write_keys (co_diff ?right) \<inter> write_keys (co_diff c) \<noteq> {}"
      using assms(2,3) by (simp add: no_clash_append k)
    from extend_checked_clash(2) [OF wf_composed [OF wf(2)] this, of ?post] False show ?thesis
      by (simp add: c(1) falls_back_def)
  qed
qed

lemma compose_split_spec:
  assumes "well_formed (split_items t)"
  shows "if no_clash (split_items t) then compose_split E t = composed_of (split_items t) else falls_back (compose_split E t)"
  using assms
proof (induction t)
  case (Chunk gs)
  have new: "composed_new = composed_of []" by (simp add: composed_new_def composed_of_def diffs_of_def)
  show ?case
  proof (cases "no_clash gs")
    case True
    then show ?thesis
      using fold_groups_spec [of gs E] reduce_spec [of "[]" gs E] Chunk
      by (simp add: new) (simp add: no_clash_def diffs_of_def)
  next
    case False
    then show ?thesis
      using fold_groups_spec [of gs E] Chunk by (simp add: errors_reduce)
  qed
next
  case (Split a b)
  then have ab: "well_formed (split_items a)" "well_formed (split_items b)"
    using well_formed_append by (metis split_items.simps(2))+
  show ?case
  proof (cases "no_clash (split_items a) \<and> no_clash (split_items b)")
    case True
    then show ?thesis
      using Split.IH ab reduce_spec [of "split_items a" "split_items b" E] Split.prems by simp
  next
    case False
    then show ?thesis
      using Split.IH ab errors_reduce [of "compose_split E a" "compose_split E b" E] by (auto simp: no_clash_append)
  qed
qed

section \<open>Diffs of transactions\<close>

text \<open>A step that keeps the maps of a diff in order and its hash, and adds no deltas.\<close>

definition tidy :: "state_diff \<Rightarrow> state_diff \<Rightarrow> bool" where
  "tidy d d' \<longleftrightarrow> (wf_diff d \<longrightarrow> wf_diff d') \<and> tx_hash d' = tx_hash d"

lemmas tidy_defs = tidy_def wf_diff_def put_account_def om_inv_put

lemma tidy_trans: "tidy d d1 \<Longrightarrow> tidy d1 d2 \<Longrightarrow> tidy d d2"
  by (simp add: tidy_def)

lemma tidy_transfers:
  "compute_transfer_diff E l sender r pk amt sa d = Inr d' \<Longrightarrow> tidy d d'"
  "compute_claim_diff E l sender r pk amt ts d = Inr d' \<Longrightarrow> tidy d d'"
  "compute_rotate_key_diff E sender pk sa d = Inr d' \<Longrightarrow> tidy d d'"
  by (auto simp: compute_transfer_diff_def compute_claim_diff_def compute_rotate_key_diff_def Let_def tidy_defs credit_of_def
      debit_of_def open_account_def split: if_splits option.splits sum.splits)

lemma tidy_batch: "compute_batch_transfer_diff E l sender ts sa d = Inr d' \<Longrightarrow> tidy d d'"
proof -
  have "tidy d (fold (batch_entry l) ts d)" for ts d
  proof (induction ts arbitrary: d)
    case (Cons t ts)
    have "tidy d (batch_entry l t d)"
      by (simp add: batch_entry_def tidy_defs credit_of_def open_account_def)
    then show ?case using Cons tidy_trans by auto
  qed (simp add: tidy_def)
  then have "tidy d ((fold (batch_entry l) ts (debit_of sender c d))\<lparr>gas_fee := g\<rparr>)" for c g
    using tidy_trans [of d "debit_of sender c d"] by (simp add: tidy_defs debit_of_def)
  then show "compute_batch_transfer_diff E l sender ts sa d = Inr d' \<Longrightarrow> tidy d d'"
    by (auto simp: compute_batch_transfer_diff_def split: if_splits option.splits sum.splits)
qed

lemma tidy_escrow:
  "compute_wrap_trth_diff E sender amt sa d = Inr d' \<Longrightarrow> tidy d d'"
  "compute_unwrap_trth_diff E l sender amt d = Inr d' \<Longrightarrow> tidy d d'"
  "compute_deposit_compute_diff sender amt sa d = Inr d' \<Longrightarrow> tidy d d'"
  "compute_withdraw_compute_diff sender amt sa d = Inr d' \<Longrightarrow> tidy d d'"
  by (auto simp: compute_wrap_trth_diff_def compute_unwrap_trth_diff_def compute_deposit_compute_diff_def
      compute_withdraw_compute_diff_def Let_def tidy_defs credit_of_def debit_of_def split: if_splits option.splits sum.splits)

lemma tidy_urls:
  "compute_propose_url_diff l sender pat bond period ts sa d = Inr d' \<Longrightarrow> tidy d d'"
  "compute_vote_url_diff l pat approve sa d = Inr d' \<Longrightarrow> tidy d d'"
  "compute_report_malicious_url_diff l pat ev d = Inr d' \<Longrightarrow> tidy d d'"
  by (auto simp: compute_propose_url_diff_def compute_vote_url_diff_def compute_report_malicious_url_diff_def Let_def
      tidy_defs credit_of_def debit_of_def split: if_splits option.splits sum.splits)

lemma tidy_nfts:
  "compute_mint_nft_diff E l sender nid name uri coll bps rr ts d = Inr d' \<Longrightarrow> tidy d d'"
  "compute_burn_nft_diff E sender nid sa d = Inr d' \<Longrightarrow> tidy d d'"
  "compute_approve_nft_diff E l nid who sa d = Inr d' \<Longrightarrow> tidy d d'"
  by (auto simp: compute_mint_nft_diff_def compute_burn_nft_diff_def compute_approve_nft_diff_def Let_def tidy_defs
      split: if_splits option.splits sum.splits)

lemma tidy_royalty: "pay_royalty l n sender price sa d = Inr d' \<Longrightarrow> tidy d d'"
  by (auto simp: pay_royalty_def Let_def tidy_defs split: if_splits option.splits)

lemma tidy_take: "take_from_owner l nid own d = Inr d' \<Longrightarrow> tidy d d'"
  by (auto simp: take_from_owner_def tidy_defs split: option.splits)

lemma tidy_give: "give_to_recipient l nid r pk d = Inr d' \<Longrightarrow> tidy d d'"
  by (auto simp: give_to_recipient_def tidy_defs split: if_splits option.splits)

lemma tidy_transfer_nft:
  assumes "compute_transfer_nft_diff E l sender nid r pk price sa d = Inr d'"
  shows "tidy d d'"
proof -
  from assms obtain n d1 d2 d3 where s: "pay_royalty l n sender price sa d = Inr d1"
    "take_from_owner l nid (nft_owner n) d1 = Inr d2" "give_to_recipient l nid r pk d2 = Inr d3"
    and d': "d' = d3\<lparr>nft_updates := om_put nid (Some (n\<lparr>nft_owner := r, nft_approved := None\<rparr>)) (nft_updates d3),
      cu_fee := gas_of E ''gas.transfer_nft''\<rparr>"
    by (auto simp: compute_transfer_nft_diff_def split: option.splits if_splits sum.splits)
  have "tidy d d3"
    using tidy_royalty [OF s(1)] tidy_take [OF s(2)] tidy_give [OF s(3)] tidy_trans by blast
  then show ?thesis by (simp add: d' tidy_defs)
qed

lemma tidy_tokens:
  "compute_token_transfer_diff E l sender tok r amt d = Inr d' \<Longrightarrow> tidy d d'"
  "compute_token_mint_diff E l sender tok r amt d = Inr d' \<Longrightarrow> tidy d d'"
  "compute_token_burn_diff E l sender tok amt d = Inr d' \<Longrightarrow> tidy d d'"
  "compute_token_freeze_diff E l sender tok r d = Inr d' \<Longrightarrow> tidy d d'"
  "compute_token_thaw_diff E l sender tok r d = Inr d' \<Longrightarrow> tidy d d'"
  by (auto simp: compute_token_transfer_diff_def compute_token_mint_diff_def compute_token_burn_diff_def
      compute_token_freeze_diff_def compute_token_thaw_diff_def token_updates_def Let_def tidy_defs
      split: if_splits option.splits sum.splits)

lemma tidy_cells:
  "compute_transfer_ownership_diff E l sender cid new d = Inr d' \<Longrightarrow> tidy d d'"
  "compute_make_immutable_diff E l sender cid d = Inr d' \<Longrightarrow> tidy d d'"
  "compute_set_cell_visibility_diff E l sender cid vis d = Inr d' \<Longrightarrow> tidy d d'"
  "compute_oracle_commit_diff E l rid ch sa d = Inr d' \<Longrightarrow> tidy d d'"
  "compute_oracle_reveal_diff E l rid body status sa d = Inr d' \<Longrightarrow> tidy d d'"
  by (auto simp: compute_transfer_ownership_diff_def compute_make_immutable_diff_def compute_set_cell_visibility_diff_def
      compute_oracle_commit_diff_def compute_oracle_reveal_diff_def slash_lie_def accept_reveal_def Let_def tidy_defs
      split: if_splits option.splits sum.splits)

lemma tidy_effects:
  "tidy d (take_effects r d)" "tidy d (take_oracle r d)" "tidy d (take_changes ks b a d)" "tidy d (lower_balance s sa x d)"
  "pay_value s sa val d = Inr d' \<Longrightarrow> tidy d d'"
  by (auto simp: take_effects_def take_oracle_def take_changes_def lower_balance_def pay_value_def tidy_defs
      split: if_splits option.splits)

lemma tidy_fold_effects: "tidy d (fold (\<lambda>r d. take_oracle r (take_effects r d)) rs d)"
proof (induction rs arbitrary: d)
  case (Cons r rs)
  have "tidy d (take_oracle r (take_effects r d))" using tidy_effects tidy_trans by blast
  then show ?case using Cons tidy_trans by auto
qed (simp add: tidy_def)

lemma tidy_update:
  "tidy d0 d \<Longrightarrow> tidy d0 (d\<lparr>cell_updates := us\<rparr>)" "tidy d0 d \<Longrightarrow> tidy d0 (d\<lparr>cu_fee := c\<rparr>)" "tidy d0 d \<Longrightarrow> tidy d0 (d\<lparr>cell_credits := cs\<rparr>)"
  "tidy d0 d \<Longrightarrow> tidy d0 (take_changes ks b a d)" "tidy d0 d \<Longrightarrow> tidy d0 (take_oracle r d)"
  "tidy d0 d \<Longrightarrow> tidy d0 (take_effects r d)"
  "tidy d0 d \<Longrightarrow> tidy d0 (fold (\<lambda>r d. take_oracle r (take_effects r d)) rs d)"
  using tidy_effects tidy_fold_effects tidy_trans by (blast | simp add: tidy_def wf_diff_def)+

lemma tidy_refl: "tidy d d"
  by (simp add: tidy_def)

lemma tidy_paid: "pay_value s sa val d = Inr d' \<Longrightarrow> tidy d0 d \<Longrightarrow> tidy d0 d'"
  using tidy_effects(5) tidy_trans by blast

lemma tidy_calls:
  "compute_call_cell_diff E l sender cid cd val g ts ht sa d = Inr d' \<Longrightarrow> tidy d d'"
  "compute_call_chain_diff E l sender calls g sa mcp d = Inr d' \<Longrightarrow> tidy d d'"
  by (auto simp: compute_call_cell_diff_def call_system_cell_def compute_call_chain_diff_def Let_def
      split: if_splits option.splits sum.splits
      intro!: tidy_update tidy_refl elim!: tidy_paid)

lemma tidy_deploys:
  "compute_deploy_cell_diff E l sender cid raw ibal ts reads writes comm specs schemas sa d = Inr d' \<Longrightarrow> tidy d d'"
  "compute_deploy_token_diff E l sender cid name symbol dec tot bps fee_to fixed ts sa d = Inr d' \<Longrightarrow> tidy d d'"
  "compute_close_cell_diff E l sender cid d = Inr d' \<Longrightarrow> tidy d d'"
  "propose_on_cell E l sender cid refused valid pt timelock sa d = Inr d' \<Longrightarrow> tidy d d'"
  by (auto simp: compute_deploy_cell_diff_def compute_deploy_token_diff_def compute_close_cell_diff_def propose_on_cell_def
      Let_def lower_balance_def tidy_defs split: if_splits option.splits sum.splits)

lemma tidy_governance:
  "compute_vote_cell_proposal_diff E l sender cid approve sa d = Inr d' \<Longrightarrow> tidy d d'"
  "compute_execute_cell_proposal_diff E l cid sa d = Inr d' \<Longrightarrow> tidy d d'"
  "compute_upgrade_cell_diff E l sender cid raw reads writes comm specs schemas ts d = Inr d' \<Longrightarrow> tidy d d'"
  by (auto simp: compute_vote_cell_proposal_diff_def compute_execute_cell_proposal_diff_def compute_upgrade_cell_diff_def
      Let_def tidy_defs split: if_splits option.splits sum.splits)

lemma tidy_cell_intent: "run_cell_intent E l sender ts ci sa d = Inr d' \<Longrightarrow> tidy d d'"
  by (cases ci) (auto simp: run_cell_intent_def compute_propose_cell_upgrade_diff_def
      compute_propose_cell_ownership_transfer_diff_def compute_propose_cell_make_immutable_diff_def
      dest: tidy_calls tidy_deploys tidy_governance)

lemmas tidy_handlers = tidy_transfers tidy_batch tidy_escrow tidy_urls tidy_nfts tidy_transfer_nft tidy_tokens tidy_cells
  tidy_cell_intent

lemma tidy_run_intent:
  assumes "run_intent E l tx sa d = Inr d'" and "handled (tx_intent tx)"
  shows "tidy d d'"
  using assms
  by (cases "tx_intent tx") (auto simp: run_intent_def Let_def handled_def split: sum.splits
      intro: tidy_handlers tidy_update tidy_refl)

lemma tidy_fees:
  "tidy d (settle_fees trth cu bf d)" "tidy d (keep_sender_key tx sa d)"
  "charge_gas E tx sa d = Inr d' \<Longrightarrow> tidy d d'" "charge_compute E tx sa d = Inr d' \<Longrightarrow> tidy d d'"
  by (simp_all add: settle_fees_def keep_sender_key_def Let_def tidy_defs)
    (auto simp: charge_gas_def charge_compute_def Let_def tidy_defs debit_of_def split: if_splits option.splits sum.splits)

lemma tidy_finish:
  assumes "finish_diff E tx sa bf d = Inr d'"
  shows "tidy d d'"
proof -
  from assms obtain d2 d3 where
    "charge_gas E tx sa (settle_fees (required_trth_fee E (tx_intent tx) bf) (required_cu_fee E (tx_intent tx)) bf d) = Inr d2"
    "charge_compute E tx sa d2 = Inr d3" "d' = keep_sender_key tx sa d3"
    by (auto simp: finish_diff_def Let_def split: if_splits sum.splits)
  then show ?thesis
    using tidy_fees tidy_trans by metis
qed

definition tx_id :: "'o tx_env \<Rightarrow> 'o transaction \<Rightarrow> bytes" where
  "tx_id E tx = (case env_ser_tx E tx of Inr b \<Rightarrow> digest (env_blake3 E) b | Inl _ \<Rightarrow> [])"

lemma transaction_diff_ok:
  assumes "compute_transaction_diff v E l tx = Inr d" and "handled (tx_intent tx)"
  shows "wf_diff d" and "tx_hash d = tx_id E tx"
proof -
  from assms(1) obtain sa d1 bf b where s: "env_ser_tx E tx = Inr b"
      "run_intent E l tx sa (diff_default\<lparr>nonce_updates := [(tx_sender tx, tx_nonce tx)], tx_hash := digest (env_blake3 E) b\<rparr>) = Inr d1"
      "finish_diff E tx sa bf d1 = Inr d"
    by (auto simp: compute_transaction_diff_def Let_def split: sum.splits if_splits option.splits)
  have "tidy (diff_default\<lparr>nonce_updates := [(tx_sender tx, tx_nonce tx)], tx_hash := digest (env_blake3 E) b\<rparr>) d"
    using tidy_run_intent [OF s(2) assms(2)] tidy_finish [OF s(3)] tidy_trans by blast
  then show "wf_diff d" "tx_hash d = tx_id E tx"
    using s(1) by (simp_all add: tidy_def tx_id_def wf_diff_def diff_default_def om_inv_def)
qed

section \<open>Determinism\<close>

definition diff_list :: "string + state_diff \<Rightarrow> state_diff list" where
  "diff_list r = (case r of Inr d \<Rightarrow> [d] | Inl _ \<Rightarrow> [])"

lemma diffs_of_groups:
  "diffs_of (map (run_group E l txs) ps) = concat (map (\<lambda>i. diff_list (compute_transaction_diff False E l (txs ! i))) (concat ps))"
proof -
  have "fst (run_group E l txs g) = concat (map (\<lambda>i. diff_list (compute_transaction_diff False E l (txs ! i))) g)" for g
    by (induction g) (simp_all add: run_group_def Let_def diff_list_def)
  then show ?thesis
    by (induction ps) (simp_all add: diffs_of_def)
qed

lemma groups_well_formed:
  assumes "\<forall>tx \<in> set txs. handled (tx_intent tx)" and "distinct (map (tx_id E) txs)"
    and "distinct (concat ps)" and "set (concat ps) \<subseteq> {..<length txs}"
  shows "well_formed (map (run_group E l txs) ps)"
proof -
  let ?f = "\<lambda>i. diff_list (compute_transaction_diff False E l (txs ! i))"
  have d: "wf_diff d \<and> tx_hash d = tx_id E (txs ! i)" if "d \<in> set (?f i)" and "i < length txs" for d i
    using that assms(1) transaction_diff_ok [of False E l "txs ! i"] by (auto simp: diff_list_def split: sum.splits)
  have "distinct (map tx_hash (concat (map ?f is)))" if "distinct is" and "set is \<subseteq> {..<length txs}" for "is"
    using that
  proof (induction "is")
    case (Cons i js)
    have "tx_id E (txs ! i) \<notin> tx_hash ` set (concat (map ?f js))"
    proof
      assume "tx_id E (txs ! i) \<in> tx_hash ` set (concat (map ?f js))"
      then obtain j e where j: "j \<in> set js" "e \<in> set (?f j)" "tx_hash e = tx_id E (txs ! i)" by auto
      then have "tx_id E (txs ! j) = tx_id E (txs ! i)" "j < length txs" "i < length txs"
        using d [of e j] Cons.prems(2) by auto
      then have "j = i" using assms(2) by (simp add: distinct_conv_nth) metis
      then show False using j(1) Cons.prems(1) by simp
    qed
    moreover have "map tx_hash (?f i) = [] \<or> map tx_hash (?f i) = [tx_id E (txs ! i)]"
      using d [of _ i] Cons.prems(2) by (auto simp: diff_list_def split: sum.splits)
    ultimately show ?case
      using Cons by auto
  qed simp
  from this [OF assms(3,4)] show ?thesis
    using d assms(4) by (auto simp: well_formed_def diffs_of_groups)
qed

lemma compose_independent:
  assumes "well_formed (split_items t)" and "split_items t = split_items t'"
  shows "falls_back (compose_split E t) \<and> falls_back (compose_split E t') \<or> compose_split E t = compose_split E t'"
  using compose_split_spec [of t E] compose_split_spec [of t' E] assms by (auto split: if_splits)

text \<open>
  C6. Parallel execution is deterministic: how the work of folding and reducing the diffs is split
  among threads does not change the result of a batch whose transactions have different
  identifiers and are none of the agent layer.
\<close>

theorem parallel_deterministic:
  assumes "\<forall>tx \<in> set txs. handled (tx_intent tx)" and "distinct (map (tx_id E) txs)"
    and "\<And>gs. split_items (sp gs) = gs" and "\<And>gs. split_items (sp' gs) = gs"
  shows "execute_batch_parallel E sp l txs = execute_batch_parallel E sp' l txs"
proof -
  let ?gs = "map (run_group E l txs) (partition_by_compiler_domains (cst_cells (cells l)) txs)"
  have "distinct (concat (partition_by_compiler_domains (cst_cells (cells l)) txs))"
    "set (concat (partition_by_compiler_domains (cst_cells (cells l)) txs)) = {..<length txs}"
    using placed_all [OF refl, of "cst_cells (cells l)" txs, folded place_all_txs_def partition_by_compiler_domains_def]
    by (metis distinct_upt mset_eq_imp_distinct_iff, metis atLeast_upt mset_eq_setD)
  then have "well_formed ?gs"
    using groups_well_formed [OF assms(1,2)] by simp
  then have "falls_back (compose_split E (sp ?gs)) \<and> falls_back (compose_split E (sp' ?gs))
      \<or> compose_split E (sp ?gs) = compose_split E (sp' ?gs)"
    by (intro compose_independent) (simp_all add: assms(3,4))
  then have "execute_parallel E sp l txs = execute_parallel E sp' l txs"
    by (elim disjE) (simp add: execute_parallel_def Let_def, simp only: execute_parallel_def)
  then show ?thesis
    by (simp add: execute_batch_parallel_def)
qed

definition one_chunk :: "'a list \<Rightarrow> 'a work_split" where
  "one_chunk gs = Chunk gs"

primrec chunk_each :: "'a list \<Rightarrow> 'a work_split" where
  "chunk_each [] = Chunk []"
| "chunk_each (g # gs) = Split (Chunk [g]) (chunk_each gs)"

lemma split_items_simps [simp]: "split_items (one_chunk gs) = gs" "split_items (chunk_each gs) = gs"
  by (simp add: one_chunk_def) (induction gs, simp_all)

section \<open>A batch of eight transfers\<close>

text \<open>
  Eight senders, two of which have an account; the transaction encoding is the sender's
  name, so that the identifiers differ. The first two transfers cross and land in two groups.
\<close>

definition batch_chain :: "unit tx_env" where
  "batch_chain = demo_chain\<lparr>env_ser_tx := (\<lambda>tx. Inr (tx_sender tx))\<rparr>"

definition batch_of_eight :: "unit transaction list" where
  "batch_of_eight = map (\<lambda>(a, b). plain_transfer a b) [(1, 2), (2, 1), (3, 3), (4, 4), (5, 5), (6, 6), (7, 7), (8, 8)]"

definition demo_diff :: "u8 \<Rightarrow> u8 \<Rightarrow> state_diff" where
  "demo_diff a b = diff_default\<lparr>account_updates := [([a], demo_account a)], gas_fee := 11, tx_hash := digest demo_hash [a],
     native_transfers := [([b], 1)], native_debits := [([a], 11), ([a], 1)], nonce_updates := [([a], 1)]\<rparr>"

lemma demo_diffs:
  "compute_transaction_diff False batch_chain demo_ledger (plain_transfer 1 2) = Inr (demo_diff 1 2)"
  "compute_transaction_diff False batch_chain demo_ledger (plain_transfer 2 1) = Inr (demo_diff 2 1)"
  by (simp_all add: plain_transfer_def batch_chain_def demo_diff_def demo_eval compute_transfer_diff_def check_recipient_def open_account_def key_or_empty_def)

lemma demo_missing:
  assumes "om_get (accounts demo_ledger) [a] = None"
  shows "compute_transaction_diff False batch_chain demo_ledger (plain_transfer a b) = Inl ''Sender account does not exist''"
  using assms by (simp add: compute_transaction_diff_def plain_transfer_def batch_chain_def demo_chain_def height_now_def)
    (simp add: demo_ledger_def state_genesis_def height_now_def)

lemma batch_partition: "partition_by_compiler_domains (cst_cells (cells demo_ledger)) batch_of_eight = [[0, 2, 3, 4, 5, 6, 7], [1]]"
  by (simp add: batch_of_eight_def partition_by_compiler_domains_def place_all_txs_def plain_transfer_def from_transaction_def writing_def
      conflicts_with_def join_domains_def)

lemma batch_groups:
  "map (run_group batch_chain demo_ledger batch_of_eight) [[0, 2, 3, 4, 5, 6, 7], [1]]
    = [([demo_diff 1 2], map (\<lambda>i. (i, ''Sender account does not exist'')) [2, 3, 4, 5, 6, 7]), ([demo_diff 2 1], [])]"
proof -
  have m: "om_get (accounts demo_ledger) [a] = None" if "a \<notin> {1, 2}" for a
    using that by (simp add: demo_ledger_def om_get_def)
  show ?thesis
    by (simp add: run_group_def batch_of_eight_def demo_diffs demo_missing m)
qed

definition demo_composed :: composed where
  "demo_composed = composed_of [([demo_diff 1 2], map (\<lambda>i. (i, ''Sender account does not exist'')) [2, 3, 4, 5, 6, 7]), ([demo_diff 2 1], [])]"

lemma demo_merged:
  "\<exists>d l'. compact_diff (co_diff demo_composed) = Inr d \<and> merge_diff_inplace batch_chain d demo_ledger = (Inr (), l')"
proof -
  obtain d where d: "compact_diff (co_diff demo_composed) = Inr d"
      "d = diff_default\<lparr>account_updates := [([1], demo_account 1), ([2], demo_account 2)], gas_fee := 22,
         tx_hashes := [digest demo_hash [1], digest demo_hash [2]], native_transfers := [([1], 1), ([2], 1)],
         native_debits := [([1], 12), ([2], 12)], nonce_updates := [([1], 1), ([2], 1)]\<rparr>"
    by (simp add: demo_composed_def composed_of_def diffs_of_def absorb_def extend_defs om_union_def demo_diff_def
        diff_default_def compact_diff_def bind_sum_def compact_account_u128_pairs_def om_get_def rust_int compact_token_credit_triples_def)
  have "fst (merge_diff_inplace batch_chain d demo_ledger) = Inr ()"
    by (simp add: d(2) merge_diff_inplace_def merge_steps_def steps_in_order_def demo_eval demo_apply replace_account_def merge_credit_native_def
        merge_fees_def merge_hashes_def named_account_def)
  then show ?thesis
    using d(1) by (metis prod.collapse)
qed

lemma ids_distinct: "distinct (map (tx_id batch_chain) batch_of_eight)"
proof -
  have "tx_id batch_chain (plain_transfer a b) = digest demo_hash [a]" for a b
    by (simp add: tx_id_def batch_chain_def demo_chain_def plain_transfer_def)
  moreover have "u256 (digest demo_hash [a]) = L4 (from_le_bytes [a]) 0 0 0" for a
    by (simp only: digest_def u256_to32) (simp add: demo_hash_def)
  ultimately have "distinct (map u256 (map (tx_id batch_chain) batch_of_eight))"
    by (simp add: batch_of_eight_def from_le_bytes_def)
  then show ?thesis
    by (rule distinct_map [THEN iffD1, THEN conjunct1])
qed

lemma batch_handled: "\<forall>tx \<in> set batch_of_eight. handled (tx_intent tx)"
   "\<forall>tx \<in> set batch_of_eight. \<exists>r pk amt. tx_intent tx = Transfer r pk amt"
  by (simp_all add: batch_of_eight_def plain_transfer_def handled_def)

lemma batch_wide: "8 \<le> length batch_of_eight" "distinct (map tx_sender batch_of_eight)"
  by (simp_all add: batch_of_eight_def plain_transfer_def)

lemma batch_composed:
  assumes "\<And>gs. split_items (sp gs) = gs"
  shows "compose_split batch_chain (sp (map (run_group batch_chain demo_ledger batch_of_eight)
      (partition_by_compiler_domains (cst_cells (cells demo_ledger)) batch_of_eight))) = demo_composed"
proof -
  let ?gs = "map (run_group batch_chain demo_ledger batch_of_eight) [[0, 2, 3, 4, 5, 6, 7], [1]]"
  have "well_formed ?gs"
    by (rule groups_well_formed [OF batch_handled(1) ids_distinct]) (simp_all add: batch_of_eight_def)
  moreover have "no_clash ?gs"
    by (simp only: batch_groups) (simp add: no_clash_def diffs_of_def write_keys_def demo_diff_def diff_default_def)
  ultimately have "compose_split batch_chain (sp ?gs) = demo_composed"
    using compose_split_spec [of "sp ?gs" batch_chain] by (simp only: assms if_True demo_composed_def batch_groups)
  then show "compose_split batch_chain (sp (map (run_group batch_chain demo_ledger batch_of_eight)
      (partition_by_compiler_domains (cst_cells (cells demo_ledger)) batch_of_eight))) = demo_composed"
    by (simp only: batch_partition)
qed

lemma demo_goes_on: "\<not> falls_back demo_composed"
  by (simp add: falls_back_def demo_composed_def composed_of_def)

lemma batch_applied:
  assumes "\<And>gs. split_items (sp gs) = gs"
  shows "\<exists>r. execute_batch_parallel batch_chain sp demo_ledger batch_of_eight = Inr r"
proof -
  have "\<exists>r. execute_parallel batch_chain sp demo_ledger batch_of_eight = Inr r"
    using batch_composed [OF assms] demo_goes_on demo_merged
    by (auto simp only: execute_parallel_def Let_def bind_sum_def if_False sum.case prod.case)
  moreover have "batch_of_eight \<noteq> []"
    by (simp add: batch_of_eight_def)
  ultimately show ?thesis
    using batch_wide by (simp add: execute_batch_parallel_def)
qed

theorem parallel_deterministic_witness:
  "execute_batch_parallel batch_chain one_chunk demo_ledger batch_of_eight = execute_batch_parallel batch_chain chunk_each demo_ledger batch_of_eight"
  by (rule parallel_deterministic [OF batch_handled(1) ids_distinct]) simp_all

end
