(* ===== verification/Parallel_Paths.thy ===== *)
theory Parallel_Paths
  imports Parallel_Props
begin

text \<open>
  What merging a composed diff does to the state, compared with applying the diffs one by
  one: parameters, the mint count and the fees of the epoch are left out, transfers move
  exactly their amounts, and a deployment costs the sender its deposit only on this path.
\<close>

section \<open>Parameters, the mint count and the fees of the epoch\<close>

definition settings :: "ledger \<Rightarrow> (bytes \<rightharpoonup> bytes) \<times> u128 \<times> u128" where
  "settings l = (params l, total_minted l, accumulated_epoch_fees l)"

interpretation same_settings: ledger_relation "\<lambda>l l'. settings l' = settings l"
  by unfold_locales simp_all

named_theorems settings_rules

lemma settings_basic [simp]:
  "settings (set_account i a l) = settings l" "settings (on_cells f l) = settings l"
  "settings (l\<lparr>staking := st\<rparr>) = settings l" "settings (l\<lparr>cells := cs\<rparr>) = settings l"
  by (simp_all add: settings_def set_account_def on_cells_def)

lemma settings_accounts [settings_rules]:
  "settings (replace_account e l) = settings l" "settings (update_nonce n l) = settings l"
  "settings (snd (merge_credit_native x l)) = settings l" "settings (snd (debit_native x l)) = settings l"
  "settings (snd (merge_credit_escrow x l)) = settings l" "settings (snd (debit_escrow x l)) = settings l"
  by (simp_all add: replace_account_def update_nonce_def merge_credit_native_def debit_native_def merge_credit_escrow_def
      debit_escrow_def Let_def split: prod.split option.split)

lemma settings_staking [settings_rules]:
  "settings (snd (apply_staking_update E u l)) = settings l" "settings (snd (pay_staking_reward E x l)) = settings l"
  by (cases u; simp add: of_staking_def Let_def split: prod.split sum.split option.split)
    (simp add: pay_staking_reward_def split: prod.split option.split)

lemma settings_cells [settings_rules]:
  "settings (snd (apply_cell_update E c l)) = settings l" "settings (snd (credit_token x l)) = settings l"
  "settings (update_token_balance y l) = settings l" "settings (snd (credit_cell z l)) = settings l"
  "settings (snd (debit_cell z l)) = settings l" "settings (apply_storage_deltas w l) = settings l"
  "settings (update_frozen v l) = settings l"
  by (cases c; simp add: with_cell_def of_cell_state_def split: option.split sum.split)
    (simp_all add: credit_token_def update_token_balance_def set_token_balance_def credit_cell_def debit_cell_def with_cell_def
      apply_storage_deltas_def update_frozen_def split: prod.split option.split sum.split)

lemma settings_fees [settings_rules]:
  "settings (merge_fees d l) = settings l" "settings (merge_hashes d l) = settings l" "settings (collect_name_fee E d l) = settings l"
  "settings (snd (spend_gas_fees d l)) = settings l" "settings (snd (spend_name_fees d l)) = settings l"
  "settings (snd (spend_compute_fees d l)) = settings l" "settings (snd (spend_treasury_fees d l)) = settings l"
  by (simp_all add: merge_fees_def merge_hashes_def collect_name_fee_def spend_gas_fees_def spend_name_fees_def
      spend_compute_fees_def spend_treasury_fees_def settings_def on_cells_def split: option.split)

lemma settings_names [settings_rules]:
  "settings (update_nft n l) = settings l" "settings (register_name E x l) = settings l" "settings (renew_name E y l) = settings l"
  "settings (transfer_name z l) = settings l" "settings (add_authority_proposal p l) = settings l"
  "settings (vote_pending_name E v l) = settings l" "settings (record_claim c l) = settings l"
  by (simp_all add: update_nft_def register_name_def renew_name_def transfer_name_def add_authority_proposal_def
      vote_pending_name_def record_claim_def settings_def Let_def split: prod.split option.split)

lemma settings_vote_authority: "settings (snd (vote_authority E tot v gl)) = settings (snd gl)"
proof -
  have "settings (grant_authority tok p l) = settings l" for tok p l
    by (simp add: grant_authority_def split: option.split)
  moreover have "settings (l\<lparr>token_authority_proposals := t\<rparr>) = settings l" for l t
    by (simp add: settings_def)
  ultimately show ?thesis
    by (simp add: vote_authority_def Let_def split: prod.split option.split)
qed

lemma settings_vote_authorities [settings_rules]: "settings (vote_authorities E vs l) = settings l"
proof -
  have "settings (snd (fold (vote_authority E tot) vs gl)) = settings (snd gl)" for tot gl
    by (induction vs arbitrary: gl) (simp_all add: settings_vote_authority)
  from this [of "active_total (staking l)" "([], l)"] show ?thesis
    by (auto simp: vote_authorities_def settings_def split: prod.split)
qed

lemma settings_slash: "settings (snd (slash_url_proposer_bond E pat l)) = settings l"
proof -
  have "settings (pay_slash_shares E share pks dust l) = settings l" for share pks dust l
    by (induction pks arbitrary: dust l) (simp_all add: Let_def)
  then have "settings (distribute_url_slash_equally E tot x l) = settings l" for tot x l
    by (simp add: distribute_url_slash_equally_def Let_def)
  moreover have "settings (l\<lparr>url_proposals := u\<rparr>) = settings l" for l u
    by (simp add: settings_def)
  ultimately show ?thesis
    by (simp add: slash_url_proposer_bond_def Let_def split: option.split)
qed

lemma settings_oracle [settings_rules]: "settings (snd (apply_oracle_update E u l)) = settings l"
proof -
  have "settings (snd (finalize_oracle_request_if_ready E rid l)) = settings l" for rid l
    by (simp add: finalize_oracle_request_if_ready_def Let_def settings_def split: option.split prod.split)
  then have "settings (add_reveal E rid pk body st l) = settings l" for rid pk body st
    by (simp add: add_reveal_def Let_def settings_def split: option.split)
  moreover have "settings (snd (vote_url E pat pk f a l)) = settings l" for pat pk f a
  proof -
    have "settings (l\<lparr>url_proposals := u\<rparr>) = settings l" for l u by (simp add: settings_def)
    then show ?thesis by (simp add: vote_url_def Let_def settings_slash split: option.split)
  qed
  moreover have "settings (add_commit E rid pk ch l) = settings l" "settings (vote_schema sid pk f a l) = settings l" for rid pk ch sid f a
    by (simp_all add: add_commit_def vote_schema_def settings_def Let_def split: option.split)
  ultimately show ?thesis
    by (cases u) (simp_all add: settings_slash, simp_all add: settings_def)
qed

lemma settings_merge: "settings (snd (merge_diff_inplace E d l)) = settings l"
  unfolding merge_diff_inplace_def
proof (rule same_settings.rel_steps)
  fix f :: "ledger \<Rightarrow> step_result" and l assume "f \<in> set (merge_steps E d)"
  then show "settings (snd (f l)) = settings l"
    unfolding merge_steps_def set_simps
    by (elim insertE emptyE; hypsubst;
        (intro same_settings.rel_always same_settings.rel_each same_settings.rel_fold)?)
       (simp_all add: settings_rules)
qed

lemma execute_parallel_cases:
  assumes "execute_parallel E sp l txs = Inr r"
  obtains "r = execute_sequential E l txs"
  | c d where "c = compose_split E (sp (map (run_group E l txs) (partition_by_compiler_domains (cst_cells (cells l)) txs)))"
      and "\<not> falls_back c" and "compact_diff (co_diff c) = Inr d" and "merge_diff_inplace E d l = (Inr (), br_state r)"
  using assms by (auto simp: execute_parallel_def bind_sum_def Let_def split: if_splits sum.splits prod.splits)

text \<open>
  C9. A batch that is executed in parallel changes no governance parameter, counts no minted
  currency and adds nothing to the fees of the epoch, whatever its transactions do: the diffs
  are composed and merged without their parameter updates and minted amounts, and merging
  does not count fees for the epoch. Sequential execution does all three.
\<close>

theorem parallel_drops_updates:
  assumes "execute_batch_parallel E sp l txs = Inr r" and "8 \<le> length txs" and "distinct (map tx_sender txs)"
  shows "r = execute_sequential E l txs
    \<or> params (br_state r) = params l \<and> total_minted (br_state r) = total_minted l
      \<and> accumulated_epoch_fees (br_state r) = accumulated_epoch_fees l"
proof -
  have "execute_parallel E sp l txs = Inr r"
    using assms by (auto simp: execute_batch_parallel_def split: if_splits)
  then show ?thesis
  proof (cases rule: execute_parallel_cases)
    case (2 c d)
    then show ?thesis
      using settings_merge [of E d l] by (simp add: settings_def)
  qed simp
qed

theorem parallel_drops_updates_witness:
  "\<exists>r. execute_batch_parallel batch_chain one_chunk demo_ledger batch_of_eight = Inr r
    \<and> (r = execute_sequential batch_chain demo_ledger batch_of_eight
      \<or> params (br_state r) = params demo_ledger \<and> total_minted (br_state r) = total_minted demo_ledger
        \<and> accumulated_epoch_fees (br_state r) = accumulated_epoch_fees demo_ledger)"
  using batch_applied [of one_chunk] parallel_drops_updates [OF _ batch_wide] by (metis split_items_simps(1))

section \<open>Balances\<close>

lemma balance_named: "unat (acct_balance (account_or (named_account i) i l)) = balance_of i l"
  by (simp add: account_or_def balance_of_def named_account_def blank_account_def split: option.split)

interpretation merge_credit_balance: ledger_flow accounts_ok "balance_of i" merge_credit_native "amount_at i" "\<lambda>_. 0" for i
proof
  fix l l' x assume ok: "accounts_ok l" and s: "merge_credit_native x l = (Inr (), l')"
  obtain j amt where x: "x = (j, amt)" by (cases x)
  from s obtain b where b: "checked_add (acct_balance (account_or (named_account j) j l)) amt = Some b"
      "l' = set_account j ((account_or (named_account j) j l)\<lparr>acct_balance := b\<rparr>) l"
    by (auto simp: x merge_credit_native_def Let_def split: option.splits)
  show "accounts_ok l' \<and> balance_of i l' + 0 = balance_of i l + amount_at i x"
    using ok b(2) checked_add_Some [OF b(1)] by (simp add: x amount_at_def balance_of_set balance_named)
qed

interpretation merge_escrow_balance: ledger_flow accounts_ok "balance_of i" merge_credit_escrow "\<lambda>_. 0" "\<lambda>_. 0" for i
proof
  fix l l' x assume ok: "accounts_ok l" and s: "merge_credit_escrow x l = (Inr (), l')"
  obtain j amt where x: "x = (j, amt)" by (cases x)
  from s obtain b where "l' = set_account j ((account_or (named_account j) j l)\<lparr>compute_escrow := b\<rparr>) l"
    by (auto simp: x merge_credit_escrow_def Let_def split: option.splits)
  then show "accounts_ok l' \<and> balance_of i l' + 0 = balance_of i l + 0"
    using ok by (simp add: balance_of_set balance_named)
qed

text \<open>Record updates that keep the balance of existing accounts and open accounts without one.\<close>

definition keeps_balances :: "ledger \<Rightarrow> (bytes, account_record) omap \<Rightarrow> bool" where
  "keeps_balances l us \<longleftrightarrow> (\<forall>e \<in> set us. unat (acct_balance (snd e)) = balance_of (fst e) l)"

lemma replace_keeps:
  "accounts_ok l \<Longrightarrow> keeps_balances l us
    \<Longrightarrow> accounts_ok (fold replace_account us l) \<and> balance_of i (fold replace_account us l) = balance_of i l"
proof (induction us arbitrary: l)
  case (Cons u us)
  let ?l = "replace_account u l"
  have b: "accounts_ok ?l" "\<And>j. balance_of j ?l = balance_of j l"
    using Cons.prems by (auto simp: replace_account_def keeps_balances_def balance_of_set split: prod.splits)
  then have "keeps_balances ?l us"
    using Cons.prems(2) by (simp add: keeps_balances_def)
  then show ?case
    using Cons.IH [OF b(1)] b(2) by simp
qed simp

lemma merge_same_accounts [same_accounts_rules]:
  "accounts (merge_fees d l) = accounts l" "accounts (merge_hashes d l) = accounts l" "accounts (vote_pending_name E v l) = accounts l"
  by (simp_all add: merge_fees_def merge_hashes_def vote_pending_name_def Let_def split: prod.split option.split)

definition merge_front :: "('z) ledger_env_scheme \<Rightarrow> state_diff \<Rightarrow> (ledger \<Rightarrow> step_result) list" where
  "merge_front E d = [each (apply_staking_update E) (staking_updates d), always (fold update_nft (nft_updates d)),
     each (apply_cell_update E) (cell_updates d)]"

definition merge_money :: "state_diff \<Rightarrow> (ledger \<Rightarrow> step_result) list" where
  "merge_money d = [each merge_credit_native (native_transfers d), each debit_native (native_debits d),
     each merge_credit_escrow (compute_escrow_credits d), each debit_escrow (compute_escrow_debits d)]"

definition merge_rest :: "('z) ledger_env_scheme \<Rightarrow> state_diff \<Rightarrow> (ledger \<Rightarrow> step_result) list" where
  "merge_rest E d =
    [each credit_token (token_credits d),
     always (fold update_token_balance (token_balance_updates d)),
     each (pay_staking_reward E) (staking_rewards d),
     each credit_cell (cell_credits d),
     each debit_cell (cell_debits d),
     always (fold apply_storage_deltas (storage_deltas d)),
     always (merge_fees d),
     always (collect_name_fee E d),
     spend_gas_fees d, spend_name_fees d, spend_compute_fees d, spend_treasury_fees d,
     always (merge_hashes d),
     always (fold (register_name E) (pending_name_proposals d)),
     always (fold add_authority_proposal (pending_token_authority_proposals d)),
     always (fold (vote_pending_name E) (name_votes d)),
     always (vote_authorities E (token_authority_votes d)),
     always (fold (renew_name E) (name_renewals d)),
     always (fold transfer_name (name_transfers d)),
     always (fold record_claim (diff_airdrop_claims d)),
     always (fold update_frozen (frozen_account_updates d)),
     each (apply_oracle_update E) (oracle_updates d)]"

lemma merge_steps_split:
  "merge_steps E d = [always (fold replace_account (account_updates d)), always (fold update_nonce (nonce_updates d))]
     @ merge_front E d @ merge_money d @ merge_rest E d"
  by (simp add: merge_steps_def merge_front_def merge_money_def merge_rest_def)

lemma merge_same:
  assumes "plain d" and "fs = merge_front E d \<or> fs = merge_rest E d"
  shows "accounts (snd (steps_in_order fs l)) = accounts l"
proof (rule same_accounts.rel_steps)
  fix f :: "ledger \<Rightarrow> step_result" and l assume "f \<in> set fs"
  then have "f \<in> set (merge_front E d @ merge_rest E d)"
    using assms(2) by auto
  then show "accounts (snd (f l)) = accounts l"
    using assms(1) unfolding plain_def list_all_iff
    unfolding merge_front_def merge_rest_def append.simps set_simps
    by (elim insertE emptyE; hypsubst; (intro same_accounts.rel_always same_accounts.rel_each same_accounts.rel_fold)?)
       (simp_all add: same_accounts_rules same_staking_update same_oracle_update)
qed

lemma same_accounts_balance: "accounts l' = accounts l \<Longrightarrow> balance_of i l' = balance_of i l \<and> (accounts_ok l' \<longleftrightarrow> accounts_ok l)"
  by (simp add: balance_of_def accounts_ok_def)

text \<open>The balances after a merge, from those after its record updates.\<close>

lemma merge_flow:
  assumes "accounts_ok (fold replace_account (account_updates d) l)" and "plain d" and "merge_diff_inplace E d l = (Inr (), l')"
  shows "balance_of i l' + total_at i (native_debits d)
    = balance_of i (fold replace_account (account_updates d) l) + total_at i (native_transfers d)"
proof -
  let ?l0 = "fold replace_account (account_updates d) l"
  let ?first = "fold update_nonce (nonce_updates d) ?l0"
  from assms(3) obtain l2 l3 where s: "steps_in_order (merge_front E d) ?first = (Inr (), l2)"
      "steps_in_order (merge_money d) l2 = (Inr (), l3)" "steps_in_order (merge_rest E d) l3 = (Inr (), l')"
    unfolding merge_diff_inplace_def
    by (subst (asm) merge_steps_split) (auto simp: steps_in_order_append then_step_ok always_def)
  have "same_value ?l0 ?first"
    by (intro kept.rel_fold update_nonce_value)
  then have v1: "accounts_ok ?first" "balance_of i ?first = balance_of i ?l0"
    using assms(1) by (simp_all add: same_value_def)
  have v2: "accounts_ok l2" "balance_of i l2 = balance_of i ?l0"
    using merge_same [OF assms(2), of "merge_front E d" E ?first] s(1) v1 same_accounts_balance [of l2 ?first i] by simp_all
  from s(2) obtain m1 m2 m3 where m: "each merge_credit_native (native_transfers d) l2 = (Inr (), m1)"
      "each debit_native (native_debits d) m1 = (Inr (), m2)" "each merge_credit_escrow (compute_escrow_credits d) m2 = (Inr (), m3)"
      "each debit_escrow (compute_escrow_debits d) m3 = (Inr (), l3)"
    by (auto simp: merge_money_def then_step_ok)
  note f1 = merge_credit_balance.each_flow [OF v2(1) m(1), of i]
  note f2 = debit_balance.each_flow [OF conjunct1 [OF f1] m(2), of i]
  note f3 = merge_escrow_balance.each_flow [OF conjunct1 [OF f2] m(3), of i]
  note f4 = debit_escrow_balance.each_flow [OF conjunct1 [OF f3] m(4), of i]
  have "balance_of i l' = balance_of i l3"
    using merge_same [OF assms(2), of "merge_rest E d" E l3] s(3) same_accounts_balance [of l' l3 i] by simp
  then show ?thesis
    using f1 f2 f3 f4 v2(2) by (simp add: total_at_def)
qed

section \<open>Compaction keeps the sums\<close>

lemma total_at_omap: "om_inv m \<Longrightarrow> total_at i m = (case om_get m i of Some b \<Rightarrow> unat b | None \<Rightarrow> 0)"
proof (induction m)
  case Nil
  then show ?case by (simp add: om_get_def)
next
  case (Cons e m)
  have "om_get m (fst e) = None"
    using Cons.prems by (auto simp: om_inv_Cons om_get_None)
  then show ?case
    using Cons by (auto simp: om_get_Cons om_inv_Cons amount_at_def)
qed

lemma sum_by_account_total:
  "sum_by_account label es m = Inr m' \<Longrightarrow> om_inv m \<Longrightarrow> total_at i m' = total_at i m + total_at i es"
proof (induction es arbitrary: m)
  case (Cons e es)
  then obtain a where a: "checked_add (case om_get m (fst e) of Some a \<Rightarrow> a | None \<Rightarrow> 0) (snd e) = Some a"
      "sum_by_account label es (om_put (fst e) a m) = Inr m'"
    by (auto split: option.splits)
  have "total_at i m' = total_at i (om_put (fst e) a m) + total_at i es"
    using Cons.IH [OF a(2)] Cons.prems(2) by (simp add: om_inv_put)
  then show ?case
    using checked_add_Some [OF a(1)] Cons.prems(2)
    by (auto simp: amount_at_def total_at_omap om_inv_put om_get_put split: option.splits)
qed simp

lemma compact_total: "compact_account_u128_pairs label es = Inr es' \<Longrightarrow> total_at i es' = total_at i es"
  using sum_by_account_total [of label es "[]" es' i] by (auto simp: compact_account_u128_pairs_def om_inv_def split: if_splits)

lemma compact_diff_ok:
  assumes "compact_diff d = Inr d'"
  shows "account_updates d' = account_updates d" and "plain d' = plain d"
    and "total_at i (native_transfers d') = total_at i (native_transfers d)"
    and "total_at i (native_debits d') = total_at i (native_debits d)"
  using assms compact_total [of _ "native_transfers d" _ i] compact_total [of _ "native_debits d" _ i]
  by (auto simp: compact_diff_def bind_sum_def Let_def plain_def split: sum.splits)

section \<open>Batches of transfers\<close>

lemma total_absorb_all:
  "total_at i (native_transfers (absorb_all ds k)) = total_at i (native_transfers k) + (\<Sum>d\<leftarrow>ds. total_at i (native_transfers d))"
  "total_at i (native_debits (absorb_all ds k)) = total_at i (native_debits k) + (\<Sum>d\<leftarrow>ds. total_at i (native_debits d))"
  by (induction ds arbitrary: k) (simp_all add: absorb_def extend_defs)

lemma plain_absorb_all: "list_all plain ds \<Longrightarrow> plain k \<Longrightarrow> plain (absorb_all ds k)"
  by (induction ds arbitrary: k) (simp_all add: absorb_def extend_defs plain_def)

lemma set_om_union: "set (om_union es m) \<subseteq> set es \<union> set m"
proof (induction es arbitrary: m)
  case (Cons e es)
  then show ?case
    using Cons [of "om_put (fst e) (snd e) m"] set_om_put [of "fst e" "snd e" m] by (auto simp: om_union_def)
qed simp

lemma keeps_absorb_all:
  "list_all (\<lambda>d. keeps_balances l (account_updates d)) ds \<Longrightarrow> keeps_balances l (account_updates k)
    \<Longrightarrow> keeps_balances l (account_updates (absorb_all ds k))"
proof (induction ds arbitrary: k)
  case (Cons d ds)
  have "keeps_balances l (account_updates (absorb [tx_hash d] d k))"
    using Cons.prems set_om_union [of "account_updates d" "account_updates k"]
    by (auto simp: keeps_balances_def absorb_def extend_defs)
  then show ?case
    using Cons by simp
qed simp

lemma fees_keep_records:
  "account_updates (settle_fees trth cu bf d) = account_updates d"
  "charge_gas E tx sa d = Inr d' \<Longrightarrow> account_updates d' = account_updates d"
  "charge_compute E tx sa d = Inr d' \<Longrightarrow> account_updates d' = account_updates d"
  by (simp add: settle_fees_def Let_def)
    (auto simp: charge_gas_def charge_compute_def Let_def debit_of_def split: if_splits option.splits sum.splits)

lemma finish_records:
  assumes "finish_diff E tx sa bf d = Inr d'"
  obtains d3 where "account_updates d3 = account_updates d" and "d' = keep_sender_key tx sa d3"
proof -
  from assms obtain d2 d3 where s:
    "charge_gas E tx sa (settle_fees (required_trth_fee E (tx_intent tx) bf) (required_cu_fee E (tx_intent tx)) bf d) = Inr d2"
    "charge_compute E tx sa d2 = Inr d3" "d' = keep_sender_key tx sa d3"
    by (auto simp: finish_diff_def Let_def split: if_splits sum.splits)
  show thesis
    using fees_keep_records(2) [OF s(1)] fees_keep_records(3) [OF s(2)] by (intro that [OF _ s(3)]) (simp add: fees_keep_records(1))
qed

lemma transfer_records:
  assumes "compute_transaction_diff v E l tx = Inr d" and "tx_intent tx = Transfer r pk amt"
  shows "keeps_balances l (account_updates d)"
proof -
  let ?d0 = "\<lambda>h. diff_default\<lparr>nonce_updates := [(tx_sender tx, tx_nonce tx)], tx_hash := h\<rparr>"
  obtain sa bf h d1 where s: "om_get (accounts l) (tx_sender tx) = Some sa" "run_intent E l tx sa (?d0 h) = Inr d1"
      "finish_diff E tx sa bf d1 = Inr d"
    using assms(1) by (rule compute_transaction_ok)
  have "compute_transfer_diff E l (tx_sender tx) r (key_or_empty pk) amt sa (?d0 h) = Inr d1"
    using s(2) by (simp add: run_intent_def assms(2))
  then have d1: "account_updates d1 = (if om_get (accounts l) r = None then [(r, blank_account\<lparr>pubkey_bytes := key_or_empty pk\<rparr>)] else [])"
    by (elim transfer_shape) (simp add: credit_of_def debit_of_def open_account_def put_account_def diff_default_def)
  from s(3) obtain d3 where d3: "account_updates d3 = account_updates d1" "d = keep_sender_key tx sa d3"
    by (rule finish_records)
  have "om_get (account_updates d1) (tx_sender tx) = None"
    using s(1) by (auto simp: d1 om_get_def)
  then have "account_updates d = om_put (tx_sender tx) sa (account_updates d1)"
    by (auto simp: d3 keep_sender_key_def put_account_def)
  then show ?thesis
    using s(1) set_om_put [of "tx_sender tx" sa "account_updates d1"]
    by (auto simp: keeps_balances_def d1 balance_of_def blank_account_def split: if_splits)
qed

definition spent :: "'o tx_env \<Rightarrow> ledger \<Rightarrow> bytes \<Rightarrow> 'o transaction \<Rightarrow> nat" where
  "spent E l i tx = (case (compute_transaction_diff False E l tx, tx_intent tx) of
     (Inr d, Transfer r pk amt) \<Rightarrow> (if i = tx_sender tx then unat amt + unat (gas_fee d) else 0) | _ \<Rightarrow> 0)"

definition received :: "'o tx_env \<Rightarrow> ledger \<Rightarrow> bytes \<Rightarrow> 'o transaction \<Rightarrow> nat" where
  "received E l i tx = (case (compute_transaction_diff False E l tx, tx_intent tx) of
     (Inr d, Transfer r pk amt) \<Rightarrow> (if i = r then unat amt else 0) | _ \<Rightarrow> 0)"

lemma no_moves: "plain diff_default" "keeps_balances l (account_updates diff_default)"
  by (simp_all add: plain_def keeps_balances_def diff_default_def)

lemma transfer_sums:
  assumes "tx_intent tx = Transfer r pk amt"
  shows "(\<Sum>d\<leftarrow>diff_list (compute_transaction_diff False E l tx). total_at i (native_debits d)) = spent E l i tx"
    and "(\<Sum>d\<leftarrow>diff_list (compute_transaction_diff False E l tx). total_at i (native_transfers d)) = received E l i tx"
  using transfer_diff(1,2) [of False E l tx _ r pk amt] assms
  by (auto simp: diff_list_def spent_def received_def amount_at_def split: sum.splits)

lemma diffs_of_member:
  assumes "d \<in> set (diffs_of (map (run_group E l txs) ps))"
  shows "\<exists>n \<in> set (concat ps). compute_transaction_diff False E l (txs ! n) = Inr d"
proof -
  have "d \<in> set (concat (map (\<lambda>n. diff_list (c n)) ns)) \<Longrightarrow> \<exists>n \<in> set ns. c n = Inr d" for c and ns :: "nat list"
    by (induction ns) (auto simp: diff_list_def split: sum.splits)
  from this [of "\<lambda>n. compute_transaction_diff False E l (txs ! n)" "concat ps"] show ?thesis
    using assms unfolding diffs_of_groups by simp
qed

lemma sum_concat_map: "(\<Sum>d\<leftarrow>concat (map f xs). g d) = (\<Sum>x\<leftarrow>xs. \<Sum>d\<leftarrow>f x. g d :: nat)"
  by (induction xs) simp_all

lemma sum_permuted:
  assumes "mset ns = mset [0..<length txs]"
  shows "(\<Sum>n\<leftarrow>ns. f (txs ! n)) = (\<Sum>tx\<leftarrow>txs. f tx :: nat)"
proof -
  have "(\<Sum>n\<leftarrow>ns. f (txs ! n)) = (\<Sum>n\<leftarrow>[0..<length txs]. f (txs ! n))"
    unfolding sum_mset_sum_list [symmetric] mset_map assms ..
  also have "\<dots> = (\<Sum>tx\<leftarrow>txs. f tx)"
    by (subst (2) map_nth [of txs, symmetric]) (simp del: map_nth add: comp_def)
  finally show ?thesis .
qed

text \<open>
  C7. A batch of transfers that is executed in parallel moves exactly the amounts: afterwards every
  account has what it had, less the amounts and fees of its accepted transfers, plus the
  amounts of the accepted transfers to it, where every transfer is checked against the state
  before the batch. (When two transfers open the same account the batch is run sequentially.)
\<close>

theorem parallel_transfers_exact:
  assumes "accounts_ok l" and "\<forall>tx \<in> set txs. \<exists>r pk amt. tx_intent tx = Transfer r pk amt" and "distinct (map (tx_id E) txs)"
    and "8 \<le> length txs" and "distinct (map tx_sender txs)" and "\<And>gs. split_items (sp gs) = gs"
    and "execute_batch_parallel E sp l txs = Inr r"
  shows "r = execute_sequential E l txs
    \<or> balance_of i (br_state r) + (\<Sum>tx\<leftarrow>txs. spent E l i tx) = balance_of i l + (\<Sum>tx\<leftarrow>txs. received E l i tx)"
proof -
  let ?ps = "partition_by_compiler_domains (cst_cells (cells l)) txs"
  let ?gs = "map (run_group E l txs) ?ps"
  let ?ds = "diffs_of ?gs"
  have m: "mset (concat ?ps) = mset [0..<length txs]"
    using placed_all [OF refl, of "cst_cells (cells l)" txs, folded place_all_txs_def partition_by_compiler_domains_def] by simp
  then have ix: "distinct (concat ?ps)" "set (concat ?ps) = {..<length txs}"
    using mset_eq_imp_distinct_iff [OF m] mset_eq_setD [OF m] by auto
  have "\<forall>tx \<in> set txs. handled (tx_intent tx)"
    using assms(2) by (force simp: handled_def)
  then have wf: "well_formed ?gs"
    using groups_well_formed [OF _ assms(3) ix(1)] ix(2) by simp
  have "execute_parallel E sp l txs = Inr r"
    using assms(4,5,7) by (auto simp: execute_batch_parallel_def split: if_splits)
  then show ?thesis
  proof (cases rule: execute_parallel_cases)
    case (2 c d)
    have "c = composed_of ?gs"
      using compose_split_spec [of "sp ?gs" E] wf 2(1,2) by (auto simp: assms(6) split: if_splits)
    then have c: "co_diff c = absorb_all ?ds diff_default" by (simp add: composed_of_def)
    have tr: "\<exists>r pk amt. tx_intent (txs ! n) = Transfer r pk amt" if "n \<in> set (concat ?ps)" for n
      using assms(2) ix(2) that by auto
    have "plain d \<and> keeps_balances l (account_updates d)" if "d \<in> set ?ds" for d
    proof -
      from that obtain n where n: "n \<in> set (concat ?ps)" "compute_transaction_diff False E l (txs ! n) = Inr d"
        using diffs_of_member by blast
      with tr [OF n(1)] show ?thesis
        using transfer_diff(4) [OF n(2)] transfer_records [OF n(2)] by blast
    qed
    then have "list_all plain ?ds" "list_all (\<lambda>d. keeps_balances l (account_updates d)) ?ds"
      by (simp_all add: list_all_iff)
    then have p: "plain (co_diff c)" "keeps_balances l (account_updates (co_diff c))"
      unfolding c using plain_absorb_all [of ?ds diff_default] keeps_absorb_all [of l ?ds diff_default] no_moves by simp_all
    note k = compact_diff_ok [OF 2(3)]
    have b: "accounts_ok (fold replace_account (account_updates d) l)" "balance_of i (fold replace_account (account_updates d) l) = balance_of i l"
      using replace_keeps [OF assms(1), of "account_updates d" i] p(2) k(1) by simp_all
    have "(\<Sum>d\<leftarrow>?ds. total_at i (native_debits d)) = (\<Sum>tx\<leftarrow>txs. spent E l i tx)"
      "(\<Sum>d\<leftarrow>?ds. total_at i (native_transfers d)) = (\<Sum>tx\<leftarrow>txs. received E l i tx)"
      unfolding diffs_of_groups sum_concat_map sum_permuted [OF m, symmetric]
      using tr transfer_sums by (intro arg_cong [where f = sum_list] map_cong refl; blast)+
    then show ?thesis
      using merge_flow [OF b(1) _ 2(4), of i] p(1) k(2) k(3,4) [of i] b(2)
      by (simp add: c total_absorb_all) (simp add: diff_default_def)
  qed simp
qed

theorem parallel_transfers_exact_witness:
  "\<exists>r. execute_batch_parallel batch_chain one_chunk demo_ledger batch_of_eight = Inr r
    \<and> (r = execute_sequential batch_chain demo_ledger batch_of_eight
      \<or> balance_of [1] (br_state r) + (\<Sum>tx\<leftarrow>batch_of_eight. spent batch_chain demo_ledger [1] tx)
        = balance_of [1] demo_ledger + (\<Sum>tx\<leftarrow>batch_of_eight. received batch_chain demo_ledger [1] tx))"
  using batch_applied [of one_chunk] batch_wide
    parallel_transfers_exact [OF demo_accounts_ok batch_handled(2) ids_distinct batch_wide split_items_simps(1), of _ "[1]"] by auto

section \<open>Deployments\<close>

lemma deploy_records:
  assumes "compute_transaction_diff v E l tx = Inr d"
    and "tx_intent tx = CellIntent (DeployCell cid raw ibal reads writes comm specs schemas)"
  obtains sa a where "om_get (accounts l) (tx_sender tx) = Some sa" and "account_updates d = [(tx_sender tx, a)]"
    and "unat (acct_balance sa) = unat (acct_balance a) + unat (saturating_add ibal (env_gp128 E ''storage.rent_lifetime_fee''))"
    and "sound_diff l d"
proof -
  let ?d0 = "\<lambda>h. diff_default\<lparr>nonce_updates := [(tx_sender tx, tx_nonce tx)], tx_hash := h\<rparr>"
  let ?need = "saturating_add ibal (env_gp128 E ''storage.rent_lifetime_fee'')"
  have tr: "tracked (tx_intent tx)" by (simp add: assms(2) tracked_def calls_cells_def)
  obtain sa bf h d1 where s: "om_get (accounts l) (tx_sender tx) = Some sa" "run_intent E l tx sa (?d0 h) = Inr d1"
      "finish_diff E tx sa bf d1 = Inr d"
    using assms(1) by (rule compute_transaction_ok)
  have sd: "sound_diff l d"
    using finish_settled [OF s(3) run_intent_booked [OF s(2,1) start_default sound_default tr] s(1)] by (simp add: settled_def)
  have "compute_deploy_cell_diff E l (tx_sender tx) cid raw ibal (tx_timestamp tx) reads writes comm specs schemas sa (?d0 h) = Inr d1"
    using s(2) by (simp add: run_intent_def assms(2) run_cell_intent_def)
  then have "\<not> acct_balance sa < ?need"
      and d1: "account_updates d1 = [(tx_sender tx, sa\<lparr>acct_balance := saturating_sub (acct_balance sa) ?need\<rparr>)]"
    by (auto simp: compute_deploy_cell_diff_def Let_def lower_balance_def put_account_def diff_default_def om_get_def split: if_splits sum.splits)
  then have b: "unat (acct_balance sa) = unat (saturating_sub (acct_balance sa) ?need) + unat ?need"
    by (simp add: unat_saturating_sub word_le_nat_alt [symmetric] not_less)
  from s(3) obtain d3 where d3: "account_updates d3 = account_updates d1" "d = keep_sender_key tx sa d3"
    by (rule finish_records)
  have "account_updates d = [(tx_sender tx, sa\<lparr>acct_balance := saturating_sub (acct_balance sa) ?need\<rparr>)]"
    by (simp add: d3 d1 keep_sender_key_def put_account_def om_get_def)
  from that [OF s(1) this _ sd] b show thesis by simp
qed

text \<open>
  C10. What a deployment costs depends on the size of the batch. Applying the diff of an accepted
  deployment on its own leaves the sender with the initial balance and the storage rent more
  than merging it as part of a parallel batch does: the one keeps the balance of an existing
  account when it takes over a record, the other replaces the whole record.
\<close>

theorem deploy_paths_disagree:
  assumes "accounts_ok l" and "compute_transaction_diff v E l tx = Inr d"
    and "tx_intent tx = CellIntent (DeployCell cid raw ibal reads writes comm specs schemas)"
    and "apply_diff E d l = (Inr (), l1)" and "merge_diff_inplace E d l = (Inr (), l2)"
  shows "balance_of (tx_sender tx) l1
    = balance_of (tx_sender tx) l2 + unat (saturating_add ibal (env_gp128 E ''storage.rent_lifetime_fee''))"
proof -
  obtain sa a where r: "om_get (accounts l) (tx_sender tx) = Some sa" "account_updates d = [(tx_sender tx, a)]"
      "unat (acct_balance sa) = unat (acct_balance a) + unat (saturating_add ibal (env_gp128 E ''storage.rent_lifetime_fee''))"
      "sound_diff l d"
    using assms(2,3) by (rule deploy_records)
  have p: "covered l (account_updates d)" "plain d" using r(4) by (simp_all add: sound_diff_def)
  have m: "accounts_ok (fold replace_account (account_updates d) l)"
      "balance_of (tx_sender tx) (fold replace_account (account_updates d) l) = unat (acct_balance a)"
    using assms(1) by (simp_all add: r(2) replace_account_def balance_of_set)
  have "balance_of (tx_sender tx) l = unat (acct_balance sa)" using r(1) by (simp add: balance_of_def)
  then show ?thesis
    using apply_diff_flow(2) [OF assms(1) p assms(4), of "tx_sender tx"] merge_flow [OF m(1) p(2) assms(5), of "tx_sender tx"] m(2) r(3) by simp
qed

lemma bare_deploy_merged:
  "\<exists>d l1 l2. compute_transaction_diff False cell_chain cell_ledger (cell_tx bare_deploy) = Inr d
     \<and> apply_diff cell_chain d cell_ledger = (Inr (), l1) \<and> merge_diff_inplace cell_chain d cell_ledger = (Inr (), l2)"
  by (simp add: bare_deploy_def cell_eval compute_deploy_cell_diff_def bytecode_ok_def bare_raw bare_manifest lower_balance_def
      cell_state_new_def) (simp add: demo_apply on_cells_def set_cell_def cell_at_def om_get_def rust_int
      merge_diff_inplace_def merge_steps_def replace_account_def merge_fees_def merge_hashes_def Let_def)

theorem deploy_paths_disagree_witness:
  "\<exists>d l1 l2. apply_diff cell_chain d cell_ledger = (Inr (), l1) \<and> merge_diff_inplace cell_chain d cell_ledger = (Inr (), l2)
     \<and> balance_of cell_sender l1 = balance_of cell_sender l2 + 610"
proof -
  obtain d l1 l2 where s: "compute_transaction_diff False cell_chain cell_ledger (cell_tx bare_deploy) = Inr d"
      "apply_diff cell_chain d cell_ledger = (Inr (), l1)" "merge_diff_inplace cell_chain d cell_ledger = (Inr (), l2)"
    using bare_deploy_merged by blast
  have "balance_of cell_sender l1 = balance_of cell_sender l2 + 610"
    using deploy_paths_disagree [OF cell_ledger_ok s(1) _ s(2,3)]
    by (simp add: cell_tx_def demo_tx_def bare_deploy_def cell_chain_def demo_chain_def rust_int)
  then show ?thesis using s by blast
qed

end
