(* ===== verification/Block_Props.thy ===== *)
theory Block_Props
  imports Block_End Parallel_Paths
begin

text \<open>
  Properties of the end of a block: the distribution of revenue and of gas fees is exact up to
  stated rounding, emission moves currency from the treasury to the validators and follows
  its schedule for a few years only, and maintenance bounds the state.
\<close>

lemma unat_ucast_64_128 [simp]: "unat (ucast (w :: u64) :: u128) = unat w"
  using unat_less_64 [of w] by (simp add: unsigned_ucast_eq take_bit_nat_eq_self)

lemma unat_less_128: "unat (w :: u128) < 2 ^ 128"
  using unsigned_less [of w] by simp

section \<open>Proportional shares\<close>

lemma floor_shares:
  fixes s t :: nat
  assumes "sum_list ws \<le> t" and "0 < t"
  shows "(\<Sum>w\<leftarrow>ws. s * w div t) \<le> s"
proof -
  have "(\<Sum>w\<leftarrow>ws. s * w div t) * t \<le> (\<Sum>w\<leftarrow>ws. s * w)"
    by (induction ws) (simp_all add: add_mult_distrib add_mono div_times_less_eq_dividend)
  also have "\<dots> = s * sum_list ws" by (simp add: sum_list_const_mult)
  also have "\<dots> \<le> s * t" using assms(1) by simp
  finally show ?thesis using assms(2) by simp
qed

lemma total_in_filter: "total_in (filter (\<lambda>x. snd x > 0) xs) = total_in xs"
  by (induction xs) (auto simp: word_gt_0 amount_in_def)

lemma proportional_total:
  assumes "sum_list (map (unat \<circ> snd) ws) \<le> unat tot" and "tot \<noteq> 0"
  shows "total_in (proportional share tot ws) \<le> unat share"
proof -
  have "total_in (proportional share tot ws) = (\<Sum>w\<leftarrow>map (unat \<circ> snd) ws. min (unat share * w) (2 ^ 128 - 1) div unat tot)"
    unfolding proportional_def total_in_filter
    by (induction ws) (auto simp: unat_saturating_mul unat_div amount_in_def)
  also have "\<dots> \<le> (\<Sum>w\<leftarrow>map (unat \<circ> snd) ws. unat share * w div unat tot)"
    by (intro sum_list_mono div_le_mono) simp
  also have "\<dots> \<le> unat share"
    using assms by (intro floor_shares) (simp_all add: unat_gt_0)
  finally show ?thesis .
qed

lemma fold_saturating:
  fixes a :: "'a::len word"
  assumes "unat a + sum_list (map (unat \<circ> f) xs) < 2 ^ LENGTH('a)"
  shows "unat (fold (\<lambda>x a. saturating_add a (f x)) xs a) = unat a + sum_list (map (unat \<circ> f) xs)"
  using assms
proof (induction xs arbitrary: a)
  case (Cons x xs)
  have "unat (saturating_add a (f x)) = unat a + unat (f x)"
    using Cons.prems by (simp add: unat_saturating_add)
  then show ?case
    using Cons by simp
qed simp

lemma left_over_exact:
  assumes "total_in xs \<le> unat share"
  shows "unat (left_over share xs) + total_in xs = unat share"
proof -
  have "total_in xs = sum_list (map (unat \<circ> snd) xs)" for xs :: "(bytes \<times> u128) list"
    by (induction xs) (auto simp: amount_in_def)
  then have "unat (fold (\<lambda>x a. saturating_add a (snd x)) xs 0) = total_in xs"
    using assms unat_less_128 [of share] by (subst fold_saturating) auto
  then show ?thesis
    using assms by (simp add: left_over_def unat_saturating_sub)
qed

lemma split_exact:
  assumes "split_revenue amt = (v, s, b)"
  shows "unat v + unat s + unat b = unat amt"
proof -
  have "unat (saturating_mul amt c div 10000) \<le> unat amt * unat c div 10000" for c
    by (simp add: unat_div unat_saturating_mul div_le_mono)
  from this [of 6000] this [of 2000] show ?thesis
    using assms by (auto simp: split_revenue_def Let_def unat_saturating_sub)
qed

lemma length_map_filter: "length (List.map_filter f xs) \<le> length xs"
  by (induction xs) (auto simp: map_filter_simps split: option.split)

lemma holder_weights_small: "sum_list (map (unat \<circ> snd) (holder_weights E l)) < 2 ^ 128"
proof -
  have "length (load_staking_holders E l) \<le> 2 ^ 64 - 1"
  proof -
    have "length (List.map_filter f [0..<unat w]) \<le> 2 ^ 64 - 1" for f :: "nat \<Rightarrow> bytes option" and w :: u64
      using length_map_filter [of f "[0..<unat w]"] unat_less_64 [of w] by simp
    then show ?thesis by (simp add: load_staking_holders_def split: option.split)
  qed
  then have n: "length (holder_weights E l) \<le> 2 ^ 64 - 1"
    using length_map_filter [of _ "load_staking_holders E l"] unfolding holder_weights_def by (meson order_trans)
  have "sum_list (map (unat \<circ> snd) ws) \<le> length ws * (2 ^ 64 - 1)" for ws :: "(bytes \<times> u64) list"
  proof (induction ws)
    case (Cons w ws)
    then show ?case using unat_less_64 [of "snd w"] by simp
  qed simp
  from this [of "holder_weights E l"] n have "sum_list (map (unat \<circ> snd) (holder_weights E l)) \<le> (2 ^ 64 - 1) * (2 ^ 64 - 1)"
    by (meson order_trans mult_le_mono1)
  then show ?thesis by simp
qed

lemma distribute_share_exact:
  assumes "distribute_share share tot ws burn = (xs, burn')" and "sum_list (map (unat \<circ> snd) ws) \<le> unat tot"
    and "unat burn + unat share < 2 ^ 128"
  shows "total_in xs + unat burn' = unat burn + unat share"
proof (cases "share > 0 \<and> tot > 0")
  case True
  then have "total_in (proportional share tot ws) \<le> unat share"
    by (intro proportional_total [OF assms(2)]) (simp add: word_gt_0)
  from left_over_exact [OF this] show ?thesis
    using True assms(1,3) by (auto simp: distribute_share_def Let_def unat_saturating_add)
next
  case False
  then show ?thesis
    using assms(1,3) by (auto simp: distribute_share_def unat_saturating_add)
qed

text \<open>
  C11. Distributing the protocol's revenue loses nothing: the rewards of the validators, the
  payments to the holders of locked stake and the burned amount add up to the accumulated
  fees, and exactly these fees are spent, whoever is there to receive them and however the
  shares round.
\<close>

theorem revenue_distribution_exact:
  assumes "compute_treasury_distribution_diff E l = Inr d"
    and "unat (accumulated_gas_fees l) + unat (accumulated_name_fees l) + unat (accumulated_compute_fees l)
      + unat (accumulated_treasury_fees l) < 2 ^ 128"
    and "(\<Sum>x\<leftarrow>get_active_validators (staking l). unat (snd x)) < 2 ^ 64"
  shows "total_in (staking_rewards d) + total_in (native_transfers d) + unat (fee_burned d)
      = unat (accumulated_gas_fees l) + unat (accumulated_name_fees l) + unat (accumulated_compute_fees l)
        + unat (accumulated_treasury_fees l)
      \<and> gas_fee_spent d = accumulated_gas_fees l \<and> name_fee_spent d = accumulated_name_fees l
      \<and> compute_fee_spent d = accumulated_compute_fees l \<and> treasury_fee_spent d = accumulated_treasury_fees l"
proof -
  let ?p = "saturating_add (saturating_add (accumulated_gas_fees l) (accumulated_name_fees l)) (accumulated_compute_fees l)"
  let ?t = "accumulated_treasury_fees l"
  let ?act = "map (\<lambda>(pk, s). (account_id_from_pubkey E pk, s)) (get_active_validators (staking l))"
  let ?tot = "ucast (sum_list (map snd ?act)) :: u128"
  let ?ws = "holder_weights E l"
  let ?wt = "fold (\<lambda>x a. saturating_add a (ucast (snd x))) ?ws 0 :: u128"
  obtain vp sp bp vt st bt where s: "split_revenue ?p = (vp, sp, bp)" "split_revenue ?t = (vt, st, bt)" by (metis prod_cases3)
  let ?v = "saturating_add vp vt" and ?s = "saturating_add sp st" and ?b = "saturating_add bp bt"
  obtain rs b1 ps b2 where d: "distribute_share ?v ?tot ?act ?b = (rs, b1)" "distribute_share ?s ?wt ?ws b1 = (ps, b2)"
    by (metis surj_pair)
  have p: "unat ?p = unat (accumulated_gas_fees l) + unat (accumulated_name_fees l) + unat (accumulated_compute_fees l)"
    using assms(2) by (simp add: unat_saturating_add)
  note e = split_exact [OF s(1)] split_exact [OF s(2)]
  have q: "unat ?v = unat vp + unat vt" "unat ?s = unat sp + unat st" "unat ?b = unat bp + unat bt"
    using e assms(2) by (simp_all add: unat_saturating_add p)
  have "sum_list (map (unat \<circ> snd) ?act) = (\<Sum>x\<leftarrow>get_active_validators (staking l). unat (snd x))"
    by (simp add: comp_def case_prod_unfold)
  then have "sum_list (map (unat \<circ> snd) ?act) \<le> unat ?tot"
    using assms(3) unat_sum_list [of "map snd ?act"] by (simp add: comp_def)
  note r = distribute_share_exact [OF d(1) this]
  have "sum_list (map (unat \<circ> snd) ?ws) \<le> unat ?wt"
    using holder_weights_small [of E l] fold_saturating [of 0 "\<lambda>x. ucast (snd x) :: u128" ?ws] by (simp add: comp_def)
  note h = distribute_share_exact [OF d(2) this]
  have "total_in rs + total_in ps + unat b2 = unat ?p + unat ?t"
    using r h e q p assms(2) by simp
  moreover have "accumulated_gas_fees l = 0 \<and> accumulated_name_fees l = 0 \<and> accumulated_compute_fees l = 0 \<and> ?t = 0"
    if "saturating_add ?p ?t = 0"
    using that assms(2) p unat_saturating_add [of ?p ?t] by (simp add: unat_eq_zero)
  ultimately show ?thesis
    using assms(1) s d unfolding p
    by (cases "saturating_add ?p ?t = 0"; auto simp: compute_treasury_distribution_diff_def Let_def diff_default_def split: if_splits option.splits)
qed

section \<open>Gas fees\<close>

definition share_total :: "gas_share list \<Rightarrow> nat" where
  "share_total ups = (\<Sum>x\<leftarrow>ups. unat (fst (snd x)))"

lemma share_total_simps [simp]: "share_total [] = 0" "share_total (x # xs) = unat (fst (snd x)) + share_total xs"
  "share_total (xs @ ys) = share_total xs + share_total ys"
  by (simp_all add: share_total_def)

lemma unat_div_product:
  assumes "unat (a :: u128) * unat (s :: u64) < 2 ^ 128"
  shows "unat ((a * ucast s) div ucast (t :: u64)) = unat a * unat s div unat t"
  using assms by (simp add: unat_div unat_word_ariths)

definition active_stakes :: "u64 \<Rightarrow> (bytes \<times> validator_stake) list \<Rightarrow> nat list" where
  "active_stakes h vs = map (\<lambda>e. unat (active_stake (snd e))) (filter (\<lambda>e. is_active h (snd e)) vs)"

lemma active_stakes_simps [simp]: "active_stakes h [] = []"
  "active_stakes h (e # vs) = (if is_active h (snd e) then unat (active_stake (snd e)) # active_stakes h vs else active_stakes h vs)"
  by (simp_all add: active_stakes_def)

lemma is_active_stake: "is_active h v \<Longrightarrow> active_stake v \<noteq> 0"
  by (auto simp: is_active_def MIN_VALIDATOR_STAKE_def split: if_splits)

definition stake_sum :: "gas_share list \<Rightarrow> nat" where
  "stake_sum ups = (\<Sum>x\<leftarrow>ups. unat (snd (snd x)))"

text \<open>What the loop over the validators keeps: the shares so far, matched or not, and who is matched.\<close>

lemma gas_step:
  assumes "gas_share_step E l fees tot (pk, v) (ups, um) = (ups', um')" and "is_active (current_height (staking l)) v"
    and "unat um + unat fees * unat (active_stake v) div unat tot < 2 ^ 128" and "unat fees * unat (active_stake v) < 2 ^ 128"
  shows "share_total ups' + unat um' = share_total ups + unat um + unat fees * unat (active_stake v) div unat tot
    \<and> unat um' \<le> unat um + unat fees * unat (active_stake v) div unat tot
    \<and> stake_sum ups' \<le> stake_sum ups + unat (active_stake v)
    \<and> ((\<forall>x \<in> set ups. snd (snd x) \<noteq> 0) \<longrightarrow> (\<forall>x \<in> set ups'. snd (snd x) \<noteq> 0))"
proof -
  let ?share = "(fees * ucast (active_stake v)) div ucast tot :: u128"
  have s: "unat ?share = unat fees * unat (active_stake v) div unat tot"
    using assms(4) by (rule unat_div_product)
  then have "unat (saturating_add um ?share) = unat um + unat ?share" using assms(3) by (simp add: unat_saturating_add)
  then show ?thesis
    using assms(1) is_active_stake [OF assms(2)] assms(2) s
    by (auto simp: gas_share_step_def Let_def stake_sum_def split: if_splits)
qed

lemma gas_fold:
  assumes "fold (gas_share_step E l fees tot) vs (ups, um) = (ups', um')"
    and "unat um + (\<Sum>s\<leftarrow>active_stakes (current_height (staking l)) vs. unat fees * s div unat tot) < 2 ^ 128"
    and "\<forall>s \<in> set (active_stakes (current_height (staking l)) vs). unat fees * s < 2 ^ 128"
    and "\<forall>x \<in> set ups. snd (snd x) \<noteq> 0"
  shows "share_total ups' + unat um'
      = share_total ups + unat um + (\<Sum>s\<leftarrow>active_stakes (current_height (staking l)) vs. unat fees * s div unat tot)
    \<and> stake_sum ups' \<le> stake_sum ups + sum_list (active_stakes (current_height (staking l)) vs)
    \<and> (\<forall>x \<in> set ups'. snd (snd x) \<noteq> 0)"
  using assms
proof (induction vs arbitrary: ups um)
  case (Cons e vs)
  obtain pk v where e: "e = (pk, v)" by (cases e)
  obtain ups1 um1 where s: "gas_share_step E l fees tot (pk, v) (ups, um) = (ups1, um1)" by fastforce
  show ?case
  proof (cases "is_active (current_height (staking l)) v")
    case True
    have "share_total ups1 + unat um1 = share_total ups + unat um + unat fees * unat (active_stake v) div unat tot
        \<and> unat um1 \<le> unat um + unat fees * unat (active_stake v) div unat tot
        \<and> stake_sum ups1 \<le> stake_sum ups + unat (active_stake v) \<and> (\<forall>x \<in> set ups1. snd (snd x) \<noteq> 0)"
      using gas_step [OF s True] Cons.prems(2-4) True by (simp add: e)
    then show ?thesis
      using Cons.IH [of ups1 um1] Cons.prems(1-3) True s by (simp add: e)
  next
    case False
    then have "ups1 = ups \<and> um1 = um" using s by (simp add: gas_share_step_def)
    then show ?thesis
      using Cons.IH [of ups um] Cons.prems False s by (simp add: e)
  qed
qed simp

lemma last_max_less: "ss \<noteq> [] \<Longrightarrow> last_max ss < length ss"
proof -
  have "b < length ss \<Longrightarrow> set is \<subseteq> {..<length ss} \<Longrightarrow> fold (\<lambda>i b. if ss ! i \<ge> ss ! b then i else b) is b < length ss" for "is" b
    by (induction "is" arbitrary: b) auto
  from this [of 0 "[0..<length ss]"] show "ss \<noteq> [] \<Longrightarrow> last_max ss < length ss"
    by (simp add: last_max_def lessThan_atLeast0)
qed

lemma sum_unat_update:
  assumes "i < length xs" and "unat (xs ! i) + unat d < 2 ^ 128"
  shows "sum_list (map unat (xs[i := saturating_add (xs ! i) d])) = sum_list (map unat xs) + unat (d :: u128)"
  using assms by (induction xs arbitrary: i) (auto simp: unat_saturating_add nth_Cons split: nat.splits)

lemma sum_zip_shares:
  assumes "length ups = length es" and "share_total ups + sum_list (map unat es) < 2 ^ 128"
  shows "share_total (map (\<lambda>((i, share, s), extra). (i, saturating_add share extra, s)) (zip ups es))
    = share_total ups + sum_list (map unat es)"
  using assms
proof (induction ups es rule: list_induct2)
  case (Cons x xs y ys)
  then show ?case by (auto simp: unat_saturating_add split: prod.split)
qed simp

lemma extras_exact:
  fixes ss :: "u64 list" and um :: u128
  assumes "ss \<noteq> []" and "0 < sum_list (map unat ss)" and "sum_list (map unat ss) < 2 ^ 64" and "unat um * sum_list (map unat ss) < 2 ^ 128"
  defines "xs \<equiv> map (\<lambda>s. (um * ucast s) div ucast (sum_list ss)) ss"
  defines "dust \<equiv> saturating_sub um (sum_list xs)"
  shows "sum_list (map unat (if dust > 0 then xs[last_max ss := saturating_add (xs ! last_max ss) dust] else xs)) = unat um"
proof -
  have t: "unat (sum_list ss) = sum_list (map unat ss)" using assms(3) by (simp add: unat_sum_list)
  have "unat um * unat s < 2 ^ 128" if "s \<in> set ss" for s
  proof -
    have "unat s \<le> sum_list (map unat ss)" using that by (intro member_le_sum_list) simp_all
    then show ?thesis using assms(4) mult_le_mono2 order_le_less_trans by blast
  qed
  then have "map unat xs = map (\<lambda>w. unat um * w div sum_list (map unat ss)) (map unat ss)"
    by (simp add: xs_def unat_div_product t cong: map_cong)
  then have le: "sum_list (map unat xs) \<le> unat um"
    using floor_shares [of "map unat ss" "sum_list (map unat ss)" "unat um"] assms(2) by simp
  then have "unat (sum_list xs) = sum_list (map unat xs)"
    using unat_less_128 [of um] by (intro unat_sum_list) simp
  then have dust: "unat dust = unat um - sum_list (map unat xs)" by (simp add: dust_def unat_saturating_sub)
  have i: "last_max ss < length xs" using last_max_less [OF assms(1)] by (simp add: xs_def)
  then have "unat (xs ! last_max ss) \<le> sum_list (map unat xs)" by (intro member_le_sum_list) simp_all
  then have "unat (xs ! last_max ss) + unat dust < 2 ^ 128" using dust le unat_less_128 [of um] by simp
  from sum_unat_update [OF i this] show ?thesis using dust le by (auto simp: word_less_nat_alt)
qed

lemma spread_total:
  assumes "ups \<noteq> []" and "\<forall>x \<in> set ups. snd (snd x) \<noteq> 0" and "stake_sum ups < 2 ^ 64"
    and "unat um * stake_sum ups < 2 ^ 128" and "share_total ups + unat um < 2 ^ 128"
  shows "share_total (spread_unmatched um ups) = share_total ups + unat um"
proof (cases "um = 0")
  case True
  then show ?thesis by (simp add: spread_unmatched_def)
next
  case False
  let ?ss = "map (\<lambda>(_, _, s). s) ups"
  let ?xs = "map (\<lambda>s. (um * ucast s) div ucast (sum_list ?ss)) ?ss :: u128 list"
  let ?dust = "saturating_sub um (sum_list ?xs)"
  let ?ys = "if ?dust > 0 then ?xs[last_max ?ss := saturating_add (?xs ! last_max ?ss) ?dust] else ?xs"
  have um: "um > 0" using False by (simp add: word_gt_0)
  have ss: "sum_list (map unat ?ss) = stake_sum ups" by (simp add: stake_sum_def case_prod_unfold comp_def)
  have pos: "0 < stake_sum ups"
    using assms(1,2) by (cases ups) (auto simp: stake_sum_def unat_gt_0 unat_eq_zero)
  then have "sum_list ?ss > 0"
    using unat_sum_list [of ?ss] ss assms(3) by (simp add: word_less_nat_alt)
  then have "spread_unmatched um ups = map (\<lambda>((i, share, s), extra). (i, saturating_add share extra, s)) (zip ups ?ys)"
    using um assms(1) unfolding spread_unmatched_def Let_def by (simp only: if_True simp_thms)
  moreover have "sum_list (map unat ?ys) = unat um"
    by (rule extras_exact) (use assms(1,3,4) pos in \<open>simp_all only: ss, simp_all\<close>)
  ultimately show ?thesis
    using sum_zip_shares [of ups ?ys] assms(5) by simp
qed

lemma floor_shares_lower:
  fixes s t :: nat
  assumes "sum_list ws = t" and "0 < t"
  shows "s < (\<Sum>w\<leftarrow>ws. s * w div t) + length ws"
proof -
  have "(\<Sum>w\<leftarrow>ws. s * w) + length ws \<le> t * ((\<Sum>w\<leftarrow>ws. s * w div t) + length ws)" for ws
  proof (induction ws)
    case (Cons w ws)
    have "s * w + 1 \<le> t * (s * w div t) + t"
      using mult_div_mod_eq [of t "s * w"] mod_less_divisor [OF assms(2), of "s * w"] by linarith
    then show ?case using Cons by (simp add: algebra_simps)
  qed simp
  from this [of ws] have "s * t + length ws \<le> t * ((\<Sum>w\<leftarrow>ws. s * w div t) + length ws)"
    using assms(1) by (simp add: sum_list_const_mult)
  moreover have "ws \<noteq> []" using assms by auto
  ultimately have "t * s < t * ((\<Sum>w\<leftarrow>ws. s * w div t) + length ws)"
    using assms(2) by (cases ws) (simp_all add: mult.commute)
  then show ?thesis using assms(2) by simp
qed

lemma total_in_shares: "total_in (map (\<lambda>(i, share, _). (i, share)) (sort_key fst ups)) = share_total ups"
proof -
  have "total_in (map (\<lambda>(i, share, _). (i, share)) ups) = share_total ups" for ups :: "gas_share list"
    by (induction ups) (auto simp: amount_in_def)
  moreover have "share_total (sort_key fst ups) = share_total ups"
    unfolding share_total_def sum_mset_sum_list [symmetric] mset_map by simp
  ultimately show ?thesis by simp
qed

text \<open>Who is matched: the active validators with an account and a share.\<close>

definition matched :: "('z) ledger_env_scheme \<Rightarrow> ledger \<Rightarrow> bytes \<times> u64 \<Rightarrow> bool" where
  "matched E l x \<longleftrightarrow> om_get (accounts l) (account_id_from_pubkey E (fst x)) \<noteq> None
     \<and> unat (accumulated_gas_fees l) * unat (snd x) div (\<Sum>y\<leftarrow>get_active_validators (staking l). unat (snd y)) > 0"

lemma gas_fold_ids:
  "fst ` set (fst (fold (gas_share_step E l fees tot) vs s)) = fst ` set (fst s)
     \<union> (\<lambda>e. account_id_from_pubkey E (fst e)) ` {e \<in> set vs. is_active (current_height (staking l)) (snd e)
        \<and> om_get (accounts l) (account_id_from_pubkey E (fst e)) \<noteq> None \<and> (fees * ucast (active_stake (snd e))) div ucast tot \<noteq> 0}"
proof (induction vs arbitrary: s)
  case (Cons e vs)
  obtain pk v where e: "e = (pk, v)" by (cases e)
  have "fst ` set (fst (gas_share_step E l fees tot e s)) = fst ` set (fst s)
      \<union> (if is_active (current_height (staking l)) v \<and> om_get (accounts l) (account_id_from_pubkey E pk) \<noteq> None
           \<and> (fees * ucast (active_stake v)) div ucast tot \<noteq> 0 then {account_id_from_pubkey E pk} else {})"
    using is_active_stake by (cases s) (auto simp: e gas_share_step_def Let_def)
  moreover have "{x \<in> set (e # vs). Q x} = (if Q e then {e} else {}) \<union> {x \<in> set vs. Q x}" for Q by auto
  ultimately show ?case
    using Cons.IH [of "gas_share_step E l fees tot e s"] by (simp only: fold_simps(2) image_Un) (auto simp: e)
qed simp

lemma spread_ids: "fst ` set (spread_unmatched um ups) = fst ` set ups"
proof -
  have "map fst (map (\<lambda>((i, share, s), extra). (i, saturating_add share extra, s)) (zip ups xs)) = map fst ups"
    if "length xs = length ups" for xs :: "u128 list"
    using that by (induction ups xs rule: list_induct2') auto
  then have "map fst (spread_unmatched um ups) = map fst ups"
    by (simp only: spread_unmatched_def Let_def) (simp split: if_split)
  then show ?thesis by (metis list.set_map)
qed

lemma gas_recipients:
  assumes "unat (accumulated_gas_fees l) * (\<Sum>x\<leftarrow>get_active_validators (staking l). unat (snd x)) < 2 ^ 128"
    and "(\<Sum>x\<leftarrow>get_active_validators (staking l). unat (snd x)) < 2 ^ 64"
  shows "fst ` set (native_transfers (compute_gas_fee_distribution_diff E l))
    = (\<lambda>x. account_id_from_pubkey E (fst x)) ` {x \<in> set (get_active_validators (staking l)). matched E l x}"
proof -
  let ?fees = "accumulated_gas_fees l" and ?act = "get_active_validators (staking l)" and ?tot = "active_total (staking l)"
  have act: "set ?act = (\<lambda>e. (fst e, active_stake (snd e))) ` {e \<in> set (validators (staking l)). is_active (current_height (staking l)) (snd e)}"
    by (force simp: get_active_validators_def case_prod_unfold)
  have t: "unat ?tot = (\<Sum>x\<leftarrow>?act. unat (snd x))"
    using assms(2) unat_sum_list [of "map (\<lambda>e. active_stake (snd e)) (filter (\<lambda>e. is_active (current_height (staking l)) (snd e)) (validators (staking l)))"]
    by (simp add: active_total_def get_active_validators_def comp_def case_prod_unfold)
  have small: "unat ?fees * unat (snd x) < 2 ^ 128" if "x \<in> set ?act" for x
  proof -
    have "unat (snd x) \<le> (\<Sum>x\<leftarrow>?act. unat (snd x))" using that by (intro member_le_sum_list) auto
    then show ?thesis using assms(1) mult_le_mono2 order_le_less_trans by blast
  qed
  have share: "(?fees * ucast (snd x)) div ucast ?tot \<noteq> 0 \<longleftrightarrow> unat ?fees * unat (snd x) div unat ?tot > 0" if "x \<in> set ?act" for x
    using unat_div_product [OF small [OF that], of ?tot] by (metis neq0_conv unat_eq_zero)
  have paid: "{x \<in> set ?act. matched E l x} = (\<lambda>e. (fst e, active_stake (snd e))) ` {e \<in> set (validators (staking l)).
      is_active (current_height (staking l)) (snd e) \<and> om_get (accounts l) (account_id_from_pubkey E (fst e)) \<noteq> None
      \<and> (?fees * ucast (active_stake (snd e))) div ucast ?tot \<noteq> 0}" (is "?L = ?f ` ?R")
  proof -
    have "?f e \<in> set ?act" if "e \<in> set (validators (staking l))" "is_active (current_height (staking l)) (snd e)" for e
      using that unfolding act by blast
    note m = share [OF this, simplified]
    have "?L = ?f ` {e \<in> set (validators (staking l)). is_active (current_height (staking l)) (snd e) \<and> matched E l (?f e)}"
      unfolding act by blast
    also have "{e \<in> set (validators (staking l)). is_active (current_height (staking l)) (snd e) \<and> matched E l (?f e)} = ?R"
      by (rule Collect_cong) (use m in \<open>auto simp: matched_def simp flip: t\<close>)
    finally show ?thesis .
  qed
  show ?thesis
  proof (cases "?fees = 0 \<or> ?tot = 0")
    case True
    then have "\<not> matched E l x" for x by (auto simp: matched_def simp flip: t)
    then show ?thesis using True by (auto simp: compute_gas_fee_distribution_diff_def Let_def diff_default_def)
  next
    case False
    obtain ups um where f: "fold (gas_share_step E l ?fees ?tot) (validators (staking l)) ([], 0) = (ups, um)" by fastforce
    have "fst ` set (native_transfers (compute_gas_fee_distribution_diff E l)) = fst ` set (spread_unmatched um ups)"
      using False f by (simp add: compute_gas_fee_distribution_diff_def Let_def image_image case_prod_unfold)
    also have "\<dots> = fst ` set (fst (fold (gas_share_step E l ?fees ?tot) (validators (staking l)) ([], 0)))"
      by (simp add: f spread_ids)
    also have "\<dots> = (\<lambda>x. account_id_from_pubkey E (fst x)) ` {x \<in> set ?act. matched E l x}"
      unfolding gas_fold_ids paid by (simp add: image_image)
    finally show ?thesis .
  qed
qed

text \<open>
  C14. Distributing the gas fees of a block pays exactly the accounts of the active validators that
  have an account and a share of at least one unit, and when there is such a validator it pays
  the fees out but for less than one unit for each active validator, the shares of validators
  without an account spread over the others. When there is none, nobody is paid; the fees are
  spent in any case.
\<close>

theorem gas_distribution_bounds:
  assumes "unat (accumulated_gas_fees l) * (\<Sum>x\<leftarrow>get_active_validators (staking l). unat (snd x)) < 2 ^ 128"
    and "(\<Sum>x\<leftarrow>get_active_validators (staking l). unat (snd x)) < 2 ^ 64"
  shows "let d = compute_gas_fee_distribution_diff E l; paid = total_in (native_transfers d); fees = unat (accumulated_gas_fees l);
      act = get_active_validators (staking l) in
    gas_fee_spent d = accumulated_gas_fees l
    \<and> fst ` set (native_transfers d) = (\<lambda>x. account_id_from_pubkey E (fst x)) ` {x \<in> set act. matched E l x}
    \<and> (if \<exists>x \<in> set act. matched E l x then paid \<le> fees \<and> fees < paid + length act else native_transfers d = [])"
proof -
  let ?fees = "accumulated_gas_fees l" and ?vs = "validators (staking l)"
  let ?as = "active_stakes (current_height (staking l)) ?vs" and ?tot = "active_total (staking l)"
  have as: "?as = map (\<lambda>x. unat (snd x)) (get_active_validators (staking l))"
    by (simp add: active_stakes_def get_active_validators_def comp_def case_prod_unfold)
  then have t: "unat ?tot = sum_list ?as"
    using assms(2) unat_sum_list [of "map (\<lambda>e. active_stake (snd e)) (filter (\<lambda>e. is_active (current_height (staking l)) (snd e)) ?vs)"]
    by (simp add: active_total_def active_stakes_def comp_def)
  obtain ups um where f: "fold (gas_share_step E l ?fees ?tot) ?vs ([], 0) = (ups, um)" by fastforce
  note ids = gas_recipients [OF assms, of E]
  show ?thesis
  proof (cases "?fees = 0 \<or> ?tot = 0 \<or> ups = []")
    case True
    then have "gas_fee_spent (compute_gas_fee_distribution_diff E l) = ?fees" "native_transfers (compute_gas_fee_distribution_diff E l) = []"
      using f by (auto simp: compute_gas_fee_distribution_diff_def Let_def diff_default_def spread_unmatched_def)
    then show ?thesis using ids by (auto simp: Let_def)
  next
    case False
    then have pos: "0 < sum_list ?as" using t by (metis neq0_conv unat_eq_zero)
    note fl = floor_shares [of ?as "unat ?tot" "unat ?fees"] floor_shares_lower [of ?as "unat ?tot" "unat ?fees"]
    have "unat ?fees * s < 2 ^ 128" if "s \<in> set ?as" for s
      using member_le_sum_list [OF that] assms(1) mult_le_mono2 order_le_less_trans unfolding as by blast
    with gas_fold [OF f] fl(1) pos t unat_less_128 [of ?fees]
    have g: "share_total ups + unat um = (\<Sum>s\<leftarrow>?as. unat ?fees * s div unat ?tot)" "stake_sum ups \<le> sum_list ?as"
        "\<forall>x \<in> set ups. snd (snd x) \<noteq> 0"
      by (simp_all add: stake_sum_def)
    have le: "share_total ups + unat um \<le> unat ?fees" using g(1) fl(1) t pos by simp
    have "unat um * stake_sum ups \<le> unat ?fees * sum_list ?as" using le g(2) by (intro mult_le_mono) simp_all
    then have "share_total (spread_unmatched um ups) = share_total ups + unat um"
      using False g(2,3) le assms as unat_less_128 [of ?fees] by (intro spread_total) simp_all
    moreover have "native_transfers (compute_gas_fee_distribution_diff E l)
        = map (\<lambda>(i, share, _). (i, share)) (sort_key fst (spread_unmatched um ups))"
      "gas_fee_spent (compute_gas_fee_distribution_diff E l) = ?fees"
      using False f by (simp_all add: compute_gas_fee_distribution_diff_def Let_def diff_default_def)
    moreover have "length ?as = length (get_active_validators (staking l))" by (simp add: as)
    moreover have "spread_unmatched um ups \<noteq> []"
      using False spread_ids [of um ups] by (metis image_is_empty set_empty)
    then have "\<exists>x \<in> set (get_active_validators (staking l)). matched E l x"
      using ids \<open>native_transfers _ = _\<close> by (metis (no_types, lifting) Collect_empty_eq image_is_empty map_is_Nil_conv set_empty set_sort)
    ultimately show ?thesis
      using g(1) le fl(2) t pos ids by (simp add: total_in_shares Let_def)
  qed
qed

section \<open>Emission\<close>

lemma denominator_vanishes: "(10000 :: u128) ^ n = 0 \<longleftrightarrow> 32 \<le> n"
proof -
  have "(10000 :: u128) ^ n = word_of_nat (10000 ^ n)" by simp
  then have "(10000 :: u128) ^ n = 0 \<longleftrightarrow> (2::nat) ^ 128 dvd 10000 ^ n"
    by (simp only: word_of_nat_eq_0_iff) simp
  also have "(10000::nat) ^ n = 2 ^ (4 * n) * 625 ^ n"
    by (simp add: power_mult flip: power_mult_distrib)
  also have "(2::nat) ^ 128 dvd 2 ^ (4 * n) * 625 ^ n \<longleftrightarrow> (2::nat) ^ 128 dvd 2 ^ (4 * n)"
    by (rule coprime_dvd_mult_left_iff) (simp only: coprime_power_left_iff coprime_power_right_iff coprime_left_2_iff_odd, simp)
  also have "\<dots> \<longleftrightarrow> 32 \<le> n"
    by (subst dvd_power_iff_le) auto
  finally show ?thesis .
qed

lemma unat_power_128: "unat ((of_nat a :: u128) ^ n) = a ^ n mod 2 ^ 128"
  by (simp add: unat_of_nat flip: of_nat_power)

lemma year_emission_value:
  assumes "unat y < 32"
  shows "\<exists>e. year_emission y = Some e
    \<and> unat e = min (25000000 * 10 ^ 9 * (8000 ^ unat y mod 2 ^ 128)) (2 ^ 128 - 1) div (10000 ^ unat y mod 2 ^ 128)"
proof -
  have "unat ((8000 :: u128) ^ unat y) = 8000 ^ unat y mod 2 ^ 128" "unat ((10000 :: u128) ^ unat y) = 10000 ^ unat y mod 2 ^ 128"
    using unat_power_128 [of 8000] unat_power_128 [of 10000] by simp_all
  moreover have "year_emission y = Some (saturating_mul 25000000000000000 (8000 ^ unat y) div 10000 ^ unat y)"
    using assms by (simp add: year_emission_def Let_def denominator_vanishes EMISSION_DECAY_BPS_PER_YEAR_def EMISSION_YEAR1_TLKD_def
        ONE_TLKD_def) (simp add: saturating_mul_def)
  ultimately show ?thesis by (simp add: unat_div unat_saturating_mul)
qed

lemma numerator_vanishes:
  assumes "22 \<le> n"
  shows "8000 ^ n mod 2 ^ 128 = (0 :: nat)"
proof -
  have "(8000 :: nat) ^ n = 2 ^ (6 * n) * 125 ^ n"
    by (simp add: power_mult flip: power_mult_distrib)
  moreover have "(2 :: nat) ^ 128 dvd 2 ^ (6 * n)" using assms by (intro le_imp_power_dvd) simp
  ultimately show ?thesis by (simp add: dvd_eq_mod_eq_0 [symmetric] del: dvd_imp_mod_0)
qed

text \<open>
  C15. The emission of every year: below year 32 it is the first year's emission times the power of
  8000, reduced modulo 2 to the 128 and the product capped at the largest 128-bit number, divided
  by the power of 10000, reduced in the same way. So it follows the intended formula for six
  years only, up to year 5; in years 6 to 9 the quotient of the largest 128-bit number is emitted
  instead, a small fraction of it; in years 22 to 31 nothing is; and from year 32 the denominator
  is zero and the division panics.
\<close>

theorem emission_schedule:
  "(unat y < 32 \<longrightarrow> (\<exists>e. year_emission y = Some e
      \<and> unat e = min (25000000 * 10 ^ 9 * (8000 ^ unat y mod 2 ^ 128)) (2 ^ 128 - 1) div (10000 ^ unat y mod 2 ^ 128)))
   \<and> (unat y \<le> 5 \<longrightarrow> year_emission y = Some (of_nat (25000000 * 10 ^ 9 * 8000 ^ unat y div 10000 ^ unat y)))
   \<and> (6 \<le> unat y \<and> unat y \<le> 9 \<longrightarrow> year_emission y = Some (of_nat ((2 ^ 128 - 1) div 10000 ^ unat y)))
   \<and> (22 \<le> unat y \<and> unat y < 32 \<longrightarrow> year_emission y = Some 0)
   \<and> (year_emission y = None \<longleftrightarrow> 32 \<le> unat y)"
proof (intro conjI impI)
  assume "unat y \<le> 5"
  then have "unat y = 0 \<or> unat y = 1 \<or> unat y = 2 \<or> unat y = 3 \<or> unat y = 4 \<or> unat y = 5" by auto
  then show "year_emission y = Some (of_nat (25000000 * 10 ^ 9 * 8000 ^ unat y div 10000 ^ unat y))"
    by (elim disjE) (simp_all add: year_emission_def EMISSION_DECAY_BPS_PER_YEAR_def EMISSION_YEAR1_TLKD_def ONE_TLKD_def saturating_mul_def)
next
  assume "6 \<le> unat y \<and> unat y \<le> 9"
  then have "unat y = 6 \<or> unat y = 7 \<or> unat y = 8 \<or> unat y = 9" by auto
  then show "year_emission y = Some (of_nat ((2 ^ 128 - 1) div 10000 ^ unat y))"
    by (elim disjE) (simp_all add: year_emission_def EMISSION_DECAY_BPS_PER_YEAR_def EMISSION_YEAR1_TLKD_def ONE_TLKD_def saturating_mul_def)
next
  assume y: "22 \<le> unat y \<and> unat y < 32"
  then obtain e where "year_emission y = Some e" "unat e = 0"
    using year_emission_value [of y] numerator_vanishes [of "unat y"] by auto
  then show "year_emission y = Some 0" by (simp add: unat_eq_0)
next
  show "year_emission y = None \<longleftrightarrow> 32 \<le> unat y"
    by (simp add: year_emission_def Let_def denominator_vanishes)
qed (rule year_emission_value)

text \<open>
  From year 32 on the payment at the start of an epoch does not return, and before that it
  always does.
\<close>

theorem emission_halts:
  "pay_epoch_emission E h l = None \<longleftrightarrow> last_emission_epoch l < h div EMISSION_EPOCH_BLOCKS \<and> 32 \<le> unat (emission_year h)"
  by (auto simp: pay_epoch_emission_def compute_epoch_emission_def year_emission_def denominator_vanishes Let_def not_le
      split: option.splits if_splits)

lemma pay_share_supply:
  assumes "accounts_ok l" and "native_supply l + unat share < 2 ^ 128"
  shows "accounts_ok (pay_emission_share E pk share l)"
    and "native_supply (pay_emission_share E pk share l) = native_supply l + unat share"
    and "cells (pay_emission_share E pk share l) = cells l"
proof -
  let ?i = "account_id_from_pubkey E pk"
  let ?a = "account_or (blank_account\<lparr>pubkey_bytes := pk\<rparr>) ?i l"
  have v: "account_value ?a = account_value (account_or blank_account ?i l)"
    by (simp add: account_or_def account_value_def blank_account_def split: option.split)
  have "unat (acct_balance ?a) \<le> native_supply l"
    using om.total_ge [of "accounts l" ?i _ account_value] assms(1)
    by (auto simp: account_or_def blank_account_def native_supply_def accounts_ok_def account_value_def split: option.split)
  then have "unat (saturating_add (acct_balance ?a) share) = unat (acct_balance ?a) + unat share"
    using assms(2) by (simp add: unat_saturating_add)
  then have "account_value (?a\<lparr>acct_balance := saturating_add (acct_balance ?a) share\<rparr>) = account_value ?a + unat share"
    by (simp add: account_value_def)
  then show "native_supply (pay_emission_share E pk share l) = native_supply l + unat share"
    using supply_put_or_blank [OF assms(1), of ?i "?a\<lparr>acct_balance := saturating_add (acct_balance ?a) share\<rparr>"] v
    by (simp add: pay_emission_share_def Let_def)
qed (use assms(1) in \<open>simp_all add: pay_emission_share_def Let_def set_account_def accounts_ok_def om_inv_put\<close>)

text \<open>The last validator takes what the others left, so the whole amount is paid.\<close>

lemma pay_emission_supply:
  assumes "accounts_ok l" and "es \<noteq> []" and "native_supply l + (unat em - unat allocated) < 2 ^ 128"
    and "unat allocated + (\<Sum>w\<leftarrow>map (unat \<circ> snd) es. unat em * w div unat tot) \<le> unat em"
  shows "native_supply (pay_emission E em tot es allocated l) = native_supply l + (unat em - unat allocated)
    \<and> cells (pay_emission E em tot es allocated l) = cells l"
  using assms
proof (induction E em tot es allocated l rule: pay_emission.induct)
  case (2 E em tot pk s allocated l)
  then show ?case
    using pay_share_supply [of l "saturating_sub em allocated" E pk] by (simp add: unat_saturating_sub)
next
  case (3 E em tot pk s e es allocated l)
  let ?share = "saturating_mul em (ucast s) div ucast tot :: u128"
  have sh: "unat ?share \<le> unat em * unat s div unat tot"
    by (simp add: unat_div unat_saturating_mul div_le_mono)
  then have a: "unat (saturating_add allocated ?share) = unat allocated + unat ?share"
    using 3(5) unat_less_128 [of em] by (simp add: unat_saturating_add)
  have b: "unat allocated + unat ?share \<le> unat em" using 3(5) sh by simp
  note p = pay_share_supply [OF 3(2), of ?share E pk]
  have "native_supply l + unat ?share < 2 ^ 128" using 3(4) b by simp
  note p = p [OF this]
  show ?case
    using 3(1) [OF refl p(1)] 3(4,5) sh a b p(2,3) by (simp add: Let_def)
qed simp

definition emission_due :: "('z) ledger_env_scheme \<Rightarrow> u64 \<Rightarrow> ledger \<Rightarrow> u128" where
  "emission_due E h l = (if h div EMISSION_EPOCH_BLOCKS \<le> last_emission_epoch l then 0
     else case compute_epoch_emission h l of None \<Rightarrow> 0
       | Some em \<Rightarrow> min em (case cell_at l (treasury_id E) of Some c \<Rightarrow> acc_balance c | None \<Rightarrow> 0))"

lemma active_positive: "x \<in> set (get_active_validators st) \<Longrightarrow> snd x > 0"
  by (auto simp: get_active_validators_def is_active_def MIN_VALIDATOR_STAKE_def word_gt_0 split: if_splits)

lemma active_filter: "filter (\<lambda>x. snd x > 0) (get_active_validators st) = get_active_validators st"
  by (simp add: filter_id_conv active_positive)

lemma supply_simps:
  "native_supply (l\<lparr>accumulated_epoch_fees := f\<rparr>) = native_supply l" "cell_supply (l\<lparr>accumulated_epoch_fees := f\<rparr>) = cell_supply l"
  "native_supply (l\<lparr>last_emission_epoch := e\<rparr>) = native_supply l" "cell_supply (l\<lparr>last_emission_epoch := e\<rparr>) = cell_supply l"
  "native_supply (on_cells g l) = native_supply l" "accounts_ok (on_cells g l) = accounts_ok l" "staking (on_cells g l) = staking l"
  by (simp_all add: native_supply_def cell_supply_def accounts_ok_def on_cells_def)

lemma treasury_debit:
  assumes "om_inv (cst_cells (cells l))" and "cell_at l cid = Some c" and "em \<le> acc_balance c"
  shows "cell_supply (on_cells (set_cell cid (c\<lparr>acc_balance := saturating_sub (acc_balance c) em\<rparr>)) l) + unat em = cell_supply l"
  using om.total_put [OF assms(1), of cid c "\<lambda>c. unat (acc_balance c)" "c\<lparr>acc_balance := saturating_sub (acc_balance c) em\<rparr>"] assms(2,3)
  by (simp add: cell_supply_def on_cells_def set_cell_def cell_at_def unat_saturating_sub word_le_nat_alt)

lemma pay_epoch_emission_cases:
  assumes "pay_epoch_emission E h l = Some l'"
  obtains (nothing) "emission_due E h l = 0" and "native_supply l' = native_supply l" and "accounts l' = accounts l" and "cells l' = cells l"
  | (paid) c l1 where "cell_at l (treasury_id E) = Some c" and "emission_due E h l \<le> acc_balance c"
      and "l1 = on_cells (set_cell (treasury_id E) (c\<lparr>acc_balance := saturating_sub (acc_balance c) (emission_due E h l)\<rparr>)) l"
      and "l' = (if sum_list (map snd (get_active_validators (staking l))) > 0
          then pay_emission E (emission_due E h l) (sum_list (map snd (get_active_validators (staking l))))
            (get_active_validators (staking l)) 0 l1 else l1)
        \<lparr>accumulated_epoch_fees := 0, last_emission_epoch := h div EMISSION_EPOCH_BLOCKS\<rparr>"
proof -
  let ?epoch = "h div EMISSION_EPOCH_BLOCKS"
  let ?tb = "case cell_at l (treasury_id E) of Some c \<Rightarrow> acc_balance c | None \<Rightarrow> 0"
  show thesis
  proof (cases "?epoch \<le> last_emission_epoch l")
    case True
    then have "l' = l" "emission_due E h l = 0"
      using assms by (simp_all add: pay_epoch_emission_def emission_due_def)
    then show thesis by (intro that(1)) simp_all
  next
    case False
    then obtain em where em: "compute_epoch_emission h l = Some em"
      using assms by (cases "compute_epoch_emission h l") (simp_all add: pay_epoch_emission_def Let_def)
    have due: "emission_due E h l = min em ?tb" using False em by (simp add: emission_due_def)
    note u = assms [unfolded pay_epoch_emission_def Let_def if_not_P [OF False] em option.case]
    show thesis
    proof (cases "min em ?tb = 0")
      case True
      then show thesis
        using u due by (cases "em = 0") (auto intro!: that(1) simp: supply_simps)
    next
      case f: False
      then obtain c where c: "cell_at l (treasury_id E) = Some c" by (cases "cell_at l (treasury_id E)") simp_all
      have "em \<noteq> 0" using f by auto
      show thesis
        by (rule that(2) [OF c _ refl]) (use u f \<open>em \<noteq> 0\<close> due c in \<open>simp_all add: active_filter supply_simps cong: if_cong\<close>)
    qed
  qed
qed

lemma pay_share_balance:
  assumes "accounts_ok l" and "native_supply l + unat share < 2 ^ 128"
  shows "balance_of i (pay_emission_share E pk share l) = balance_of i l + (if i = account_id_from_pubkey E pk then unat share else 0)"
    and "i \<noteq> account_id_from_pubkey E pk \<Longrightarrow> om_get (accounts (pay_emission_share E pk share l)) i = om_get (accounts l) i"
proof -
  let ?i = "account_id_from_pubkey E pk"
  let ?a = "account_or (blank_account\<lparr>pubkey_bytes := pk\<rparr>) ?i l"
  have b: "unat (acct_balance ?a) = balance_of ?i l"
    by (simp add: account_or_def balance_of_def blank_account_def split: option.split)
  have "unat (acct_balance ?a) \<le> native_supply l"
    using om.total_ge [of "accounts l" ?i _ account_value] assms(1)
    by (auto simp: account_or_def blank_account_def native_supply_def accounts_ok_def account_value_def split: option.split)
  then have "unat (saturating_add (acct_balance ?a) share) = balance_of ?i l + unat share"
    using assms(2) b by (simp add: unat_saturating_add)
  then show "balance_of i (pay_emission_share E pk share l) = balance_of i l + (if i = ?i then unat share else 0)"
    using assms(1) by (simp add: pay_emission_share_def Let_def balance_of_set)
  show "i \<noteq> ?i \<Longrightarrow> om_get (accounts (pay_emission_share E pk share l)) i = om_get (accounts l) i"
    using assms(1) by (simp add: pay_emission_share_def Let_def get_set_account)
qed

lemma pay_emission_balances:
  assumes "accounts_ok l" and "es \<noteq> []" and "native_supply l + (unat em - unat allocated) < 2 ^ 128"
    and "unat allocated + (\<Sum>w\<leftarrow>map (unat \<circ> snd) es. unat em * w div unat tot) \<le> unat em"
    and "\<forall>x \<in> set es. unat em * unat (snd x) < 2 ^ 128"
  shows "(\<forall>i. balance_of i l \<le> balance_of i (pay_emission E em tot es allocated l))
    \<and> (\<forall>x \<in> set es. balance_of (account_id_from_pubkey E (fst x)) l + unat em * unat (snd x) div unat tot
        \<le> balance_of (account_id_from_pubkey E (fst x)) (pay_emission E em tot es allocated l))
    \<and> (\<forall>i. i \<notin> (\<lambda>x. account_id_from_pubkey E (fst x)) ` set es
        \<longrightarrow> om_get (accounts (pay_emission E em tot es allocated l)) i = om_get (accounts l) i)"
  using assms
proof (induction E em tot es allocated l rule: pay_emission.induct)
  case (2 E em tot pk s allocated l)
  then have "native_supply l + unat (saturating_sub em allocated) < 2 ^ 128" by (simp add: unat_saturating_sub)
  then show ?case
    using 2 pay_share_balance [of l "saturating_sub em allocated" _ E pk] by (simp add: unat_saturating_sub)
next
  case (3 E em tot pk s e es allocated l)
  let ?share = "saturating_mul em (ucast s) div ucast tot :: u128"
  have sh: "unat ?share = unat em * unat s div unat tot"
    using 3(6) by (simp add: unat_div unat_saturating_mul)
  then have a: "unat (saturating_add allocated ?share) = unat allocated + unat ?share"
    using 3(5) unat_less_128 [of em] by (simp add: unat_saturating_add)
  have b: "unat allocated + unat ?share \<le> unat em" using 3(5) sh by simp
  have n: "native_supply l + unat ?share < 2 ^ 128" using 3(4) b by simp
  note p = pay_share_supply [OF 3(2) n, of E pk] pay_share_balance [OF 3(2) n, of _ E pk]
  let ?l = "pay_emission_share E pk ?share l"
  have IH: "(\<forall>i. balance_of i ?l \<le> balance_of i (pay_emission E em tot (e # es) (saturating_add allocated ?share) ?l))
    \<and> (\<forall>x \<in> set (e # es). balance_of (account_id_from_pubkey E (fst x)) ?l + unat em * unat (snd x) div unat tot
        \<le> balance_of (account_id_from_pubkey E (fst x)) (pay_emission E em tot (e # es) (saturating_add allocated ?share) ?l))
    \<and> (\<forall>i. i \<notin> (\<lambda>x. account_id_from_pubkey E (fst x)) ` set (e # es)
        \<longrightarrow> om_get (accounts (pay_emission E em tot (e # es) (saturating_add allocated ?share) ?l)) i = om_get (accounts ?l) i)"
    using 3(4-6) a b sh p(2) by (intro 3(1) [OF refl p(1)]) simp_all
  have le: "balance_of i l \<le> balance_of i ?l" for i using p(4) [of i] by simp
  have eq: "pay_emission E em tot ((pk, s) # e # es) allocated l = pay_emission E em tot (e # es) (saturating_add allocated ?share) ?l"
    by (simp add: Let_def)
  show ?case
    unfolding eq
  proof (intro conjI allI ballI impI)
    show "balance_of i l \<le> balance_of i (pay_emission E em tot (e # es) (saturating_add allocated ?share) ?l)" for i
      using le [of i] IH order_trans by blast
    show "balance_of (account_id_from_pubkey E (fst x)) l + unat em * unat (snd x) div unat tot
        \<le> balance_of (account_id_from_pubkey E (fst x)) (pay_emission E em tot (e # es) (saturating_add allocated ?share) ?l)"
      if x: "x \<in> set ((pk, s) # e # es)" for x
    proof (cases "x = (pk, s)")
      case True
      then show ?thesis using p(4) [of "account_id_from_pubkey E pk"] sh IH [THEN conjunct1, THEN spec, of "account_id_from_pubkey E pk"] by simp
    next
      case False
      then show ?thesis
        using x IH [THEN conjunct2, THEN conjunct1] le [of "account_id_from_pubkey E (fst x)"] by (meson add_le_mono1 order_trans set_ConsD)
    qed
    show "om_get (accounts (pay_emission E em tot (e # es) (saturating_add allocated ?share) ?l)) i = om_get (accounts l) i"
      if "i \<notin> (\<lambda>x. account_id_from_pubkey E (fst x)) ` set ((pk, s) # e # es)" for i
      using that IH [THEN conjunct2, THEN conjunct2, THEN spec, of i] p(5) [of i] by simp
  qed
qed simp

definition cell_balance :: "bytes \<Rightarrow> ledger \<Rightarrow> nat" where
  "cell_balance cid l = (case cell_at l cid of Some c \<Rightarrow> unat (acc_balance c) | None \<Rightarrow> 0)"

text \<open>
  C12. Emission moves the amount due from the treasury cell to the active validators. The treasury
  loses exactly the amount due and no other cell changes; when a validator is active the accounts
  together gain exactly that amount, every active validator at least its proportional share
  rounded down, and no account of anybody else changes. When no validator is active the
  treasury is debited all the same and nobody is paid.
\<close>

theorem emission_moves:
  assumes "accounts_ok l" and "om_inv (cst_cells (cells l))" and "native_supply l + cell_supply l < 2 ^ 128"
    and "(\<Sum>x\<leftarrow>get_active_validators (staking l). unat (snd x)) < 2 ^ 64"
    and "unat (emission_due E h l) * (\<Sum>x\<leftarrow>get_active_validators (staking l). unat (snd x)) < 2 ^ 128"
    and "pay_epoch_emission E h l = Some l'"
  shows "let due = unat (emission_due E h l); act = get_active_validators (staking l); tot = (\<Sum>x\<leftarrow>act. unat (snd x)) in
    cell_balance (treasury_id E) l' + due = cell_balance (treasury_id E) l
    \<and> (\<forall>cid. cid \<noteq> treasury_id E \<longrightarrow> cell_at l' cid = cell_at l cid)
    \<and> native_supply l' = native_supply l + (if act = [] then 0 else due)
    \<and> (\<forall>x \<in> set act. balance_of (account_id_from_pubkey E (fst x)) l + due * unat (snd x) div tot
        \<le> balance_of (account_id_from_pubkey E (fst x)) l')
    \<and> (\<forall>i. i \<notin> (\<lambda>x. account_id_from_pubkey E (fst x)) ` set act \<longrightarrow> om_get (accounts l') i = om_get (accounts l) i)"
  using assms(6)
proof (cases rule: pay_epoch_emission_cases)
  case nothing
  then show ?thesis by (simp add: cell_balance_def cell_at_def balance_of_def)
next
  case (paid c l1)
  let ?act = "get_active_validators (staking l)" and ?em = "emission_due E h l"
  let ?tot = "sum_list (map snd ?act)"
  have d: "native_supply l1 = native_supply l" "accounts_ok l1" "accounts l1 = accounts l"
    using assms(1) by (simp_all add: paid(3) supply_simps)
  have cs: "cell_balance (treasury_id E) l1 + unat ?em = cell_balance (treasury_id E) l"
      "\<And>cid. cid \<noteq> treasury_id E \<Longrightarrow> cell_at l1 cid = cell_at l cid"
    using paid(1,2) assms(2)
    by (simp_all add: paid(3) cell_balance_def cell_at_def on_cells_def set_cell_def unat_saturating_sub word_le_nat_alt om.get_put)
  have t: "unat ?tot = (\<Sum>x\<leftarrow>?act. unat (snd x))"
    using unat_sum_list [of "map snd ?act"] assms(4) by (simp add: comp_def)
  show ?thesis
  proof (cases "?act = []")
    case True
    then show ?thesis using d cs by (simp add: paid(4) supply_simps) (simp add: cell_balance_def cell_at_def)
  next
    case False
    let ?l = "pay_emission E ?em ?tot ?act 0 l1"
    have "?tot > 0"
      using False active_positive [of "hd ?act" "staking l"] t by (cases ?act) (auto simp: word_less_nat_alt)
    moreover have fl: "(\<Sum>w\<leftarrow>map (unat \<circ> snd) ?act. unat ?em * w div unat ?tot) \<le> unat ?em"
    proof (intro floor_shares)
      show "sum_list (map (unat \<circ> snd) ?act) \<le> unat ?tot" by (simp only: t comp_def)
      show "0 < unat ?tot" using \<open>?tot > 0\<close> by (simp add: word_less_nat_alt)
    qed
    moreover have em: "unat ?em \<le> cell_supply l"
      using treasury_debit [OF assms(2) paid(1,2)] by simp
    moreover have "unat ?em * unat (snd x) < 2 ^ 128" if "x \<in> set ?act" for x
    proof -
      have "unat (snd x) \<le> (\<Sum>x\<leftarrow>?act. unat (snd x))" using that by (intro member_le_sum_list) auto
      then show ?thesis using assms(5) mult_le_mono2 order_le_less_trans by blast
    qed
    ultimately have "native_supply ?l = native_supply l + unat ?em" "cells ?l = cells l1"
        "\<forall>x \<in> set ?act. balance_of (account_id_from_pubkey E (fst x)) l1 + unat ?em * unat (snd x) div unat ?tot
          \<le> balance_of (account_id_from_pubkey E (fst x)) ?l"
        "\<forall>i. i \<notin> (\<lambda>x. account_id_from_pubkey E (fst x)) ` set ?act \<longrightarrow> om_get (accounts ?l) i = om_get (accounts l1) i"
      using pay_emission_supply [of l1 ?act ?em 0 ?tot E] pay_emission_balances [of l1 ?act ?em 0 ?tot E] False d(1,2) assms(3)
      by simp_all
    moreover have "l' = ?l\<lparr>accumulated_epoch_fees := 0, last_emission_epoch := h div EMISSION_EPOCH_BLOCKS\<rparr>"
      using paid(4) \<open>?tot > 0\<close> by simp
    ultimately show ?thesis
      using False cs d(3) t by (simp add: supply_simps) (simp add: cell_balance_def cell_at_def balance_of_def)
  qed
qed

section \<open>Timeouts and pruning\<close>

lemma pending_expire: "pending_oracle_requests (expire_request E rid l) = om_del rid (pending_oracle_requests l)"
  by (simp add: expire_request_def finalize_oracle_request_if_ready_def Let_def split: option.split)

lemma fold_om_del: "fold om_del ks m = filter (\<lambda>e. fst e \<notin> set ks) m"
  by (induction ks arbitrary: m) (auto simp: om_del_def intro: filter_cong)

lemma same_key: "distinct (map fst m) \<Longrightarrow> e \<in> set m \<Longrightarrow> e' \<in> set m \<Longrightarrow> fst e = fst e' \<Longrightarrow> e = e'"
  by (metis eq_key_imp_eq_value prod.collapse)

lemma key_of_part:
  assumes "distinct (map fst m)" and "S \<subseteq> set m" and "e \<in> set m"
  shows "fst e \<in> fst ` S \<longleftrightarrow> e \<in> S"
  using assms same_key [OF assms(1,3)] by (auto simp: image_iff)

lemma timeouts_exact:
  assumes "om_inv (pending_oracle_requests l)"
  shows "pending_oracle_requests (process_oracle_timeouts E h l) = filter (\<lambda>e. h < req_expires_at (snd e)) (pending_oracle_requests l)"
proof -
  let ?m = "pending_oracle_requests l"
  let ?S = "set (filter (\<lambda>e. h \<ge> req_expires_at (snd e)) ?m)"
  have "pending_oracle_requests (fold (expire_request E) ks l) = fold om_del ks (pending_oracle_requests l)" for ks
    by (induction ks arbitrary: l) (simp_all add: pending_expire)
  then have "pending_oracle_requests (process_oracle_timeouts E h l) = filter (\<lambda>e. fst e \<notin> fst ` ?S) ?m"
    by (simp only: process_oracle_timeouts_def fold_om_del set_map)
  also have "\<dots> = filter (\<lambda>e. h < req_expires_at (snd e)) ?m"
    using key_of_part [OF om_inv_distinct [OF assms], of ?S] by (intro filter_cong refl) (simp add: not_le)
  finally show ?thesis .
qed

lemma prune_oldest_parts:
  fixes m :: "(bytes, 'v) omap"
  assumes "om_inv m"
  obtains old new where "mset (old @ new) = mset m" and "sorted (map (\<lambda>e. (time (snd e), fst e)) (old @ new))"
    and "prune_oldest cap time m = filter (\<lambda>e. e \<notin> set old) m" and "length old = length m - cap"
proof -
  let ?g = "\<lambda>e. (time (snd e), fst e)"
  let ?ms = "sort_key ?g m" and ?n = "length m - cap"
  have "sort (map ?g m) = map ?g ?ms" by (rule properties_for_sort) simp_all
  then have keys: "map snd (take ?n (sort (map ?g m))) = map fst (take ?n ?ms)"
    by (simp add: take_map comp_def)
  have "set (take ?n ?ms) \<subseteq> set m" using set_take_subset [of ?n ?ms] by simp
  then have "fst e \<in> fst ` set (take ?n ?ms) \<longleftrightarrow> e \<in> set (take ?n ?ms)" if "e \<in> set m" for e
    using key_of_part [OF om_inv_distinct [OF assms] _ that] by blast
  then have "prune_oldest cap time m = filter (\<lambda>e. e \<notin> set (take ?n ?ms)) m"
    unfolding prune_oldest_def case_prod_unfold keys fold_om_del set_map
    by (cases "length m > cap") (simp_all cong: filter_cong)
  then show thesis
    by (intro that [of "take ?n ?ms" "drop ?n ?ms"]) simp_all
qed

lemma prune_oldest_spec:
  fixes m :: "(bytes, 'v) omap"
  assumes "om_inv m"
  shows "length (prune_oldest cap time m) = min cap (length m)"
    and "e \<in> set (prune_oldest cap time m) \<Longrightarrow> e \<in> set m"
    and "e \<in> set (prune_oldest cap time m) \<Longrightarrow> e' \<in> set m \<Longrightarrow> e' \<notin> set (prune_oldest cap time m)
      \<Longrightarrow> (time (snd e'), fst e') \<le> (time (snd e), fst e)"
proof -
  obtain old new where p: "mset (old @ new) = mset m" "sorted (map (\<lambda>e. (time (snd e), fst e)) (old @ new))"
      "prune_oldest cap time m = filter (\<lambda>e. e \<notin> set old) m" "length old = length m - cap"
    using prune_oldest_parts [OF assms] by blast
  have s: "set m = set old \<union> set new" using mset_eq_setD [OF p(1)] by auto
  have "distinct m" using om_inv_distinct [OF assms] distinct_map by blast
  then have "distinct (old @ new)" using mset_eq_imp_distinct_iff [OF p(1)] by simp
  then have "filter (\<lambda>e. e \<notin> set old) (old @ new) = new" by (auto simp: filter_id_conv filter_empty_conv)
  then have "length (filter (\<lambda>e. e \<notin> set old) m) = length new"
    using p(1) by (metis mset_filter size_mset)
  moreover have "length m = length old + length new" using p(1) by (metis length_append size_mset)
  ultimately show "length (prune_oldest cap time m) = min cap (length m)"
    using p(3,4) by simp
  show "e \<in> set m" if "e \<in> set (prune_oldest cap time m)" using that p(3) by simp
  show "(time (snd e'), fst e') \<le> (time (snd e), fst e)"
    if "e \<in> set (prune_oldest cap time m)" "e' \<in> set m" "e' \<notin> set (prune_oldest cap time m)"
    using that p(2,3) s by (auto simp: sorted_append)
qed

section \<open>The end of a block\<close>

text \<open>The collections that pruning bounds.\<close>

definition collections :: "ledger \<Rightarrow> _" where
  "collections l = (pending_oracle_requests l, oracle_results l, name_registry l, schema_registry l, pending_names l,
     token_authority_proposals l, url_proposals l, schema_proposals l, airdrop_claims l)"

lemma collections_credit: "collections (snd (each credit_native xs l)) = collections l"
  by (induction xs arbitrary: l)
    (auto simp: then_step_def credit_native_def set_account_def collections_def Let_def split: prod.split sum.split option.split)

lemma distribution_applies:
  "apply_diff E (diff_default\<lparr>is_system := True, gas_fee_spent := f, native_transfers := xs\<rparr>) l
    = then_step (each credit_native xs) (spend_gas_fees (diff_default\<lparr>gas_fee_spent := f\<rparr>)) l"
  by (simp add: apply_diff_def then_step_def always_def record_tx_def collect_name_fee_def spend_gas_fees_def spend_name_fees_def
      spend_compute_fees_def spend_treasury_fees_def vote_authorities_def count_minted_def diff_default_def split: prod.split sum.split)

lemma distribution_shape:
  "\<exists>xs. compute_gas_fee_distribution_diff E l = diff_default\<lparr>is_system := True, gas_fee_spent := accumulated_gas_fees l, native_transfers := xs\<rparr>"
  by (auto simp: compute_gas_fee_distribution_diff_def Let_def diff_default_def split: prod.split)

lemma collections_distribute: "collections (distribute_gas_fees E l) = collections l"
proof -
  have "collections (snd (spend_gas_fees d l)) = collections l" for d l
    by (simp add: spend_gas_fees_def collections_def)
  then have "collections (snd (then_step (each credit_native xs) (spend_gas_fees d) l)) = collections l" for xs d
    using collections_credit [of xs l] by (auto simp: then_step_def split: prod.split sum.split)
  then show ?thesis
    using distribution_shape [of E l] by (auto simp: distribute_gas_fees_def distribution_applies)
qed

lemma gas_fees_spent:
  "accumulated_gas_fees (distribute_gas_fees E l) = 0 \<or> fst (apply_diff E (compute_gas_fee_distribution_diff E l) l) \<noteq> Inr ()"
proof -
  have c: "accumulated_gas_fees (snd (each credit_native xs l)) = accumulated_gas_fees l" for xs
    by (induction xs arbitrary: l)
      (auto simp: then_step_def credit_native_def set_account_def Let_def split: prod.split sum.split option.split)
  obtain xs where x: "compute_gas_fee_distribution_diff E l
      = diff_default\<lparr>is_system := True, gas_fee_spent := accumulated_gas_fees l, native_transfers := xs\<rparr>"
    using distribution_shape by blast
  show ?thesis
    unfolding distribute_gas_fees_def x distribution_applies
    using c [of xs] by (auto simp: then_step_def spend_gas_fees_def rust_int word_gt_0 split: prod.splits sum.splits)
qed

lemma collections_emission:
  assumes "pay_epoch_emission E h l = Some l'"
  shows "collections l' = collections l"
proof -
  have "collections (pay_emission E em tot es a l) = collections l" for em tot es a l
    by (induction E em tot es a l rule: pay_emission.induct)
      (simp_all add: pay_emission_share_def set_account_def collections_def Let_def)
  then show ?thesis
    using assms by (auto simp: pay_epoch_emission_def collections_def on_cells_def Let_def split: option.splits if_splits)
qed

definition maps_ok :: "ledger \<Rightarrow> bool" where
  "maps_ok l \<longleftrightarrow> om_inv (pending_oracle_requests l) \<and> om_inv (oracle_results l) \<and> om_inv (name_registry l)
     \<and> om_inv (schema_registry l) \<and> om_inv (pending_names l) \<and> om_inv (token_authority_proposals l)
     \<and> om_inv (url_proposals l) \<and> om_inv (schema_proposals l) \<and> om_inv (airdrop_claims l)"

lemma om_inv_filter: "om_inv m \<Longrightarrow> om_inv (filter P m)"
  by (induction m) (auto simp: om_inv_Cons)

lemma maps_ok_timeouts: "maps_ok l \<Longrightarrow> maps_ok (process_oracle_timeouts E h l)"
proof -
  have "maps_ok l \<Longrightarrow> maps_ok (expire_request E rid l)" for rid l
    by (simp add: expire_request_def finalize_oracle_request_if_ready_def Let_def maps_ok_def om_inv_put om_inv_filter om_del_def split: option.split)
  then have "maps_ok l \<Longrightarrow> maps_ok (fold (expire_request E) ks l)" for ks l
    by (induction ks arbitrary: l) simp_all
  then show "maps_ok l \<Longrightarrow> maps_ok (process_oracle_timeouts E h l)"
    by (simp add: process_oracle_timeouts_def)
qed

text \<open>
  C13. The end of a block keeps the state bounded: no oracle request is pending at or after its
  deadline, no oracle result and no name is kept beyond its expiry, and the eight collections
  that anyone can add to are within their limits.
\<close>

theorem maintenance_bounds:
  assumes "maps_ok l" and "run_end_of_block_maintenance E h l = Some l'"
  shows "(\<forall>e \<in> set (pending_oracle_requests l'). h < req_expires_at (snd e))
    \<and> (\<forall>e \<in> set (oracle_results l'). \<not> is_expired (snd e) h) \<and> (\<forall>e \<in> set (name_registry l'). h \<le> nreg_expires_at (snd e))
    \<and> length (oracle_results l') \<le> 1000 \<and> length (name_registry l') \<le> 100000 \<and> length (schema_registry l') \<le> 10000
    \<and> length (pending_names l') \<le> 1000 \<and> length (token_authority_proposals l') \<le> 256 \<and> length (url_proposals l') \<le> 256
    \<and> length (schema_proposals l') \<le> 256 \<and> length (airdrop_claims l') \<le> 50000"
proof -
  let ?l1 = "process_oracle_timeouts E h l"
  let ?l2 = "prune_expired_oracle_results h ?l1"
  let ?l3 = "prune_state_collections h ?l2"
  have "collections l' = collections ?l3"
    using assms(2) collections_distribute [of E ?l3]
    by (auto simp: run_end_of_block_maintenance_def Let_def dest: collections_emission split: if_splits)
  then have c: "pending_oracle_requests l' = pending_oracle_requests ?l2"
      "oracle_results l' = prune_oldest 1000 res_expires_at (oracle_results ?l2)"
      "name_registry l' = prune_oldest 100000 nreg_registered_at (filter (\<lambda>e. \<not> h > nreg_expires_at (snd e)) (name_registry ?l2))"
      "schema_registry l' = prune_oldest 10000 sce_created_at (schema_registry ?l2)"
      "pending_names l' = prune_oldest 1000 reg_proposed_at (pending_names ?l2)"
      "token_authority_proposals l' = prune_oldest 256 tap_created_at (token_authority_proposals ?l2)"
      "url_proposals l' = prune_oldest 256 created_at (url_proposals ?l2)"
      "schema_proposals l' = prune_oldest 256 scp_created_at (schema_proposals ?l2)"
      "airdrop_claims l' = prune_oldest 50000 id (airdrop_claims ?l2)"
    by (simp_all add: collections_def prune_state_collections_def)
  have "maps_ok ?l1" using maps_ok_timeouts [OF assms(1)] .
  then have ok: "maps_ok ?l2" "om_inv (filter (\<lambda>e. \<not> h > nreg_expires_at (snd e)) (name_registry ?l2))"
    by (simp_all add: maps_ok_def prune_expired_oracle_results_def om_inv_filter)
  have "\<forall>e \<in> set (pending_oracle_requests ?l2). h < req_expires_at (snd e)"
    using timeouts_exact [of l E h] assms(1) by (simp add: maps_ok_def prune_expired_oracle_results_def)
  moreover have "om_inv (oracle_results ?l2)" using ok(1) by (simp add: maps_ok_def)
  then have "set (oracle_results l') \<subseteq> set (oracle_results ?l2)"
    unfolding c(2) using prune_oldest_spec(2) by blast
  then have "\<forall>e \<in> set (oracle_results l'). \<not> is_expired (snd e) h"
    by (auto simp: prune_expired_oracle_results_def)
  moreover have "set (name_registry l') \<subseteq> set (filter (\<lambda>e. \<not> h > nreg_expires_at (snd e)) (name_registry ?l2))"
    unfolding c(3) using prune_oldest_spec(2) [OF ok(2)] by blast
  then have "\<forall>e \<in> set (name_registry l'). h \<le> nreg_expires_at (snd e)"
    by auto
  ultimately show ?thesis
    using ok unfolding c maps_ok_def by (simp add: prune_oldest_spec(1))
qed

section \<open>A chain with a validator and a treasury\<close>

definition treasury_ledger :: ledger where
  "treasury_ledger = demo_ledger\<lparr>staking := staking_new\<lparr>validators := [([7], validator_new 10000000000)]\<rparr>,
     cells := cell_state_new\<lparr>cst_cells := [(treasury_id demo_chain,
       fresh_cell (cells_env_of demo_chain) (treasury_id demo_chain) [] 5000 0)]\<rparr>,
     accumulated_gas_fees := 100, accumulated_treasury_fees := 1000\<rparr>"

lemma treasury_ledger_active: "get_active_validators (staking treasury_ledger) = [([7], 10000000000)]"
  by (simp add: treasury_ledger_def staking_new_def get_active_validators_def validator_new_def is_active_def MIN_VALIDATOR_STAKE_def)

lemma treasury_ledger_ok: "accounts_ok treasury_ledger" "om_inv (cst_cells (cells treasury_ledger))" "maps_ok treasury_ledger"
  by (simp_all add: accounts_ok_def treasury_ledger_def demo_ledger_def state_genesis_def cell_state_new_def om_inv_def maps_ok_def)

lemma treasury_ledger_fees: "accumulated_gas_fees treasury_ledger = 100" "accumulated_name_fees treasury_ledger = 0"
  "accumulated_compute_fees treasury_ledger = 0" "accumulated_treasury_fees treasury_ledger = 1000"
  by (simp_all add: treasury_ledger_def demo_ledger_def state_genesis_def)

lemma treasury_ledger_supply: "native_supply treasury_ledger = 2200" "cell_supply treasury_ledger = 5000"
  by (simp_all add: treasury_ledger_def demo_ledger_def demo_account_def native_supply_def account_value_def om_total_def cell_supply_def fresh_cell_def)

lemma treasury_ledger_cell:
  "cell_at treasury_ledger (treasury_id demo_chain) = Some (fresh_cell (cells_env_of demo_chain) (treasury_id demo_chain) [] 5000 0)"
  by (simp add: treasury_ledger_def cell_at_def cell_state_new_def om_get_def)

lemma treasury_ledger_distributes: "\<exists>d. compute_treasury_distribution_diff demo_chain treasury_ledger = Inr d"
  by (simp add: compute_treasury_distribution_diff_def treasury_ledger_cell treasury_ledger_fees Let_def fresh_cell_def split: prod.split)

theorem revenue_distribution_exact_witness:
  "\<exists>d. compute_treasury_distribution_diff demo_chain treasury_ledger = Inr d
     \<and> total_in (staking_rewards d) + total_in (native_transfers d) + unat (fee_burned d) = 1100 \<and> gas_fee_spent d = 100"
proof -
  obtain d where d: "compute_treasury_distribution_diff demo_chain treasury_ledger = Inr d"
    using treasury_ledger_distributes by blast
  then show ?thesis
    using revenue_distribution_exact [OF d] by (simp add: treasury_ledger_fees treasury_ledger_active)
qed

theorem emission_schedule_witness:
  "year_emission 2 = Some 16000000000000000 \<and> year_emission 6 = Some 340282366920938 \<and> year_emission 25 = Some 0
   \<and> year_emission 31 \<noteq> None \<and> year_emission 32 = None"
  using emission_schedule [of 2] emission_schedule [of 6] emission_schedule [of 25] emission_schedule [of 31] emission_schedule [of 32]
  by simp

lemma treasury_ledger_due: "emission_due demo_chain 432000 treasury_ledger = 5000"
  by (simp add: emission_due_def treasury_ledger_cell compute_epoch_emission_def year_emission_def Let_def emission_year_def
      EMISSION_EPOCH_BLOCKS_def BLOCKS_PER_YEAR_def EMISSION_YEAR1_TLKD_def ONE_TLKD_def saturating_mul_def fresh_cell_def)
    (simp add: treasury_ledger_def demo_ledger_def state_genesis_def)

theorem emission_moves_witness:
  "\<exists>l'. pay_epoch_emission demo_chain 432000 treasury_ledger = Some l' \<and> cell_balance (treasury_id demo_chain) l' = 0
     \<and> native_supply l' = 7200 \<and> 5000 \<le> balance_of (account_id_from_pubkey demo_chain [7]) l'"
proof -
  have "pay_epoch_emission demo_chain 432000 treasury_ledger \<noteq> None"
    by (simp add: pay_epoch_emission_def compute_epoch_emission_def year_emission_def denominator_vanishes emission_year_def
        EMISSION_EPOCH_BLOCKS_def BLOCKS_PER_YEAR_def Let_def split: option.split)
  then obtain l' where l': "pay_epoch_emission demo_chain 432000 treasury_ledger = Some l'" by blast
  have "cell_balance (treasury_id demo_chain) treasury_ledger = 5000"
    by (simp add: cell_balance_def treasury_ledger_cell fresh_cell_def)
  then show ?thesis
    using emission_moves [OF treasury_ledger_ok(1,2) _ _ _ l'] l'
    by (simp add: treasury_ledger_supply treasury_ledger_active treasury_ledger_due Let_def)
qed

definition paying_ledger :: ledger where
  "paying_ledger = set_account (account_id_from_pubkey demo_chain [7]) (demo_account 7) treasury_ledger"

theorem gas_distribution_bounds_witness:
  "total_in (native_transfers (compute_gas_fee_distribution_diff demo_chain paying_ledger)) = 100
   \<and> fst ` set (native_transfers (compute_gas_fee_distribution_diff demo_chain paying_ledger)) = {account_id_from_pubkey demo_chain [7]}"
proof -
  have p: "accumulated_gas_fees paying_ledger = 100" "get_active_validators (staking paying_ledger) = [([7], 10000000000)]"
    by (simp_all add: paying_ledger_def set_account_def treasury_ledger_fees treasury_ledger_active)
  have "matched demo_chain paying_ledger ([7], 10000000000)"
    by (simp add: matched_def p) (simp add: paying_ledger_def get_set_account treasury_ledger_ok)
  then show ?thesis
    using gas_distribution_bounds [of paying_ledger demo_chain] by (auto simp: p Let_def)
qed

theorem maintenance_bounds_witness:
  "\<exists>l'. run_end_of_block_maintenance demo_chain 1 treasury_ledger = Some l' \<and> length (url_proposals l') \<le> 256"
proof -
  obtain l' where l': "run_end_of_block_maintenance demo_chain 1 treasury_ledger = Some l'"
    by (simp add: run_end_of_block_maintenance_def EMISSION_EPOCH_BLOCKS_def)
  then show ?thesis
    using maintenance_bounds [OF treasury_ledger_ok(3) l'] by simp
qed

end
