(* ===== verification/Chain.thy ===== *)
theory Chain
  imports Block_End Parallel_Paths
begin

text \<open>
  The state over the life of a chain: batches executed one transaction after another or in
  parallel, whole blocks and their ends, and diffs applied for the system, in any order. No
  nonce falls along such a history, so no applied transaction is accepted a second time;
  and the two paths of execution are compared on key rotation.
\<close>

section \<open>Account records in the diffs of transactions\<close>

text \<open>No record of a diff has a lower nonce than the account it is for.\<close>

definition timely :: "ledger \<Rightarrow> (bytes, account_record) omap \<Rightarrow> bool" where
  "timely l us \<longleftrightarrow> (\<forall>e \<in> set us. \<forall>a. om_get (accounts l) (fst e) = Some a \<longrightarrow> acct_nonce a \<le> acct_nonce (snd e))"

lemma timely_put:
  assumes "timely l us" and "\<And>b. om_get (accounts l) i = Some b \<Longrightarrow> acct_nonce b \<le> acct_nonce a"
  shows "timely l (om_put i a us)"
  using assms set_om_put [of i a us] unfolding timely_def by fastforce

lemma timely_get:
  assumes "timely l us" and "om_get us i = Some a" and "om_get (accounts l) i = Some b"
  shows "acct_nonce b \<le> acct_nonce a"
  using assms map_of_SomeD [of us i a] unfolding timely_def om_get_def by fastforce

text \<open>A step of a handler that keeps it so.\<close>

definition on_time :: "ledger \<Rightarrow> state_diff \<Rightarrow> state_diff \<Rightarrow> bool" where
  "on_time l d d' \<longleftrightarrow> (timely l (account_updates d) \<longrightarrow> timely l (account_updates d'))"

lemma on_time_trans: "on_time l d d1 \<Longrightarrow> on_time l d1 d2 \<Longrightarrow> on_time l d d2"
  by (simp add: on_time_def)

lemma on_time_same: "account_updates d' = account_updates d \<Longrightarrow> on_time l d d'"
  by (simp add: on_time_def)

lemma nonce_nft [simp]: "acct_nonce (drop_nft i a) = acct_nonce a" "acct_nonce (push_nft i a) = acct_nonce a"
  by (simp_all add: drop_nft_def push_nft_def)

lemmas on_time_defs = on_time_def put_account_def

lemma timely_put_found:
  assumes "timely l us" and "om_get us i = Some b" and "acct_nonce a = acct_nonce b"
  shows "timely l (om_put i a us)"
  using assms timely_get by (auto intro!: timely_put)

lemma timely_put_stored:
  assumes "timely l us" and "om_get (accounts l) i = Some b" and "acct_nonce a = acct_nonce b"
  shows "timely l (om_put i a us)"
  using assms by (auto intro!: timely_put)

lemma timely_put_new:
  assumes "timely l us" and "om_get (accounts l) i = None"
  shows "timely l (om_put i a us)"
  using assms by (auto intro!: timely_put)

lemmas timely_intros = timely_put_found timely_put_stored timely_put_new

lemma on_time_transfers:
  "compute_transfer_diff E l sender r pk amt sa d = Inr d' \<Longrightarrow> on_time l d d'"
  "compute_claim_diff E l sender r pk amt ts d = Inr d' \<Longrightarrow> on_time l d d'"
  "compute_rotate_key_diff E sender pk sa d = Inr d' \<Longrightarrow> om_get (accounts l) sender = Some sa \<Longrightarrow> on_time l d d'"
  by (auto simp: compute_transfer_diff_def compute_claim_diff_def compute_rotate_key_diff_def Let_def on_time_defs credit_of_def
      debit_of_def open_account_def split: if_splits option.splits sum.splits simp: timely_intros)

lemma on_time_batch: "compute_batch_transfer_diff E l sender ts sa d = Inr d' \<Longrightarrow> on_time l d d'"
proof -
  have "on_time l d (fold (batch_entry l) ts d)" for ts d
  proof (induction ts arbitrary: d)
    case (Cons t ts)
    have "on_time l d (batch_entry l t d)"
      by (auto simp: batch_entry_def on_time_defs credit_of_def open_account_def simp: timely_intros)
    then show ?case using Cons on_time_trans by auto
  qed (simp add: on_time_def)
  then have "on_time l d ((fold (batch_entry l) ts (debit_of sender c d))\<lparr>gas_fee := g\<rparr>)" for c g
    using on_time_trans [of l d "debit_of sender c d"] by (simp add: on_time_defs debit_of_def)
  then show "compute_batch_transfer_diff E l sender ts sa d = Inr d' \<Longrightarrow> on_time l d d'"
    by (auto simp: compute_batch_transfer_diff_def split: if_splits option.splits sum.splits)
qed

lemma records_escrow:
  "compute_wrap_trth_diff E sender amt sa d = Inr d' \<Longrightarrow> account_updates d' = account_updates d"
  "compute_unwrap_trth_diff E l sender amt d = Inr d' \<Longrightarrow> account_updates d' = account_updates d"
  "compute_deposit_compute_diff sender amt sa d = Inr d' \<Longrightarrow> account_updates d' = account_updates d"
  "compute_withdraw_compute_diff sender amt sa d = Inr d' \<Longrightarrow> account_updates d' = account_updates d"
  by (auto simp: compute_wrap_trth_diff_def compute_unwrap_trth_diff_def compute_deposit_compute_diff_def
      compute_withdraw_compute_diff_def Let_def credit_of_def debit_of_def split: if_splits option.splits sum.splits)

lemma records_urls:
  "compute_propose_url_diff l sender pat bond period ts sa d = Inr d' \<Longrightarrow> account_updates d' = account_updates d"
  "compute_vote_url_diff l pat approve sa d = Inr d' \<Longrightarrow> account_updates d' = account_updates d"
  "compute_report_malicious_url_diff l pat ev d = Inr d' \<Longrightarrow> account_updates d' = account_updates d"
  by (auto simp: compute_propose_url_diff_def compute_vote_url_diff_def compute_report_malicious_url_diff_def Let_def
      credit_of_def debit_of_def split: if_splits option.splits sum.splits)

lemma records_tokens:
  "compute_token_transfer_diff E l sender tok r amt d = Inr d' \<Longrightarrow> account_updates d' = account_updates d"
  "compute_token_mint_diff E l sender tok r amt d = Inr d' \<Longrightarrow> account_updates d' = account_updates d"
  "compute_token_burn_diff E l sender tok amt d = Inr d' \<Longrightarrow> account_updates d' = account_updates d"
  "compute_token_freeze_diff E l sender tok r d = Inr d' \<Longrightarrow> account_updates d' = account_updates d"
  "compute_token_thaw_diff E l sender tok r d = Inr d' \<Longrightarrow> account_updates d' = account_updates d"
  by (auto simp: compute_token_transfer_diff_def compute_token_mint_diff_def compute_token_burn_diff_def
      compute_token_freeze_diff_def compute_token_thaw_diff_def token_updates_def Let_def
      split: if_splits option.splits sum.splits)

lemma records_cells:
  "compute_transfer_ownership_diff E l sender cid new d = Inr d' \<Longrightarrow> account_updates d' = account_updates d"
  "compute_make_immutable_diff E l sender cid d = Inr d' \<Longrightarrow> account_updates d' = account_updates d"
  "compute_set_cell_visibility_diff E l sender cid vis d = Inr d' \<Longrightarrow> account_updates d' = account_updates d"
  "compute_oracle_commit_diff E l rid ch sa d = Inr d' \<Longrightarrow> account_updates d' = account_updates d"
  "compute_oracle_reveal_diff E l rid body status sa d = Inr d' \<Longrightarrow> account_updates d' = account_updates d"
  "compute_approve_nft_diff E l nid who sa d = Inr d' \<Longrightarrow> account_updates d' = account_updates d"
  by (auto simp: compute_transfer_ownership_diff_def compute_make_immutable_diff_def compute_set_cell_visibility_diff_def
      compute_oracle_commit_diff_def compute_oracle_reveal_diff_def slash_lie_def accept_reveal_def Let_def
      compute_approve_nft_diff_def split: if_splits option.splits sum.splits)

lemmas on_time_without_records = records_escrow [THEN on_time_same] records_urls [THEN on_time_same]
  records_tokens [THEN on_time_same] records_cells [THEN on_time_same]

lemma on_time_nfts:
  "compute_mint_nft_diff E l sender nid name uri coll bps rr ts d = Inr d' \<Longrightarrow> on_time l d d'"
  "compute_burn_nft_diff E sender nid sa d = Inr d' \<Longrightarrow> om_get (accounts l) sender = Some sa \<Longrightarrow> on_time l d d'"
  by (auto simp: compute_mint_nft_diff_def compute_burn_nft_diff_def Let_def on_time_defs
      split: if_splits option.splits sum.splits simp: timely_intros)

lemma on_time_royalty: "pay_royalty l n sender price sa d = Inr d' \<Longrightarrow> om_get (accounts l) sender = Some sa \<Longrightarrow> on_time l d d'"
  by (auto simp: pay_royalty_def Let_def on_time_defs split: if_splits option.splits simp: timely_intros)

lemma on_time_take: "take_from_owner l nid own d = Inr d' \<Longrightarrow> on_time l d d'"
  by (auto simp: take_from_owner_def on_time_defs split: option.splits simp: timely_intros)

lemma on_time_give: "give_to_recipient l nid r pk d = Inr d' \<Longrightarrow> on_time l d d'"
  by (auto simp: give_to_recipient_def on_time_defs split: if_splits option.splits simp: timely_intros)

lemma on_time_transfer_nft:
  assumes "compute_transfer_nft_diff E l sender nid r pk price sa d = Inr d'" and "om_get (accounts l) sender = Some sa"
  shows "on_time l d d'"
proof -
  from assms(1) obtain n d1 d2 d3 where s: "pay_royalty l n sender price sa d = Inr d1"
    "take_from_owner l nid (nft_owner n) d1 = Inr d2" "give_to_recipient l nid r pk d2 = Inr d3"
    and d': "d' = d3\<lparr>nft_updates := om_put nid (Some (n\<lparr>nft_owner := r, nft_approved := None\<rparr>)) (nft_updates d3),
      cu_fee := gas_of E ''gas.transfer_nft''\<rparr>"
    by (auto simp: compute_transfer_nft_diff_def split: option.splits if_splits sum.splits)
  have "on_time l d d3"
    using on_time_royalty [OF s(1) assms(2)] on_time_take [OF s(2)] on_time_give [OF s(3)] on_time_trans by blast
  then show ?thesis by (simp add: d' on_time_def)
qed

lemma on_time_lower: "om_get (accounts l) s = Some sa \<Longrightarrow> on_time l d (lower_balance s sa x d)"
  by (auto simp: lower_balance_def on_time_defs split: option.split simp: timely_intros)

lemma records_effects [simp]:
  "account_updates (take_effects r d) = account_updates d" "account_updates (take_oracle r d) = account_updates d"
  "account_updates (take_changes ks b a d) = account_updates d"
  by (simp_all add: take_effects_def take_oracle_def take_changes_def)

lemma records_fold_effects [simp]:
  "account_updates (fold (\<lambda>r d. take_oracle r (take_effects r d)) rs d) = account_updates d"
  by (induction rs arbitrary: d) simp_all

lemma on_time_paid: "pay_value s sa val d = Inr d' \<Longrightarrow> om_get (accounts l) s = Some sa \<Longrightarrow> on_time l d d'"
  using on_time_lower [of l s sa d] by (auto simp: pay_value_def on_time_def split: if_splits option.splits)

lemma on_time_update:
  "on_time l d0 d \<Longrightarrow> on_time l d0 (d\<lparr>cell_updates := us\<rparr>)" "on_time l d0 d \<Longrightarrow> on_time l d0 (d\<lparr>cu_fee := c\<rparr>)"
  "on_time l d0 d \<Longrightarrow> on_time l d0 (d\<lparr>cell_credits := cs\<rparr>)"
  "on_time l d0 d \<Longrightarrow> on_time l d0 (take_changes ks b a d)" "on_time l d0 d \<Longrightarrow> on_time l d0 (take_oracle r d)"
  "on_time l d0 d \<Longrightarrow> on_time l d0 (take_effects r d)"
  "on_time l d0 d \<Longrightarrow> on_time l d0 (fold (\<lambda>r d. take_oracle r (take_effects r d)) rs d)"
  by (simp_all add: on_time_def)

lemma on_time_refl: "on_time l d d"
  by (simp add: on_time_def)

lemma on_time_pay: "pay_value s sa val d = Inr d' \<Longrightarrow> om_get (accounts l) s = Some sa \<Longrightarrow> on_time l d0 d \<Longrightarrow> on_time l d0 d'"
  using on_time_paid on_time_trans by blast

lemma on_time_calls:
  "compute_call_cell_diff E l sender cid cd val g ts ht sa d = Inr d' \<Longrightarrow> om_get (accounts l) sender = Some sa \<Longrightarrow> on_time l d d'"
  "compute_call_chain_diff E l sender calls g sa mcp d = Inr d' \<Longrightarrow> om_get (accounts l) sender = Some sa \<Longrightarrow> on_time l d d'"
  by (auto simp: compute_call_cell_diff_def call_system_cell_def compute_call_chain_diff_def Let_def
      split: if_splits option.splits sum.splits
      intro!: on_time_update on_time_refl elim!: on_time_pay)

lemma on_time_deploys:
  assumes "om_get (accounts l) sender = Some sa"
  shows "compute_deploy_cell_diff E l sender cid raw ibal ts reads writes comm specs schemas sa d = Inr d' \<Longrightarrow> on_time l d d'"
  "compute_deploy_token_diff E l sender cid name symbol dec tot bps fee_to fixed ts sa d = Inr d' \<Longrightarrow> on_time l d d'"
  "compute_close_cell_diff E l sender cid d = Inr d' \<Longrightarrow> on_time l d d'"
  "propose_on_cell E l sender cid refused valid pt timelock sa d = Inr d' \<Longrightarrow> on_time l d d'"
  using assms
  by (auto simp: compute_deploy_cell_diff_def compute_deploy_token_diff_def compute_close_cell_diff_def propose_on_cell_def
      Let_def lower_balance_def on_time_def put_account_def split: if_splits option.splits sum.splits
      simp: timely_intros)

lemma records_governance:
  "compute_vote_cell_proposal_diff E l sender cid approve sa d = Inr d' \<Longrightarrow> account_updates d' = account_updates d"
  "compute_execute_cell_proposal_diff E l cid sa d = Inr d' \<Longrightarrow> account_updates d' = account_updates d"
  "compute_upgrade_cell_diff E l sender cid raw reads writes comm specs schemas ts d = Inr d' \<Longrightarrow> account_updates d' = account_updates d"
  by (auto simp: compute_vote_cell_proposal_diff_def compute_execute_cell_proposal_diff_def compute_upgrade_cell_diff_def
      Let_def split: if_splits option.splits sum.splits)

lemma on_time_cell_intent:
  "run_cell_intent E l sender ts ci sa d = Inr d' \<Longrightarrow> om_get (accounts l) sender = Some sa \<Longrightarrow> on_time l d d'"
  by (cases ci) (auto simp: run_cell_intent_def compute_propose_cell_upgrade_diff_def
      compute_propose_cell_ownership_transfer_diff_def compute_propose_cell_make_immutable_diff_def
      dest: on_time_calls on_time_deploys records_governance intro: on_time_same)

lemmas on_time_handlers = on_time_transfers on_time_batch on_time_nfts on_time_transfer_nft on_time_without_records
  on_time_cell_intent

lemma on_time_run_intent:
  assumes "run_intent E l tx sa d = Inr d'" and "om_get (accounts l) (tx_sender tx) = Some sa" and "handled (tx_intent tx)"
  shows "on_time l d d'"
  using assms
  by (cases "tx_intent tx") (auto simp: run_intent_def Let_def handled_def split: sum.splits
      intro: on_time_handlers on_time_update on_time_refl)

lemma transaction_timely:
  assumes "compute_transaction_diff v E l tx = Inr d" and "handled (tx_intent tx)"
  shows "timely l (account_updates d)"
proof -
  from assms(1) obtain sa bf h d1 where s: "om_get (accounts l) (tx_sender tx) = Some sa"
      "run_intent E l tx sa (diff_default\<lparr>nonce_updates := [(tx_sender tx, tx_nonce tx)], tx_hash := h\<rparr>) = Inr d1"
      "finish_diff E tx sa bf d1 = Inr d" by (rule compute_transaction_ok)
  from s(3) obtain d3 where d3: "account_updates d3 = account_updates d1" "d = keep_sender_key tx sa d3"
    by (rule finish_records)
  have "timely l (account_updates d1)"
    using on_time_run_intent [OF s(2,1) assms(2)] by (simp add: on_time_def timely_def diff_default_def)
  then show ?thesis
    using s(1) d3 by (auto simp: keep_sender_key_def put_account_def split: option.split simp: timely_intros)
qed

section \<open>Nonces along a merge\<close>

definition nonces_grow :: "ledger \<Rightarrow> ledger \<Rightarrow> bool" where
  "nonces_grow l l' \<longleftrightarrow> (accounts_ok l \<longrightarrow> accounts_ok l' \<and>
     (\<forall>i a. om_get (accounts l) i = Some a \<longrightarrow> (\<exists>a'. om_get (accounts l') i = Some a' \<and> acct_nonce a \<le> acct_nonce a')))"

interpretation nonces: ledger_relation nonces_grow
proof
  show "nonces_grow l l" for l by (simp add: nonces_grow_def)
  show "nonces_grow l l2" if "nonces_grow l l1" "nonces_grow l1 l2" for l l1 l2
    using that unfolding nonces_grow_def by (meson order_trans)
qed

lemma grow_nonces: "accounts_grow l l' \<Longrightarrow> nonces_grow l l'"
  unfolding accounts_grow_def nonces_grow_def grows_def by meson

lemma replace_nonces:
  assumes "timely l us"
  shows "nonces_grow l (fold replace_account us l)"
proof -
  have "accounts_ok l1 \<Longrightarrow> (\<forall>i b. om_get (accounts l) i = Some b \<longrightarrow> (\<exists>a. om_get (accounts l1) i = Some a \<and> acct_nonce b \<le> acct_nonce a))
    \<Longrightarrow> accounts_ok (fold replace_account us l1)
      \<and> (\<forall>i b. om_get (accounts l) i = Some b \<longrightarrow> (\<exists>a. om_get (accounts (fold replace_account us l1)) i = Some a \<and> acct_nonce b \<le> acct_nonce a))" for l1
    using assms
  proof (induction us arbitrary: l1)
    case (Cons u us)
    have "timely l us" "\<And>b. om_get (accounts l) (fst u) = Some b \<Longrightarrow> acct_nonce b \<le> acct_nonce (snd u)"
      using Cons.prems(3) by (auto simp: timely_def)
    then show ?case
      using Cons.IH [of "replace_account u l1"] Cons.prems(1,2)
      by (cases u) (auto simp: replace_account_def get_set_account)
  qed simp
  then show ?thesis by (auto simp: nonces_grow_def)
qed

lemma grow_merge_credit:
  "accounts_grow l (snd (merge_credit_native x l))" "accounts_grow l (snd (merge_credit_escrow x l))"
  by (cases x; auto simp: merge_credit_native_def merge_credit_escrow_def Let_def account_or_def grows_def split: option.split intro!: grow_set)+

definition merge_tail :: "('z) ledger_env_scheme \<Rightarrow> state_diff \<Rightarrow> (ledger \<Rightarrow> step_result) list" where
  "merge_tail E d = merge_front E d @ merge_money d @ merge_rest E d"

lemma grow_merge_tail: "accounts_grow l (snd (steps_in_order (merge_tail E d) l))"
proof (rule grow.rel_steps)
  fix f :: "ledger \<Rightarrow> step_result" and l assume "f \<in> set (merge_tail E d)"
  then show "accounts_grow l (snd (f l))"
    unfolding merge_tail_def merge_front_def merge_money_def merge_rest_def append.simps set_simps
    by (elim insertE emptyE; hypsubst; (intro grow.rel_always grow.rel_each grow.rel_fold)?)
       (simp_all add: grow_rules grow_merge_credit same_grow same_accounts_rules)
qed

lemma merge_diff_split:
  "merge_diff_inplace E d l = steps_in_order (merge_tail E d)
     (fold update_nonce (nonce_updates d) (fold replace_account (account_updates d) l))"
  by (simp add: merge_diff_inplace_def merge_steps_split merge_tail_def then_step_def always_def)

lemma grow_nonce_updates: "accounts_grow l (fold update_nonce ns l)"
  by (rule grow.rel_fold) (rule grow_update_nonce)

lemma merge_nonces:
  assumes "timely l (account_updates d)"
  shows "nonces_grow l (snd (merge_diff_inplace E d l))"
  unfolding merge_diff_split
  using replace_nonces [OF assms] grow_nonces [OF grow_nonce_updates] grow_nonces [OF grow_merge_tail] nonces.rel_trans by meson

section \<open>Records of a composed diff\<close>

definition all_timely :: "ledger \<Rightarrow> composed \<Rightarrow> bool" where
  "all_timely l c \<longleftrightarrow> timely l (account_updates (co_diff c))"

lemma timely_insert_fresh: "timely l es \<Longrightarrow> timely l m \<Longrightarrow> timely l (snd (insert_fresh es m))"
proof (induction es arbitrary: m)
  case (Cons e es)
  then have "timely l (om_put (fst e) (snd e) m)" by (intro timely_put) (auto simp: timely_def)
  then show ?case using Cons by (auto simp: Let_def timely_def)
qed simp

lemma timely_extend_checked:
  assumes "timely l (account_updates d)" and "all_timely l c" and "\<And>k. account_updates (post k) = account_updates k"
  shows "all_timely l (snd (extend_checked post d c))"
  using timely_insert_fresh [OF assms(1)] assms(2,3)
  by (auto simp: extend_checked_def all_timely_def fall_back_def Let_def split: prod.split) (metis snd_conv)+

lemma timely_compose_diffs:
  assumes "\<forall>d \<in> set ds. timely l (account_updates d)" and "all_timely l c"
  shows "all_timely l (compose_diffs E ds c)"
  using assms
proof (induction ds arbitrary: c)
  case (Cons d ds)
  have "all_timely l (snd (compose_diff E d c))"
    using Cons.prems by (auto simp: compose_diff_def all_timely_def extend_defs intro!: timely_extend_checked [unfolded all_timely_def])
  then show ?case using Cons by (auto split: prod.split)
qed simp

lemma timely_groups:
  assumes "\<forall>d \<in> set (diffs_of gs). timely l (account_updates d)" and "all_timely l c"
  shows "all_timely l (fold (compose_group E) gs c)"
  using assms
proof (induction gs arbitrary: c)
  case (Cons g gs)
  have "all_timely l (compose_group E g c)"
    using Cons.prems unfolding compose_group_def by (intro timely_compose_diffs) (auto simp: diffs_of_def all_timely_def)
  then show ?case using Cons by (simp add: diffs_of_def)
qed simp

lemma records_add_hashes [simp]: "account_updates (co_diff (fold (add_hash E) hs c)) = account_updates (co_diff c)"
  by (induction hs arbitrary: c) (simp_all add: add_hash_def)

lemma timely_reduce: "all_timely l c1 \<Longrightarrow> all_timely l c2 \<Longrightarrow> all_timely l (reduce_composed E c1 c2)"
  using timely_extend_checked [of l "co_diff c2" "(fold (add_hash E) (tx_hashes (co_diff c2)) (c1\<lparr>co_errors := co_errors c1 @ co_errors c2\<rparr>))
      \<lparr>co_diff := extend_commutative (co_diff c2) (co_diff (fold (add_hash E) (tx_hashes (co_diff c2)) (c1\<lparr>co_errors := co_errors c1 @ co_errors c2\<rparr>)))\<rparr>"
    "extend_rest (co_diff c2) \<circ> extend_cell_debits (co_diff c2)"]
  by (simp add: reduce_composed_def all_timely_def Let_def extend_defs)

lemma timely_compose_split:
  assumes "\<forall>d \<in> set (diffs_of (split_items t)). timely l (account_updates d)"
  shows "all_timely l (compose_split E t)"
proof -
  have new: "all_timely l composed_new" by (simp add: all_timely_def composed_new_def diff_default_def timely_def)
  show ?thesis
    using assms by (induction t) (simp_all add: timely_reduce timely_groups new)
qed

lemma parallel_nonces:
  assumes "\<forall>tx \<in> set txs. handled (tx_intent tx)" and "\<And>gs. split_items (sp gs) = gs"
    and "execute_batch_parallel E sp l txs = Inr r"
  shows "nonces_grow l (br_state r)"
proof -
  have sequential: "nonces_grow l (br_state (execute_sequential E l txs))"
    using grow_nonces [OF grow_run_sequential [of "\<lparr>br_state = l, br_failed = [], br_applied = 0, br_total_fees = 0\<rparr>"]]
    by (simp add: execute_sequential_def Let_def)
  have "execute_parallel E sp l txs = Inr r \<Longrightarrow> ?thesis"
  proof (erule execute_parallel_cases)
    fix c d assume c: "c = compose_split E (sp (map (run_group E l txs) (partition_by_compiler_domains (cst_cells (cells l)) txs)))"
      "compact_diff (co_diff c) = Inr d" "merge_diff_inplace E d l = (Inr (), br_state r)"
    let ?ps = "partition_by_compiler_domains (cst_cells (cells l)) txs"
    have m: "set (concat ?ps) = {..<length txs}"
      using placed_all [OF refl, of "cst_cells (cells l)" txs, folded place_all_txs_def partition_by_compiler_domains_def]
      by (metis atLeast_upt mset_eq_setD)
    have "timely l (account_updates e)" if "e \<in> set (diffs_of (map (run_group E l txs) ?ps))" for e
      using diffs_of_member [OF that] m assms(1) transaction_timely by (metis lessThan_iff nth_mem)
    then have "timely l (account_updates (co_diff c))"
      using timely_compose_split [of "sp (map (run_group E l txs) ?ps)" l E] by (simp add: assms(2) all_timely_def c(1))
    then show ?thesis
      using merge_nonces [of l d E] c(3) compact_diff_ok(1) [OF c(2)] by simp
  qed (simp add: sequential)
  then show ?thesis
    using assms(3) sequential by (auto simp: execute_batch_parallel_def nonces.rel_refl split: if_splits)
qed

section \<open>Nonces at the end of a block\<close>

lemma same_expire: "accounts (expire_request E rid l) = accounts l"
  using same_finalize [of E rid l]
  by (auto simp: expire_request_def Let_def simp del: same_finalize split: prod.split option.split)

lemma same_timeouts: "accounts (process_oracle_timeouts E h l) = accounts l"
  unfolding process_oracle_timeouts_def by (rule same_accounts.rel_fold) (rule same_expire)

lemma same_pruned: "accounts (prune_expired_oracle_results h l) = accounts l" "accounts (prune_state_collections h l) = accounts l"
  "accounts (advance_block_counters l) = accounts l"
  by (simp_all add: prune_expired_oracle_results_def prune_state_collections_def advance_block_counters_def)

lemma grow_emission_share: "accounts_grow l (pay_emission_share E pk share l)"
  by (auto simp: pay_emission_share_def Let_def account_or_def grows_def grow.rel_refl split: option.split intro!: grow_set)

lemma grow_pay_emission: "accounts_grow l (pay_emission E em tot es a l)"
  by (induction E em tot es a l rule: pay_emission.induct)
    (auto simp: grow.rel_refl grow_emission_share Let_def intro: grow_then [OF grow_emission_share])

lemma grow_epoch_emission:
  assumes "pay_epoch_emission E h l = Some l'"
  shows "accounts_grow l l'"
proof -
  have "accounts_grow l (l1\<lparr>accumulated_epoch_fees := 0, last_emission_epoch := e\<rparr>)" if "accounts_grow l l1" for l1 e
    using that same_grow [of "l1\<lparr>accumulated_epoch_fees := 0, last_emission_epoch := e\<rparr>" l1] grow_then by simp
  moreover have "accounts_grow l (pay_emission E em tot es a (on_cells g l))" for em tot es a g
    by (rule grow_then [OF same_grow grow_pay_emission]) simp
  ultimately show ?thesis
    using assms grow_pay_emission
    by (auto simp: pay_epoch_emission_def Let_def same_grow split: if_splits option.splits)
qed

lemma grow_maintenance:
  assumes "run_end_of_block_maintenance E h l = Some l'"
  shows "accounts_grow l l'"
proof -
  let ?l = "prune_state_collections h (prune_expired_oracle_results h (process_oracle_timeouts E h l))"
  have "accounts_grow l ?l" by (simp add: same_grow same_timeouts same_pruned)
  moreover have "accounts_grow ?l (distribute_gas_fees E ?l)"
    by (simp add: distribute_gas_fees_def grow_apply_diff grow.rel_refl)
  ultimately have "accounts_grow l (distribute_gas_fees E ?l)" by (rule grow_then)
  then show ?thesis
    using assms grow_then [OF _ grow_epoch_emission]
    by (auto simp: run_end_of_block_maintenance_def Let_def split: if_splits)
qed

section \<open>Histories\<close>

text \<open>
  What can happen to the state of a chain, one thing after another: a batch executed
  sequentially or in parallel, a block with its end, the end of a block alone, and a diff
  applied for the system.
\<close>

datatype 'o chain_event =
  Sequential "'o tx_env" "'o transaction list"
| Concurrent "'o tx_env" "group_result list \<Rightarrow> group_result work_split" "'o transaction list"
| Whole_Block "'o tx_env" "group_result list \<Rightarrow> group_result work_split" "'o transaction list"
| Block_Ended "'o tx_env" u64
| System_Diff "'o tx_env" state_diff

fun run_event :: "'o chain_event \<Rightarrow> ledger \<Rightarrow> ledger option" where
  "run_event (Sequential E txs) l = Some (br_state (execute_sequential E l txs))"
| "run_event (Concurrent E sp txs) l = (case execute_batch_parallel E sp l txs of Inr r \<Rightarrow> Some (br_state r) | Inl _ \<Rightarrow> None)"
| "run_event (Whole_Block E sp txs) l = (case execute_batch_with_results E sp l txs of Some (Inr r) \<Rightarrow> Some (br_state r) | _ \<Rightarrow> None)"
| "run_event (Block_Ended E h) l = run_end_of_block_maintenance E h l"
| "run_event (System_Diff E d) l = Some (snd (apply_diff E d l))"

primrec run_events :: "'o chain_event list \<Rightarrow> ledger \<Rightarrow> ledger option" where
  "run_events [] l = Some l"
| "run_events (e # es) l = (case run_event e l of None \<Rightarrow> None | Some l \<Rightarrow> run_events es l)"

text \<open>The work of a batch is split without losing or moving groups, and its intents have handlers here.\<close>

fun regular :: "'o chain_event \<Rightarrow> bool" where
  "regular (Concurrent E sp txs) \<longleftrightarrow> (\<forall>tx \<in> set txs. handled (tx_intent tx)) \<and> (\<forall>gs. split_items (sp gs) = gs)"
| "regular (Whole_Block E sp txs) \<longleftrightarrow> (\<forall>tx \<in> set txs. handled (tx_intent tx)) \<and> (\<forall>gs. split_items (sp gs) = gs)"
| "regular _ \<longleftrightarrow> True"

lemma event_nonces:
  assumes "run_event e l = Some l'" and "regular e"
  shows "nonces_grow l l'"
proof (cases e)
  case (Sequential E txs)
  then show ?thesis
    using assms(1) grow_nonces [OF grow_run_sequential [of "\<lparr>br_state = l, br_failed = [], br_applied = 0, br_total_fees = 0\<rparr>"]]
    by (auto simp: execute_sequential_def Let_def)
next
  case (Concurrent E sp txs)
  then show ?thesis
    using assms parallel_nonces [of txs sp E l] by (auto split: sum.splits)
next
  case (Whole_Block E sp txs)
  then obtain r where r: "execute_batch_parallel E sp l txs = Inr r"
      "run_end_of_block_maintenance E (current_height (staking (advance_block_counters (br_state r)))) (advance_block_counters (br_state r)) = Some l'"
    using assms(1) by (auto simp: execute_batch_with_results_def Let_def split: sum.splits option.splits)
  then show ?thesis
    using Whole_Block assms(2) parallel_nonces [of txs sp E l r]
      grow_nonces [OF same_grow [OF same_pruned(3)]] grow_nonces [OF grow_maintenance] nonces.rel_trans by (metis regular.simps(2))
qed (use assms(1) grow_nonces [OF grow_maintenance] grow_nonces [OF grow_apply_diff] in auto)

lemma history_nonces:
  "run_events es l = Some l' \<Longrightarrow> \<forall>e \<in> set es. regular e \<Longrightarrow> nonces_grow l l'"
proof (induction es arbitrary: l)
  case (Cons e es)
  then show ?case
    using event_nonces [of e l] nonces.rel_trans by (auto split: option.splits)
qed (simp add: nonces.rel_refl)

section \<open>Replays\<close>

text \<open>
  A transaction is applied on its own, as sequential execution does, or in the diff composed for
  a batch of transactions with different identifiers.
\<close>

inductive applied :: "'o tx_env \<Rightarrow> ledger \<Rightarrow> 'o transaction \<Rightarrow> ledger \<Rightarrow> bool" for E l tx where
  alone: "compute_transaction_diff v E l tx = Inr d \<Longrightarrow> handled (tx_intent tx) \<Longrightarrow> apply_diff E d l = (Inr (), l')
    \<Longrightarrow> applied E l tx l'"
| composed: "tx \<in> set txs \<Longrightarrow> compute_transaction_diff False E l tx = Inr d \<Longrightarrow> \<forall>t \<in> set txs. handled (tx_intent t)
    \<Longrightarrow> distinct (map (tx_id E) txs) \<Longrightarrow> split_items t = map (run_group E l txs) (partition_by_compiler_domains (cst_cells (cells l)) txs)
    \<Longrightarrow> \<not> falls_back (compose_split E t) \<Longrightarrow> compact_diff (co_diff (compose_split E t)) = Inr D
    \<Longrightarrow> merge_diff_inplace E D l = (Inr (), l') \<Longrightarrow> applied E l tx l'"

lemma nonce_updates_absorb_all: "set (nonce_updates (absorb_all ds k)) = (\<Union>d \<in> set ds. set (nonce_updates d)) \<union> set (nonce_updates k)"
  by (induction ds arbitrary: k) (auto simp: absorb_def extend_defs)

lemma raise_nonces:
  assumes "accounts_ok l" and "om_get (accounts l) i = Some a" and "(i, n) \<in> set ns"
  shows "\<exists>a'. om_get (accounts (fold update_nonce ns l)) i = Some a' \<and> n \<le> acct_nonce a'"
proof -
  obtain ms ks where ns: "ns = ms @ (i, n) # ks" using split_list [OF assms(3)] by blast
  let ?l = "fold update_nonce ms l"
  obtain b where b: "accounts_ok ?l" "om_get (accounts ?l) i = Some b"
    using grow_nonce_updates [of l ms] assms(1,2) unfolding accounts_grow_def by blast
  then have "\<exists>c. om_get (accounts (update_nonce (i, n) ?l)) i = Some c \<and> n \<le> acct_nonce c"
    by (auto simp: update_nonce_def get_set_account)
  moreover have "accounts_ok (update_nonce (i, n) ?l)"
    using b grow_update_nonce [of ?l "(i, n)"] by (simp add: accounts_grow_def)
  ultimately show ?thesis
    using grow_nonce_updates [of "update_nonce (i, n) ?l" ks] unfolding ns accounts_grow_def grows_def
    by (simp add: fold_append) (meson order_trans)
qed

lemma composed_nonces:
  assumes "tx \<in> set txs" and "compute_transaction_diff False E l tx = Inr d" and "\<forall>t \<in> set txs. handled (tx_intent t)"
    and "distinct (map (tx_id E) txs)" and "split_items t = map (run_group E l txs) (partition_by_compiler_domains (cst_cells (cells l)) txs)"
    and "\<not> falls_back (compose_split E t)"
  shows "(tx_sender tx, tx_nonce tx) \<in> set (nonce_updates (co_diff (compose_split E t)))"
    and "timely l (account_updates (co_diff (compose_split E t)))"
proof -
  let ?ps = "partition_by_compiler_domains (cst_cells (cells l)) txs"
  have m: "mset (concat ?ps) = mset [0..<length txs]"
    using placed_all [OF refl, of "cst_cells (cells l)" txs, folded place_all_txs_def partition_by_compiler_domains_def] by simp
  then have ix: "distinct (concat ?ps)" "set (concat ?ps) = {..<length txs}"
    using mset_eq_imp_distinct_iff [OF m] mset_eq_setD [OF m] by auto
  have "well_formed (split_items t)"
    using groups_well_formed [OF assms(3,4) ix(1)] ix(2) by (simp add: assms(5))
  then have c: "compose_split E t = composed_of (split_items t)"
    using compose_split_spec [of t E] assms(6) by (auto split: if_splits)
  obtain n where "n < length txs" "txs ! n = tx" using assms(1) by (auto simp: in_set_conv_nth)
  then have "d \<in> set (diffs_of (split_items t))"
    using ix(2) assms(2) unfolding assms(5) diffs_of_groups by (force simp: diff_list_def)
  moreover have "nonce_updates d = [(tx_sender tx, tx_nonce tx)]"
    using transaction_nonce(1) [OF assms(2)] assms(1,3) by blast
  ultimately show "(tx_sender tx, tx_nonce tx) \<in> set (nonce_updates (co_diff (compose_split E t)))"
    unfolding c composed_of_def by (force simp: nonce_updates_absorb_all)
  have "timely l (account_updates e)" if "e \<in> set (diffs_of (split_items t))" for e
    using diffs_of_member [of e E l txs ?ps] that ix(2) assms(3) transaction_timely unfolding assms(5) by (metis lessThan_iff nth_mem)
  then show "timely l (account_updates (co_diff (compose_split E t)))"
    using timely_compose_split [of t l E] by (simp add: all_timely_def)
qed

lemma applied_nonce:
  assumes "applied E l tx l'" and "accounts_ok l"
  shows "accounts_ok l' \<and> (\<exists>a. om_get (accounts l') (tx_sender tx) = Some a \<and> tx_nonce tx \<le> acct_nonce a)"
  using assms(1)
proof cases
  case (alone v d)
  note n = transaction_nonce [OF alone(1,2)]
  obtain a where "om_get (accounts l) (tx_sender tx) = Some a" using n(2) by blast
  then show ?thesis
    using apply_diff_nonce [OF assms(2) n(1) _ alone(3)] grow_apply_diff [of l E d] assms(2) alone(3) by (simp add: accounts_grow_def)
next
  case (composed txs d t D)
  note c = composed_nonces [OF composed(1-6)]
  have h: "handled (tx_intent tx)" using composed(1,3) by blast
  obtain a where a: "om_get (accounts l) (tx_sender tx) = Some a" using transaction_nonce(2) [OF composed(2) h] by blast
  have D: "account_updates D = account_updates (co_diff (compose_split E t))" "nonce_updates D = nonce_updates (co_diff (compose_split E t))"
    using composed(7) by (auto simp: compact_diff_def bind_sum_def Let_def split: sum.splits)
  let ?l1 = "fold replace_account (account_updates D) l"
  let ?l2 = "fold update_nonce (nonce_updates D) ?l1"
  obtain a1 where a1: "accounts_ok ?l1" "om_get (accounts ?l1) (tx_sender tx) = Some a1"
    using replace_nonces [OF c(2)] assms(2) a unfolding D(1) nonces_grow_def by blast
  obtain a2 where a2: "om_get (accounts ?l2) (tx_sender tx) = Some a2" "tx_nonce tx \<le> acct_nonce a2"
    using raise_nonces [OF a1] c(1) D(2) by metis
  have "accounts_ok ?l2" using grow_nonce_updates [of ?l1 "nonce_updates D"] a1(1) by (simp add: accounts_grow_def)
  moreover have "accounts_grow ?l2 l'" using grow_merge_tail [of ?l2 E D] composed(8) by (simp add: merge_diff_split)
  ultimately show ?thesis using a2 unfolding accounts_grow_def grows_def by (meson order_trans)
qed

text \<open>
  C5. Replays are refused. Once a transaction has been applied, on its own by sequential
  execution or composed into the diff of a parallel batch, no transaction of the same sender
  with the same or an older nonce is accepted again, whatever happens in between: any
  sequence of batches executed sequentially or in parallel, whole blocks, ends of blocks and
  system diffs. Two exceptions are excluded: the last nonce of 64 bits, where the next expected
  nonce is the same one, and the intents of the agent layer, which are not modelled (the
  applied transaction and the transactions of parallel batches are none of them).
\<close>

theorem replay_rejected:
  assumes "accounts_ok l" and "applied E l tx l1" and "run_events es l1 = Some l2" and "\<forall>e \<in> set es. regular e"
    and "tx_sender tx' = tx_sender tx" and "tx_nonce tx' \<le> tx_nonce tx" and "tx_nonce tx' \<noteq> - 1"
  shows "\<exists>e. compute_transaction_diff v' E' l2 tx' = Inl e"
proof -
  obtain a1 where "accounts_ok l1" "om_get (accounts l1) (tx_sender tx) = Some a1" "tx_nonce tx \<le> acct_nonce a1"
    using applied_nonce [OF assms(2,1)] by blast
  moreover have "nonces_grow l1 l2" by (rule history_nonces [OF assms(3,4)])
  ultimately obtain a2 where "om_get (accounts l2) (tx_sender tx) = Some a2" "tx_nonce tx \<le> acct_nonce a2"
    unfolding nonces_grow_def by (meson order_trans)
  then show ?thesis using stale_nonce_rejected [of l2 tx' a2 v' E'] assms(5-7) by simp
qed

section \<open>Key rotation\<close>

lemma merged_record:
  assumes "accounts_ok l" and "om_inv (account_updates d)" and "om_get (account_updates d) i = Some a" and "pubkey_bytes a \<noteq> []"
    and "merge_diff_inplace E d l = (Inr (), l')"
  shows "\<exists>a'. om_get (accounts l') i = Some a' \<and> pubkey_bytes a' = pubkey_bytes a"
proof -
  let ?l1 = "fold replace_account (account_updates d) l"
  have "accounts_ok k \<Longrightarrow> om_inv us \<Longrightarrow> accounts_ok (fold replace_account us k)
      \<and> om_get (accounts (fold replace_account us k)) i = (case om_get us i of Some a \<Rightarrow> Some a | None \<Rightarrow> om_get (accounts k) i)" for us k
  proof (induction us arbitrary: k)
    case (Cons u us)
    have "om_inv us" "om_get us (fst u) = None" using Cons.prems(2) by (auto simp: om_inv_def om_get_None)
    then show ?case
      using Cons.IH [of "replace_account u k"] Cons.prems(1)
      by (cases u) (auto simp: replace_account_def get_set_account om_get_Cons split: option.split)
  qed (simp add: om_get_def)
  then have l1: "accounts_ok ?l1" "om_get (accounts ?l1) i = Some a" using assms(1-3) by simp_all
  have "accounts_grow ?l1 l'"
    using grow_then [OF grow_nonce_updates [of ?l1 "nonce_updates d"] grow_merge_tail [of _ E d]] assms(5) by (simp add: merge_diff_split)
  then show ?thesis using l1 assms(4) unfolding accounts_grow_def grows_def by blast
qed

lemma rotation_record:
  assumes "compute_transaction_diff v E l tx = Inr d" and "tx_intent tx = RotateKey pk"
  shows "\<exists>a. om_get (account_updates d) (tx_sender tx) = Some a \<and> pubkey_bytes a = pk" and "length pk = 1952"
proof -
  from assms(1) obtain sa bf h d1 where s: "om_get (accounts l) (tx_sender tx) = Some sa"
      "run_intent E l tx sa (diff_default\<lparr>nonce_updates := [(tx_sender tx, tx_nonce tx)], tx_hash := h\<rparr>) = Inr d1"
      "finish_diff E tx sa bf d1 = Inr d" by (rule compute_transaction_ok)
  from s(3) obtain d3 where d3: "account_updates d3 = account_updates d1" "d = keep_sender_key tx sa d3"
    by (rule finish_records)
  have pk: "length pk = 1952" and "\<exists>a. account_updates d1 = [(tx_sender tx, a)] \<and> pubkey_bytes a = pk"
    using s(2) by (auto simp: run_intent_def assms(2) compute_rotate_key_diff_def Let_def put_account_def diff_default_def om_get_def split: if_splits)
  then obtain a where "account_updates d1 = [(tx_sender tx, a)]" "pubkey_bytes a = pk" by blast
  then show "\<exists>a. om_get (account_updates d) (tx_sender tx) = Some a \<and> pubkey_bytes a = pk"
    using pk by (auto simp: d3 keep_sender_key_def put_account_def om_get_def)
  show "length pk = 1952" by (rule pk)
qed

text \<open>
  C33. The two paths of execution disagree on key rotation. Applying the diff of an accepted
  rotation leaves the sender its old key, while merging the same diff as a parallel batch does
  replaces the key by the new one.
\<close>

theorem rotation_paths_disagree:
  assumes "accounts_ok l" and "compute_transaction_diff v E l tx = Inr d" and "tx_intent tx = RotateKey pk"
    and "om_get (accounts l) (tx_sender tx) = Some a" and "pubkey_bytes a \<noteq> []"
    and "apply_diff E d l = (Inr (), l1)" and "merge_diff_inplace E d l = (Inr (), l2)"
  shows "map_option pubkey_bytes (om_get (accounts l1) (tx_sender tx)) = Some (pubkey_bytes a)
    \<and> map_option pubkey_bytes (om_get (accounts l2) (tx_sender tx)) = Some pk"
proof (intro conjI)
  show "map_option pubkey_bytes (om_get (accounts l1) (tx_sender tx)) = Some (pubkey_bytes a)"
    using grow_apply_diff [of l E d] assms(1,4-6) unfolding accounts_grow_def grows_def by fastforce
  have "wf_diff d" using transaction_diff_ok(1) [OF assms(2)] by (simp add: assms(3) handled_def)
  moreover obtain b where "om_get (account_updates d) (tx_sender tx) = Some b" "pubkey_bytes b = pk" "pk \<noteq> []"
    using rotation_record [OF assms(2,3)] by fastforce
  ultimately show "map_option pubkey_bytes (om_get (accounts l2) (tx_sender tx)) = Some pk"
    using merged_record [OF assms(1) _ _ _ assms(7), of "tx_sender tx" b] by (auto simp: wf_diff_def)
qed

section \<open>Witnesses\<close>

theorem replay_rejected_witness:
  "\<exists>l1 l2 e. applied batch_chain demo_ledger (plain_transfer 1 2) l1
     \<and> run_events [Block_Ended batch_chain 1, Sequential batch_chain batch_of_eight, Concurrent batch_chain one_chunk [plain_transfer 1 2]] l1 = Some l2
     \<and> compute_transaction_diff True batch_chain l2 (plain_transfer 1 2) = Inl e"
proof -
  let ?es = "[Block_Ended batch_chain 1, Sequential batch_chain batch_of_eight, Concurrent batch_chain one_chunk [plain_transfer 1 2]]"
  let ?t = "one_chunk (map (run_group batch_chain demo_ledger batch_of_eight)
    (partition_by_compiler_domains (cst_cells (cells demo_ledger)) batch_of_eight))"
  obtain d l1 where d: "compact_diff (co_diff demo_composed) = Inr d" "merge_diff_inplace batch_chain d demo_ledger = (Inr (), l1)"
    using demo_merged by blast
  have t: "compose_split batch_chain ?t = demo_composed" by (rule batch_composed) simp
  have a: "applied batch_chain demo_ledger (plain_transfer 1 2) l1"
  proof (rule applied.composed [OF _ demo_diffs(1) batch_handled(1) ids_distinct])
    show "plain_transfer 1 2 \<in> set batch_of_eight" by (simp add: batch_of_eight_def)
    show "split_items ?t = map (run_group batch_chain demo_ledger batch_of_eight)
      (partition_by_compiler_domains (cst_cells (cells demo_ledger)) batch_of_eight)" by simp
    show "\<not> falls_back (compose_split batch_chain ?t)" "compact_diff (co_diff (compose_split batch_chain ?t)) = Inr d"
      unfolding t by (rule demo_goes_on, rule d(1))
  qed (rule d(2))
  obtain l2 where l2: "run_events ?es l1 = Some l2"
    by (simp add: run_end_of_block_maintenance_def EMISSION_EPOCH_BLOCKS_def execute_batch_parallel_def Let_def)
  have "\<forall>e \<in> set ?es. regular e" by (simp add: plain_transfer_def handled_def)
  from replay_rejected [OF demo_accounts_ok a l2 this, of "plain_transfer 1 2" True batch_chain]
  have "\<exists>e. compute_transaction_diff True batch_chain l2 (plain_transfer 1 2) = Inl e" by (simp add: plain_transfer_def)
  with a l2 show ?thesis by blast
qed

theorem rotation_paths_disagree_witness:
  "\<exists>d l1 l2. apply_diff demo_chain d demo_ledger = (Inr (), l1) \<and> merge_diff_inplace demo_chain d demo_ledger = (Inr (), l2)
     \<and> map_option pubkey_bytes (om_get (accounts l1) [1]) = Some [1]
     \<and> map_option pubkey_bytes (om_get (accounts l2) [1]) = Some (zeros 1952)"
proof -
  let ?tx = "demo_tx (RotateKey (zeros 1952))"
  have "\<exists>d. compute_transaction_diff False demo_chain demo_ledger ?tx = Inr d \<and> fst (apply_diff demo_chain d demo_ledger) = Inr ()
      \<and> fst (merge_diff_inplace demo_chain d demo_ledger) = Inr ()"
    by (simp add: demo_eval demo_apply compute_rotate_key_diff_def merge_diff_inplace_def merge_steps_def steps_in_order_def
        replace_account_def merge_credit_native_def merge_fees_def merge_hashes_def named_account_def)
  then obtain d l1 l2 where d: "compute_transaction_diff False demo_chain demo_ledger ?tx = Inr d"
      "apply_diff demo_chain d demo_ledger = (Inr (), l1)" "merge_diff_inplace demo_chain d demo_ledger = (Inr (), l2)"
    by (metis prod.collapse)
  have i: "tx_intent ?tx = RotateKey (zeros 1952)" "tx_sender ?tx = [1]" "om_get (accounts demo_ledger) [1] = Some (demo_account 1)"
      "pubkey_bytes (demo_account 1) = [1]"
    by (simp_all add: demo_tx_def demo_ledger_def demo_account_def om_get_def)
  then show ?thesis
    using rotation_paths_disagree [OF demo_accounts_ok d(1) i(1) _ _ d(2,3)] d(2,3) by (intro exI [of _ d]) auto
qed
end
