(* ===== verification/Spec2Isabelle.thy ===== *)
theory Spec2Isabelle
  imports Arithmetic Instructions VM_Safety Axiom_Host Round_State Machine_Code Block_Props Chain
begin

text \<open>
  A verification development of the TruthLinked node: a BFT blockchain whose programs,
  the cells, run on the Axiom virtual machine. A cell is written with the SDK, compiled to
  Axiom byte code, deployed with a manifest of the storage it touches, and called by
  transactions; transactions are ordered by a stake-weighted BFT protocol, each is turned
  into a diff, and diffs are applied to the chain state. Validators stake currency, are
  slashed for misbehaviour and answer the oracle requests of cells.

  \<^bold>\<open>The program's parts and their theories.\<close> All paths are under \<^verbatim>\<open>src/crates\<close>.

  \<^item> \<^verbatim>\<open>Prelude\<close>: Rust's machine integers (\<^verbatim>\<open>checked_*\<close>, \<^verbatim>\<open>saturating_*\<close>, \<^verbatim>\<open>overflowing_*\<close>), byte
    arrays and little-endian coding, with the lemmas all components share.
  \<^item> \<^verbatim>\<open>Ordered_Map\<close>: maps as sorted association lists; the locale \<^verbatim>\<open>weighted_map\<close> is the contract
    the clients rely on, sums over all values included.
  \<^item> \<^verbatim>\<open>U256\<close>, \<^verbatim>\<open>Arithmetic\<close>: the 256-bit limb arithmetic of \<^verbatim>\<open>truthlinked-axiom/src/vm.rs\<close>.
  \<^item> \<^verbatim>\<open>Axiom_Types\<close>, \<^verbatim>\<open>Instructions\<close>: opcodes, gas table and errors (\<^verbatim>\<open>opcode.rs\<close>, \<^verbatim>\<open>gas.rs\<close>,
    \<^verbatim>\<open>error.rs\<close>) and the host interface (\<^verbatim>\<open>host.rs\<close>).
  \<^item> \<^verbatim>\<open>Bytecode\<close>: the container format (\<^verbatim>\<open>bytecode.rs\<close>).
  \<^item> \<^verbatim>\<open>VM_State\<close>, \<^verbatim>\<open>VM\<close>, \<^verbatim>\<open>VM_Safety\<close>: the interpreter (\<^verbatim>\<open>vm.rs\<close>), one definition per instruction,
    over an arbitrary host; the locale of well-behaved hosts and what every run then keeps.
  \<^item> \<^verbatim>\<open>Axiom_Host\<close>: the host of the node, \<^verbatim>\<open>truthlinked-state/src/vm/axiom_runtime.rs\<close>, with calls
    between cells; it interprets the host locale.
  \<^item> \<^verbatim>\<open>Ir\<close>, \<^verbatim>\<open>Regalloc\<close>, \<^verbatim>\<open>Builder\<close>, \<^verbatim>\<open>Codegen\<close>, \<^verbatim>\<open>Machine_Code\<close>: the SDK back end
    (\<^verbatim>\<open>truthlinked-sdk/src/\<close>: \<^verbatim>\<open>ir.rs\<close>, \<^verbatim>\<open>regalloc.rs\<close>, \<^verbatim>\<open>builder.rs\<close>, \<^verbatim>\<open>codegen.rs\<close>) and how the
    machine runs what it emits.
  \<^item> \<^verbatim>\<open>Manifest\<close>, \<^verbatim>\<open>Manifest_Props\<close>: the static analyser of cells and the manifest check
    (\<^verbatim>\<open>truthlinked-core/src/cells.rs\<close>).
  \<^item> \<^verbatim>\<open>Cells\<close>: the cell table (\<^verbatim>\<open>truthlinked-runtime/src/cells.rs\<close>) and the token executor
    (\<^verbatim>\<open>truthlinked-state/src/cells.rs\<close>).
  \<^item> \<^verbatim>\<open>Staking\<close>: \<^verbatim>\<open>truthlinked-staking/src/lib.rs\<close>. \<^verbatim>\<open>Oracle\<close>: the tally and the URL policy of
    \<^verbatim>\<open>truthlinked-oracle/src/http_oracle.rs\<close>.
  \<^item> \<^verbatim>\<open>Round_State\<close>: the BFT rounds (\<^verbatim>\<open>truthlinked-consensus/src/round_state.rs\<close>) and the vote
    handlers and the consensus task of \<^verbatim>\<open>streaming_consensus.rs\<close>, as a transition relation.
  \<^item> \<^verbatim>\<open>Ledger_State\<close>, \<^verbatim>\<open>Ledger\<close>: the chain state and \<^verbatim>\<open>State::apply_diff\<close>
    (\<^verbatim>\<open>truthlinked-state/src/pq_execution.rs\<close>, records of \<^verbatim>\<open>truthlinked-runtime/src/types.rs\<close>).
  \<^item> \<^verbatim>\<open>Params\<close>: the governance parameters with their tables and genesis values
    (\<^verbatim>\<open>truthlinked-governance/src/params.rs\<close>).
  \<^item> \<^verbatim>\<open>System_Cells\<close>, \<^verbatim>\<open>System_Cells_Props\<close>: the native cells for staking, parameters, treasury and
    names (\<^verbatim>\<open>truthlinked-state/src/system_cells.rs\<close>), their storage slots, and the abstract table
    of locks that the staking cell implements.
  \<^item> \<^verbatim>\<open>Cell_Intents\<close>: the handlers of the intents that deploy, call, upgrade, close and govern
    cells, and the call chains of \<^verbatim>\<open>truthlinked-state/src/cells.rs\<close>.
  \<^item> \<^verbatim>\<open>Transactions\<close>, \<^verbatim>\<open>Execution\<close>: from a transaction to its diff
    (\<^verbatim>\<open>compute_transaction_diff_internal\<close> and the handlers of the same file), admission, and
    \<^verbatim>\<open>execute_sequential\<close> of \<^verbatim>\<open>parallel_executor.rs\<close>.
  \<^item> \<^verbatim>\<open>Ledger_Props\<close>, \<^verbatim>\<open>Accounting\<close>: the properties of the chain state. The locale
    \<^verbatim>\<open>ledger_flow\<close> is the contract of a step that moves an amount, \<^verbatim>\<open>ledger_relation\<close> that of a
    relation every step respects; both are interpreted on the steps of \<^verbatim>\<open>apply_diff\<close>.
  \<^item> \<^verbatim>\<open>Cell_Props\<close>: the cell intents as whole transactions, from the intent to the applied diff.
  \<^item> \<^verbatim>\<open>Scheduler\<close>: conflict domains and the partition of a batch
    (\<^verbatim>\<open>truthlinked-runtime/src/compiler_aware.rs\<close>). \<^verbatim>\<open>Parallel\<close>: \<^verbatim>\<open>execute_batch_parallel\<close> and
    \<^verbatim>\<open>merge_diff_inplace\<close> (\<^verbatim>\<open>truthlinked-state/src/parallel_executor.rs\<close>). \<^verbatim>\<open>Parallel_Props\<close>: the
    result does not depend on how the work is split. \<^verbatim>\<open>Parallel_Paths\<close>: what the parallel path
    does to the state, compared with the sequential one.
  \<^item> \<^verbatim>\<open>Block_End\<close>, \<^verbatim>\<open>Block_Props\<close>: the end of a block in \<^verbatim>\<open>pq_execution.rs\<close>, with timeouts, pruning,
    the distribution of fees and emission, and the execution of a whole block
    (\<^verbatim>\<open>execute_batch_with_results\<close> of \<^verbatim>\<open>streaming_consensus.rs\<close>).
  \<^item> \<^verbatim>\<open>Chain\<close>: histories of the chain state, in which batches on either path, whole blocks, ends of
    blocks and system diffs follow each other in any order.

  \<^bold>\<open>How state and operations correspond.\<close> A struct is a record with its fields, an enum a
  datatype with its variants, and every function of the source is one definition with its
  guards in the order of the source. A function with \<^verbatim>\<open>&mut self\<close> takes and returns the
  state; where it can fail half-way, the state it leaves behind is returned with the error
  (\<^verbatim>\<open>apply_diff\<close>, \<^verbatim>\<open>stake\<close>). Errors carry the text of the source. Integers keep their width:
  plain \<^verbatim>\<open>+\<close> and \<^verbatim>\<open>*\<close> wrap, as in the release profile. Maps that are only looked up or
  iterated in an order that cannot be observed are ordered maps; where the order of a hash
  map can be observed (register allocation, the oracle tally), it is an argument.

  \<^bold>\<open>What the lemmas show.\<close> Arithmetic is exact or reports overflow, and the operands on which
  each routine reports it, those of the fast paths included, are pinned exactly. Decoding
  accepts exactly the encodings within the limits. Every run of a cell ends, within its gas,
  without a panic and without privileged effects, and its storage diff replays to the
  storage it leaves. The manifest check accepts cells that write undeclared slots. Emitted
  code is that of a two-pass assembler, and the machine never leaves its instruction
  boundaries. Register allocation keeps apart the registers named in the definition and use
  lists of the instructions, in the order of the text; what these lists omit (the token
  operand of mint and burn, the success flag that calls and oracle reads write to physical
  register 1) and backward jumps are outside this guarantee, and a loop that loses a value
  is exhibited. Slashing conserves stake and redistributes fairly; the accounting of
  unbonding is exact up to one stated leak. Quorum queries answer exactly when the votes
  carry the threshold, two conflicting quorums expose a third of the stake, and a recorded
  vote was signed by a validator active when it arrived. A published price is the weighted
  median of committed reveals, and the body an oracle request is finalised with depends on
  no order of a hash map.

  Transactions of the tracked intents conserve the currency held by accounts and move exactly
  their amounts; no transaction is accepted again after any history of the chain; diffs are
  not atomic. Keys of existing accounts do not change when transactions are executed one
  after another, but do when a rotation is merged from a parallel batch. The treasury pays a
  proposal only with its votes, and at most once over calls executed one after another; the
  calls of a parallel batch all read the storage before the batch and are not covered. Locks
  implement their abstract table; genesis sets every parameter within its range, but an
  approved proposal changes any parameter without validation; staking through the staking
  cell costs nothing, and a deployment creates the currency it gives to its cell. The
  scheduler never groups conflicting transactions, and a parallel batch has one result,
  however its work is split; parallel transfers move exactly their amounts, but the parallel
  path drops parameter changes, and what a deployment costs depends on the path. Revenue is
  distributed without loss, gas fees up to one unit per active validator. Emission moves
  exactly the amount due from the treasury to the active validators, and destroys it when
  there is none; the yearly amount is exact for six years, zero from year 22, and from year
  32 its division is by zero. The end of a block bounds every collection of the state.

  \<^bold>\<open>Bounds and fuel.\<close> The machine's loop is a terminating function, because every
  instruction that continues has paid gas. Calls between cells are run by levels: a level
  calls the level below, and the depth limit of the host is far below the number of levels
  provided, so that the lowest level is never reached; no theorem is conditional on fuel.

  \<^bold>\<open>Arguments of the model.\<close> Hash functions (SHA-256, BLAKE3), ML-DSA signatures,
  serialisation (\<^verbatim>\<open>postcard\<close>), JSON and number formats of oracle responses, the cached
  governance parameters, the process-wide height and genesis hash, hash map orders where they can be
  observed, the split of a parallel batch among threads, and the handlers of the intents without a model are arguments of the
  definitions; no theorem assumes anything of them that is not stated as a hypothesis.

  \<^bold>\<open>Not modelled.\<close> Networking, storage engines, RPC and command-line front ends, because
  they are input and output; the compilers from source text to the SDK's intermediate
  representation, the private-balance cryptography and the agent layer; in consensus, batching, attestation, view changes and synchronisation.
\<close>

end
